(* ===== verification/Prelude.thy ===== *)
theory Prelude
  imports Main "HOL-Library.Word" "HOL-Library.Multiset"
begin

section \<open>Prelude: machine types, error codes, shared lemmas\<close>

text \<open>
  The types every component shares. A \<open>uintN_t\<close> of the sources is an \<open>N word\<close>; a
  \<open>size_t\<close> is a \<open>64 word\<close> where its overflow can be observed and a \<open>nat\<close> where it
  counts elements of a container in memory; a byte buffer is a list of bytes. The
  enumeration \<open>errc\<close> holds the \<open>std::errc\<close> values the sources name.

  The theorem collections \<open>wire_simps\<close>, \<open>queue_simps\<close>, \<open>session_simps\<close> and
  \<open>stream_simps\<close> gather the rewrite rules the component theories pass to the simplifier.
\<close>

named_theorems wire_simps \<open>lengths and round trips of byte encodings\<close>
named_theorems queue_simps \<open>effects of the task queue operations on its fields\<close>
named_theorems session_simps \<open>effects of session helpers on session fields\<close>
named_theorems stream_simps \<open>byte stream transfer rules\<close>

type_synonym byte = "8 word"
type_synonym u16 = "16 word"
type_synonym u32 = "32 word"
type_synonym u64 = "64 word"
type_synonym bytes = "byte list"

subsection \<open>The error conditions of \<open>std::errc\<close> the code uses\<close>

datatype errc =
    address_in_use | address_not_available | already_connected
  | bad_file_descriptor | connection_aborted | connection_refused | connection_reset
  | function_not_supported | host_unreachable | invalid_argument | io_error
  | message_size | network_unreachable | no_buffer_space | not_connected
  | not_enough_memory | operation_in_progress | operation_not_supported
  | protocol_error | protocol_not_supported | resource_unavailable_try_again | timed_out

text \<open>
  The exceptions that cross component boundaries: \<open>std::system_error\<close> carries an error
  code, the other standard exceptions only a message.
\<close>

datatype exn = system_error errc | runtime_error | invalid_argument_error | length_error

type_synonym 'a result = "exn + 'a"

subsection \<open>Little-endian byte layout of machine words\<close>

text \<open>
  The wire structs are sent as the bytes of their in-memory representation. On the
  supported hosts (x86-64 and AArch64) this is the little-endian layout.
\<close>

primrec le_bytes :: "nat \<Rightarrow> 'a::len word \<Rightarrow> bytes" where
  "le_bytes 0 w = []"
| "le_bytes (Suc n) w = ucast w # le_bytes n (drop_bit 8 w)"

primrec le_word :: "bytes \<Rightarrow> 'a::len word" where
  "le_word [] = 0"
| "le_word (b # bs) = or (ucast b) (push_bit 8 (le_word bs))"

lemma length_le_bytes [simp, wire_simps]: "length (le_bytes n w) = n"
  by (induction n arbitrary: w) auto

lemma le_word_le_bytes_take: "le_word (le_bytes n w) = (take_bit (8 * n) w :: 'a::len word)"
proof (induction n arbitrary: w)
  case 0
  then show ?case by simp
next
  case (Suc n)
  have "le_word (le_bytes (Suc n) w) =
      or (ucast (ucast w :: byte)) (push_bit 8 (take_bit (8 * n) (drop_bit 8 w)))"
    by (simp add: Suc.IH)
  also have "\<dots> = take_bit (8 * Suc n) w"
    by (rule bit_word_eqI) (auto simp: bit_simps)
  finally show ?case .
qed

lemma le_word_le_bytes [simp, wire_simps]:
  "LENGTH('a::len) \<le> 8 * n \<Longrightarrow> le_word (le_bytes n w) = (w :: 'a word)"
  by (simp add: le_word_le_bytes_take take_bit_word_eq_self)

lemma ucast_le_word_Cons:
  "8 \<le> LENGTH('a::len) \<Longrightarrow> (ucast (le_word (b # bs) :: 'a word) :: byte) = b"
  by (rule bit_word_eqI) (auto simp: bit_simps)

lemma bit_le_word_bound:
  "bit (le_word bs :: 'a::len word) n \<Longrightarrow> n < 8 * length bs"
proof (induction bs arbitrary: n)
  case Nil
  then show ?case by simp
next
  case (Cons b bs)
  show ?case
  proof (cases "n < 8")
    case True
    then show ?thesis by simp
  next
    case False
    then have "bit (le_word bs :: 'a word) (n - 8)"
      using Cons.prems by (auto simp: bit_simps dest: bit_imp_le_length)
    from Cons.IH [OF this] show ?thesis using False by simp
  qed
qed

lemma drop_le_word_Cons:
  assumes "8 * Suc (length bs) \<le> LENGTH('a::len)"
  shows "drop_bit 8 (le_word (b # bs) :: 'a word) = le_word bs"
proof (rule bit_word_eqI)
  fix n
  assume "n < LENGTH('a)"
  have "8 + n < LENGTH('a)" if "bit (le_word bs :: 'a word) n"
    using bit_le_word_bound [OF that] assms by simp
  then show "bit (drop_bit 8 (le_word (b # bs) :: 'a word)) n = bit (le_word bs :: 'a word) n"
    by (auto simp: bit_simps dest: bit_imp_le_length)
qed

lemma le_bytes_le_word [wire_simps]:
  "length bs = n \<Longrightarrow> 8 * n \<le> LENGTH('a::len) \<Longrightarrow> le_bytes n (le_word bs :: 'a word) = bs"
proof (induction bs arbitrary: n)
  case Nil
  then show ?case by simp
next
  case (Cons b bs)
  then obtain m where m: "n = Suc m" "length bs = m" by (cases n) auto
  have "8 \<le> LENGTH('a)" using Cons.prems m by simp
  moreover have "drop_bit 8 (le_word (b # bs) :: 'a word) = le_word bs"
    using Cons.prems m by (intro drop_le_word_Cons) simp
  moreover have "le_bytes m (le_word bs :: 'a word) = bs"
    using Cons.IH [of m] Cons.prems m by simp
  ultimately show ?case
    using m ucast_le_word_Cons [where 'a = 'a, of b bs] by simp
qed

subsection \<open>Characters\<close>

text \<open>\<open>std::isspace\<close> in the C locale.\<close>

definition is_space :: "char \<Rightarrow> bool" where
  "is_space c \<longleftrightarrow> c = CHR '' '' \<or> (9 \<le> (of_char c :: nat) \<and> (of_char c :: nat) \<le> 13)"

text \<open>\<open>std::to_string\<close> of an unsigned number.\<close>

fun to_string :: "nat \<Rightarrow> string" where
  "to_string n = (if n < 10 then [char_of (48 + n)] else to_string (n div 10) @ [char_of (48 + n mod 10)])"

declare to_string.simps [simp del]

end
