(* ===== verification/Wire.thy ===== *)
theory Wire
  imports Prelude
begin

section \<open>Wire structures of the dispatcher/worker protocol\<close>

text \<open>
  \<open>TaskHeader\<close> (message/TaskMessage.hpp) and \<open>WorkerGreeting\<close>
  (message/WorkerGreeting.hpp) with the byte layout their \<open>static_assert\<close>s fix: twelve
  bytes with fields at offsets 0, 4 and 8, and sixteen bytes with fields at offsets 0, 4
  and 8. The code sends \<open>reinterpret_cast\<close>ed structs and reads bytes back over a struct,
  which is \<open>header_to_bytes\<close> and \<open>header_of_bytes\<close> here. The locale \<open>wire_codec\<close> is the
  interface the readers and writers rely on; both structs are instances.
\<close>

subsection \<open>The structs\<close>

record TaskHeader =
  task_id :: u32
  body_size :: u32
  skill_id :: u32

record WorkerGreeting =
  magic :: u32
  version :: u32
  node_id :: u64

definition kHeaderSize :: nat where
  "kHeaderSize = 12"

definition kGreetingSize :: nat where
  "kGreetingSize = 16"

definition kWorkerGreetingMagic :: u32 where
  "kWorkerGreetingMagic = 0x544D5747"

definition kWorkerGreetingVersion :: u32 where
  "kWorkerGreetingVersion = 1"

text \<open>The value-initialised header \<open>TaskHeader{}\<close>.\<close>

definition zero_header :: TaskHeader where
  "zero_header = \<lparr>task_id = 0, body_size = 0, skill_id = 0\<rparr>"

subsection \<open>Object representations\<close>

definition header_to_bytes :: "TaskHeader \<Rightarrow> bytes" where
  "header_to_bytes h = le_bytes 4 (task_id h) @ le_bytes 4 (body_size h) @ le_bytes 4 (skill_id h)"

definition header_of_bytes :: "bytes \<Rightarrow> TaskHeader option" where
  "header_of_bytes bs =
     (if length bs = kHeaderSize
      then Some \<lparr>task_id = le_word (take 4 bs),
                 body_size = le_word (take 4 (drop 4 bs)),
                 skill_id = le_word (drop 8 bs)\<rparr>
      else None)"

definition greeting_to_bytes :: "WorkerGreeting \<Rightarrow> bytes" where
  "greeting_to_bytes g = le_bytes 4 (magic g) @ le_bytes 4 (version g) @ le_bytes 8 (node_id g)"

definition greeting_of_bytes :: "bytes \<Rightarrow> WorkerGreeting option" where
  "greeting_of_bytes bs =
     (if length bs = kGreetingSize
      then Some \<lparr>magic = le_word (take 4 bs),
                 version = le_word (take 4 (drop 4 bs)),
                 node_id = le_word (drop 8 bs)\<rparr>
      else None)"

lemma length_header_to_bytes [simp, wire_simps]: "length (header_to_bytes h) = kHeaderSize"
  by (simp add: header_to_bytes_def kHeaderSize_def)

lemma length_greeting_to_bytes [simp, wire_simps]: "length (greeting_to_bytes g) = kGreetingSize"
  by (simp add: greeting_to_bytes_def kGreetingSize_def)

subsection \<open>The codec interface\<close>

text \<open>
  What a peer relies on when a fixed-size struct crosses the wire: every value has an
  encoding of exactly \<open>size\<close> bytes, decoding inverts encoding, and every string of that
  many bytes is the encoding of what it decodes to. The derived lemmas say that the
  encoding of a struct followed by anything is split in one way only.
\<close>

locale wire_codec =
  fixes enc :: "'a \<Rightarrow> bytes" and dec :: "bytes \<Rightarrow> 'a option" and size :: nat
  assumes enc_length: "length (enc x) = size"
    and dec_enc: "dec (enc x) = Some x"
    and enc_dec: "dec bs = Some x \<Longrightarrow> enc x = bs"
    and dec_total: "length bs = size \<Longrightarrow> dec bs \<noteq> None"
begin

lemma enc_inj: "enc x = enc y \<longleftrightarrow> x = y"
  by (metis dec_enc option.inject)

lemma dec_length: "dec bs = Some x \<Longrightarrow> length bs = size"
  using enc_dec enc_length by blast

lemma dec_Some_iff: "dec bs = Some x \<longleftrightarrow> bs = enc x"
  using dec_enc enc_dec by blast

lemma dec_prefix: "dec (take size (enc x @ rest)) = Some x"
  by (simp add: enc_length dec_enc)

lemma framing: "enc x @ r = enc y @ s \<longleftrightarrow> x = y \<and> r = s"
  by (metis append_eq_append_conv enc_inj enc_length)

lemma dec_None_iff: "dec bs = None \<longleftrightarrow> length bs \<noteq> size"
  by (metis dec_length dec_total not_None_eq)

end

lemma take4_drop4_drop8: "take 4 bs @ take 4 (drop 4 bs) @ drop 8 bs = (bs :: bytes)"
proof -
  have "take 4 (drop 4 bs) @ drop 4 (drop 4 bs) = drop 4 bs" by (rule append_take_drop_id)
  then have "take 4 (drop 4 bs) @ drop 8 bs = drop 4 bs" by simp
  then show ?thesis by simp
qed

interpretation hdr: wire_codec header_to_bytes header_of_bytes kHeaderSize
proof unfold_locales
  show "length (header_to_bytes x) = kHeaderSize" for x by simp
  show "header_of_bytes (header_to_bytes x) = Some x" for x
    by (simp add: header_of_bytes_def) (simp add: header_to_bytes_def)
  show "header_to_bytes x = bs" if "header_of_bytes bs = Some x" for bs x
    using that take4_drop4_drop8 [of bs]
    by (auto simp: header_of_bytes_def header_to_bytes_def kHeaderSize_def le_bytes_le_word
        split: if_splits)
  show "header_of_bytes bs \<noteq> None" if "length bs = kHeaderSize" for bs
    using that by (simp add: header_of_bytes_def)
qed

interpretation greet: wire_codec greeting_to_bytes greeting_of_bytes kGreetingSize
proof unfold_locales
  show "length (greeting_to_bytes x) = kGreetingSize" for x by simp
  show "greeting_of_bytes (greeting_to_bytes x) = Some x" for x
    by (simp add: greeting_of_bytes_def) (simp add: greeting_to_bytes_def)
  show "greeting_to_bytes x = bs" if "greeting_of_bytes bs = Some x" for bs x
    using that take4_drop4_drop8 [of bs]
    by (auto simp: greeting_of_bytes_def greeting_to_bytes_def kGreetingSize_def le_bytes_le_word
        split: if_splits)
  show "greeting_of_bytes bs \<noteq> None" if "length bs = kGreetingSize" for bs
    using that by (simp add: greeting_of_bytes_def)
qed

lemmas header_roundtrips [simp, wire_simps] = hdr.dec_enc
lemmas greeting_roundtrips [simp, wire_simps] = greet.dec_enc

end
