(* ===== verification/TaskMsg.thy ===== *)
theory TaskMsg
  imports Wire "HOL-Library.Signed_Division"
begin

section \<open>Payload buffers and task messages\<close>

text \<open>
  \<open>PayloadBufferBase\<close> and its implementations (skills/registry/PayloadBuffer.hpp) and
  \<open>TaskMessage\<close> (message/TaskMessage.hpp). A \<open>unique_ptr\<close> is an option: a moved-from
  pointer is \<open>None\<close>. The payload classes differ only in the container that owns the
  bytes, which the virtual interface hides, so they share one record. A completion source
  is a \<open>shared_ptr\<close>: it is the address of the object in the store of the theory
  \<open>Completion\<close>. Clock readings (nanoseconds of the steady clock) are arguments.
\<close>

subsection \<open>Payload buffers\<close>

record PayloadBuffer =
  pb_data :: bytes
  pb_skill_id :: u32

definition RawPayload :: "bytes \<Rightarrow> u32 \<Rightarrow> PayloadBuffer" where
  "RawPayload d s = \<lparr>pb_data = d, pb_skill_id = s\<rparr>"

definition pb_size :: "PayloadBuffer \<Rightarrow> nat" where
  "pb_size b = length (pb_data b)"

definition pb_span :: "PayloadBuffer \<Rightarrow> bytes" where
  "pb_span b = take (pb_size b) (pb_data b)"

definition pb_empty :: "PayloadBuffer \<Rightarrow> bool" where
  "pb_empty b \<longleftrightarrow> pb_size b = 0"

definition pb_clone :: "PayloadBuffer \<Rightarrow> PayloadBuffer" where
  "pb_clone b = RawPayload (take (pb_size b) (pb_data b)) (pb_skill_id b)"

lemma pb_span_eq [simp]: "pb_span b = pb_data b"
  by (simp add: pb_span_def pb_size_def)

lemma pb_clone_eq [simp]: "pb_clone b = b"
  by (simp add: pb_clone_def pb_size_def RawPayload_def)

subsection \<open>Task messages\<close>

record TaskMessage =
  tm_header :: TaskHeader
  tm_payload_buffer :: "PayloadBuffer option"
  tm_response_buffer :: "PayloadBuffer option"
  tm_completion_source :: "nat option"
  tm_created_time :: int

definition TaskMessage_default :: "int \<Rightarrow> TaskMessage" where
  "TaskMessage_default now =
     \<lparr>tm_header = zero_header, tm_payload_buffer = None, tm_response_buffer = None,
      tm_completion_source = None, tm_created_time = now\<rparr>"

definition uint32_max :: nat where
  "uint32_max = 2 ^ 32 - 1"

definition validated_payload_size :: "PayloadBuffer option \<Rightarrow> u32 result" where
  "validated_payload_size buf =
     (case buf of
        None \<Rightarrow> Inl invalid_argument_error
      | Some b \<Rightarrow>
          if pb_size b > uint32_max then Inl length_error
          else Inr (word_of_nat (pb_size b)))"

definition TaskMessage_with_response ::
  "int \<Rightarrow> u32 \<Rightarrow> PayloadBuffer option \<Rightarrow> PayloadBuffer option \<Rightarrow> TaskMessage result" where
  "TaskMessage_with_response now tid req resp =
     (case validated_payload_size req of
        Inl e \<Rightarrow> Inl e
      | Inr n \<Rightarrow> Inr
          \<lparr>tm_header = \<lparr>task_id = tid, body_size = n, skill_id = pb_skill_id (the req)\<rparr>,
           tm_payload_buffer = req, tm_response_buffer = resp,
           tm_completion_source = None, tm_created_time = now\<rparr>)"

definition TaskMessage_new :: "int \<Rightarrow> u32 \<Rightarrow> PayloadBuffer option \<Rightarrow> TaskMessage result" where
  "TaskMessage_new now tid buf =
     (case validated_payload_size buf of
        Inl e \<Rightarrow> Inl e
      | Inr n \<Rightarrow> Inr
          \<lparr>tm_header = \<lparr>task_id = tid, body_size = n, skill_id = pb_skill_id (the buf)\<rparr>,
           tm_payload_buffer = buf, tm_response_buffer = None,
           tm_completion_source = None, tm_created_time = now\<rparr>)"

definition is_valid :: "TaskMessage \<Rightarrow> bool" where
  "is_valid m \<longleftrightarrow> task_id (tm_header m) \<noteq> 0"

definition payload :: "TaskMessage \<Rightarrow> bytes" where
  "payload m = (case tm_payload_buffer m of Some b \<Rightarrow> pb_span b | None \<Rightarrow> [])"

definition wire_bytes :: "TaskMessage \<Rightarrow> bytes \<times> bytes" where
  "wire_bytes m = (take kHeaderSize (header_to_bytes (tm_header m)), payload m)"

definition header_bytes :: "TaskMessage \<Rightarrow> bytes" where
  "header_bytes m = take kHeaderSize (header_to_bytes (tm_header m))"

definition get_age :: "int \<Rightarrow> TaskMessage \<Rightarrow> int" where
  "get_age now m = (now - tm_created_time m) sdiv 1000000"

definition release_response_buffer ::
  "TaskMessage \<Rightarrow> PayloadBuffer option \<times> TaskMessage" where
  "release_response_buffer m = (tm_response_buffer m, m\<lparr>tm_response_buffer := None\<rparr>)"

definition release_payload :: "TaskMessage \<Rightarrow> PayloadBuffer option \<times> TaskMessage" where
  "release_payload m =
     (case tm_payload_buffer m of
        Some b \<Rightarrow>
          (Some b, m\<lparr>tm_header := (tm_header m)\<lparr>body_size := 0\<rparr>, tm_payload_buffer := None\<rparr>)
      | None \<Rightarrow> (None, m))"

definition set_completion_source :: "nat \<Rightarrow> TaskMessage \<Rightarrow> TaskMessage" where
  "set_completion_source a m = m\<lparr>tm_completion_source := Some a\<rparr>"

definition has_completion_source :: "TaskMessage \<Rightarrow> bool" where
  "has_completion_source m \<longleftrightarrow> tm_completion_source m \<noteq> None"

definition release_completion_source :: "TaskMessage \<Rightarrow> nat option \<times> TaskMessage" where
  "release_completion_source m = (tm_completion_source m, m\<lparr>tm_completion_source := None\<rparr>)"

subsection \<open>The framing invariant\<close>

text \<open>
  A receiver reads the header, then as many bytes as its \<open>body_size\<close> says. A message is
  well framed when that is exactly its payload.
\<close>

definition well_framed :: "TaskMessage \<Rightarrow> bool" where
  "well_framed m \<longleftrightarrow> unat (body_size (tm_header m)) = length (payload m)"

lemma unat_validated_payload_size:
  "validated_payload_size (Some b) = Inr n \<Longrightarrow> unat n = pb_size b"
  by (auto simp: validated_payload_size_def uint32_max_def unat_of_nat take_bit_nat_eq_self
      unsigned_of_nat split: if_splits)

lemma validated_payload_size_ok:
  "validated_payload_size b = Inr n \<longleftrightarrow>
     (\<exists>p. b = Some p \<and> pb_size p \<le> uint32_max \<and> n = word_of_nat (pb_size p))"
  by (cases b) (auto simp: validated_payload_size_def)

lemma default_framed [simp]: "well_framed (TaskMessage_default now)"
  by (simp add: well_framed_def TaskMessage_default_def zero_header_def payload_def)

lemma with_response_framed:
  "TaskMessage_with_response now i req resp = Inr m \<Longrightarrow> well_framed m"
  by (cases req)
    (auto simp: TaskMessage_with_response_def well_framed_def payload_def pb_size_def
      validated_payload_size_def uint32_max_def unsigned_of_nat take_bit_nat_eq_self
      split: sum.splits if_splits)

lemma TaskMessage_new_eq: "TaskMessage_new now i b = TaskMessage_with_response now i b None"
  by (simp add: TaskMessage_new_def TaskMessage_with_response_def)

lemma new_framed: "TaskMessage_new now i b = Inr m \<Longrightarrow> well_framed m"
  by (metis TaskMessage_new_eq with_response_framed)

lemma set_source_framed [simp]: "well_framed (set_completion_source a m) = well_framed m"
  by (simp add: well_framed_def set_completion_source_def payload_def)

lemma release_source_framed [simp]:
  "well_framed (snd (release_completion_source m)) = well_framed m"
  by (simp add: well_framed_def release_completion_source_def payload_def)

lemma release_response_framed [simp]:
  "well_framed (snd (release_response_buffer m)) = well_framed m"
  by (simp add: well_framed_def release_response_buffer_def payload_def)

lemma release_payload_framed: "well_framed m \<Longrightarrow> well_framed (snd (release_payload m))"
  by (auto simp: well_framed_def release_payload_def payload_def split: option.splits)

lemma header_bytes_eq [simp]: "header_bytes m = header_to_bytes (tm_header m)"
  by (simp add: header_bytes_def)

lemma wire_bytes_eq: "wire_bytes m = (header_to_bytes (tm_header m), payload m)"
  by (simp add: wire_bytes_def)

lemma default_invalid [simp]: "\<not> is_valid (TaskMessage_default now)"
  by (simp add: is_valid_def TaskMessage_default_def zero_header_def)

subsection \<open>Reading a frame back\<close>

text \<open>
  The reference receiver of one frame: split off the header, decode it, split off
  \<open>body_size\<close> bytes. \<open>None\<close> means more bytes are needed.
\<close>

definition parse_frame :: "bytes \<Rightarrow> ((TaskHeader \<times> bytes) \<times> bytes) option" where
  "parse_frame bs =
     (case header_of_bytes (take kHeaderSize bs) of
        None \<Rightarrow> None
      | Some h \<Rightarrow>
          let rest = drop kHeaderSize bs; n = unat (body_size h)
          in if length rest < n then None else Some ((h, take n rest), drop n rest))"

lemma parse_frame_append:
  "length body = unat (body_size h) \<Longrightarrow>
     parse_frame (header_to_bytes h @ body @ rest) = Some ((h, body), rest)"
  by (simp add: parse_frame_def)

text \<open>
  C11. Framing round trip. The bytes of any constructed task message (header, then
  payload, as \<open>wire_bytes\<close> hands them to the socket), followed by arbitrary further stream
  content, are split back into exactly the header with the given task id and the buffer's
  skill id, the payload's bytes, and the untouched rest.
\<close>

theorem message_frame_roundtrip:
  assumes "TaskMessage_with_response now tid (Some buf) resp = Inr m"
  shows "parse_frame (fst (wire_bytes m) @ snd (wire_bytes m) @ rest) =
      Some ((tm_header m, pb_data buf), rest)
    \<and> task_id (tm_header m) = tid \<and> skill_id (tm_header m) = pb_skill_id buf
    \<and> unat (body_size (tm_header m)) = length (pb_data buf)"
proof -
  have f: "length (payload m) = unat (body_size (tm_header m))"
    using with_response_framed [OF assms] by (simp add: well_framed_def)
  moreover have "payload m = pb_data buf" "task_id (tm_header m) = tid"
      "skill_id (tm_header m) = pb_skill_id buf"
    using assms by (auto simp: TaskMessage_with_response_def payload_def split: sum.splits)
  ultimately show ?thesis
    using parse_frame_append [OF f, of rest] by (simp add: wire_bytes_eq)
qed

theorem message_frame_roundtrip_witness:
  "parse_frame (header_to_bytes \<lparr>task_id = 7, body_size = 2, skill_id = 9\<rparr> @ [1, 2] @ [5]) =
     Some ((\<lparr>task_id = 7, body_size = 2, skill_id = 9\<rparr>, [1, 2]), [5])"
proof -
  let ?b = "\<lparr>pb_data = [1, 2], pb_skill_id = 9\<rparr>"
  have "TaskMessage_with_response 0 7 (Some ?b) None = Inr
      \<lparr>tm_header = \<lparr>task_id = 7, body_size = 2, skill_id = 9\<rparr>, tm_payload_buffer = Some ?b,
       tm_response_buffer = None, tm_completion_source = None, tm_created_time = 0\<rparr>"
    by (simp add: TaskMessage_with_response_def validated_payload_size_def pb_size_def
        uint32_max_def)
  from message_frame_roundtrip [OF this, of "[5]"] show ?thesis
    by (simp add: wire_bytes_eq payload_def)
qed

text \<open>
  The constructor refuses exactly the payloads the header cannot describe: a null
  buffer raises \<open>invalid_argument\<close>, a buffer of more than \<open>2 ^ 32 - 1\<close> bytes raises
  \<open>length_error\<close>, and every other buffer gives a message whose size field has not wrapped.
\<close>

theorem constructor_total:
  "(TaskMessage_new now tid buf = Inl invalid_argument_error \<longleftrightarrow> buf = None)
   \<and> (TaskMessage_new now tid buf = Inl length_error \<longleftrightarrow>
        (\<exists>b. buf = Some b \<and> 2 ^ 32 \<le> length (pb_data b)))
   \<and> ((\<exists>m. TaskMessage_new now tid buf = Inr m \<and> well_framed m) \<longleftrightarrow>
        (\<exists>b. buf = Some b \<and> length (pb_data b) < 2 ^ 32))"
proof (cases buf)
  case None
  then show ?thesis by (simp add: TaskMessage_new_def validated_payload_size_def)
next
  case (Some b)
  show ?thesis
  proof (cases "length (pb_data b) < 2 ^ 32")
    case True
    then obtain m where m: "TaskMessage_new now tid buf = Inr m"
      using Some by (auto simp: TaskMessage_new_def validated_payload_size_def pb_size_def
          uint32_max_def)
    then show ?thesis using Some True new_framed [OF m] by auto
  next
    case False
    then have "TaskMessage_new now tid buf = Inl length_error"
      using Some by (auto simp: TaskMessage_new_def validated_payload_size_def pb_size_def
          uint32_max_def)
    then show ?thesis using Some False by auto
  qed
qed

end
