(* ===== verification/TaskQueue.thy ===== *)
theory TaskQueue
  imports TaskMsg
begin

section \<open>The awaitable task queue\<close>

text \<open>
  \<open>TaskMessageQueue\<close> and \<open>TaskQueueAwaitable\<close> (message/TaskMessageQueue.hpp, .cpp) and
  \<open>CancellationToken\<close>. The record holds the queue's members and the two kinds of objects
  it shares with its clients by pointer: cancellation tokens (\<open>tq_cancelled\<close>, by address)
  and the \<open>result_\<close> slots of suspended awaitables (\<open>tq_result\<close>, by address). A null
  \<open>shared_ptr\<close> is \<open>None\<close>. The record is extended by the dispatcher's session table, so
  every operation is stated over \<open>TaskMessageQueue_scheme\<close> and takes the effect of
  \<open>handle.resume()\<close> on the whole state as the argument \<open>resume\<close>.

  Each operation is split where the source takes and releases the mutex: a \<open>_locked\<close>
  function is one critical section and returns the handle to resume after the unlock. The
  member functions compose them sequentially; the step relation at the end interleaves
  them between threads.
\<close>

subsection \<open>State\<close>

record Waiter =
  w_handle :: nat
  w_awaiter :: "nat option"
  w_token :: "nat option"

record TaskMessageQueue =
  tq_tasks :: "TaskMessage list"
  tq_waiting :: "Waiter list"
  tq_shut :: bool
  tq_cancelled :: "nat \<Rightarrow> bool"
  tq_result :: "nat \<Rightarrow> TaskMessage option"

definition empty_queue :: TaskMessageQueue where
  "empty_queue = \<lparr>tq_tasks = [], tq_waiting = [], tq_shut = False,
     tq_cancelled = (\<lambda>_. False), tq_result = (\<lambda>_. None)\<rparr>"

subsection \<open>Cancellation tokens\<close>

definition cancel :: "nat \<Rightarrow> 'a TaskMessageQueue_scheme \<Rightarrow> 'a TaskMessageQueue_scheme" where
  "cancel t q = q\<lparr>tq_cancelled := (tq_cancelled q)(t := True)\<rparr>"

definition is_cancelled :: "'a TaskMessageQueue_scheme \<Rightarrow> nat option \<Rightarrow> bool" where
  "is_cancelled q tok = (case tok of None \<Rightarrow> False | Some t \<Rightarrow> tq_cancelled q t)"

subsection \<open>Critical sections\<close>

definition try_get_locked ::
  "'a TaskMessageQueue_scheme \<Rightarrow> TaskMessage option \<times> 'a TaskMessageQueue_scheme" where
  "try_get_locked q =
     (case tq_tasks q of [] \<Rightarrow> (None, q) | m # ms \<Rightarrow> (Some m, q\<lparr>tq_tasks := ms\<rparr>))"

definition set_result ::
  "nat \<Rightarrow> TaskMessage \<Rightarrow> 'a TaskMessageQueue_scheme \<Rightarrow> 'a TaskMessageQueue_scheme" where
  "set_result a m q = q\<lparr>tq_result := (tq_result q)(a := Some m)\<rparr>"

definition await_suspend_locked ::
  "nat \<Rightarrow> nat \<Rightarrow> nat option \<Rightarrow> 'a TaskMessageQueue_scheme \<Rightarrow>
   nat option \<times> 'a TaskMessageQueue_scheme" where
  "await_suspend_locked h a tok q =
     (if tq_shut q \<or> is_cancelled q tok then (Some h, q)
      else case tq_tasks q of
        m # ms \<Rightarrow> (Some h, set_result a m (q\<lparr>tq_tasks := ms\<rparr>))
      | [] \<Rightarrow> (None, q\<lparr>tq_waiting :=
                 tq_waiting q @ [\<lparr>w_handle = h, w_awaiter = Some a, w_token = tok\<rparr>]\<rparr>))"

definition skip_cancelled :: "'a TaskMessageQueue_scheme \<Rightarrow> Waiter list" where
  "skip_cancelled q = dropWhile (\<lambda>w. is_cancelled q (w_token w)) (tq_waiting q)"

definition add_task_locked ::
  "TaskMessage \<Rightarrow> 'a TaskMessageQueue_scheme \<Rightarrow> nat option \<times> 'a TaskMessageQueue_scheme" where
  "add_task_locked m q =
     (case skip_cancelled q of
        [] \<Rightarrow> (None, q\<lparr>tq_waiting := [], tq_tasks := tq_tasks q @ [m]\<rparr>)
      | w # ws \<Rightarrow>
          (case w_awaiter w of
             Some a \<Rightarrow> (Some (w_handle w), set_result a m (q\<lparr>tq_waiting := ws\<rparr>))
           | None \<Rightarrow> (Some (w_handle w), q\<lparr>tq_waiting := ws, tq_tasks := tq_tasks q @ [m]\<rparr>)))"

definition swap_waiters ::
  "'a TaskMessageQueue_scheme \<Rightarrow> Waiter list \<times> 'a TaskMessageQueue_scheme" where
  "swap_waiters q = (tq_waiting q, q\<lparr>tq_waiting := []\<rparr>)"

definition drain_cancelled :: "'a TaskMessageQueue_scheme \<Rightarrow> 'a TaskMessageQueue_scheme" where
  "drain_cancelled q =
     q\<lparr>tq_waiting := filter (\<lambda>w. \<not> is_cancelled q (w_token w)) (tq_waiting q)\<rparr>"

fun take_waiter :: "nat option \<Rightarrow> Waiter list \<Rightarrow> Waiter option \<times> Waiter list" where
  "take_waiter tok [] = (None, [])"
| "take_waiter tok (w # ws) =
     (if w_token w = tok then (Some w, ws)
      else let (r, ws') = take_waiter tok ws in (r, w # ws'))"

definition cancel_waiter_locked ::
  "int \<Rightarrow> nat option \<Rightarrow> 'a TaskMessageQueue_scheme \<Rightarrow>
   nat option \<times> 'a TaskMessageQueue_scheme" where
  "cancel_waiter_locked now tok q =
     (case take_waiter tok (tq_waiting q) of
        (None, ws) \<Rightarrow> (None, q\<lparr>tq_waiting := ws\<rparr>)
      | (Some w, ws) \<Rightarrow>
          (Some (w_handle w),
           (case w_awaiter w of
              Some a \<Rightarrow> set_result a (TaskMessage_default now) (q\<lparr>tq_waiting := ws\<rparr>)
            | None \<Rightarrow> q\<lparr>tq_waiting := ws\<rparr>)))"

subsection \<open>Member functions\<close>

definition resume_opt :: "(nat \<Rightarrow> 's \<Rightarrow> 's) \<Rightarrow> nat option \<times> 's \<Rightarrow> 's" where
  "resume_opt resume r = (case fst r of Some h \<Rightarrow> resume h (snd r) | None \<Rightarrow> snd r)"

definition try_get_task_immediately ::
  "'a TaskMessageQueue_scheme \<Rightarrow> TaskMessage option \<times> 'a TaskMessageQueue_scheme" where
  "try_get_task_immediately q = (if tq_shut q then (None, q) else try_get_locked q)"

definition await_ready ::
  "nat \<Rightarrow> nat option \<Rightarrow> 'a TaskMessageQueue_scheme \<Rightarrow> bool \<times> 'a TaskMessageQueue_scheme" where
  "await_ready a tok q =
     (if is_cancelled q tok then (True, q)
      else case try_get_task_immediately q of
        (Some m, q') \<Rightarrow> (True, set_result a m q')
      | (None, q') \<Rightarrow> (False, q'))"

definition await_suspend ::
  "(nat \<Rightarrow> 'a TaskMessageQueue_scheme \<Rightarrow> 'a TaskMessageQueue_scheme) \<Rightarrow> nat \<Rightarrow> nat \<Rightarrow>
   nat option \<Rightarrow> 'a TaskMessageQueue_scheme \<Rightarrow> 'a TaskMessageQueue_scheme" where
  "await_suspend resume h a tok q =
     (if tq_shut q \<or> is_cancelled q tok then resume h q
      else resume_opt resume (await_suspend_locked h a tok q))"

text \<open>
  The value of \<open>co_await\<close>; the awaitable is a temporary, so its slot disappears with it.
\<close>

definition await_resume ::
  "int \<Rightarrow> nat \<Rightarrow> 'a TaskMessageQueue_scheme \<Rightarrow> TaskMessage \<times> 'a TaskMessageQueue_scheme" where
  "await_resume now a q =
     ((case tq_result q a of Some m \<Rightarrow> m | None \<Rightarrow> TaskMessage_default now),
      q\<lparr>tq_result := (tq_result q)(a := None)\<rparr>)"

definition add_task ::
  "(nat \<Rightarrow> 'a TaskMessageQueue_scheme \<Rightarrow> 'a TaskMessageQueue_scheme) \<Rightarrow> TaskMessage \<Rightarrow>
   'a TaskMessageQueue_scheme \<Rightarrow> 'a TaskMessageQueue_scheme" where
  "add_task resume m q = (if tq_shut q then q else resume_opt resume (add_task_locked m q))"

fun add_tasks_loop ::
  "(nat \<Rightarrow> 'a TaskMessageQueue_scheme \<Rightarrow> 'a TaskMessageQueue_scheme) \<Rightarrow> TaskMessage list \<Rightarrow>
   'a TaskMessageQueue_scheme \<Rightarrow> 'a TaskMessageQueue_scheme" where
  "add_tasks_loop resume [] q = q"
| "add_tasks_loop resume (m # ms) q =
     add_tasks_loop resume ms (resume_opt resume (add_task_locked m q))"

definition add_tasks ::
  "(nat \<Rightarrow> 'a TaskMessageQueue_scheme \<Rightarrow> 'a TaskMessageQueue_scheme) \<Rightarrow> TaskMessage list \<Rightarrow>
   'a TaskMessageQueue_scheme \<Rightarrow> 'a TaskMessageQueue_scheme" where
  "add_tasks resume ms q = (if tq_shut q then q else add_tasks_loop resume ms q)"

definition queue_size :: "'a TaskMessageQueue_scheme \<Rightarrow> nat" where
  "queue_size q = length (tq_tasks q)"

definition queue_empty :: "'a TaskMessageQueue_scheme \<Rightarrow> bool" where
  "queue_empty q \<longleftrightarrow> tq_tasks q = []"

definition waiting_workers_count :: "'a TaskMessageQueue_scheme \<Rightarrow> nat" where
  "waiting_workers_count q = length (tq_waiting q)"

fun shutdown_loop ::
  "(nat \<Rightarrow> 'a TaskMessageQueue_scheme \<Rightarrow> 'a TaskMessageQueue_scheme) \<Rightarrow> Waiter list \<Rightarrow>
   'a TaskMessageQueue_scheme \<Rightarrow> 'a TaskMessageQueue_scheme" where
  "shutdown_loop resume [] q = q"
| "shutdown_loop resume (w # ws) q =
     (if is_cancelled q (w_token w) then shutdown_loop resume ws q
      else shutdown_loop resume ws (resume (w_handle w) q))"

definition queue_shutdown ::
  "(nat \<Rightarrow> 'a TaskMessageQueue_scheme \<Rightarrow> 'a TaskMessageQueue_scheme) \<Rightarrow>
   'a TaskMessageQueue_scheme \<Rightarrow> 'a TaskMessageQueue_scheme" where
  "queue_shutdown resume q =
     (if tq_shut q then q
      else let (ws, q') = swap_waiters (q\<lparr>tq_shut := True\<rparr>) in shutdown_loop resume ws q')"

definition resume_waiting_session ::
  "(nat \<Rightarrow> 'a TaskMessageQueue_scheme \<Rightarrow> 'a TaskMessageQueue_scheme) \<Rightarrow>
   'a TaskMessageQueue_scheme \<Rightarrow> 'a TaskMessageQueue_scheme" where
  "resume_waiting_session resume q =
     (case tq_waiting q of [] \<Rightarrow> q
      | w # ws \<Rightarrow> resume (w_handle w) (q\<lparr>tq_waiting := ws\<rparr>))"

definition cancel_and_resume_waiter ::
  "(nat \<Rightarrow> 'a TaskMessageQueue_scheme \<Rightarrow> 'a TaskMessageQueue_scheme) \<Rightarrow> int \<Rightarrow> nat option \<Rightarrow>
   'a TaskMessageQueue_scheme \<Rightarrow> 'a TaskMessageQueue_scheme" where
  "cancel_and_resume_waiter resume now tok q =
     resume_opt resume (cancel_waiter_locked now tok q)"

subsection \<open>The queue invariant\<close>

text \<open>
  No task waits while a session waits, and every waiter has an awaitable to receive its
  task in.
\<close>

definition queue_inv :: "'a TaskMessageQueue_scheme \<Rightarrow> bool" where
  "queue_inv q \<longleftrightarrow>
     (tq_tasks q \<noteq> [] \<longrightarrow> tq_waiting q = []) \<and>
     list_all (\<lambda>w. w_awaiter w \<noteq> None) (tq_waiting q)"

lemma queue_inv_empty [simp]: "queue_inv empty_queue"
  by (simp add: queue_inv_def empty_queue_def)

lemma queue_inv_cancel [simp]: "queue_inv (cancel t q) = queue_inv q"
  by (simp add: queue_inv_def cancel_def)

lemma queue_inv_set_result [simp]: "queue_inv (set_result a m q) = queue_inv q"
  by (simp add: queue_inv_def set_result_def)

lemma set_result_sel [queue_simps, simp]:
  "tq_tasks (set_result a m q) = tq_tasks q" "tq_waiting (set_result a m q) = tq_waiting q"
  "tq_shut (set_result a m q) = tq_shut q" "tq_cancelled (set_result a m q) = tq_cancelled q"
  "tq_result (set_result a m q) = (tq_result q)(a := Some m)"
  by (simp_all add: set_result_def)

lemma cancel_sel [queue_simps, simp]:
  "tq_tasks (cancel t q) = tq_tasks q" "tq_waiting (cancel t q) = tq_waiting q"
  "tq_shut (cancel t q) = tq_shut q" "tq_result (cancel t q) = tq_result q"
  by (simp_all add: cancel_def)

lemma skip_cancelled_subset: "set (skip_cancelled q) \<subseteq> set (tq_waiting q)"
  unfolding skip_cancelled_def using set_dropWhileD by fastforce

lemma skip_cancelled_awaiters:
  "queue_inv q \<Longrightarrow> list_all (\<lambda>w. w_awaiter w \<noteq> None) (skip_cancelled q)"
  using skip_cancelled_subset [of q] by (auto simp: queue_inv_def list_all_iff)

lemma take_waiter_subset: "set (snd (take_waiter tok ws)) \<subseteq> set ws"
  by (induction ws) (auto split: prod.splits)

lemma take_waiter_Some:
  "fst (take_waiter tok ws) = Some w \<Longrightarrow> w \<in> set ws \<and> w_token w = tok"
  by (induction ws) (auto split: prod.splits if_splits)

lemma take_waiter_None:
  "fst (take_waiter tok ws) = None \<longleftrightarrow> (\<forall>w \<in> set ws. w_token w \<noteq> tok)"
  by (induction ws) (auto split: prod.splits)

lemma take_waiter_mset:
  "mset ws = (case fst (take_waiter tok ws) of Some w \<Rightarrow> {#w#} | None \<Rightarrow> {#})
     + mset (snd (take_waiter tok ws))"
  by (induction ws) (auto split: prod.splits option.splits)

lemma try_get_locked_inv: "queue_inv q \<Longrightarrow> queue_inv (snd (try_get_locked q))"
  by (auto simp: queue_inv_def try_get_locked_def split: list.splits)

lemma await_suspend_locked_inv:
  "queue_inv q \<Longrightarrow> queue_inv (snd (await_suspend_locked h a tok q))"
  by (auto simp: queue_inv_def await_suspend_locked_def split: list.splits)

lemma add_task_locked_cases [case_names queued handed]:
  assumes "queue_inv q"
  obtains "skip_cancelled q = []"
      "add_task_locked m q = (None, q\<lparr>tq_waiting := [], tq_tasks := tq_tasks q @ [m]\<rparr>)"
    | w ws a where "skip_cancelled q = w # ws" "w_awaiter w = Some a" "tq_tasks q = []"
      "add_task_locked m q = (Some (w_handle w), set_result a m (q\<lparr>tq_waiting := ws\<rparr>))"
proof (cases "skip_cancelled q")
  case Nil
  then show ?thesis using that(1) by (simp add: add_task_locked_def)
next
  case (Cons w ws)
  then obtain a where a: "w_awaiter w = Some a"
    using skip_cancelled_awaiters [OF assms] by auto
  have "tq_waiting q \<noteq> []" using Cons by (auto simp: skip_cancelled_def)
  then have "tq_tasks q = []" using assms by (auto simp: queue_inv_def)
  then show ?thesis using that(2) Cons a by (simp add: add_task_locked_def)
qed

lemma add_task_locked_inv:
  assumes "queue_inv q"
  shows "queue_inv (snd (add_task_locked m q))"
  using assms
proof (cases rule: add_task_locked_cases [where m = m])
  case queued
  then show ?thesis by (simp add: queue_inv_def)
next
  case (handed w ws a)
  then show ?thesis
    using skip_cancelled_awaiters [OF assms] by (simp add: queue_inv_def)
qed

lemma swap_waiters_inv: "queue_inv q \<Longrightarrow> queue_inv (snd (swap_waiters q))"
  by (simp add: queue_inv_def swap_waiters_def)

lemma drain_cancelled_inv: "queue_inv q \<Longrightarrow> queue_inv (drain_cancelled q)"
  by (auto simp: queue_inv_def drain_cancelled_def list_all_iff)

lemma cancel_waiter_locked_inv:
  assumes "queue_inv q"
  shows "queue_inv (snd (cancel_waiter_locked now tok q))"
proof -
  obtain r ws where t: "take_waiter tok (tq_waiting q) = (r, ws)" by force
  then have "set ws \<subseteq> set (tq_waiting q)" using take_waiter_subset [of tok "tq_waiting q"] by simp
  moreover have "ws = []" if "tq_waiting q = []" using that t by simp
  ultimately have "queue_inv (q\<lparr>tq_waiting := ws\<rparr>)"
    using assms by (auto simp: queue_inv_def list_all_iff)
  then show ?thesis using t by (auto simp: cancel_waiter_locked_def split: option.splits)
qed

lemma shut_inv [simp]: "queue_inv (q\<lparr>tq_shut := b\<rparr>) = queue_inv q"
  by (simp add: queue_inv_def)

lemma result_inv [simp]: "queue_inv (q\<lparr>tq_result := r\<rparr>) = queue_inv q"
  by (simp add: queue_inv_def)

lemma await_resume_inv: "queue_inv q \<Longrightarrow> queue_inv (snd (await_resume now a q))"
  by (simp add: await_resume_def)

lemma await_ready_inv: "queue_inv q \<Longrightarrow> queue_inv (snd (await_ready a tok q))"
  using try_get_locked_inv [of q]
  by (auto simp: await_ready_def try_get_task_immediately_def split: option.splits prod.splits)

lemmas locked_inv = try_get_locked_inv await_suspend_locked_inv add_task_locked_inv
  swap_waiters_inv drain_cancelled_inv cancel_waiter_locked_inv await_resume_inv await_ready_inv

subsection \<open>The contract of resumed coroutines\<close>

text \<open>
  \<open>handle.resume()\<close> runs the coroutine until its next suspension, on the caller's thread
  and outside the mutex; it may call any member function of the queue. The queue relies on
  two promises of the coroutines: they keep the queue invariant, and once the queue is shut
  down and its waiters are gone they do not enrol again. Under them every member function
  keeps the invariant and \<open>shutdown\<close> leaves no waiter behind. The dispatcher discharges the
  promises for its sessions.
\<close>

definition shut_closed :: "'a TaskMessageQueue_scheme \<Rightarrow> bool" where
  "shut_closed q \<longleftrightarrow> tq_shut q \<and> tq_waiting q = []"

locale queue_client =
  fixes resume :: "nat \<Rightarrow> 'a TaskMessageQueue_scheme \<Rightarrow> 'a TaskMessageQueue_scheme"
  assumes resume_inv: "queue_inv q \<Longrightarrow> queue_inv (resume h q)"
    and resume_closed: "shut_closed q \<Longrightarrow> shut_closed (resume h q)"
begin

lemma resume_opt_inv: "queue_inv (snd r) \<Longrightarrow> queue_inv (resume_opt resume r)"
  by (auto simp: resume_opt_def resume_inv split: option.splits)

lemma add_task_inv: "queue_inv q \<Longrightarrow> queue_inv (add_task resume m q)"
  by (simp add: add_task_def resume_opt_inv add_task_locked_inv)

lemma add_tasks_loop_inv: "queue_inv q \<Longrightarrow> queue_inv (add_tasks_loop resume ms q)"
  by (induction ms arbitrary: q) (simp_all add: resume_opt_inv add_task_locked_inv)

lemma add_tasks_inv: "queue_inv q \<Longrightarrow> queue_inv (add_tasks resume ms q)"
  by (simp add: add_tasks_def add_tasks_loop_inv)

lemma await_suspend_inv: "queue_inv q \<Longrightarrow> queue_inv (await_suspend resume h a tok q)"
  by (simp add: await_suspend_def resume_inv resume_opt_inv await_suspend_locked_inv)

lemma shutdown_loop_inv: "queue_inv q \<Longrightarrow> queue_inv (shutdown_loop resume ws q)"
  by (induction ws arbitrary: q) (simp_all add: resume_inv)

lemma shutdown_loop_closed: "shut_closed q \<Longrightarrow> shut_closed (shutdown_loop resume ws q)"
  by (induction ws arbitrary: q) (simp_all add: resume_closed)

lemma shutdown_inv: "queue_inv q \<Longrightarrow> queue_inv (queue_shutdown resume q)"
  by (simp add: queue_shutdown_def swap_waiters_inv shutdown_loop_inv split: prod.splits)
    (metis shut_inv shutdown_loop_inv snd_conv swap_waiters_inv)

lemma shutdown_closed: "\<not> tq_shut q \<Longrightarrow> shut_closed (queue_shutdown resume q)"
  using shutdown_loop_closed [of "q\<lparr>tq_shut := True, tq_waiting := []\<rparr>" "tq_waiting q"]
  by (simp add: queue_shutdown_def swap_waiters_def shut_closed_def)

lemma cancel_waiter_inv: "queue_inv q \<Longrightarrow> queue_inv (cancel_and_resume_waiter resume now tok q)"
  by (simp add: cancel_and_resume_waiter_def resume_opt_inv cancel_waiter_locked_inv)

lemma cancel_waiter_closed:
  "shut_closed q \<Longrightarrow> shut_closed (cancel_and_resume_waiter resume now tok q)"
  by (simp add: cancel_and_resume_waiter_def cancel_waiter_locked_def resume_opt_def)
    (simp add: shut_closed_def)

lemma add_task_closed: "shut_closed q \<Longrightarrow> add_task resume m q = q"
  by (simp add: add_task_def shut_closed_def)

end

subsection \<open>Interleaved execution\<close>

text \<open>
  The queue as its threads see it. A pending operation has passed its unlocked check of
  \<open>shutdown_\<close> and has not entered its critical section yet; \<open>PAdd\<close> carries the tasks of an
  \<open>add_task\<close> or \<open>add_tasks\<close> call that are still to be added. Every critical section is one
  step, so other threads can act between the check and the section. \<open>add_tasks\<close> keeps the
  mutex between two tasks when no waiter is resumed; the relation allows an interleaving
  there too. The remaining fields are history: tasks accepted and tasks given to a
  coroutine, in order; waiters enrolled, resumed, and dropped.
\<close>

datatype qop =
    PAdd "TaskMessage list" | PGet nat "nat option" | PSuspend nat nat "nat option"
  | PSwap | PResume "Waiter list"

record conc_queue =
  cq :: TaskMessageQueue
  cq_pending :: "qop multiset"
  cq_accepted :: "TaskMessage list"
  cq_delivered :: "TaskMessage list"
  cq_enrolled :: "Waiter multiset"
  cq_resumed :: "Waiter multiset"
  cq_dropped :: "Waiter multiset"

definition conc_start :: conc_queue where
  "conc_start = \<lparr>cq = empty_queue, cq_pending = {#}, cq_accepted = [], cq_delivered = [],
     cq_enrolled = {#}, cq_resumed = {#}, cq_dropped = {#}\<rparr>"

definition spawn :: "qop \<Rightarrow> conc_queue \<Rightarrow> conc_queue" where
  "spawn p s = s\<lparr>cq_pending := cq_pending s + {#p#}\<rparr>"

definition retire :: "qop \<Rightarrow> conc_queue \<Rightarrow> conc_queue" where
  "retire p s = s\<lparr>cq_pending := cq_pending s - {#p#}\<rparr>"

definition do_add :: "TaskMessage \<Rightarrow> conc_queue \<Rightarrow> conc_queue" where
  "do_add m s =
     (let q = cq s; (r, q') = add_task_locked m q
      in s\<lparr>cq := q', cq_accepted := cq_accepted s @ [m],
           cq_delivered := cq_delivered s @ (if r = None then [] else [m]),
           cq_resumed := cq_resumed s + mset (take 1 (skip_cancelled q)),
           cq_dropped := cq_dropped s
             + mset (takeWhile (\<lambda>w. is_cancelled q (w_token w)) (tq_waiting q))\<rparr>)"

definition do_get :: "nat \<Rightarrow> conc_queue \<Rightarrow> conc_queue" where
  "do_get a s =
     (case try_get_locked (cq s) of
        (None, q') \<Rightarrow> s\<lparr>cq := q'\<rparr>
      | (Some m, q') \<Rightarrow> s\<lparr>cq := set_result a m q', cq_delivered := cq_delivered s @ [m]\<rparr>)"

definition do_suspend :: "nat \<Rightarrow> nat \<Rightarrow> nat option \<Rightarrow> conc_queue \<Rightarrow> conc_queue" where
  "do_suspend h a tok s =
     (let q = cq s; (r, q') = await_suspend_locked h a tok q
      in s\<lparr>cq := q',
           cq_delivered := cq_delivered s
             @ (if r = None \<or> tq_shut q \<or> is_cancelled q tok then [] else take 1 (tq_tasks q)),
           cq_enrolled := cq_enrolled s
             + (if r = None then {#\<lparr>w_handle = h, w_awaiter = Some a, w_token = tok\<rparr>#}
                else {#})\<rparr>)"

definition do_swap :: "conc_queue \<Rightarrow> conc_queue" where
  "do_swap s = (let (ws, q') = swap_waiters (cq s) in spawn (PResume ws) (s\<lparr>cq := q'\<rparr>))"

definition do_resume :: "Waiter \<Rightarrow> conc_queue \<Rightarrow> conc_queue" where
  "do_resume w s =
     (if is_cancelled (cq s) (w_token w) then s\<lparr>cq_dropped := cq_dropped s + {#w#}\<rparr>
      else s\<lparr>cq_resumed := cq_resumed s + {#w#}\<rparr>)"

definition do_drain :: "conc_queue \<Rightarrow> conc_queue" where
  "do_drain s = s\<lparr>cq := drain_cancelled (cq s),
     cq_dropped := cq_dropped s
       + mset (filter (\<lambda>w. is_cancelled (cq s) (w_token w)) (tq_waiting (cq s)))\<rparr>"

definition do_cancel_waiter :: "int \<Rightarrow> nat option \<Rightarrow> conc_queue \<Rightarrow> conc_queue" where
  "do_cancel_waiter now tok s =
     s\<lparr>cq := snd (cancel_waiter_locked now tok (cq s)),
       cq_resumed := cq_resumed s
         + (case fst (take_waiter tok (tq_waiting (cq s))) of Some w \<Rightarrow> {#w#} | None \<Rightarrow> {#})\<rparr>"

inductive qstep :: "conc_queue \<Rightarrow> conc_queue \<Rightarrow> bool" where
  add_check: "\<not> tq_shut (cq s) \<Longrightarrow> qstep s (spawn (PAdd ms) s)"
| add_section: "PAdd (m # ms) \<in># cq_pending s \<Longrightarrow>
    qstep s (spawn (PAdd ms) (do_add m (retire (PAdd (m # ms)) s)))"
| add_done: "PAdd [] \<in># cq_pending s \<Longrightarrow> qstep s (retire (PAdd []) s)"
| ready_check: "\<not> is_cancelled (cq s) tok \<Longrightarrow> \<not> tq_shut (cq s) \<Longrightarrow> qstep s (spawn (PGet a tok) s)"
| get_section: "PGet a tok \<in># cq_pending s \<Longrightarrow> qstep s (do_get a (retire (PGet a tok) s))"
| suspend_check: "\<not> tq_shut (cq s) \<Longrightarrow> \<not> is_cancelled (cq s) tok \<Longrightarrow>
    qstep s (spawn (PSuspend h a tok) s)"
| suspend_section: "PSuspend h a tok \<in># cq_pending s \<Longrightarrow>
    qstep s (do_suspend h a tok (retire (PSuspend h a tok) s))"
| consume: "qstep s (s\<lparr>cq := snd (await_resume now a (cq s))\<rparr>)"
| shutdown_cas: "\<not> tq_shut (cq s) \<Longrightarrow> qstep s (spawn PSwap (s\<lparr>cq := (cq s)\<lparr>tq_shut := True\<rparr>\<rparr>))"
| swap_section: "PSwap \<in># cq_pending s \<Longrightarrow> qstep s (do_swap (retire PSwap s))"
| resume_next: "PResume (w # ws) \<in># cq_pending s \<Longrightarrow>
    qstep s (spawn (PResume ws) (do_resume w (retire (PResume (w # ws)) s)))"
| resume_done: "PResume [] \<in># cq_pending s \<Longrightarrow> qstep s (retire (PResume []) s)"
| cancel_token: "qstep s (s\<lparr>cq := cancel t (cq s)\<rparr>)"
| drain_section: "qstep s (do_drain s)"
| cancel_section: "qstep s (do_cancel_waiter now tok s)"

definition conc_reachable :: "conc_queue \<Rightarrow> bool" where
  "conc_reachable s \<longleftrightarrow> qstep\<^sup>*\<^sup>* conc_start s"

subsection \<open>Invariants of the interleaved queue\<close>

definition resuming :: "qop multiset \<Rightarrow> Waiter multiset" where
  "resuming P = (\<Sum>p\<in>#P. case p of PResume ws \<Rightarrow> mset ws | _ \<Rightarrow> {#})"

lemma resuming_empty [simp]: "resuming {#} = {#}"
  by (simp add: resuming_def)

lemma resuming_add [simp]:
  "resuming (add_mset p P) = (case p of PResume ws \<Rightarrow> mset ws | _ \<Rightarrow> {#}) + resuming P"
  by (simp add: resuming_def)

lemma resuming_remove:
  "p \<in># P \<Longrightarrow> resuming P = (case p of PResume ws \<Rightarrow> mset ws | _ \<Rightarrow> {#}) + resuming (P - {#p#})"
  by (metis insert_DiffM resuming_add)

lemma ghost_sel [simp]:
  "cq (spawn p s) = cq s" "cq_pending (spawn p s) = add_mset p (cq_pending s)"
  "cq_accepted (spawn p s) = cq_accepted s" "cq_delivered (spawn p s) = cq_delivered s"
  "cq_enrolled (spawn p s) = cq_enrolled s" "cq_resumed (spawn p s) = cq_resumed s"
  "cq_dropped (spawn p s) = cq_dropped s"
  "cq (retire p s) = cq s" "cq_pending (retire p s) = cq_pending s - {#p#}"
  "cq_accepted (retire p s) = cq_accepted s" "cq_delivered (retire p s) = cq_delivered s"
  "cq_enrolled (retire p s) = cq_enrolled s" "cq_resumed (retire p s) = cq_resumed s"
  "cq_dropped (retire p s) = cq_dropped s"
  by (simp_all add: spawn_def retire_def)

lemma pending_sel [simp]:
  "cq_pending (do_add m s) = cq_pending s" "cq_pending (do_get a s) = cq_pending s"
  "cq_pending (do_suspend h a tok s) = cq_pending s" "cq_pending (do_resume w s) = cq_pending s"
  "cq_pending (do_drain s) = cq_pending s" "cq_pending (do_cancel_waiter now tok s) = cq_pending s"
  by (simp_all add: do_add_def do_get_def do_suspend_def do_resume_def do_drain_def
      do_cancel_waiter_def Let_def split: prod.splits option.splits)

lemma cq_sel [simp]:
  "cq (do_add m s) = snd (add_task_locked m (cq s))"
  "cq (do_suspend h a tok s) = snd (await_suspend_locked h a tok (cq s))"
  "cq (do_swap s) = snd (swap_waiters (cq s))" "cq (do_resume w s) = cq s"
  "cq (do_drain s) = drain_cancelled (cq s)"
  "cq (do_cancel_waiter now tok s) = snd (cancel_waiter_locked now tok (cq s))"
  by (simp_all add: do_add_def do_suspend_def do_swap_def do_resume_def do_drain_def
      do_cancel_waiter_def Let_def split: prod.splits option.splits)

text \<open>The queue invariant survives every interleaving.\<close>

lemma qstep_queue_inv: "qstep s s' \<Longrightarrow> queue_inv (cq s) \<Longrightarrow> queue_inv (cq s')"
proof (induction rule: qstep.induct)
  case (get_section a tok s)
  then show ?case using try_get_locked_inv [of "cq s"]
    by (auto simp: do_get_def split: prod.splits option.splits)
qed (simp_all add: locked_inv)

text \<open>FIFO: what was accepted is what was delivered followed by what is still queued.\<close>

definition fifo :: "conc_queue \<Rightarrow> bool" where
  "fifo s \<longleftrightarrow> cq_accepted s = cq_delivered s @ tq_tasks (cq s)"

lemma do_add_fifo: "queue_inv (cq s) \<Longrightarrow> fifo s \<Longrightarrow> fifo (do_add m s)"
  by (erule add_task_locked_cases [where m = m]) (auto simp: fifo_def do_add_def Let_def)

lemma do_get_fifo: "fifo s \<Longrightarrow> fifo (do_get a s)"
  by (cases "tq_tasks (cq s)") (auto simp: fifo_def do_get_def try_get_locked_def)

lemma do_suspend_fifo: "fifo s \<Longrightarrow> fifo (do_suspend h a tok s)"
  by (cases "tq_tasks (cq s)") (auto simp: fifo_def do_suspend_def await_suspend_locked_def Let_def)

lemma do_cancel_waiter_fifo: "fifo s \<Longrightarrow> fifo (do_cancel_waiter now tok s)"
  by (auto simp: fifo_def do_cancel_waiter_def cancel_waiter_locked_def
      split: prod.splits option.splits)

lemma fifo_spawn [simp]: "fifo (spawn p s) = fifo s" "fifo (retire p s) = fifo s"
  by (simp_all add: fifo_def)

lemma qstep_fifo: "qstep s s' \<Longrightarrow> queue_inv (cq s) \<Longrightarrow> fifo s \<Longrightarrow> fifo s'"
proof (induction rule: qstep.induct)
  case (add_section m ms s)
  then show ?case by (simp add: do_add_fifo)
next
  case (get_section a tok s)
  then show ?case by (simp add: do_get_fifo)
next
  case (suspend_section h a tok s)
  then show ?case by (simp add: do_suspend_fifo)
next
  case (swap_section s)
  then show ?case by (simp add: fifo_def do_swap_def swap_waiters_def)
next
  case (resume_next w ws s)
  then show ?case by (simp add: fifo_def do_resume_def)
qed (simp_all add: do_cancel_waiter_fifo, simp_all add: fifo_def do_drain_def drain_cancelled_def
    await_resume_def)

text \<open>Every waiter ever enrolled is queued, being resumed, resumed, or dropped while cancelled.\<close>

definition waiters_accounted :: "conc_queue \<Rightarrow> bool" where
  "waiters_accounted s \<longleftrightarrow>
     cq_enrolled s = mset (tq_waiting (cq s)) + resuming (cq_pending s)
       + cq_resumed s + cq_dropped s
     \<and> (\<forall>w \<in># cq_dropped s. is_cancelled (cq s) (w_token w))"

lemma skip_split:
  "tq_waiting q = takeWhile (\<lambda>w. is_cancelled q (w_token w)) (tq_waiting q) @ skip_cancelled q"
  by (simp add: skip_cancelled_def)

lemma is_cancelled_takeWhile:
  "w \<in> set (takeWhile (\<lambda>w. is_cancelled q (w_token w)) ws) \<Longrightarrow> is_cancelled q (w_token w)"
  using set_takeWhileD by fastforce

lemma is_cancelled_cong: "tq_cancelled q' = tq_cancelled q \<Longrightarrow> is_cancelled q' = is_cancelled q"
  by (auto simp: is_cancelled_def fun_eq_iff split: option.splits)

lemma is_cancelled_mono: "is_cancelled q tok \<Longrightarrow> is_cancelled (cancel t q) tok"
  by (auto simp: is_cancelled_def cancel_def split: option.splits)

lemma locked_cancelled [simp]:
  "tq_cancelled (snd (add_task_locked m q)) = tq_cancelled q"
  "tq_cancelled (snd (try_get_locked q)) = tq_cancelled q"
  "tq_cancelled (snd (await_suspend_locked h a tok q)) = tq_cancelled q"
  "tq_cancelled (snd (swap_waiters q)) = tq_cancelled q"
  "tq_cancelled (drain_cancelled q) = tq_cancelled q"
  "tq_cancelled (snd (cancel_waiter_locked now tok q)) = tq_cancelled q"
  "tq_cancelled (snd (await_resume now a q)) = tq_cancelled q"
  by (auto simp: add_task_locked_def try_get_locked_def await_suspend_locked_def swap_waiters_def
      drain_cancelled_def cancel_waiter_locked_def await_resume_def
      split: list.splits option.splits prod.splits)

lemma cancelled_get [simp]: "tq_cancelled (cq (do_get a s)) = tq_cancelled (cq s)"
  using locked_cancelled(2) [of "cq s"]
  by (auto simp: do_get_def simp del: locked_cancelled split: prod.splits option.splits)

lemma locked_waiting_Nil:
  "tq_waiting q = [] \<Longrightarrow> tq_waiting (snd (add_task_locked m q)) = []"
  "tq_waiting q = [] \<Longrightarrow> tq_waiting (drain_cancelled q) = []"
  "tq_waiting q = [] \<Longrightarrow> tq_waiting (snd (cancel_waiter_locked now tok q)) = []"
  "tq_waiting q = [] \<Longrightarrow> tq_shut q \<Longrightarrow> tq_waiting (snd (await_suspend_locked h a tok q)) = []"
  "tq_waiting (snd (swap_waiters q)) = []"
  "tq_waiting (snd (await_resume now a q)) = tq_waiting q"
  by (auto simp: add_task_locked_def await_suspend_locked_def swap_waiters_def skip_cancelled_def
      drain_cancelled_def cancel_waiter_locked_def await_resume_def
      split: list.splits option.splits prod.splits)

lemma do_add_accounted:
  assumes "queue_inv (cq s)" "waiters_accounted s"
  shows "waiters_accounted (do_add m s)"
proof -
  let ?q = "cq s" and ?d = "takeWhile (\<lambda>w. is_cancelled (cq s) (w_token w)) (tq_waiting (cq s))"
  have c: "is_cancelled (cq (do_add m s)) = is_cancelled ?q" by (rule is_cancelled_cong) simp
  have "mset (tq_waiting ?q) = mset ?d + mset (skip_cancelled ?q)"
    by (metis mset_append skip_split)
  moreover have "mset (tq_waiting (cq (do_add m s))) + mset (take 1 (skip_cancelled ?q))
      = mset (skip_cancelled ?q)"
    using assms(1) by (cases rule: add_task_locked_cases [where m = m]) (simp_all add: do_add_def Let_def)
  moreover have "cq_enrolled (do_add m s) = cq_enrolled s"
      "cq_resumed (do_add m s) = cq_resumed s + mset (take 1 (skip_cancelled ?q))"
      "cq_dropped (do_add m s) = cq_dropped s + mset ?d"
    by (simp_all add: do_add_def Let_def split: prod.splits)
  ultimately show ?thesis
    using assms(2) c by (auto simp: waiters_accounted_def ac_simps dest: is_cancelled_takeWhile)
qed

lemma do_suspend_accounted:
  "waiters_accounted s \<Longrightarrow> waiters_accounted (do_suspend h a tok s)"
proof -
  assume a: "waiters_accounted s"
  have c: "is_cancelled (cq (do_suspend h a tok s)) = is_cancelled (cq s)"
    by (rule is_cancelled_cong) simp
  have "cq_resumed (do_suspend h a tok s) = cq_resumed s"
      "cq_dropped (do_suspend h a tok s) = cq_dropped s"
      "cq_enrolled (do_suspend h a tok s) + mset (tq_waiting (cq s))
        = cq_enrolled s + mset (tq_waiting (cq (do_suspend h a tok s)))"
    by (auto simp: do_suspend_def await_suspend_locked_def Let_def split: list.splits)
  then show ?thesis using a c by (auto simp: waiters_accounted_def ac_simps)
qed

lemma do_get_accounted: "waiters_accounted s \<Longrightarrow> waiters_accounted (do_get a s)"
proof -
  assume a: "waiters_accounted s"
  have c: "is_cancelled (cq (do_get a s)) = is_cancelled (cq s)" by (rule is_cancelled_cong) simp
  show ?thesis using a c
    by (auto simp: waiters_accounted_def do_get_def try_get_locked_def is_cancelled_def
        split: list.splits option.splits)
qed

lemma do_drain_accounted: "waiters_accounted s \<Longrightarrow> waiters_accounted (do_drain s)"
proof -
  assume a: "waiters_accounted s"
  have c: "is_cancelled (cq (do_drain s)) = is_cancelled (cq s)" by (rule is_cancelled_cong) simp
  have "mset (tq_waiting (cq s)) = mset (filter (\<lambda>w. is_cancelled (cq s) (w_token w)) (tq_waiting (cq s)))
      + mset (tq_waiting (cq (do_drain s)))"
    by (simp add: drain_cancelled_def multiset_partition [symmetric])
  then show ?thesis using a c by (auto simp: waiters_accounted_def do_drain_def ac_simps)
qed

lemma do_cancel_waiter_accounted:
  "waiters_accounted s \<Longrightarrow> waiters_accounted (do_cancel_waiter now tok s)"
proof -
  assume a: "waiters_accounted s"
  have c: "is_cancelled (cq (do_cancel_waiter now tok s)) = is_cancelled (cq s)"
    by (rule is_cancelled_cong) simp
  have "tq_waiting (cq (do_cancel_waiter now tok s)) = snd (take_waiter tok (tq_waiting (cq s)))"
    by (auto simp: cancel_waiter_locked_def split: prod.splits option.splits)
  then show ?thesis using a c take_waiter_mset [of "tq_waiting (cq s)" tok]
    by (auto simp: waiters_accounted_def do_cancel_waiter_def ac_simps split: option.splits)
qed

lemma accounted_spawn [simp]:
  "waiters_accounted (spawn p s) = waiters_accounted s" if "\<forall>ws. p \<noteq> PResume ws"
  using that by (cases p) (auto simp: waiters_accounted_def)

lemma resuming_diff:
  assumes "p \<in># P" "\<forall>ws. p \<noteq> PResume ws"
  shows "resuming (P - {#p#}) = resuming P"
proof -
  obtain Q where "P = add_mset p Q" using assms(1) by (metis insert_DiffM)
  then show ?thesis using assms(2) by (cases p) simp_all
qed

lemma accounted_retire:
  "p \<in># cq_pending s \<Longrightarrow> \<forall>ws. p \<noteq> PResume ws \<Longrightarrow> waiters_accounted s \<Longrightarrow>
     waiters_accounted (retire p s)"
  by (simp add: waiters_accounted_def resuming_diff)

lemma accounted_swap: "waiters_accounted s \<Longrightarrow> waiters_accounted (do_swap s)"
proof -
  assume a: "waiters_accounted s"
  have c: "is_cancelled (cq (do_swap s)) = is_cancelled (cq s)" by (rule is_cancelled_cong) simp
  show ?thesis using a unfolding waiters_accounted_def c
    by (simp add: do_swap_def swap_waiters_def)
qed

lemma accounted_resume:
  "PResume (w # ws) \<in># cq_pending s \<Longrightarrow> waiters_accounted s \<Longrightarrow>
     waiters_accounted (spawn (PResume ws) (do_resume w (retire (PResume (w # ws)) s)))"
  using resuming_remove [of "PResume (w # ws)" "cq_pending s"]
  by (auto simp: waiters_accounted_def do_resume_def ac_simps)

lemma qstep_accounted:
  "qstep s s' \<Longrightarrow> queue_inv (cq s) \<Longrightarrow> waiters_accounted s \<Longrightarrow> waiters_accounted s'"
proof (induction rule: qstep.induct)
  case (resume_done s)
  then have "resuming (cq_pending s - {#PResume []#}) = resuming (cq_pending s)"
    using resuming_remove [of "PResume []" "cq_pending s"] by simp
  then show ?case using resume_done by (simp add: waiters_accounted_def)
next
  case (consume s now a)
  then show ?case
    by (simp add: waiters_accounted_def locked_waiting_Nil
        is_cancelled_cong [OF locked_cancelled(7)])
next
  case (shutdown_cas s)
  then show ?case by (simp add: waiters_accounted_def is_cancelled_cong [of "_\<lparr>tq_shut := _\<rparr>"])
next
  case (cancel_token s t)
  then show ?case by (simp add: waiters_accounted_def is_cancelled_mono)
next
  case (resume_next w ws s)
  show ?case using resume_next(1,3) by (rule accounted_resume)
next
  case (swap_section s)
  then show ?case by (simp add: accounted_swap accounted_retire)
qed (simp_all add: do_add_accounted do_get_accounted do_suspend_accounted do_drain_accounted
    do_cancel_waiter_accounted accounted_retire)

text \<open>Once the shutdown's swap has run, nobody enrols any more.\<close>

definition none_stranded :: "conc_queue \<Rightarrow> bool" where
  "none_stranded s \<longleftrightarrow> (tq_shut (cq s) \<longrightarrow> PSwap \<notin># cq_pending s \<longrightarrow> tq_waiting (cq s) = [])"

lemma locked_shut [simp]:
  "tq_shut (snd (add_task_locked m q)) = tq_shut q"
  "tq_shut (snd (try_get_locked q)) = tq_shut q"
  "tq_shut (snd (await_suspend_locked h a tok q)) = tq_shut q"
  "tq_shut (snd (swap_waiters q)) = tq_shut q"
  "tq_shut (drain_cancelled q) = tq_shut q"
  "tq_shut (snd (cancel_waiter_locked now tok q)) = tq_shut q"
  "tq_shut (snd (await_resume now a q)) = tq_shut q"
  by (auto simp: add_task_locked_def try_get_locked_def await_suspend_locked_def swap_waiters_def
      drain_cancelled_def cancel_waiter_locked_def await_resume_def
      split: list.splits option.splits prod.splits)

lemma do_get_queue [simp]:
  "tq_shut (cq (do_get a s)) = tq_shut (cq s)"
  "tq_waiting (cq (do_get a s)) = tq_waiting (cq s)"
  by (auto simp: do_get_def try_get_locked_def split: list.splits)

lemma qstep_none_stranded: "qstep s s' \<Longrightarrow> none_stranded s \<Longrightarrow> none_stranded s'"
  by (induction rule: qstep.induct)
    (auto simp: none_stranded_def locked_waiting_Nil in_diff_count
      split: if_splits dest: in_diffD)

lemma qstep_shut_stable:
  "qstep s s' \<Longrightarrow> tq_shut (cq s) \<Longrightarrow> PSwap \<notin># cq_pending s \<Longrightarrow>
     tq_shut (cq s') \<and> PSwap \<notin># cq_pending s'"
  by (induction rule: qstep.induct) (auto dest: in_diffD)

lemma conc_reachable_inv:
  "conc_reachable s \<Longrightarrow> queue_inv (cq s) \<and> fifo s \<and> waiters_accounted s \<and> none_stranded s"
  unfolding conc_reachable_def
proof (induction rule: rtranclp_induct)
  case base
  then show ?case
    by (simp add: conc_start_def fifo_def waiters_accounted_def none_stranded_def)
      (simp add: empty_queue_def)
next
  case (step s s')
  then show ?case using qstep_queue_inv qstep_fifo qstep_accounted qstep_none_stranded by blast
qed

subsection \<open>Properties of the queue\<close>

text \<open>A run with one waiter and one task: the waiter enrols, then the task is handed to it.\<close>

definition demo_enrolled :: conc_queue where
  "demo_enrolled = do_suspend 4 8 (Some 2) (retire (PSuspend 4 8 (Some 2))
     (spawn (PSuspend 4 8 (Some 2)) conc_start))"

definition demo_handed :: conc_queue where
  "demo_handed = spawn (PAdd []) (do_add (TaskMessage_default 0)
     (retire (PAdd [TaskMessage_default 0]) (spawn (PAdd [TaskMessage_default 0]) demo_enrolled)))"

definition demo_shut :: conc_queue where
  "demo_shut = do_swap (retire PSwap
     (spawn PSwap (demo_enrolled\<lparr>cq := (cq demo_enrolled)\<lparr>tq_shut := True\<rparr>\<rparr>)))"

lemma conc_start_sel [simp]:
  "tq_shut (cq conc_start) = False" "is_cancelled (cq conc_start) tok = False"
  "tq_tasks (cq conc_start) = []" "tq_waiting (cq conc_start) = []"
  "cq_pending conc_start = {#}" "cq_accepted conc_start = []" "cq_delivered conc_start = []"
  by (simp_all add: conc_start_def empty_queue_def is_cancelled_def split: option.splits)

lemma demo_enrolled_sel [simp]:
  "tq_shut (cq demo_enrolled) = False" "is_cancelled (cq demo_enrolled) tok = False"
  "tq_waiting (cq demo_enrolled) = [\<lparr>w_handle = 4, w_awaiter = Some 8, w_token = Some 2\<rparr>]"
  "tq_tasks (cq demo_enrolled) = []"
  "cq_accepted demo_enrolled = []" "cq_delivered demo_enrolled = []"
  "cq_pending demo_enrolled = {#}" "cq_resumed demo_enrolled = {#}"
  by (simp_all add: demo_enrolled_def await_suspend_locked_def do_suspend_def Let_def)
    (simp_all add: is_cancelled_def conc_start_def empty_queue_def split: option.splits)

lemma conc_reachable_step: "conc_reachable s \<Longrightarrow> qstep s t \<Longrightarrow> conc_reachable t"
  unfolding conc_reachable_def by (rule rtranclp.rtrancl_into_rtrancl)

lemma conc_reachable_start [simp]: "conc_reachable conc_start"
  by (simp add: conc_reachable_def)

lemma demo_enrolled_reachable: "conc_reachable demo_enrolled"
  unfolding demo_enrolled_def
  by (rule conc_reachable_step [OF conc_reachable_step [OF conc_reachable_start
          suspend_check [of conc_start "Some 2" 4 8]] suspend_section]) simp_all

lemma demo_handed_reachable: "conc_reachable demo_handed"
  unfolding demo_handed_def
  by (rule conc_reachable_step [OF conc_reachable_step [OF demo_enrolled_reachable
          add_check [of demo_enrolled "[TaskMessage_default 0]"]] add_section]) simp_all

lemma demo_shut_reachable: "conc_reachable demo_shut"
  unfolding demo_shut_def
  by (rule conc_reachable_step [OF conc_reachable_step [OF demo_enrolled_reachable
          shutdown_cas [of demo_enrolled]] swap_section]) simp_all

text \<open>
  C3. The queue is FIFO under every interleaving of its critical sections: at any moment
  the tasks accepted so far are exactly the tasks delivered to coroutines so far, in the
  same order, followed by the tasks still queued. No task is lost, duplicated or
  overtaken, whether it goes through the deque or is handed to a waiter directly.
\<close>

theorem queue_fifo:
  assumes "conc_reachable s"
  shows "cq_accepted s = cq_delivered s @ tq_tasks (cq s)"
  using conc_reachable_inv [OF assms] by (simp add: fifo_def)

theorem queue_fifo_witness:
  "cq_accepted demo_handed = cq_delivered demo_handed @ tq_tasks (cq demo_handed)
   \<and> cq_delivered demo_handed = [TaskMessage_default 0]"
  using queue_fifo [OF demo_handed_reachable]
  by (simp add: demo_handed_def do_add_def add_task_locked_def skip_cancelled_def Let_def)



text \<open>
  C7. Shutdown strands nobody: once \<open>shutdown\<close> has set the flag and has taken the waiters,
  the waiter queue stays empty under every interleaving, also with the sessions that had
  passed the unlocked check of the flag before it was set.
\<close>

theorem shutdown_strands_nobody:
  assumes "conc_reachable s" "tq_shut (cq s)" "PSwap \<notin># cq_pending s" "qstep\<^sup>*\<^sup>* s t"
  shows "tq_waiting (cq t) = [] \<and> tq_shut (cq t)"
proof -
  have "conc_reachable t"
    using assms(1,4) unfolding conc_reachable_def by (rule rtranclp_trans)
  moreover have "tq_shut (cq t) \<and> PSwap \<notin># cq_pending t"
    using assms(4,2,3) by (induction rule: rtranclp_induct) (auto dest: qstep_shut_stable)
  ultimately show ?thesis
    using conc_reachable_inv [of t] by (simp add: none_stranded_def)
qed

theorem shutdown_strands_nobody_witness:
  "tq_waiting (cq demo_shut) = [] \<and> tq_shut (cq demo_shut)"
  using shutdown_strands_nobody [OF demo_shut_reachable, of demo_shut]
  by (simp add: demo_shut_def do_swap_def swap_waiters_def)

end
