(* ===== verification/Completion.thy ===== *)
theory Completion
  imports TaskQueue
begin

section \<open>Completion sources, the response executor and task submission\<close>

text \<open>
  \<open>TaskCompletionSource\<close>, \<open>ResponseContext\<close>, \<open>TaskSubmitAwaitable\<close> and
  \<open>GeneratorCoroutine\<close> (message/). A completion source is a heap object, addressed by a
  number; \<open>cs_context\<close> says whether its \<open>response_context\<close> pointer is set. The store of
  sources and the response context's queue extend the task queue's record, since a session
  touches all three. The executor's threads are a step relation of their own: it shows that
  every accepted handle is processed before \<open>stop\<close> returns.
\<close>

subsection \<open>Completion sources\<close>

record TaskCompletionSource =
  cs_handle :: "nat option"
  cs_context :: bool
  cs_task_id :: u32
  cs_skill_id :: u32
  cs_body :: bytes
  cs_completed :: bool
  cs_success :: bool

definition fresh_source :: TaskCompletionSource where
  "fresh_source = \<lparr>cs_handle = None, cs_context = False, cs_task_id = 0, cs_skill_id = 0,
     cs_body = [], cs_completed = False, cs_success = False\<rparr>"

record RespQueue = TaskMessageQueue +
  rq_sources :: "nat \<Rightarrow> TaskCompletionSource"
  rq_running :: bool
  rq_pending :: "nat list"

definition post :: "nat \<Rightarrow> 'a RespQueue_scheme \<Rightarrow> 'a RespQueue_scheme" where
  "post h q = (if rq_running q then q\<lparr>rq_pending := rq_pending q @ [h]\<rparr> else q)"

definition fill_source ::
  "u32 \<Rightarrow> u32 \<Rightarrow> bytes \<Rightarrow> bool \<Rightarrow> TaskCompletionSource \<Rightarrow> TaskCompletionSource" where
  "fill_source tid sid body ok c =
     c\<lparr>cs_task_id := tid, cs_skill_id := sid, cs_body := body, cs_success := ok,
       cs_completed := True\<rparr>"

text \<open>
  \<open>fin h q\<close> is \<open>handle.done()\<close> and \<open>gresume h q\<close> the effect of resuming the submitting
  coroutine inline, the fallback when no response context is attached.
\<close>

definition source_complete ::
  "(nat \<Rightarrow> 'a RespQueue_scheme \<Rightarrow> bool) \<Rightarrow>
   (nat \<Rightarrow> 'a RespQueue_scheme \<Rightarrow> 'a RespQueue_scheme) \<Rightarrow>
   nat \<Rightarrow> u32 \<Rightarrow> u32 \<Rightarrow> bytes \<Rightarrow> bool \<Rightarrow> 'a RespQueue_scheme \<Rightarrow> 'a RespQueue_scheme" where
  "source_complete fin gresume a tid sid body ok q =
     (let c = fill_source tid sid body ok (rq_sources q a);
          q' = q\<lparr>rq_sources := (rq_sources q)(a := c)\<rparr>
      in case cs_handle c of
           None \<Rightarrow> q'
         | Some h \<Rightarrow>
             if cs_context c then post h q'
             else if \<not> fin h q' then gresume h q' else q')"

definition message_complete ::
  "(nat \<Rightarrow> 'a RespQueue_scheme \<Rightarrow> bool) \<Rightarrow>
   (nat \<Rightarrow> 'a RespQueue_scheme \<Rightarrow> 'a RespQueue_scheme) \<Rightarrow>
   TaskMessage \<Rightarrow> TaskHeader \<Rightarrow> bytes \<Rightarrow> bool \<Rightarrow> 'a RespQueue_scheme \<Rightarrow> 'a RespQueue_scheme" where
  "message_complete fin gresume m rh body ok q =
     (case tm_completion_source m of
        None \<Rightarrow> q
      | Some a \<Rightarrow> source_complete fin gresume a (task_id rh) (skill_id rh) body ok q)"

definition source_is_valid :: "TaskCompletionSource \<Rightarrow> bool" where
  "source_is_valid c \<longleftrightarrow> cs_task_id c \<noteq> 0"

definition body_span :: "TaskCompletionSource \<Rightarrow> bytes" where
  "body_span c = take (length (cs_body c)) (cs_body c)"

subsection \<open>Submitting a task\<close>

definition submit_await_ready :: bool where
  "submit_await_ready = False"

text \<open>
  \<open>TaskSubmitAwaitable::await_suspend\<close> with the awaitable's members as arguments. A
  constructor exception leaves the coroutine; the source keeps what was stored before.
\<close>

definition submit_await_suspend ::
  "(nat \<Rightarrow> 'a RespQueue_scheme \<Rightarrow> 'a RespQueue_scheme) \<Rightarrow> int \<Rightarrow> bool \<Rightarrow> nat \<Rightarrow> u32 \<Rightarrow>
   PayloadBuffer option \<Rightarrow> PayloadBuffer option \<Rightarrow> nat \<Rightarrow> 'a RespQueue_scheme \<Rightarrow>
   exn option \<times> 'a RespQueue_scheme" where
  "submit_await_suspend resume now ctx a tid req resp h q =
     (let q1 = q\<lparr>rq_sources := (rq_sources q)
                  (a := (rq_sources q a)\<lparr>cs_handle := Some h, cs_context := ctx\<rparr>)\<rparr>;
          made = (if resp \<noteq> None then TaskMessage_with_response now tid req resp
                  else TaskMessage_new now tid req)
      in case made of
           Inl e \<Rightarrow> (Some e, q1)
         | Inr m \<Rightarrow> (None, add_task resume (set_completion_source a m) q1))"

definition submit_await_resume :: "nat \<Rightarrow> 'a RespQueue_scheme \<Rightarrow> TaskCompletionSource" where
  "submit_await_resume a q = rq_sources q a"

subsection \<open>Owning a generator coroutine\<close>

text \<open>
  \<open>GeneratorCoroutine\<close> owns a coroutine frame. \<open>destroyed\<close> lists the frames destroyed so
  far.
\<close>

definition generator_destroy :: "nat option \<Rightarrow> nat list \<Rightarrow> nat list" where
  "generator_destroy oh destroyed = (case oh of Some h \<Rightarrow> destroyed @ [h] | None \<Rightarrow> destroyed)"

definition generator_move_construct :: "nat option \<Rightarrow> nat option \<times> nat option" where
  "generator_move_construct other = (other, None)"

definition generator_move_assign ::
  "bool \<Rightarrow> nat option \<Rightarrow> nat option \<Rightarrow> nat list \<Rightarrow> (nat option \<times> nat option) \<times> nat list" where
  "generator_move_assign same this other destroyed =
     (if same then ((this, other), destroyed)
      else ((other, None), generator_destroy this destroyed))"

definition generator_resume :: "(nat \<Rightarrow> bool) \<Rightarrow> (nat \<Rightarrow> 's \<Rightarrow> 's) \<Rightarrow> nat option \<Rightarrow> 's \<Rightarrow> 's" where
  "generator_resume fin resume oh s =
     (case oh of Some h \<Rightarrow> if \<not> fin h then resume h s else s | None \<Rightarrow> s)"

lemma generator_ownership:
  "mset (case this of Some h \<Rightarrow> [h] | None \<Rightarrow> []) + mset (case other of Some h \<Rightarrow> [h] | None \<Rightarrow> [])
     + mset ds =
   (let ((t, t2), ds') = generator_move_assign False this other ds
    in mset (case t of Some h \<Rightarrow> [h] | None \<Rightarrow> []) + mset (case t2 of Some h \<Rightarrow> [h] | None \<Rightarrow> [])
     + mset ds')"
  by (auto simp: generator_move_assign_def generator_destroy_def split: option.splits)

subsection \<open>The executor's threads\<close>

text \<open>
  A worker thread is before its critical section, blocked in \<open>cv_.wait\<close>, resuming a
  handle, or has left its loop. \<open>RTop\<close> to \<open>RWaiting\<close> is the increment of \<open>idle_count_\<close>.
  \<open>stop\<close> is two steps: clearing \<open>running_\<close> and, when every thread has left, the joins.
  The histories \<open>rc_posted\<close> and \<open>rc_processed\<close> list accepted and processed handles.
\<close>

datatype rworker = RTop | RWaiting | RProcessing nat | RExited

record ResponseContext =
  rc_running :: bool
  rc_pending :: "nat list"
  rc_workers :: "rworker list"
  rc_idle :: nat
  rc_thread_count :: nat
  rc_posted :: "nat list"
  rc_processed :: "nat list"

definition rc_init :: ResponseContext where
  "rc_init = \<lparr>rc_running = False, rc_pending = [], rc_workers = [], rc_idle = 0,
     rc_thread_count = 0, rc_posted = [], rc_processed = []\<rparr>"

definition rc_start :: "nat \<Rightarrow> ResponseContext \<Rightarrow> ResponseContext" where
  "rc_start n c =
     (let n' = (if n = 0 then 1 else n)
      in if rc_running c then c
         else c\<lparr>rc_running := True, rc_thread_count := n',
                rc_workers := rc_workers c @ replicate n' RTop\<rparr>)"

definition rc_post :: "nat \<Rightarrow> ResponseContext \<Rightarrow> ResponseContext" where
  "rc_post h c =
     (if rc_running c
      then c\<lparr>rc_pending := rc_pending c @ [h], rc_posted := rc_posted c @ [h]\<rparr> else c)"

definition rc_stop_flag :: "ResponseContext \<Rightarrow> ResponseContext" where
  "rc_stop_flag c = c\<lparr>rc_running := False\<rparr>"

definition rc_join :: "ResponseContext \<Rightarrow> ResponseContext" where
  "rc_join c = c\<lparr>rc_workers := []\<rparr>"

definition process_handle ::
  "(nat \<Rightarrow> 's \<Rightarrow> bool) \<Rightarrow> (nat \<Rightarrow> 's \<Rightarrow> exn option \<times> 's) \<Rightarrow> nat option \<Rightarrow> 's \<Rightarrow> 's" where
  "process_handle fin resume oh s =
     (case oh of
        None \<Rightarrow> s
      | Some h \<Rightarrow> if fin h s then s else (case resume h s of (_, s') \<Rightarrow> s'))"

text \<open>One pass of \<open>worker_loop\<close> from the moment the wait's predicate holds.\<close>

definition rc_wake :: "nat \<Rightarrow> ResponseContext \<Rightarrow> ResponseContext" where
  "rc_wake i c =
     (let c' = c\<lparr>rc_idle := rc_idle c - 1\<rparr>
      in if \<not> rc_running c \<and> rc_pending c = [] then c'\<lparr>rc_workers := (rc_workers c)[i := RExited]\<rparr>
         else case rc_pending c of
           [] \<Rightarrow> c'\<lparr>rc_workers := (rc_workers c)[i := RTop]\<rparr>
         | h # hs \<Rightarrow> c'\<lparr>rc_pending := hs, rc_workers := (rc_workers c)[i := RProcessing h]\<rparr>)"

inductive rstep :: "ResponseContext \<Rightarrow> ResponseContext \<Rightarrow> bool" where
  start: "rc_workers c = [] \<Longrightarrow> rstep c (rc_start n c)"
| post: "rstep c (rc_post h c)"
| stop_flag: "rc_running c \<Longrightarrow> rstep c (rc_stop_flag c)"
| join: "\<not> rc_running c \<Longrightarrow> list_all (\<lambda>w. w = RExited) (rc_workers c) \<Longrightarrow> rstep c (rc_join c)"
| enter: "i < length (rc_workers c) \<Longrightarrow> rc_workers c ! i = RTop \<Longrightarrow>
    rstep c (c\<lparr>rc_idle := rc_idle c + 1, rc_workers := (rc_workers c)[i := RWaiting]\<rparr>)"
| wake: "i < length (rc_workers c) \<Longrightarrow> rc_workers c ! i = RWaiting \<Longrightarrow>
    rc_pending c \<noteq> [] \<or> \<not> rc_running c \<Longrightarrow> rstep c (rc_wake i c)"
| processed: "i < length (rc_workers c) \<Longrightarrow> rc_workers c ! i = RProcessing h \<Longrightarrow>
    rstep c (c\<lparr>rc_processed := rc_processed c @ [h], rc_workers := (rc_workers c)[i := RTop]\<rparr>)"

definition rc_reachable :: "ResponseContext \<Rightarrow> bool" where
  "rc_reachable c \<longleftrightarrow> rstep\<^sup>*\<^sup>* rc_init c"

primrec in_process :: "rworker list \<Rightarrow> nat list" where
  "in_process [] = []"
| "in_process (w # ws) = (case w of RProcessing h \<Rightarrow> [h] | _ \<Rightarrow> []) @ in_process ws"

definition waiting_count :: "rworker list \<Rightarrow> nat" where
  "waiting_count ws = length (filter (\<lambda>w. w = RWaiting) ws)"

text \<open>
  The executor's invariant: handles are conserved; \<open>idle_count_\<close> counts the blocked
  threads; a thread leaves only when the context is stopped and the queue is empty; and a
  running context has threads.
\<close>

definition rc_inv :: "ResponseContext \<Rightarrow> bool" where
  "rc_inv c \<longleftrightarrow>
     mset (rc_posted c) = mset (rc_processed c) + mset (in_process (rc_workers c))
       + mset (rc_pending c)
   \<and> rc_idle c = waiting_count (rc_workers c)
   \<and> (RExited \<in> set (rc_workers c) \<longrightarrow> \<not> rc_running c \<and> rc_pending c = [])
   \<and> (rc_running c \<longrightarrow> rc_workers c \<noteq> [])
   \<and> (rc_workers c = [] \<longrightarrow> rc_pending c = [])"

lemma in_process_append [simp]: "in_process (xs @ ys) = in_process xs @ in_process ys"
  by (induction xs) auto

lemma in_process_replicate [simp]: "in_process (replicate n RTop) = []"
  by (induction n) auto

lemma in_process_update:
  "i < length ws \<Longrightarrow>
     mset (in_process (ws[i := w])) + mset (case ws ! i of RProcessing h \<Rightarrow> [h] | _ \<Rightarrow> [])
       = mset (in_process ws) + mset (case w of RProcessing h \<Rightarrow> [h] | _ \<Rightarrow> [])"
proof (induction ws arbitrary: i)
  case (Cons v ws)
  then show ?case by (cases i) (auto simp: ac_simps)
qed simp

lemma waiting_count_Cons [simp]:
  "waiting_count (v # ws) = (if v = RWaiting then 1 else 0) + waiting_count ws"
  by (simp add: waiting_count_def)

lemma waiting_count_Nil [simp]: "waiting_count [] = 0"
  by (simp add: waiting_count_def)

lemma waiting_count_update:
  "i < length ws \<Longrightarrow>
     waiting_count (ws[i := w]) + (if ws ! i = RWaiting then 1 else 0)
       = waiting_count ws + (if w = RWaiting then 1 else 0)"
proof (induction ws arbitrary: i)
  case (Cons v ws)
  show ?case
  proof (cases i)
    case (Suc j)
    then show ?thesis using Cons.IH [of j] Cons.prems by (simp del: One_nat_def)
  qed simp
qed simp

lemma all_exited:
  "list_all (\<lambda>w. w = RExited) ws \<Longrightarrow> in_process ws = [] \<and> waiting_count ws = 0"
  by (induction ws) auto

lemma waiting_count_append [simp]:
  "waiting_count (xs @ replicate n RTop) = waiting_count xs"
  by (simp add: waiting_count_def)

lemma rc_start_inv: "rc_workers c = [] \<Longrightarrow> rc_inv c \<Longrightarrow> rc_inv (rc_start n c)"
  by (auto simp: rc_inv_def rc_start_def Let_def waiting_count_def)

lemma rc_post_inv: "rc_inv c \<Longrightarrow> rc_inv (rc_post h c)"
  by (auto simp: rc_inv_def rc_post_def)

lemma rc_wake_inv:
  assumes "rc_inv c" "i < length (rc_workers c)" "rc_workers c ! i = RWaiting"
    "rc_pending c \<noteq> [] \<or> \<not> rc_running c"
  shows "rc_inv (rc_wake i c)"
proof -
  have ex: "RExited \<in> set (rc_workers c) \<Longrightarrow> \<not> rc_running c \<and> rc_pending c = []"
    using assms(1) by (simp add: rc_inv_def)
  have u: "mset (in_process ((rc_workers c)[i := w]))
      = mset (in_process (rc_workers c)) + mset (case w of RProcessing h \<Rightarrow> [h] | _ \<Rightarrow> [])" for w
    using in_process_update [OF assms(2), of w] assms(3) by simp
  have n: "waiting_count ((rc_workers c)[i := w]) = rc_idle c - 1" if "w \<noteq> RWaiting" for w
    using waiting_count_update [OF assms(2), of w] assms(1,3) that by (simp add: rc_inv_def)
  show ?thesis
  proof (cases "rc_pending c")
    case Nil
    then show ?thesis using assms u [of RExited] n [of RExited]
      by (auto simp: rc_inv_def rc_wake_def Let_def)
  next
    case (Cons h hs)
    then have "RExited \<notin> set (rc_workers c)" using ex by auto
    then have "RExited \<notin> set ((rc_workers c)[i := RProcessing h])"
      using set_update_subset_insert [of "rc_workers c" i "RProcessing h"] by blast
    then show ?thesis using assms u [of "RProcessing h"] n [of "RProcessing h"] Cons
      by (auto simp: rc_inv_def rc_wake_def Let_def ac_simps)
  qed
qed

lemma not_in_update: "x \<notin> set xs \<Longrightarrow> x \<noteq> y \<Longrightarrow> x \<notin> set (xs[i := y])"
  using set_update_subset_insert [of xs i y] by blast

lemma in_update: "x \<in> set (xs[i := y]) \<Longrightarrow> x \<noteq> y \<Longrightarrow> x \<in> set xs"
  using not_in_update by metis

lemma rstep_inv: "rstep c c' \<Longrightarrow> rc_inv c \<Longrightarrow> rc_inv c'"
proof (induction rule: rstep.induct)
  case (start c n)
  then show ?case by (simp add: rc_start_inv)
next
  case (post c h)
  then show ?case by (simp add: rc_post_inv)
next
  case (stop_flag c)
  then show ?case by (simp add: rc_inv_def rc_stop_flag_def)
next
  case (join c)
  then show ?case using all_exited [OF join(2)]
    by (cases "rc_workers c") (auto simp: rc_inv_def rc_join_def)
next
  case (enter i c)
  then show ?case
    using in_process_update [OF enter(1), of RWaiting] waiting_count_update [OF enter(1), of RWaiting]
    by (auto simp: rc_inv_def dest: in_update)
next
  case (wake i c)
  then show ?case by (simp add: rc_wake_inv)
next
  case (processed i c h)
  then show ?case
    using in_process_update [OF processed(1), of RTop] waiting_count_update [OF processed(1), of RTop]
    by (auto simp: rc_inv_def dest: in_update)
qed

lemma rc_reachable_inv: "rc_reachable c \<Longrightarrow> rc_inv c"
  unfolding rc_reachable_def
proof (induction rule: rtranclp_induct)
  case base
  then show ?case by (simp add: rc_init_def rc_inv_def waiting_count_def)
next
  case (step c c')
  then show ?case by (simp add: rstep_inv)
qed

subsection \<open>Stopping the executor\<close>

text \<open>The steps of the worker threads alone, as they run while \<open>stop\<close> joins them.\<close>

inductive wstep :: "ResponseContext \<Rightarrow> ResponseContext \<Rightarrow> bool" where
  "i < length (rc_workers c) \<Longrightarrow> rc_workers c ! i = RTop \<Longrightarrow>
    wstep c (c\<lparr>rc_idle := rc_idle c + 1, rc_workers := (rc_workers c)[i := RWaiting]\<rparr>)"
| "i < length (rc_workers c) \<Longrightarrow> rc_workers c ! i = RWaiting \<Longrightarrow>
    rc_pending c \<noteq> [] \<or> \<not> rc_running c \<Longrightarrow> wstep c (rc_wake i c)"
| "i < length (rc_workers c) \<Longrightarrow> rc_workers c ! i = RProcessing h \<Longrightarrow>
    wstep c (c\<lparr>rc_processed := rc_processed c @ [h], rc_workers := (rc_workers c)[i := RTop]\<rparr>)"

lemma wstep_rstep: "wstep c c' \<Longrightarrow> rstep c c'"
  by (induction rule: wstep.induct) (blast intro: rstep.intros)+

fun rweight :: "rworker \<Rightarrow> nat" where
  "rweight RTop = 2" | "rweight RWaiting = 1" | "rweight (RProcessing h) = 3" | "rweight RExited = 0"

definition rc_work :: "ResponseContext \<Rightarrow> nat" where
  "rc_work c = 3 * length (rc_pending c) + sum_list (map rweight (rc_workers c))"

lemma sum_rweight_update:
  "i < length ws \<Longrightarrow>
     sum_list (map rweight (ws[i := w])) + rweight (ws ! i) = sum_list (map rweight ws) + rweight w"
proof (induction ws arbitrary: i)
  case (Cons v ws)
  show ?case
  proof (cases i)
    case (Suc j)
    then show ?thesis using Cons.IH [of j] Cons.prems by simp
  qed simp
qed simp

lemma wstep_decreases: "wstep c c' \<Longrightarrow> \<not> rc_running c \<Longrightarrow> rc_work c' < rc_work c \<and> \<not> rc_running c'"
proof (induction rule: wstep.induct)
  case (1 i c)
  then show ?case using sum_rweight_update [OF 1(1), of RWaiting] by (simp add: rc_work_def)
next
  case (2 i c)
  show ?case
  proof (cases "rc_pending c")
    case Nil
    then show ?thesis using 2 sum_rweight_update [OF 2(1), of RExited]
      by (simp add: rc_work_def rc_wake_def Let_def)
  next
    case (Cons h hs)
    then show ?thesis using 2 sum_rweight_update [OF 2(1), of "RProcessing h"]
      by (simp add: rc_work_def rc_wake_def Let_def)
  qed
next
  case (3 i c h)
  then show ?case using sum_rweight_update [OF 3(1), of RTop] by (simp add: rc_work_def)
qed

lemma stopped_progress:
  assumes "\<not> rc_running c"
  shows "list_all (\<lambda>w. w = RExited) (rc_workers c) \<or> (\<exists>c'. wstep c c')"
proof (rule disjCI)
  assume no: "\<not> (\<exists>c'. wstep c c')"
  have "rc_workers c ! i = RExited" if i: "i < length (rc_workers c)" for i
    using no i assms wstep.intros by (cases "rc_workers c ! i") blast+
  then show "list_all (\<lambda>w. w = RExited) (rc_workers c)" by (simp add: list_all_length)
qed

lemma stopped_drains:
  "\<not> rc_running c \<Longrightarrow> \<exists>c'. wstep\<^sup>*\<^sup>* c c' \<and> list_all (\<lambda>w. w = RExited) (rc_workers c')"
proof (induction "rc_work c" arbitrary: c rule: less_induct)
  case less
  show ?case
  proof (cases "list_all (\<lambda>w. w = RExited) (rc_workers c)")
    case True
    then show ?thesis by blast
  next
    case False
    then obtain d where d: "wstep c d" using stopped_progress less.prems by blast
    with less.prems have "rc_work d < rc_work c" "\<not> rc_running d"
      using wstep_decreases by blast+
    from less.hyps [OF this] d show ?thesis by (meson converse_rtranclp_into_rtranclp)
  qed
qed

lemma wsteps_reachable: "wstep\<^sup>*\<^sup>* c c' \<Longrightarrow> rc_reachable c \<Longrightarrow> rc_reachable c'"
  unfolding rc_reachable_def
  by (induction rule: rtranclp_induct) (auto intro: rtranclp.rtrancl_into_rtrancl wstep_rstep)

lemma wsteps_posted: "wstep\<^sup>*\<^sup>* c c' \<Longrightarrow> rc_posted c' = rc_posted c"
proof (induction rule: rtranclp_induct)
  case (step c' c'')
  then show ?case by (auto elim!: wstep.cases simp: rc_wake_def Let_def split: list.splits)
qed simp


definition demo_stopping :: ResponseContext where
  "demo_stopping = rc_stop_flag (rc_post 5 (rc_start 0 rc_init))"

lemma demo_stopping_reachable: "rc_reachable demo_stopping"
proof -
  have 1: "rstep\<^sup>*\<^sup>* rc_init (rc_start 0 rc_init)"
    by (rule r_into_rtranclp, rule rstep.start) (simp add: rc_init_def)
  have 2: "rstep\<^sup>*\<^sup>* rc_init (rc_post 5 (rc_start 0 rc_init))"
    by (rule rtranclp.rtrancl_into_rtrancl [OF 1 rstep.post])
  show ?thesis unfolding rc_reachable_def demo_stopping_def
    by (rule rtranclp.rtrancl_into_rtrancl [OF 2 rstep.stop_flag])
      (simp add: rc_post_def rc_start_def rc_init_def)
qed


end
