(* ===== verification/ZtErrno.thy ===== *)
theory ZtErrno
  imports Prelude
begin

section \<open>Errno normalisation of the ZeroTier backend\<close>

text \<open>
  \<open>ZeroTierErrnoCompat\<close> (transport/socket/zerotier/ZeroTierErrnoCompat.hpp) and
  \<open>ZeroTierSocket::translate_error\<close>. The host errno values are those of Linux; the \<open>ZTS_\<close>
  values are the ones the header defines.
\<close>

subsection \<open>Constants\<close>

definition EBADF :: int where "EBADF = 9"
definition EAGAIN :: int where "EAGAIN = 11"
definition EWOULDBLOCK :: int where "EWOULDBLOCK = 11"
definition ENOMEM :: int where "ENOMEM = 12"
definition EINVAL :: int where "EINVAL = 22"
definition EPROTONOSUPPORT :: int where "EPROTONOSUPPORT = 93"
definition EOPNOTSUPP :: int where "EOPNOTSUPP = 95"
definition EADDRINUSE :: int where "EADDRINUSE = 98"
definition EADDRNOTAVAIL :: int where "EADDRNOTAVAIL = 99"
definition ENETDOWN :: int where "ENETDOWN = 100"
definition ENETUNREACH :: int where "ENETUNREACH = 101"
definition ECONNABORTED :: int where "ECONNABORTED = 103"
definition ECONNRESET :: int where "ECONNRESET = 104"
definition ENOBUFS :: int where "ENOBUFS = 105"
definition EISCONN :: int where "EISCONN = 106"
definition ENOTCONN :: int where "ENOTCONN = 107"
definition ESHUTDOWN :: int where "ESHUTDOWN = 108"
definition ETIMEDOUT :: int where "ETIMEDOUT = 110"
definition ECONNREFUSED :: int where "ECONNREFUSED = 111"
definition EHOSTUNREACH :: int where "EHOSTUNREACH = 113"
definition EALREADY :: int where "EALREADY = 114"
definition EINPROGRESS :: int where "EINPROGRESS = 115"

lemmas host_errno = EBADF_def EAGAIN_def EWOULDBLOCK_def ENOMEM_def EINVAL_def
  EPROTONOSUPPORT_def EOPNOTSUPP_def EADDRINUSE_def EADDRNOTAVAIL_def ENETDOWN_def
  ENETUNREACH_def ECONNABORTED_def ECONNRESET_def ENOBUFS_def EISCONN_def ENOTCONN_def
  ESHUTDOWN_def ETIMEDOUT_def ECONNREFUSED_def EHOSTUNREACH_def EALREADY_def EINPROGRESS_def

definition ZTS_EBADF :: int where "ZTS_EBADF = 9"
definition ZTS_EAGAIN :: int where "ZTS_EAGAIN = 11"
definition ZTS_EWOULDBLOCK :: int where "ZTS_EWOULDBLOCK = ZTS_EAGAIN"
definition ZTS_ENOMEM :: int where "ZTS_ENOMEM = 12"
definition ZTS_EINVAL :: int where "ZTS_EINVAL = 22"
definition ZTS_EADDRINUSE :: int where "ZTS_EADDRINUSE = 100"
definition ZTS_EADDRNOTAVAIL :: int where "ZTS_EADDRNOTAVAIL = 101"
definition ZTS_ECONNREFUSED :: int where "ZTS_ECONNREFUSED = 107"
definition ZTS_ECONNRESET :: int where "ZTS_ECONNRESET = 108"
definition ZTS_EHOSTUNREACH :: int where "ZTS_EHOSTUNREACH = 110"
definition ZTS_EISCONN :: int where "ZTS_EISCONN = 113"
definition ZTS_EINPROGRESS :: int where "ZTS_EINPROGRESS = 115"
definition ZTS_ENETUNREACH :: int where "ZTS_ENETUNREACH = 118"
definition ZTS_ENOBUFS :: int where "ZTS_ENOBUFS = 119"
definition ZTS_ENOTCONN :: int where "ZTS_ENOTCONN = 126"
definition ZTS_ETIMEDOUT :: int where "ZTS_ETIMEDOUT = 138"
definition ZTS_ESHUTDOWN :: int where "ZTS_ESHUTDOWN = 140"

lemmas zts_errno = ZTS_EBADF_def ZTS_EAGAIN_def ZTS_EWOULDBLOCK_def ZTS_ENOMEM_def ZTS_EINVAL_def
  ZTS_EADDRINUSE_def ZTS_EADDRNOTAVAIL_def ZTS_ECONNREFUSED_def ZTS_ECONNRESET_def
  ZTS_EHOSTUNREACH_def ZTS_EISCONN_def ZTS_EINPROGRESS_def ZTS_ENETUNREACH_def ZTS_ENOBUFS_def
  ZTS_ENOTCONN_def ZTS_ETIMEDOUT_def ZTS_ESHUTDOWN_def

lemmas errno_defs = host_errno zts_errno

subsection \<open>Operations\<close>

definition normalize_errno :: "int \<Rightarrow> int" where
  "normalize_errno e =
     (if e = ZTS_EINPROGRESS then EINPROGRESS
      else if e = ZTS_EAGAIN \<or> e = ZTS_EWOULDBLOCK then EWOULDBLOCK
      else if e = ZTS_ECONNREFUSED then ECONNREFUSED
      else if e = ZTS_ECONNRESET then ECONNRESET
      else if e = ZTS_ENOTCONN then ENOTCONN
      else if e = ZTS_ETIMEDOUT then ETIMEDOUT
      else if e = ZTS_EHOSTUNREACH then EHOSTUNREACH
      else if e = ZTS_ENETUNREACH then ENETUNREACH
      else if e = ZTS_EADDRINUSE then EADDRINUSE
      else if e = ZTS_EADDRNOTAVAIL then EADDRNOTAVAIL
      else if e = ZTS_EBADF then EBADF
      else if e = ZTS_EINVAL then EINVAL
      else if e = ZTS_ENOMEM then ENOMEM
      else if e = ZTS_ENOBUFS then ENOBUFS
      else if e = ZTS_EISCONN then EISCONN
      else if e = ZTS_ESHUTDOWN then ESHUTDOWN
      else e)"

definition is_would_block_errno :: "int \<Rightarrow> bool" where
  "is_would_block_errno e =
     (if e = EAGAIN \<or> e = EWOULDBLOCK \<or> e = EINPROGRESS then True
      else if e = ZTS_EAGAIN \<or> e = ZTS_EWOULDBLOCK \<or> e = ZTS_EINPROGRESS then True
      else let n = normalize_errno e in n = EAGAIN \<or> n = EWOULDBLOCK \<or> n = EINPROGRESS)"

definition errno_to_string :: "int \<Rightarrow> string" where
  "errno_to_string e =
     (let n = normalize_errno e in
      if n = EINPROGRESS then ''Operation in progress''
      else if n = EWOULDBLOCK then ''Operation would block''
      else if n = ECONNREFUSED then ''Connection refused''
      else if n = ECONNRESET then ''Connection reset''
      else if n = ENOTCONN then ''Socket not connected''
      else if n = ETIMEDOUT then ''Operation timed out''
      else if n = EHOSTUNREACH then ''Host unreachable''
      else if n = ENETUNREACH then ''Network unreachable''
      else if n = EADDRINUSE then ''Address already in use''
      else if n = EADDRNOTAVAIL then ''Address not available''
      else if n = EBADF then ''Bad file descriptor''
      else if n = EINVAL then ''Invalid argument''
      else if n = ENOMEM then ''Not enough memory''
      else if n = ENOBUFS then ''No buffer space available''
      else if n = EISCONN then ''Socket already connected''
      else if n = ESHUTDOWN then ''Socket shut down''
      else ''Unknown error'')"

definition translate_error :: "int \<Rightarrow> errc" where
  "translate_error e =
     (let n = normalize_errno e in
      if n = EINPROGRESS then operation_in_progress
      else if n = EAGAIN then resource_unavailable_try_again
      else if n = EALREADY then operation_in_progress
      else if n = ECONNABORTED then connection_aborted
      else if n = ENETDOWN then network_unreachable
      else if n = EPROTONOSUPPORT then protocol_not_supported
      else if n = EOPNOTSUPP then function_not_supported
      else if n = ECONNREFUSED then connection_refused
      else if n = ETIMEDOUT then timed_out
      else if n = ECONNRESET then connection_reset
      else if n = EHOSTUNREACH then host_unreachable
      else if n = ENETUNREACH then network_unreachable
      else if n = ENOTCONN then not_connected
      else if n = EADDRINUSE then address_in_use
      else if n = EADDRNOTAVAIL then address_not_available
      else if n = EBADF then bad_file_descriptor
      else if n = EINVAL then invalid_argument
      else if n = ENOMEM then not_enough_memory
      else if n = ENOBUFS then no_buffer_space
      else if n = EISCONN then already_connected
      else if n = ESHUTDOWN then connection_aborted
      else io_error)"

subsection \<open>What the table guarantees\<close>

lemma would_block_iff: "is_would_block_errno e \<longleftrightarrow> e = 11 \<or> e = 115"
  by (auto simp: is_would_block_errno_def normalize_errno_def errno_defs Let_def split: if_splits)

lemma translate_try_again_iff: "translate_error e = resource_unavailable_try_again \<longleftrightarrow> e = 11"
  by (auto simp: translate_error_def normalize_errno_def errno_defs Let_def split: if_splits)

lemma translate_in_progress_iff: "translate_error e = operation_in_progress \<longleftrightarrow> e = 114 \<or> e = 115"
  by (auto simp: translate_error_def normalize_errno_def errno_defs Let_def split: if_splits)

text \<open>
  Every libzt errno constant is translated to the \<open>std::errc\<close> of its name, and an error
  that is not a would-block condition is never translated to "try again". So the stream
  loops cannot mistake a failure for a retry, or report a retry as a failure.
\<close>

theorem zts_errors_translated:
  "map translate_error [ZTS_ECONNREFUSED, ZTS_ECONNRESET, ZTS_ENOTCONN, ZTS_ETIMEDOUT,
      ZTS_EHOSTUNREACH, ZTS_ENETUNREACH, ZTS_EADDRINUSE, ZTS_EADDRNOTAVAIL, ZTS_EBADF,
      ZTS_EINVAL, ZTS_ENOMEM, ZTS_ENOBUFS, ZTS_EISCONN, ZTS_ESHUTDOWN]
   = [connection_refused, connection_reset, not_connected, timed_out, host_unreachable,
      network_unreachable, address_in_use, address_not_available, bad_file_descriptor,
      invalid_argument, not_enough_memory, no_buffer_space, already_connected,
      connection_aborted]
   \<and> {e. translate_error e = resource_unavailable_try_again} \<subseteq> {e. is_would_block_errno e}
   \<and> {e. is_would_block_errno e} = {ZTS_EAGAIN, ZTS_EINPROGRESS}"
proof -
  have "{e. is_would_block_errno e} = {ZTS_EAGAIN, ZTS_EINPROGRESS}"
    by (auto simp: would_block_iff errno_defs)
  moreover have "{e. translate_error e = resource_unavailable_try_again}
      \<subseteq> {e. is_would_block_errno e}"
    by (auto simp: would_block_iff translate_try_again_iff)
  ultimately show ?thesis
    by (simp add: translate_error_def normalize_errno_def errno_defs)
qed

text \<open>
  The normalised values collide with the libzt numbering: normalising is not
  idempotent, and several host errno values are taken for other errors. A host
  \<open>ETIMEDOUT\<close> (110) is read as \<open>EHOSTUNREACH\<close>, a host \<open>ENOTCONN\<close> (107) as
  \<open>ECONNREFUSED\<close>, a host \<open>ESHUTDOWN\<close> (108) as \<open>ECONNRESET\<close> and a host
  \<open>EHOSTUNREACH\<close> (113) as \<open>EISCONN\<close>.
\<close>

theorem normalize_errno_collisions:
  "normalize_errno (normalize_errno ZTS_ETIMEDOUT) \<noteq> normalize_errno ZTS_ETIMEDOUT
   \<and> normalize_errno ETIMEDOUT = EHOSTUNREACH \<and> normalize_errno ENOTCONN = ECONNREFUSED
   \<and> normalize_errno ESHUTDOWN = ECONNRESET \<and> normalize_errno EHOSTUNREACH = EISCONN"
  by (simp add: normalize_errno_def errno_defs)

end
