(* ===== verification/ZtNode.thy ===== *)
theory ZtNode
  imports Prelude "HOL-Library.AList"
begin

section \<open>The ZeroTier node service\<close>

text \<open>
  \<open>ZeroTierNodeService\<close> (transport/socket/zerotier/ZeroTierNodeService.hpp, .cpp): the
  process-wide node, the reference counts of joined networks and the leases that own the
  references. The record holds the members of the singleton together with the static option
  storage of the file and the path of the loaded configuration (\<open>shared_opts::Options\<close>).

  libzt, the file system and the clock are not part of the repository: their calls are the
  fields of \<open>node_api\<close>, functions of a network state of type \<open>'k\<close>. All operations but
  \<open>shutdown\<close> hold the mutex of the service from beginning to end; \<open>shutdown\<close> only stores
  an atomic flag and may run while another thread waits, so \<open>sleep_ms\<close> also tells whether
  it was called in the meantime. The waiting loops may run for ever; they take the number
  of passes allowed and return \<open>None\<close> when it is used up.

  The locale \<open>libzt_node\<close> states what the code relies on of libzt. Under it
  \<open>leases_keep_networks_joined\<close> shows that the reference counts are exact and that a held
  lease keeps its network joined.
\<close>

record 'k node_api =
  zts_node_is_online :: "'k \<Rightarrow> bool"
  zts_node_start :: "'k \<Rightarrow> int \<times> 'k"
  zts_node_stop :: "'k \<Rightarrow> 'k"
  zts_init_from_storage :: "string \<Rightarrow> 'k \<Rightarrow> 'k"
  zts_net_get_status :: "u64 \<Rightarrow> 'k \<Rightarrow> int"
  zts_net_join :: "u64 \<Rightarrow> 'k \<Rightarrow> int \<times> 'k"
  zts_net_leave :: "u64 \<Rightarrow> 'k \<Rightarrow> 'k"
  zts_addr_is_assigned :: "u64 \<Rightarrow> bool \<Rightarrow> 'k \<Rightarrow> bool"
  zts_addr_get_str :: "u64 \<Rightarrow> bool \<Rightarrow> 'k \<Rightarrow> string option"
  steady_clock_ms :: "'k \<Rightarrow> nat"
  sleep_ms :: "nat \<Rightarrow> 'k \<Rightarrow> bool \<times> 'k"
  fs_is_relative :: "string \<Rightarrow> bool"
  fs_append :: "string \<Rightarrow> string \<Rightarrow> string"
  fs_absolute :: "string \<Rightarrow> string option"
  fs_exists :: "string \<Rightarrow> bool"
  fs_is_directory :: "string \<Rightarrow> bool"
  fs_weakly_canonical :: "string \<Rightarrow> string option"
  fs_parent_path :: "string \<Rightarrow> string option"

definition ZTS_ERR_OK :: int where "ZTS_ERR_OK = 0"
definition ZTS_NETWORK_STATUS_OK :: int where "ZTS_NETWORK_STATUS_OK = 1"

record ZeroTierNodeService =
  join_counts :: "(u64 \<times> int) list"
  node_started :: bool
  identity_path :: "string option"
  node_shutdown_requested :: bool
  g_identity_path :: "string option"
  g_default_network_hex :: "string option"
  loaded_config_file :: "string option"

definition node_service_new :: "string option \<Rightarrow> ZeroTierNodeService" where
  "node_service_new cfg =
     \<lparr>join_counts = [], node_started = False, identity_path = None,
      node_shutdown_requested = False, g_identity_path = None, g_default_network_hex = None,
      loaded_config_file = cfg\<rparr>"

subsection \<open>Options\<close>

text \<open>The option provider: \<open>ident\<close> and \<open>defnet\<close> are the string values of the JSON
  configuration, if present. The command line parser writes the same storage afterwards.\<close>

definition zerotier_provider ::
  "string option \<Rightarrow> string option \<Rightarrow> ZeroTierNodeService \<Rightarrow> ZeroTierNodeService" where
  "zerotier_provider ident defnet svc =
     (let ident_default = (case ident of Some i \<Rightarrow> i | None \<Rightarrow> []);
          defnet_default = (case defnet of Some d \<Rightarrow> d | None \<Rightarrow> []);
          svc1 = (if ident_default \<noteq> [] then svc\<lparr>g_identity_path := Some ident_default\<rparr> else svc)
      in if defnet_default \<noteq> [] then svc1\<lparr>g_default_network_hex := Some defnet_default\<rparr> else svc1)"

definition get_config_dir :: "'k node_api \<Rightarrow> ZeroTierNodeService \<Rightarrow> string option" where
  "get_config_dir api svc =
     (case loaded_config_file svc of Some p \<Rightarrow> fs_parent_path api p | None \<Rightarrow> None)"

subsection \<open>Starting the node\<close>

definition service_shutdown :: "ZeroTierNodeService \<Rightarrow> ZeroTierNodeService" where
  "service_shutdown svc = svc\<lparr>node_shutdown_requested := True\<rparr>"

text \<open>A pause of the calling thread, during which another one may request the shutdown.\<close>

definition pause :: "'k node_api \<Rightarrow> nat \<Rightarrow> ZeroTierNodeService \<Rightarrow> 'k \<Rightarrow> ZeroTierNodeService \<times> 'k" where
  "pause api d svc k =
     (case sleep_ms api d k of (sh, k') \<Rightarrow> (if sh then service_shutdown svc else svc, k'))"

definition resolve_identity_path :: "'k node_api \<Rightarrow> ZeroTierNodeService \<Rightarrow> bool \<times> ZeroTierNodeService" where
  "resolve_identity_path api svc =
     (case identity_path svc of
        None \<Rightarrow> (False, svc)
      | Some p0 \<Rightarrow>
          let p = (if fs_is_relative api p0
                   then case get_config_dir api svc of Some d \<Rightarrow> fs_append api d p0 | None \<Rightarrow> p0
                   else p0)
          in case fs_absolute api p of
               None \<Rightarrow> (False, svc\<lparr>identity_path := None\<rparr>)
             | Some abs_p \<Rightarrow>
                 if fs_exists api abs_p \<and> fs_is_directory api abs_p then
                   (True, svc\<lparr>identity_path :=
                      Some (case fs_weakly_canonical api abs_p of Some c \<Rightarrow> c | None \<Rightarrow> abs_p)\<rparr>)
                 else (False, svc\<lparr>identity_path := None\<rparr>))"

fun wait_online ::
  "'k node_api \<Rightarrow> nat \<Rightarrow> ZeroTierNodeService \<Rightarrow> 'k \<Rightarrow> (unit result \<times> ZeroTierNodeService \<times> 'k) option" where
  "wait_online api 0 svc k = None"
| "wait_online api (Suc fuel) svc k =
     (if zts_node_is_online api k then Some (Inr (), svc, k)
      else if node_shutdown_requested svc then Some (Inl runtime_error, svc, k)
      else case pause api 10 svc k of (svc', k') \<Rightarrow> wait_online api fuel svc' k')"

definition apply_identity :: "'k node_api \<Rightarrow> ZeroTierNodeService \<Rightarrow> 'k \<Rightarrow> ZeroTierNodeService \<times> 'k" where
  "apply_identity api svc k =
     (let svc1 = (if identity_path svc = None
                  then case g_identity_path svc of
                         Some p \<Rightarrow> if p \<noteq> [] then svc\<lparr>identity_path := Some p\<rparr> else svc
                       | None \<Rightarrow> svc
                  else svc)
      in if identity_path svc1 = None then (svc1, k)
         else case resolve_identity_path api svc1 of
           (have_identity, svc2) \<Rightarrow>
             (svc2, case identity_path svc2 of
                      Some p \<Rightarrow> if have_identity then zts_init_from_storage api p k else k
                    | None \<Rightarrow> k))"

definition ensure_node_started_locked ::
  "'k node_api \<Rightarrow> nat \<Rightarrow> ZeroTierNodeService \<Rightarrow> 'k \<Rightarrow> (unit result \<times> ZeroTierNodeService \<times> 'k) option" where
  "ensure_node_started_locked api fuel svc k =
     (if node_started svc then Some (Inr (), svc, k)
      else if zts_node_is_online api k then Some (Inr (), svc\<lparr>node_started := True\<rparr>, k)
      else case apply_identity api svc k of
        (svc1, k1) \<Rightarrow>
          (case zts_node_start api k1 of
             (err, k2) \<Rightarrow>
               if err \<noteq> ZTS_ERR_OK then Some (Inl runtime_error, svc1, k2)
               else case wait_online api fuel svc1 k2 of
                 None \<Rightarrow> None
               | Some (Inl e, svc3, k3) \<Rightarrow> Some (Inl e, svc3, k3)
               | Some (Inr _, svc3, k3) \<Rightarrow> Some (Inr (), svc3\<lparr>node_started := True\<rparr>, k3)))"

subsection \<open>Joining and leaving networks\<close>

definition count_of :: "ZeroTierNodeService \<Rightarrow> u64 \<Rightarrow> int" where
  "count_of svc n = (case map_of (join_counts svc) n of Some c \<Rightarrow> c | None \<Rightarrow> 0)"

text \<open>\<open>join_counts_[net_id]\<close> inserts a zero for a missing key.\<close>

definition touch :: "u64 \<Rightarrow> ZeroTierNodeService \<Rightarrow> ZeroTierNodeService" where
  "touch n svc = svc\<lparr>join_counts := AList.update n (count_of svc n) (join_counts svc)\<rparr>"

definition increment :: "u64 \<Rightarrow> ZeroTierNodeService \<Rightarrow> ZeroTierNodeService" where
  "increment n svc = svc\<lparr>join_counts := AList.update n (count_of svc n + 1) (join_counts svc)\<rparr>"

fun wait_joined ::
  "'k node_api \<Rightarrow> u64 \<Rightarrow> nat \<Rightarrow> ZeroTierNodeService \<Rightarrow> 'k \<Rightarrow>
   (unit result \<times> ZeroTierNodeService \<times> 'k) option" where
  "wait_joined api n 0 svc k = None"
| "wait_joined api n (Suc fuel) svc k =
     (if node_shutdown_requested svc then Some (Inl runtime_error, svc, k)
      else if zts_net_get_status api n k = ZTS_NETWORK_STATUS_OK then Some (Inr (), svc, k)
      else case pause api 50 svc k of (svc', k') \<Rightarrow> wait_joined api n fuel svc' k')"

fun wait_address ::
  "'k node_api \<Rightarrow> u64 \<Rightarrow> nat \<Rightarrow> nat \<Rightarrow> ZeroTierNodeService \<Rightarrow> 'k \<Rightarrow>
   (unit result \<times> ZeroTierNodeService \<times> 'k) option" where
  "wait_address api n deadline 0 svc k = None"
| "wait_address api n deadline (Suc fuel) svc k =
     (if zts_addr_is_assigned api n False k then Some (Inr (), svc, k)
      else if node_shutdown_requested svc then Some (Inl runtime_error, svc, k)
      else if steady_clock_ms api k \<ge> deadline then Some (Inr (), svc, k)
      else case pause api 50 svc k of (svc', k') \<Rightarrow> wait_address api n deadline fuel svc' k')"

definition join_if_needed ::
  "'k node_api \<Rightarrow> u64 \<Rightarrow> nat \<Rightarrow> ZeroTierNodeService \<Rightarrow> 'k \<Rightarrow>
   (unit result \<times> ZeroTierNodeService \<times> 'k) option" where
  "join_if_needed api n fuel svc k =
     (if zts_net_get_status api n k = ZTS_NETWORK_STATUS_OK then Some (Inr (), svc, k)
      else case zts_net_join api n k of
        (rc, k1) \<Rightarrow> if rc \<noteq> ZTS_ERR_OK then Some (Inl runtime_error, svc, k1)
                    else wait_joined api n fuel svc k1)"

definition join_network_locked ::
  "'k node_api \<Rightarrow> u64 \<Rightarrow> nat \<Rightarrow> ZeroTierNodeService \<Rightarrow> 'k \<Rightarrow>
   (unit result \<times> ZeroTierNodeService \<times> 'k) option" where
  "join_network_locked api n fuel svc0 k =
     (let svc = touch n svc0 in
      if count_of svc n = 0 then
        (case join_if_needed api n fuel svc k of
           None \<Rightarrow> None
         | Some (Inl e, svc1, k1) \<Rightarrow> Some (Inl e, svc1, k1)
         | Some (Inr _, svc1, k1) \<Rightarrow>
             (case wait_address api n (steady_clock_ms api k1 + 10000) fuel svc1 k1 of
                None \<Rightarrow> None
              | Some (Inl e, svc2, k2) \<Rightarrow> Some (Inl e, svc2, k2)
              | Some (Inr _, svc2, k2) \<Rightarrow> Some (Inr (), increment n svc2, k2)))
      else Some (Inr (), increment n svc, k))"

definition leave_network_locked :: "'k node_api \<Rightarrow> u64 \<Rightarrow> 'k \<Rightarrow> 'k" where
  "leave_network_locked api n k = zts_net_leave api n k"

definition release_network ::
  "'k node_api \<Rightarrow> u64 \<Rightarrow> ZeroTierNodeService \<Rightarrow> 'k \<Rightarrow> ZeroTierNodeService \<times> 'k" where
  "release_network api n svc k =
     (case map_of (join_counts svc) n of
        None \<Rightarrow> (svc, k)
      | Some c \<Rightarrow>
          if c - 1 = 0
          then (svc\<lparr>join_counts := AList.delete n (join_counts svc)\<rparr>, leave_network_locked api n k)
          else (svc\<lparr>join_counts := AList.update n (c - 1) (join_counts svc)\<rparr>, k))"

subsection \<open>Leases\<close>

record NetworkLease =
  nl_svc :: bool
  nl_netId :: u64

definition null_lease :: NetworkLease where
  "null_lease = \<lparr>nl_svc = False, nl_netId = 0\<rparr>"

definition lease_valid :: "NetworkLease \<Rightarrow> bool" where
  "lease_valid l \<longleftrightarrow> nl_svc l"

definition lease_release ::
  "'k node_api \<Rightarrow> NetworkLease \<Rightarrow> ZeroTierNodeService \<Rightarrow> 'k \<Rightarrow> NetworkLease \<times> ZeroTierNodeService \<times> 'k" where
  "lease_release api l svc k =
     (if nl_svc l then (null_lease, release_network api (nl_netId l) svc k) else (l, svc, k))"

definition acquire ::
  "'k node_api \<Rightarrow> nat \<Rightarrow> u64 \<Rightarrow> ZeroTierNodeService \<Rightarrow> 'k \<Rightarrow>
   (NetworkLease result \<times> ZeroTierNodeService \<times> 'k) option" where
  "acquire api fuel n svc k =
     (case ensure_node_started_locked api fuel svc k of
        None \<Rightarrow> None
      | Some (Inl e, svc1, k1) \<Rightarrow> Some (Inl e, svc1, k1)
      | Some (Inr _, svc1, k1) \<Rightarrow>
          (case join_network_locked api n fuel svc1 k1 of
             None \<Rightarrow> None
           | Some (Inl e, svc2, k2) \<Rightarrow> Some (Inl e, svc2, k2)
           | Some (Inr _, svc2, k2) \<Rightarrow> Some (Inr \<lparr>nl_svc = True, nl_netId = n\<rparr>, svc2, k2)))"

text \<open>Move assignment: the target object gives up its own lease first.\<close>

definition lease_move_assign ::
  "'k node_api \<Rightarrow> NetworkLease \<Rightarrow> NetworkLease \<Rightarrow> ZeroTierNodeService \<Rightarrow> 'k \<Rightarrow>
   NetworkLease \<times> NetworkLease \<times> ZeroTierNodeService \<times> 'k" where
  "lease_move_assign api this other svc k =
     (case lease_release api this svc k of (_, svc1, k1) \<Rightarrow> (other, null_lease, svc1, k1))"

subsection \<open>The default network\<close>

text \<open>\<open>std::strtoull\<close> with base 16: white space, a sign, an optional \<open>0x\<close>, then as many
  hexadecimal digits as there are. A value out of range is \<open>ULLONG_MAX\<close>. It never throws.\<close>

definition hex_char_value :: "char \<Rightarrow> nat option" where
  "hex_char_value c = (let n = (of_char c :: nat) in
     if 48 \<le> n \<and> n \<le> 57 then Some (n - 48)
     else if 97 \<le> n \<and> n \<le> 102 then Some (n - 87)
     else if 65 \<le> n \<and> n \<le> 70 then Some (n - 55)
     else None)"

fun strtoull_digits :: "nat \<Rightarrow> string \<Rightarrow> nat" where
  "strtoull_digits acc [] = acc"
| "strtoull_digits acc (c # cs) =
     (case hex_char_value c of Some d \<Rightarrow> strtoull_digits (16 * acc + d) cs | None \<Rightarrow> acc)"

fun skip_0x :: "string \<Rightarrow> string" where
  "skip_0x (a # x # d # s) =
     (if a = CHR ''0'' \<and> (x = CHR ''x'' \<or> x = CHR ''X'') \<and> hex_char_value d \<noteq> None
      then d # s else a # x # d # s)"
| "skip_0x s = s"

definition saturate :: "nat \<Rightarrow> u64" where
  "saturate v = (if v < 2 ^ 64 then of_nat v else - 1)"

definition strtoull16 :: "string \<Rightarrow> u64" where
  "strtoull16 s0 =
     (case dropWhile is_space s0 of
        [] \<Rightarrow> 0
      | c # s \<Rightarrow>
          let v = strtoull_digits 0 (skip_0x (if c = CHR ''+'' \<or> c = CHR ''-'' then s else c # s))
          in if c = CHR ''-'' \<and> v < 2 ^ 64 then - saturate v else saturate v)"

definition DEFAULT_ZEROTIER_NETWORK :: string where
  "DEFAULT_ZEROTIER_NETWORK = ''159924d6303c474a''"

definition default_network_id :: "ZeroTierNodeService \<Rightarrow> u64" where
  "default_network_id svc =
     strtoull16 (case g_default_network_hex svc of
                   Some hex \<Rightarrow> if hex \<noteq> [] then hex else DEFAULT_ZEROTIER_NETWORK
                 | None \<Rightarrow> DEFAULT_ZEROTIER_NETWORK)"

definition acquire_default ::
  "'k node_api \<Rightarrow> nat \<Rightarrow> ZeroTierNodeService \<Rightarrow> 'k \<Rightarrow>
   (NetworkLease result \<times> ZeroTierNodeService \<times> 'k) option" where
  "acquire_default api fuel svc k = acquire api fuel (default_network_id svc) svc k"

definition get_ip_v4 :: "'k node_api \<Rightarrow> u64 \<Rightarrow> 'k \<Rightarrow> string option" where
  "get_ip_v4 api n k = (if \<not> zts_addr_is_assigned api n False k then None else zts_addr_get_str api n False k)"

definition get_ip_v6 :: "'k node_api \<Rightarrow> u64 \<Rightarrow> 'k \<Rightarrow> string option" where
  "get_ip_v6 api n k = (if \<not> zts_addr_is_assigned api n True k then None else zts_addr_get_str api n True k)"

subsection \<open>Stopping the node\<close>

fun wait_offline :: "'k node_api \<Rightarrow> nat \<Rightarrow> ZeroTierNodeService \<Rightarrow> 'k \<Rightarrow> ZeroTierNodeService \<times> 'k" where
  "wait_offline api 0 svc k = (svc, k)"
| "wait_offline api (Suc i) svc k =
     (if \<not> zts_node_is_online api k then (svc, k)
      else case pause api 10 svc k of (svc', k') \<Rightarrow> wait_offline api i svc' k')"

definition service_stop :: "'k node_api \<Rightarrow> ZeroTierNodeService \<Rightarrow> 'k \<Rightarrow> ZeroTierNodeService \<times> 'k" where
  "service_stop api svc k =
     (let k1 = fold (\<lambda>(n, _). zts_net_leave api n) (join_counts svc) k;
          svc1 = svc\<lparr>join_counts := []\<rparr>
      in if node_started svc1
         then case wait_offline api 100 svc1 (zts_node_stop api k1) of
                (svc2, k2) \<Rightarrow> (svc2\<lparr>node_started := False\<rparr>, k2)
         else (svc1, k1))"

subsection \<open>Histories of lease objects\<close>

text \<open>
  The lease objects of a process, in a list: \<open>l = acquire(n)\<close>, \<open>l = acquire_default()\<close>,
  \<open>l.release()\<close> (and the destructor), \<open>l = std::move(m)\<close>, and the calls of the service.
  A failed acquisition leaves the object as it was.
\<close>

datatype lease_event =
    AcquireInto nat u64 | AcquireDefaultInto nat | ReleaseLease nat | MoveLease nat nat
  | ShutdownService | StopService

record 'k lease_world =
  lw_svc :: ZeroTierNodeService
  lw_leases :: "NetworkLease list"
  lw_kernel :: 'k

definition assign_lease ::
  "'k node_api \<Rightarrow> nat \<Rightarrow> (NetworkLease result \<times> ZeroTierNodeService \<times> 'k) option \<Rightarrow>
   'k lease_world \<Rightarrow> 'k lease_world option" where
  "assign_lease api i r w =
     (case r of
        None \<Rightarrow> None
      | Some (Inl e, svc, k) \<Rightarrow> Some (w\<lparr>lw_svc := svc, lw_kernel := k\<rparr>)
      | Some (Inr l, svc, k) \<Rightarrow>
          (case lease_move_assign api (lw_leases w ! i) l svc k of
             (l', _, svc', k') \<Rightarrow>
               Some \<lparr>lw_svc = svc', lw_leases = (lw_leases w)[i := l'], lw_kernel = k'\<rparr>))"

fun lease_step :: "'k node_api \<Rightarrow> nat \<Rightarrow> lease_event \<Rightarrow> 'k lease_world \<Rightarrow> 'k lease_world option" where
  "lease_step api fuel (AcquireInto i n) w =
     (if i < length (lw_leases w)
      then assign_lease api i (acquire api fuel n (lw_svc w) (lw_kernel w)) w else Some w)"
| "lease_step api fuel (AcquireDefaultInto i) w =
     (if i < length (lw_leases w)
      then assign_lease api i (acquire_default api fuel (lw_svc w) (lw_kernel w)) w else Some w)"
| "lease_step api fuel (ReleaseLease i) w =
     (if i < length (lw_leases w)
      then case lease_release api (lw_leases w ! i) (lw_svc w) (lw_kernel w) of
             (l, svc, k) \<Rightarrow> Some \<lparr>lw_svc = svc, lw_leases = (lw_leases w)[i := l], lw_kernel = k\<rparr>
      else Some w)"
| "lease_step api fuel (MoveLease i j) w =
     (if i < length (lw_leases w) \<and> j < length (lw_leases w) \<and> i \<noteq> j
      then case lease_move_assign api (lw_leases w ! i) (lw_leases w ! j) (lw_svc w) (lw_kernel w) of
             (l, m, svc, k) \<Rightarrow>
               Some \<lparr>lw_svc = svc, lw_leases = (lw_leases w)[i := l, j := m], lw_kernel = k\<rparr>
      else Some w)"
| "lease_step api fuel ShutdownService w = Some (w\<lparr>lw_svc := service_shutdown (lw_svc w)\<rparr>)"
| "lease_step api fuel StopService w =
     (case service_stop api (lw_svc w) (lw_kernel w) of
        (svc, k) \<Rightarrow> Some (w\<lparr>lw_svc := svc, lw_kernel := k\<rparr>))"

fun lease_run :: "'k node_api \<Rightarrow> nat \<Rightarrow> lease_event list \<Rightarrow> 'k lease_world \<Rightarrow> 'k lease_world option" where
  "lease_run api fuel [] w = Some w"
| "lease_run api fuel (ev # evs) w =
     (case lease_step api fuel ev w of None \<Rightarrow> None | Some w' \<Rightarrow> lease_run api fuel evs w')"

text \<open>The abstract view of the leases: the multiset of the networks they hold.\<close>

definition held :: "NetworkLease list \<Rightarrow> u64 multiset" where
  "held ls = image_mset nl_netId (filter_mset lease_valid (mset ls))"

definition lease_world_new :: "nat \<Rightarrow> ZeroTierNodeService \<Rightarrow> 'k \<Rightarrow> 'k lease_world" where
  "lease_world_new m svc k = \<lparr>lw_svc = svc, lw_leases = replicate m null_lease, lw_kernel = k\<rparr>"

subsection \<open>Effects on the reference counts\<close>

lemma count_of_touch [simp]: "count_of (touch n svc) m = count_of svc m"
  by (auto simp: touch_def count_of_def update_conv')

lemma flag_touch [simp]: "node_shutdown_requested (touch n svc) = node_shutdown_requested svc"
  by (simp add: touch_def)

lemma count_of_increment: "count_of (increment n svc) m = count_of svc m + (if m = n then 1 else 0)"
  by (simp add: increment_def count_of_def update_conv')

lemma count_of_release:
  assumes "release_network api n svc k = (svc', k')" "count_of svc n \<noteq> 0"
  shows "count_of svc' m = count_of svc m - (if m = n then 1 else 0)"
  using assms
  by (auto simp: release_network_def count_of_def update_conv' delete_conv' split: option.splits if_splits)

lemma release_leaves_last:
  assumes "release_network api n svc k = (svc', k')" "count_of svc n \<noteq> 0"
  shows "k' = (if count_of svc n = 1 then zts_net_leave api n k else k)"
  using assms
  by (auto simp: release_network_def leave_network_locked_def count_of_def split: option.splits if_splits)

text \<open>Only the shutdown flag and the identity change while the service waits.\<close>

lemma pause_counts: "pause api d svc k = (svc', k') \<Longrightarrow> join_counts svc' = join_counts svc"
  by (auto simp: pause_def service_shutdown_def split: prod.splits if_splits)

lemma wait_online_counts: "wait_online api fuel svc k = Some (r, svc', k') \<Longrightarrow> join_counts svc' = join_counts svc"
  by (induction fuel arbitrary: svc k) (auto split: if_splits prod.splits dest: pause_counts)

lemma wait_joined_counts: "wait_joined api n fuel svc k = Some (r, svc', k') \<Longrightarrow> join_counts svc' = join_counts svc"
  by (induction fuel arbitrary: svc k) (auto split: if_splits prod.splits dest: pause_counts)

lemma wait_address_counts: "wait_address api n d fuel svc k = Some (r, svc', k') \<Longrightarrow> join_counts svc' = join_counts svc"
  by (induction fuel arbitrary: svc k) (auto split: if_splits prod.splits dest: pause_counts)

lemma apply_identity_counts: "apply_identity api svc k = (svc', k') \<Longrightarrow> join_counts svc' = join_counts svc"
  by (auto simp: apply_identity_def resolve_identity_path_def Let_def split: option.splits if_splits prod.splits)

lemma ensure_started_counts:
  "ensure_node_started_locked api fuel svc k = Some (r, svc', k') \<Longrightarrow> join_counts svc' = join_counts svc"
  by (auto simp: ensure_node_started_locked_def dest!: wait_online_counts apply_identity_counts
      split: if_splits prod.splits option.splits sum.splits)

lemma count_of_cong: "join_counts svc' = join_counts svc \<Longrightarrow> count_of svc' = count_of svc"
  by (simp add: count_of_def fun_eq_iff)

lemma join_if_needed_counts:
  "join_if_needed api n fuel svc k = Some (r, svc', k') \<Longrightarrow> join_counts svc' = join_counts svc"
  by (auto simp: join_if_needed_def dest!: wait_joined_counts split: if_splits prod.splits)

lemma join_network_counts:
  assumes "join_network_locked api n fuel svc k = Some (r, svc', k')"
  shows "count_of svc' m = count_of svc m + (if m = n \<and> (\<exists>u. r = Inr u) then 1 else 0)"
  using assms
  by (auto simp: join_network_locked_def Let_def count_of_increment
      dest!: join_if_needed_counts wait_address_counts count_of_cong
      split: if_splits prod.splits option.splits sum.splits)

lemma acquire_counts:
  assumes "acquire api fuel n svc k = Some (r, svc', k')"
  shows "count_of svc' m = count_of svc m + (if m = n \<and> (\<exists>l. r = Inr l) then 1 else 0)"
  using assms
  by (auto simp: acquire_def dest!: ensure_started_counts join_network_counts [where m = m] count_of_cong
      split: prod.splits option.splits sum.splits)

lemma acquire_lease:
  "acquire api fuel n svc k = Some (Inr l, svc', k') \<Longrightarrow> l = \<lparr>nl_svc = True, nl_netId = n\<rparr>"
  by (auto simp: acquire_def split: prod.splits option.splits sum.splits)

subsection \<open>What a lease promises\<close>

text \<open>The network references of a lease object, and the relation between the service and the
  multiset of held references it implements.\<close>

definition refs_of :: "NetworkLease \<Rightarrow> u64 multiset" where
  "refs_of l = (if lease_valid l then {#nl_netId l#} else {#})"

definition represents :: "('k \<Rightarrow> u64 set) \<Rightarrow> ZeroTierNodeService \<Rightarrow> 'k \<Rightarrow> u64 multiset \<Rightarrow> bool" where
  "represents joined svc k H \<longleftrightarrow> (\<forall>n. count_of svc n = int (count H n)) \<and> set_mset H \<subseteq> joined k"

lemma represents_shutdown [simp]: "represents joined (service_shutdown svc) k H = represents joined svc k H"
  by (simp add: represents_def service_shutdown_def count_of_def)

lemma held_Cons: "held (l # ls) = refs_of l + held ls"
  by (simp add: held_def refs_of_def)

lemma held_update: "i < length ls \<Longrightarrow> held (ls[i := l]) + refs_of (ls ! i) = held ls + refs_of l"
proof (induction ls arbitrary: i)
  case Nil
  then show ?case by simp
next
  case (Cons a ls)
  then show ?case by (cases i) (auto simp: held_Cons ac_simps)
qed

lemma held_clear: "i < length ls \<Longrightarrow> held ls = held (ls[i := null_lease]) + refs_of (ls ! i)"
  using held_update [of i ls null_lease] by (simp add: refs_of_def null_lease_def lease_valid_def)

lemma held_set: "i < length ls \<Longrightarrow> held (ls[i := l]) = held (ls[i := null_lease]) + refs_of l"
  using held_update [of i ls l] held_clear [of i ls] by (auto simp: multiset_eq_iff)

lemma refs_of_null [simp]: "refs_of null_lease = {#}"
  by (simp add: refs_of_def null_lease_def lease_valid_def)

lemma held_replicate [simp]: "held (replicate m null_lease) = {#}"
  by (simp add: held_def null_lease_def lease_valid_def)

locale libzt_node =
  fixes api :: "'k node_api" and joined :: "'k \<Rightarrow> u64 set"
  assumes start_keeps: "zts_node_start api k = (r, k') \<Longrightarrow> joined k \<subseteq> joined k'"
    and init_keeps: "joined k \<subseteq> joined (zts_init_from_storage api p k)"
    and sleep_keeps: "sleep_ms api d k = (sh, k') \<Longrightarrow> joined k \<subseteq> joined k'"
    and join_adds: "zts_net_join api n k = (rc, k') \<Longrightarrow>
      joined k \<subseteq> joined k' \<and> (rc = ZTS_ERR_OK \<longrightarrow> n \<in> joined k')"
    and leave_only: "joined k - {n} \<subseteq> joined (zts_net_leave api n k)"
    and status_joined: "zts_net_get_status api n k = ZTS_NETWORK_STATUS_OK \<Longrightarrow> n \<in> joined k"
begin

lemma pause_keeps: "pause api d svc k = (svc', k') \<Longrightarrow> m \<in> joined k \<Longrightarrow> m \<in> joined k'"
  by (cases "sleep_ms api d k") (auto simp: pause_def dest: subsetD [OF sleep_keeps])

lemma wait_online_keeps: "wait_online api fuel svc k = Some (r, svc', k') \<Longrightarrow> m \<in> joined k \<Longrightarrow> m \<in> joined k'"
  by (induction fuel arbitrary: svc k) (auto split: if_splits prod.splits dest: pause_keeps)

lemma wait_joined_keeps: "wait_joined api n fuel svc k = Some (r, svc', k') \<Longrightarrow> m \<in> joined k \<Longrightarrow> m \<in> joined k'"
  by (induction fuel arbitrary: svc k) (auto split: if_splits prod.splits dest: pause_keeps)

lemma wait_address_keeps: "wait_address api n d fuel svc k = Some (r, svc', k') \<Longrightarrow> m \<in> joined k \<Longrightarrow> m \<in> joined k'"
  by (induction fuel arbitrary: svc k) (auto split: if_splits prod.splits dest: pause_keeps)

lemma apply_identity_keeps: "apply_identity api svc k = (svc', k') \<Longrightarrow> m \<in> joined k \<Longrightarrow> m \<in> joined k'"
  by (auto simp: apply_identity_def Let_def split: if_splits prod.splits option.splits dest: subsetD [OF init_keeps])

lemma ensure_started_keeps:
  "ensure_node_started_locked api fuel svc k = Some (r, svc', k') \<Longrightarrow> m \<in> joined k \<Longrightarrow> m \<in> joined k'"
  by (auto simp: ensure_node_started_locked_def split: if_splits prod.splits option.splits sum.splits
      dest: wait_online_keeps apply_identity_keeps subsetD [OF start_keeps])

lemma join_keeps: "zts_net_join api n k = (rc, k') \<Longrightarrow> m \<in> joined k \<Longrightarrow> m \<in> joined k'"
  using join_adds by blast

lemma join_joins: "zts_net_join api n k = (ZTS_ERR_OK, k') \<Longrightarrow> n \<in> joined k'"
  using join_adds by blast

lemma join_if_needed_keeps:
  "join_if_needed api n fuel svc k = Some (r, svc', k') \<Longrightarrow> m \<in> joined k \<Longrightarrow> m \<in> joined k'"
  by (auto simp: join_if_needed_def split: if_splits prod.splits dest: join_keeps wait_joined_keeps)

lemma join_if_needed_joins:
  "join_if_needed api n fuel svc k = Some (Inr u, svc', k') \<Longrightarrow> n \<in> joined k'"
  by (auto simp: join_if_needed_def split: if_splits prod.splits
      intro: status_joined dest: join_joins wait_joined_keeps)

lemma join_network_keeps:
  "join_network_locked api n fuel svc k = Some (r, svc', k') \<Longrightarrow> m \<in> joined k \<Longrightarrow> m \<in> joined k'"
  by (auto simp: join_network_locked_def Let_def split: if_splits prod.splits option.splits sum.splits
      dest: join_if_needed_keeps wait_address_keeps)

lemma join_network_joins:
  "join_network_locked api n fuel svc k = Some (Inr u, svc', k') \<Longrightarrow> count_of svc n = 0 \<Longrightarrow> n \<in> joined k'"
  by (auto simp: join_network_locked_def Let_def split: if_splits prod.splits option.splits sum.splits
      dest: join_if_needed_joins wait_address_keeps)

lemma acquire_keeps: "acquire api fuel n svc k = Some (r, svc', k') \<Longrightarrow> m \<in> joined k \<Longrightarrow> m \<in> joined k'"
  by (auto simp: acquire_def split: prod.splits option.splits sum.splits
      dest: ensure_started_keeps join_network_keeps)

lemma acquire_joins:
  assumes "acquire api fuel n svc k = Some (Inr l, svc', k')" "count_of svc n = 0"
  shows "n \<in> joined k'"
  using assms
  by (auto simp: acquire_def split: prod.splits option.splits sum.splits
      dest!: ensure_started_counts count_of_cong intro: join_network_joins)

lemma acquire_represents:
  assumes "represents joined svc k H" "acquire api fuel n svc k = Some (r, svc', k')"
  shows "represents joined svc' k' (case r of Inr l \<Rightarrow> H + refs_of l | Inl _ \<Rightarrow> H)"
proof (cases r)
  case (Inl e)
  then show ?thesis using assms acquire_counts [OF assms(2)] acquire_keeps [OF assms(2)]
    by (auto simp: represents_def)
next
  case (Inr l)
  then have "l = \<lparr>nl_svc = True, nl_netId = n\<rparr>" using acquire_lease [of api fuel n svc k l] assms(2) by simp
  moreover have "n \<in> joined k'"
  proof (cases "count_of svc n = 0")
    case True
    then show ?thesis using acquire_joins assms(2) Inr by simp
  next
    case False
    then have "n \<in># H" using assms(1) by (auto simp: represents_def not_in_iff)
    then show ?thesis using assms(1) acquire_keeps [OF assms(2)] by (auto simp: represents_def)
  qed
  ultimately show ?thesis using Inr assms(1) acquire_counts [OF assms(2)] acquire_keeps [OF assms(2)]
    by (auto simp: represents_def refs_of_def lease_valid_def)
qed

lemma release_represents:
  assumes "represents joined svc k (H + refs_of l)" "lease_release api l svc k = (l', svc', k')"
  shows "represents joined svc' k' H" "refs_of l' = {#}"
proof -
  show "refs_of l' = {#}" using assms(2)
    by (auto simp: lease_release_def refs_of_def lease_valid_def null_lease_def split: if_splits)
  show "represents joined svc' k' H"
  proof (cases "lease_valid l")
    case False
    then show ?thesis using assms by (auto simp: lease_release_def refs_of_def lease_valid_def)
  next
    case True
    let ?n = "nl_netId l"
    have r: "release_network api ?n svc k = (svc', k')"
      using True assms(2) by (auto simp: lease_release_def lease_valid_def)
    have c: "count_of svc m = int (count H m) + (if m = ?n then 1 else 0)" for m
      using assms(1) True by (simp add: represents_def refs_of_def)
    then have nz: "count_of svc ?n \<noteq> 0" by simp
    have "m \<in> joined k'" if "m \<in># H" for m
    proof -
      have "m \<in> joined k" using assms(1) that by (auto simp: represents_def)
      moreover have "m \<noteq> ?n" if "count_of svc ?n = 1" using c [of ?n] that \<open>m \<in># H\<close> by (auto simp: count_eq_zero_iff)
      ultimately show ?thesis
        using release_leaves_last [OF r nz] leave_only [of k ?n] by (auto split: if_splits)
    qed
    then show ?thesis using count_of_release [OF r nz] c by (auto simp: represents_def)
  qed
qed

lemma move_assign_represents:
  assumes "represents joined svc k (H + refs_of this)"
    "lease_move_assign api this other svc k = (l, m, svc', k')"
  shows "represents joined svc' k' H \<and> l = other \<and> m = null_lease"
  using assms release_represents(1) by (auto simp: lease_move_assign_def split: prod.splits)

lemma assign_represents:
  assumes "represents joined (lw_svc w) (lw_kernel w) (held (lw_leases w))" "i < length (lw_leases w)"
    "assign_lease api i (acquire api fuel n (lw_svc w) (lw_kernel w)) w = Some w'"
  shows "represents joined (lw_svc w') (lw_kernel w') (held (lw_leases w'))"
proof -
  obtain r svc k where a: "acquire api fuel n (lw_svc w) (lw_kernel w) = Some (r, svc, k)"
    using assms(3) by (cases "acquire api fuel n (lw_svc w) (lw_kernel w)") (auto simp: assign_lease_def)
  note rep = acquire_represents [OF assms(1) a]
  show ?thesis
  proof (cases r)
    case (Inl e)
    then show ?thesis using rep assms(3) a by (auto simp: assign_lease_def)
  next
    case (Inr l)
    let ?c = "held ((lw_leases w)[i := null_lease])"
    have "represents joined svc k ((?c + refs_of l) + refs_of (lw_leases w ! i))"
      using rep Inr held_clear [OF assms(2)] by (simp add: ac_simps)
    moreover obtain l' m svc' k' where
      mv: "lease_move_assign api (lw_leases w ! i) l svc k = (l', m, svc', k')" by (rule prod_cases4)
    ultimately have "represents joined svc' k' (?c + refs_of l) \<and> l' = l"
      using move_assign_represents by blast
    moreover have "w' = \<lparr>lw_svc = svc', lw_leases = (lw_leases w)[i := l'], lw_kernel = k'\<rparr>"
      using assms(3) a Inr mv by (simp add: assign_lease_def)
    ultimately show ?thesis using held_set [OF assms(2), of l] by simp
  qed
qed

lemma release_step_represents:
  assumes "represents joined svc k (held ls)" "i < length ls"
    "lease_release api (ls ! i) svc k = (l, svc', k')"
  shows "represents joined svc' k' (held (ls[i := l]))"
  using release_represents [OF _ assms(3), of "held (ls[i := null_lease])"] assms(1)
    held_clear [OF assms(2)] held_set [OF assms(2), of l] by simp

lemma move_step_represents:
  assumes "represents joined svc k (held ls)" "i < length ls" "j < length ls" "i \<noteq> j"
    "lease_move_assign api (ls ! i) (ls ! j) svc k = (l, m, svc', k')"
  shows "represents joined svc' k' (held (ls[i := l, j := m]))"
proof -
  have "represents joined svc' k' (held (ls[i := null_lease])) \<and> l = ls ! j \<and> m = null_lease"
    using move_assign_represents [OF _ assms(5)] assms(1) held_clear [OF assms(2)] by simp
  moreover have "held (ls[i := ls ! j, j := null_lease]) = held (ls[i := null_lease])"
    using held_set [OF assms(2), of "ls ! j"] held_clear [of j "ls[i := ls ! j]"] assms(3,4) by simp
  ultimately show ?thesis by simp
qed

lemma step_represents:
  assumes "lease_step api fuel ev w = Some w'" "ev \<noteq> StopService"
    "represents joined (lw_svc w) (lw_kernel w) (held (lw_leases w))"
  shows "represents joined (lw_svc w') (lw_kernel w') (held (lw_leases w'))"
  using assms
  by (cases ev)
    (auto simp: acquire_default_def
      split: if_splits prod.splits
      intro: assign_represents release_step_represents move_step_represents)

lemma run_represents:
  assumes "lease_run api fuel evs w = Some w'" "StopService \<notin> set evs"
    "represents joined (lw_svc w) (lw_kernel w) (held (lw_leases w))"
  shows "represents joined (lw_svc w') (lw_kernel w') (held (lw_leases w'))"
  using assms by (induction evs arbitrary: w) (auto split: option.splits dest: step_represents)

end

subsection \<open>Waiting ends\<close>

lemma wait_address_returns:
  assumes clock: "\<And>d k. steady_clock_ms api k + d \<le> steady_clock_ms api (snd (sleep_ms api d k))"
    and "deadline \<le> steady_clock_ms api k + 50 * fuel"
  shows "wait_address api n deadline (Suc fuel) svc k \<noteq> None"
  using assms(2)
proof (induction fuel arbitrary: svc k)
  case 0
  then show ?case by auto
next
  case (Suc fuel)
  obtain svc' k' where p: "pause api 50 svc k = (svc', k')" by force
  then have "deadline \<le> steady_clock_ms api k' + 50 * fuel"
    using clock [of k 50] Suc.prems by (auto simp: pause_def split_beta)
  from Suc.IH [OF this, of svc'] p show ?case
    by (subst wait_address.simps) (simp del: wait_address.simps)
qed

lemma wait_address_interrupted: "node_shutdown_requested svc \<Longrightarrow> wait_address api n d (Suc f) svc k \<noteq> None"
  by auto

lemma wait_address_mono:
  "wait_address api n d f svc k \<noteq> None \<Longrightarrow> f \<le> g \<Longrightarrow> wait_address api n d g svc k \<noteq> None"
proof (induction f arbitrary: svc k g)
  case (Suc f)
  then obtain g' where "g = Suc g'" "f \<le> g'" by (cases g) auto
  with Suc show ?case by (auto split: if_splits prod.splits)
qed simp

lemma pause_flag: "pause api d svc k = (svc', k') \<Longrightarrow> node_shutdown_requested svc \<Longrightarrow> node_shutdown_requested svc'"
  by (auto simp: pause_def service_shutdown_def split: prod.splits)

lemma wait_online_flag: "wait_online api f svc k = Some (r, svc', k') \<Longrightarrow> node_shutdown_requested svc \<Longrightarrow> node_shutdown_requested svc'"
  by (cases f) (auto split: if_splits)

lemma wait_joined_flag: "wait_joined api n f svc k = Some (r, svc', k') \<Longrightarrow> node_shutdown_requested svc \<Longrightarrow> node_shutdown_requested svc'"
  by (cases f) (auto split: if_splits)

lemma wait_address_flag: "wait_address api n d f svc k = Some (r, svc', k') \<Longrightarrow> node_shutdown_requested svc \<Longrightarrow> node_shutdown_requested svc'"
  by (cases f) (auto split: if_splits)

lemma apply_identity_flag: "apply_identity api svc k = (svc', k') \<Longrightarrow> node_shutdown_requested svc' = node_shutdown_requested svc"
  by (auto simp: apply_identity_def resolve_identity_path_def Let_def split: option.splits if_splits prod.splits)

lemma ensure_started_flag:
  "ensure_node_started_locked api f svc k = Some (r, svc', k') \<Longrightarrow> node_shutdown_requested svc \<Longrightarrow> node_shutdown_requested svc'"
  by (auto simp: ensure_node_started_locked_def split: if_splits prod.splits option.splits sum.splits
      dest!: apply_identity_flag dest: wait_online_flag)

lemma join_if_needed_flag:
  "join_if_needed api n f svc k = Some (r, svc', k') \<Longrightarrow> node_shutdown_requested svc \<Longrightarrow> node_shutdown_requested svc'"
  by (auto simp: join_if_needed_def split: if_splits prod.splits dest: wait_joined_flag)

lemma join_network_flag:
  "join_network_locked api n f svc k = Some (r, svc', k') \<Longrightarrow> node_shutdown_requested svc \<Longrightarrow> node_shutdown_requested svc'"
  by (auto simp: join_network_locked_def Let_def touch_def increment_def
      split: if_splits prod.splits option.splits sum.splits
      dest!: join_if_needed_flag wait_address_flag)

lemma acquire_flag:
  "acquire api f n svc k = Some (r, svc', k') \<Longrightarrow> node_shutdown_requested svc \<Longrightarrow> node_shutdown_requested svc'"
  by (auto simp: acquire_def split: prod.splits option.splits sum.splits
      dest: ensure_started_flag join_network_flag)

lemma lease_release_flag:
  "lease_release api l svc k = (l', svc', k') \<Longrightarrow> node_shutdown_requested svc' = node_shutdown_requested svc"
  by (auto simp: lease_release_def release_network_def split: if_splits option.splits)

lemma move_assign_flag:
  "lease_move_assign api l m svc k = (l', m', svc', k') \<Longrightarrow> node_shutdown_requested svc' = node_shutdown_requested svc"
  by (auto simp: lease_move_assign_def split: prod.splits dest: lease_release_flag)

lemma wait_offline_flag: "wait_offline api i svc k = (svc', k') \<Longrightarrow> node_shutdown_requested svc \<Longrightarrow> node_shutdown_requested svc'"
  by (induction i arbitrary: svc k) (auto split: if_splits prod.splits dest: pause_flag)

lemma assign_lease_flag:
  "assign_lease api i (acquire api f n (lw_svc w) (lw_kernel w)) w = Some w' \<Longrightarrow>
   node_shutdown_requested (lw_svc w) \<Longrightarrow> node_shutdown_requested (lw_svc w')"
  by (auto simp: assign_lease_def split: option.splits sum.splits prod.splits dest: acquire_flag move_assign_flag)

lemma step_flag:
  assumes "lease_step api f ev w = Some w'" "node_shutdown_requested (lw_svc w) \<or> ev = ShutdownService"
  shows "node_shutdown_requested (lw_svc w')"
  using assms
  by (cases ev) (auto simp: acquire_default_def service_shutdown_def service_stop_def Let_def
      split: if_splits prod.splits dest: assign_lease_flag lease_release_flag move_assign_flag wait_offline_flag)

lemma run_flag:
  assumes "lease_run api f evs w = Some w'" "node_shutdown_requested (lw_svc w) \<or> ShutdownService \<in> set evs"
  shows "node_shutdown_requested (lw_svc w')"
  using assms by (induction evs arbitrary: w) (auto split: option.splits dest: step_flag)

lemma join_interrupted:
  assumes "node_shutdown_requested svc"
  shows "join_network_locked api n (Suc f) svc k \<noteq> None"
proof -
  have "join_if_needed api n (Suc f) (touch n svc) k \<noteq> None"
    using assms by (simp add: join_if_needed_def touch_def split: prod.splits)
  moreover have "wait_address api n d (Suc f) svc' k' \<noteq> None"
    if "join_if_needed api n (Suc f) (touch n svc) k = Some (Inr (), svc', k')" for d svc' k'
    using wait_address_interrupted join_if_needed_flag [OF that] assms by (simp add: touch_def)
  ultimately show ?thesis
    by (auto simp: join_network_locked_def Let_def simp del: wait_address.simps
        split: option.splits sum.splits prod.splits) (metis option.distinct(1))
qed

lemma ensure_started_interrupted:
  "node_shutdown_requested svc \<Longrightarrow> ensure_node_started_locked api (Suc f) svc k \<noteq> None"
  by (auto simp: ensure_node_started_locked_def dest: apply_identity_flag split: prod.splits option.splits sum.splits)

lemma join_up_returns:
  assumes "\<And>d k. steady_clock_ms api k + d \<le> steady_clock_ms api (snd (sleep_ms api d k))"
    and "count_of svc n \<noteq> 0 \<or> zts_net_get_status api n k = ZTS_NETWORK_STATUS_OK"
    and "201 \<le> fuel"
  shows "join_network_locked api n fuel svc k \<noteq> None"
proof -
  have "wait_address api n (steady_clock_ms api k + 10000) (Suc 200) (touch n svc) k \<noteq> None"
    by (rule wait_address_returns [OF assms(1)]) simp
  then have "wait_address api n (steady_clock_ms api k + 10000) fuel (touch n svc) k \<noteq> None"
    by (rule wait_address_mono) (use assms(3) in simp)
  then show ?thesis using assms(2)
    by (auto simp: join_network_locked_def join_if_needed_def Let_def split: option.splits sum.splits)
qed

text \<open>A network for the witnesses: joining takes effect at once, every network assigns an
  address and nothing but the clock changes while a thread sleeps.\<close>

record vnet =
  vn_online :: bool
  vn_joined :: "u64 list"
  vn_clock :: nat

definition vnet_api :: "vnet node_api" where
  "vnet_api = \<lparr>zts_node_is_online = vn_online, zts_node_start = (\<lambda>k. (0, k\<lparr>vn_online := True\<rparr>)),
     zts_node_stop = (\<lambda>k. k\<lparr>vn_online := False\<rparr>), zts_init_from_storage = (\<lambda>p k. k),
     zts_net_get_status = (\<lambda>n k. if n \<in> set (vn_joined k) then 1 else 0),
     zts_net_join = (\<lambda>n k. (0, k\<lparr>vn_joined := n # vn_joined k\<rparr>)),
     zts_net_leave = (\<lambda>n k. k\<lparr>vn_joined := removeAll n (vn_joined k)\<rparr>),
     zts_addr_is_assigned = (\<lambda>n v6 k. True), zts_addr_get_str = (\<lambda>n v6 k. Some ''10.0.0.1''),
     steady_clock_ms = vn_clock, sleep_ms = (\<lambda>d k. (False, k\<lparr>vn_clock := vn_clock k + d\<rparr>)),
     fs_is_relative = (\<lambda>p. False), fs_append = (\<lambda>d p. d @ p), fs_absolute = Some,
     fs_exists = (\<lambda>p. False), fs_is_directory = (\<lambda>p. False), fs_weakly_canonical = Some,
     fs_parent_path = (\<lambda>p. None)\<rparr>"

definition vnet_start :: vnet where
  "vnet_start = \<lparr>vn_online = False, vn_joined = [], vn_clock = 0\<rparr>"

interpretation vnet: libzt_node vnet_api "\<lambda>k. set (vn_joined k)"
  by unfold_locales (auto simp: vnet_api_def ZTS_ERR_OK_def ZTS_NETWORK_STATUS_OK_def split: if_splits)

lemmas node_eval = lease_world_new_def node_service_new_def null_lease_def acquire_def acquire_default_def
  ensure_node_started_locked_def apply_identity_def join_network_locked_def join_if_needed_def Let_def
  touch_def increment_def count_of_def assign_lease_def lease_move_assign_def lease_release_def
  release_network_def leave_network_locked_def vnet_api_def vnet_start_def
  ZTS_ERR_OK_def ZTS_NETWORK_STATUS_OK_def eval_nat_numeral

subsection \<open>Properties\<close>

text \<open>
  C12. Leases keep their networks joined. In every history of acquisitions (of any networks,
  failed and interrupted ones included), releases, moves of lease objects and shutdown
  requests, starting from a fresh service: the reference count of every network is the
  number of valid leases of it, and every network with a valid lease is joined; it is left
  only with the last one. \<open>libzt_node\<close> is what libzt promises: joining adds the network,
  leaving removes no other, a network with status OK is joined and waiting leaves nothing.
\<close>

theorem leases_keep_networks_joined:
  assumes "libzt_node api joined"
    "lease_run api fuel evs (lease_world_new m (node_service_new cfg) k) = Some w"
    "StopService \<notin> set evs"
  shows "count_of (lw_svc w) n = int (count (held (lw_leases w)) n)
    \<and> set_mset (held (lw_leases w)) \<subseteq> joined (lw_kernel w)"
proof -
  have "represents joined (node_service_new cfg) k {#}"
    by (simp add: represents_def count_of_def node_service_new_def)
  then show ?thesis
    using libzt_node.run_represents [OF assms(1,2,3)] by (simp add: lease_world_new_def represents_def)
qed

theorem leases_keep_networks_joined_witness:
  "\<exists>w. lease_run vnet_api 2 [AcquireInto 0 7, AcquireInto 1 7, MoveLease 2 1, ReleaseLease 0]
     (lease_world_new 3 (node_service_new None) vnet_start) = Some w
   \<and> count_of (lw_svc w) 7 = int (count (held (lw_leases w)) 7)
   \<and> set_mset (held (lw_leases w)) \<subseteq> set (vn_joined (lw_kernel w)) \<and> count_of (lw_svc w) 7 = 1"
proof -
  obtain w where w: "lease_run vnet_api 2 [AcquireInto 0 7, AcquireInto 1 7, MoveLease 2 1, ReleaseLease 0]
      (lease_world_new 3 (node_service_new None) vnet_start) = Some w" and c: "count_of (lw_svc w) 7 = 1"
    by (simp add: node_eval)
  show ?thesis
    using leases_keep_networks_joined [OF vnet.libzt_node_axioms w, of 7] w c by simp
qed

text \<open>
  C13. Acquiring a lease ends. Once a shutdown was requested, or when the node runs and the
  network is up or already leased, \<open>acquire\<close> returns within 201 passes of its waiting loops,
  whatever the address assignment does: it gives up waiting for an address after ten
  seconds. The clock is only required to advance by the time slept.
\<close>

theorem acquire_returns:
  assumes "\<And>d k. steady_clock_ms api k + d \<le> steady_clock_ms api (snd (sleep_ms api d k))"
    and "node_shutdown_requested svc \<or>
      (node_started svc \<and> (count_of svc n \<noteq> 0 \<or> zts_net_get_status api n k = ZTS_NETWORK_STATUS_OK))"
    and "201 \<le> fuel"
  shows "\<exists>r. acquire api fuel n svc k = Some r"
proof -
  obtain f where f: "fuel = Suc f" using assms(3) by (cases fuel) auto
  have "ensure_node_started_locked api fuel svc k \<noteq> None"
    using assms(2) ensure_started_interrupted [of svc api f k] f by (auto simp: ensure_node_started_locked_def)
  then obtain r svc' k' where e: "ensure_node_started_locked api fuel svc k = Some (r, svc', k')" by auto
  have "join_network_locked api n fuel svc' k' \<noteq> None"
  proof (cases "node_shutdown_requested svc")
    case True
    then show ?thesis using join_interrupted [of svc'] ensure_started_flag [OF e] f by simp
  next
    case False
    then have "svc' = svc \<and> k' = k" using assms(2) e by (auto simp: ensure_node_started_locked_def)
    then show ?thesis using join_up_returns [OF assms(1) _ assms(3)] assms(2) False by blast
  qed
  then show ?thesis using e by (auto simp: acquire_def split: sum.splits)
qed

theorem acquire_returns_witness:
  "\<exists>r. acquire vnet_api 201 7 (service_shutdown (node_service_new None)) vnet_start = Some r"
  by (rule acquire_returns) (simp_all add: vnet_api_def service_shutdown_def)

subsection \<open>Limits\<close>

text \<open>
  \<open>stop\<close> clears the reference counts without invalidating the leases. When the service is
  used again afterwards, the release of a lease from before the stop takes away the
  reference of a new one: the network is left although a valid lease of it exists.
\<close>

lemma stop_breaks_leases:
  "\<exists>w. lease_run vnet_api 2 [AcquireInto 0 7, StopService, AcquireInto 1 7, ReleaseLease 0]
     (lease_world_new 2 (node_service_new None) vnet_start) = Some w
   \<and> held (lw_leases w) = {#7#} \<and> 7 \<notin> set (vn_joined (lw_kernel w))"
  by (simp add: node_eval service_stop_def held_def lease_valid_def)

text \<open>
  A default network that is not a hexadecimal number is not rejected: \<open>strtoull\<close> does not
  throw, so the handler around it never runs and the service joins network zero, or the
  network of the leading digits.
\<close>

lemma invalid_default_network:
  "strtoull16 ''homenet'' = 0" "strtoull16 ''deadline'' = 0xdead"
  by (simp_all add: strtoull16_def is_space_def hex_char_value_def saturate_def Let_def)

text \<open>The built-in default network is read as the number it denotes.\<close>

lemma default_network_value:
  "default_network_id (node_service_new cfg) = 0x159924d6303c474a"
  by (simp add: default_network_id_def node_service_new_def DEFAULT_ZEROTIER_NETWORK_def strtoull16_def
      is_space_def hex_char_value_def saturate_def Let_def)

text \<open>A requested shutdown is never withdrawn, and from then on a network that is neither
  leased nor up cannot be joined any more, whatever libzt answers.\<close>

lemma shutdown_blocks_joins:
  assumes "node_shutdown_requested svc" "node_started svc" "count_of svc n = 0"
    "zts_net_get_status api n k \<noteq> ZTS_NETWORK_STATUS_OK"
  shows "acquire api (Suc f) n svc k = Some (Inl runtime_error, touch n svc, snd (zts_net_join api n k))"
  using assms
  by (simp add: acquire_def ensure_node_started_locked_def join_network_locked_def join_if_needed_def
      Let_def split_beta)

end
