(* ===== verification/SocketAdapter.thy ===== *)
theory SocketAdapter
  imports Prelude
begin

section \<open>Awaitable socket operations\<close>

text \<open>
  \<open>CoroSocketAdapter\<close> (transport/coro/CoroSocketAdapter.hpp): one prepared read or write at
  a time, advanced by \<open>try_complete_current_operation\<close> each time the event loop polls it.
  The wrapped \<open>IAsyncStream\<close> is a state of type \<open>'s\<close> with the operations \<open>try_read\<close> and
  \<open>try_write\<close> as arguments. \<open>try_read s n\<close> returns the completion flag, the bytes it placed
  into the buffer, the error code and the new stream. Buffers are memory: a read buffer is
  the list of its bytes, overwritten at the current offset.

  The locale \<open>async_stream\<close> is the contract of \<open>IAsyncStream\<close>: what is read is the next part
  of the peer's byte stream and what is written is appended to our own, never more than
  asked for. The ZeroTier socket is its instance.
\<close>

datatype OperationType = OP_NONE | OP_READ | OP_READ_HEADER | OP_WRITE

type_synonym 's try_read_fn = "'s \<Rightarrow> nat \<Rightarrow> bool \<times> bytes \<times> errc option \<times> 's"
type_synonym 's try_write_fn = "'s \<Rightarrow> bytes \<Rightarrow> bool \<times> nat \<times> errc option \<times> 's"

record 's CoroSocketAdapter =
  ad_socket :: "'s option"
  ad_suspended :: "nat option"
  ad_op :: OperationType
  ad_error :: "errc option"
  ad_transferred :: nat
  ad_rbuf :: bytes
  ad_rsize :: nat
  ad_roff :: nat
  ad_wbuf :: bytes
  ad_wsize :: nat
  ad_woff :: nat

definition new_adapter :: "'s option \<Rightarrow> 's CoroSocketAdapter" where
  "new_adapter s = \<lparr>ad_socket = s, ad_suspended = None, ad_op = OP_NONE, ad_error = None,
     ad_transferred = 0, ad_rbuf = [], ad_rsize = 0, ad_roff = 0, ad_wbuf = [], ad_wsize = 0,
     ad_woff = 0\<rparr>"

definition splice :: "nat \<Rightarrow> bytes \<Rightarrow> bytes \<Rightarrow> bytes" where
  "splice off bs buf = take off buf @ bs @ drop (off + length bs) buf"

definition prepare_read_operation ::
  "bytes \<Rightarrow> nat \<Rightarrow> 's CoroSocketAdapter \<Rightarrow> 's CoroSocketAdapter" where
  "prepare_read_operation buf n a = a\<lparr>ad_rbuf := buf, ad_rsize := n, ad_roff := 0\<rparr>"

definition prepare_write_operation ::
  "bytes \<Rightarrow> nat \<Rightarrow> 's CoroSocketAdapter \<Rightarrow> 's CoroSocketAdapter" where
  "prepare_write_operation buf n a = a\<lparr>ad_wbuf := buf, ad_wsize := n, ad_woff := 0\<rparr>"

definition suspend_for_operation ::
  "nat \<Rightarrow> OperationType \<Rightarrow> 's CoroSocketAdapter \<Rightarrow> 's CoroSocketAdapter" where
  "suspend_for_operation h op a = a\<lparr>ad_suspended := Some h, ad_op := op\<rparr>"

definition complete_read ::
  "'s try_read_fn \<Rightarrow> 's CoroSocketAdapter \<Rightarrow> bool \<times> 's CoroSocketAdapter" where
  "complete_read rd a =
     (case ad_socket a of
        None \<Rightarrow> (True, a\<lparr>ad_error := Some bad_file_descriptor\<rparr>)
      | Some s \<Rightarrow>
          (case rd s (ad_rsize a - ad_roff a) of
             (_, bs, e, s') \<Rightarrow>
               let off = ad_roff a + length bs;
                   a1 = a\<lparr>ad_socket := Some s', ad_error := e,
                          ad_rbuf := splice (ad_roff a) bs (ad_rbuf a), ad_roff := off\<rparr>
               in if e \<noteq> None \<or> off \<ge> ad_rsize a
                  then (True, a1\<lparr>ad_transferred := off, ad_roff := 0, ad_op := OP_NONE\<rparr>)
                  else (False, a1)))"

definition complete_write ::
  "'s try_write_fn \<Rightarrow> 's CoroSocketAdapter \<Rightarrow> bool \<times> 's CoroSocketAdapter" where
  "complete_write wr a =
     (case ad_socket a of
        None \<Rightarrow> (True, a\<lparr>ad_error := Some bad_file_descriptor\<rparr>)
      | Some s \<Rightarrow>
          (case wr s (take (ad_wsize a - ad_woff a) (drop (ad_woff a) (ad_wbuf a))) of
             (_, n, e, s') \<Rightarrow>
               let off = ad_woff a + n;
                   a1 = a\<lparr>ad_socket := Some s', ad_error := e, ad_woff := off\<rparr>
               in if e \<noteq> None \<or> off \<ge> ad_wsize a
                  then (True, a1\<lparr>ad_transferred := off, ad_woff := 0, ad_op := OP_NONE\<rparr>)
                  else (False, a1)))"

definition try_complete_current_operation ::
  "'s try_read_fn \<Rightarrow> 's try_write_fn \<Rightarrow> 's CoroSocketAdapter \<Rightarrow> bool \<times> 's CoroSocketAdapter" where
  "try_complete_current_operation rd wr a =
     (case ad_op a of
        OP_READ \<Rightarrow> complete_read rd a
      | OP_READ_HEADER \<Rightarrow> complete_read rd a
      | OP_WRITE \<Rightarrow> complete_write wr a
      | OP_NONE \<Rightarrow> (True, a))"

subsection \<open>The awaitables\<close>

definition start_read ::
  "OperationType \<Rightarrow> bytes \<Rightarrow> nat \<Rightarrow> 's CoroSocketAdapter \<Rightarrow> 's CoroSocketAdapter" where
  "start_read op buf n a = (prepare_read_operation buf n a)\<lparr>ad_op := op\<rparr>"

definition async_read_ready ::
  "'s try_read_fn \<Rightarrow> 's try_write_fn \<Rightarrow> bytes \<Rightarrow> nat \<Rightarrow> 's CoroSocketAdapter \<Rightarrow>
   bool \<times> 's CoroSocketAdapter" where
  "async_read_ready rd wr buf n a =
     try_complete_current_operation rd wr (start_read OP_READ buf n a)"

definition async_read_header_ready ::
  "'s try_read_fn \<Rightarrow> 's try_write_fn \<Rightarrow> bytes \<Rightarrow> nat \<Rightarrow> 's CoroSocketAdapter \<Rightarrow>
   bool \<times> 's CoroSocketAdapter" where
  "async_read_header_ready rd wr buf n a =
     try_complete_current_operation rd wr (start_read OP_READ_HEADER buf n a)"

definition start_write ::
  "bytes \<Rightarrow> nat \<Rightarrow> 's CoroSocketAdapter \<Rightarrow> 's CoroSocketAdapter" where
  "start_write buf n a = (prepare_write_operation buf n a)\<lparr>ad_op := OP_WRITE\<rparr>"

definition async_write_ready ::
  "'s try_read_fn \<Rightarrow> 's try_write_fn \<Rightarrow> bytes \<Rightarrow> nat \<Rightarrow> 's CoroSocketAdapter \<Rightarrow>
   bool \<times> 's CoroSocketAdapter" where
  "async_write_ready rd wr buf n a =
     try_complete_current_operation rd wr (start_write buf n a)"

definition io_await_resume :: "'s CoroSocketAdapter \<Rightarrow> nat result" where
  "io_await_resume a =
     (case ad_error a of Some e \<Rightarrow> Inl (system_error e) | None \<Rightarrow> Inr (ad_transferred a))"

text \<open>
  The event loop polls an operation until it completes; \<open>drive k\<close> allows \<open>k\<close> polls and is
  \<open>None\<close> when the operation is still pending after them. The first poll is the fast path of
  \<open>await_ready\<close>.
\<close>

fun drive ::
  "'s try_read_fn \<Rightarrow> 's try_write_fn \<Rightarrow> nat \<Rightarrow> 's CoroSocketAdapter \<Rightarrow> 's CoroSocketAdapter option"
where
  "drive rd wr 0 a = None"
| "drive rd wr (Suc k) a =
     (case try_complete_current_operation rd wr a of
        (True, a') \<Rightarrow> Some a'
      | (False, a') \<Rightarrow> drive rd wr k a')"

subsection \<open>The stream contract\<close>

locale async_stream =
  fixes rd :: "'s try_read_fn" and wr :: "'s try_write_fn"
    and rx :: "'s \<Rightarrow> bytes" and tx :: "'s \<Rightarrow> bytes"
  assumes read_fits: "rd s n = (d, bs, e, s') \<Longrightarrow> length bs \<le> n"
    and read_order: "rd s n = (d, bs, e, s') \<Longrightarrow> rx s = bs @ rx s'"
    and read_tx: "rd s n = (d, bs, e, s') \<Longrightarrow> tx s' = tx s"
    and write_fits: "wr s bs = (d, n, e, s') \<Longrightarrow> n \<le> length bs"
    and write_order: "wr s bs = (d, n, e, s') \<Longrightarrow> tx s' = tx s @ take n bs"
    and write_rx: "wr s bs = (d, n, e, s') \<Longrightarrow> rx s' = rx s"

text \<open>
  The state of a read in progress: the part of the buffer before the offset is what has
  been consumed of the peer's stream since the start.
\<close>

definition reading ::
  "('s \<Rightarrow> bytes) \<Rightarrow> ('s \<Rightarrow> bytes) \<Rightarrow> nat \<Rightarrow> bytes \<Rightarrow> bytes \<Rightarrow> 's CoroSocketAdapter \<Rightarrow> bool" where
  "reading rx tx n r0 t0 a \<longleftrightarrow>
     (\<exists>s. ad_socket a = Some s \<and> ad_op a \<in> {OP_READ, OP_READ_HEADER} \<and> ad_rsize a = n
        \<and> length (ad_rbuf a) = n \<and> ad_roff a \<le> n
        \<and> r0 = take (ad_roff a) (ad_rbuf a) @ rx s \<and> tx s = t0)"

definition writing ::
  "('s \<Rightarrow> bytes) \<Rightarrow> ('s \<Rightarrow> bytes) \<Rightarrow> bytes \<Rightarrow> bytes \<Rightarrow> bytes \<Rightarrow> 's CoroSocketAdapter \<Rightarrow> bool" where
  "writing rx tx buf r0 t0 a \<longleftrightarrow>
     (\<exists>s. ad_socket a = Some s \<and> ad_op a = OP_WRITE \<and> ad_wbuf a = buf
        \<and> ad_wsize a = length buf \<and> ad_woff a \<le> length buf
        \<and> tx s = t0 @ take (ad_woff a) buf \<and> rx s = r0)"

lemma take_splice:
  "off \<le> length buf \<Longrightarrow> take (off + length bs) (splice off bs buf) = take off buf @ bs"
  by (simp add: splice_def min_absorb2)

lemma length_splice:
  "off + length bs \<le> length buf \<Longrightarrow> length (splice off bs buf) = length buf"
  by (simp add: splice_def)

lemma reading_start:
  "ad_socket a = Some s \<Longrightarrow> op \<in> {OP_READ, OP_READ_HEADER} \<Longrightarrow> length buf = n \<Longrightarrow>
     reading rx tx n (rx s) (tx s) (start_read op buf n a)"
  by (auto simp: reading_def start_read_def prepare_read_operation_def)

lemma writing_start:
  "ad_socket a = Some s \<Longrightarrow> writing rx tx buf (rx s) (tx s) (start_write buf (length buf) a)"
  by (auto simp: writing_def start_write_def prepare_write_operation_def)

lemma complete_read_drive:
  "reading rx tx n r0 t0 a \<Longrightarrow> try_complete_current_operation rd wr a = complete_read rd a"
  by (auto simp: reading_def try_complete_current_operation_def)

lemma complete_write_drive:
  "writing rx tx buf r0 t0 a \<Longrightarrow> try_complete_current_operation rd wr a = complete_write wr a"
  by (auto simp: writing_def try_complete_current_operation_def)

context async_stream
begin

lemma reading_step:
  assumes "reading rx tx n r0 t0 a" "complete_read rd a = (done, a')"
  shows "done \<Longrightarrow> ad_error a' = None \<Longrightarrow>
      \<exists>s'. ad_socket a' = Some s' \<and> r0 = ad_rbuf a' @ rx s' \<and> length (ad_rbuf a') = n
        \<and> ad_transferred a' = n \<and> tx s' = t0 \<and> ad_op a' = OP_NONE"
    and "\<not> done \<Longrightarrow> reading rx tx n r0 t0 a'"
    and "done \<Longrightarrow> \<exists>s'. ad_socket a' = Some s' \<and> ad_transferred a' \<le> n
        \<and> r0 = take (ad_transferred a') (ad_rbuf a') @ rx s' \<and> tx s' = t0"
proof -
  obtain s where s: "ad_socket a = Some s" "ad_rsize a = n" "length (ad_rbuf a) = n"
      "ad_roff a \<le> n" "r0 = take (ad_roff a) (ad_rbuf a) @ rx s" "tx s = t0"
      "ad_op a \<in> {OP_READ, OP_READ_HEADER}"
    using assms(1) by (auto simp: reading_def)
  obtain d bs e s' where r: "rd s (n - ad_roff a) = (d, bs, e, s')" by (metis prod_cases4)
  have f: "ad_roff a + length bs \<le> n" using read_fits [OF r] s(4) by simp
  note laws = read_order [OF r] read_tx [OF r] take_splice [of "ad_roff a" "ad_rbuf a" bs]
    length_splice [of "ad_roff a" bs "ad_rbuf a"]
  have r0: "r0 = take (ad_roff a + length bs) (splice (ad_roff a) bs (ad_rbuf a)) @ rx s'"
    using s laws by simp
  show "\<exists>s'. ad_socket a' = Some s' \<and> r0 = ad_rbuf a' @ rx s' \<and> length (ad_rbuf a') = n
        \<and> ad_transferred a' = n \<and> tx s' = t0 \<and> ad_op a' = OP_NONE"
    if "done" "ad_error a' = None"
    using that assms(2) s r f laws r0
    by (auto simp: complete_read_def Let_def split: if_splits)
  show "reading rx tx n r0 t0 a'" if "\<not> done"
    using that assms(2) s r f laws r0
    by (auto simp: complete_read_def reading_def Let_def split: if_splits)
  show "\<exists>s'. ad_socket a' = Some s' \<and> ad_transferred a' \<le> n
        \<and> r0 = take (ad_transferred a') (ad_rbuf a') @ rx s' \<and> tx s' = t0" if "done"
    using that assms(2) s r f laws r0
    by (auto simp: complete_read_def Let_def split: if_splits)
qed

lemma writing_step:
  assumes "writing rx tx buf r0 t0 a" "complete_write wr a = (done, a')"
  shows "done \<Longrightarrow> ad_error a' = None \<Longrightarrow>
      \<exists>s'. ad_socket a' = Some s' \<and> tx s' = t0 @ buf \<and> ad_transferred a' = length buf
        \<and> rx s' = r0 \<and> ad_op a' = OP_NONE"
    and "\<not> done \<Longrightarrow> writing rx tx buf r0 t0 a'"
    and "done \<Longrightarrow> \<exists>s'. ad_socket a' = Some s' \<and> ad_transferred a' \<le> length buf
        \<and> tx s' = t0 @ take (ad_transferred a') buf \<and> rx s' = r0"
proof -
  obtain s where s: "ad_socket a = Some s" "ad_wbuf a = buf" "ad_wsize a = length buf"
      "ad_woff a \<le> length buf" "tx s = t0 @ take (ad_woff a) buf" "rx s = r0" "ad_op a = OP_WRITE"
    using assms(1) by (auto simp: writing_def)
  obtain d n e s' where r: "wr s (drop (ad_woff a) buf) = (d, n, e, s')" by (metis prod_cases4)
  have f: "ad_woff a + n \<le> length buf" using write_fits [OF r] s(4) by simp
  have t: "tx s' = t0 @ take (ad_woff a + n) buf"
    using write_order [OF r] s by (simp add: take_add)
  note facts = assms(2) s r f t write_rx [OF r]
  show "\<exists>s'. ad_socket a' = Some s' \<and> tx s' = t0 @ buf \<and> ad_transferred a' = length buf
        \<and> rx s' = r0 \<and> ad_op a' = OP_NONE" if "done" "ad_error a' = None"
    using that facts by (auto simp: complete_write_def Let_def split: if_splits)
  show "writing rx tx buf r0 t0 a'" if "\<not> done"
    using that facts by (auto simp: complete_write_def writing_def Let_def split: if_splits)
  show "\<exists>s'. ad_socket a' = Some s' \<and> ad_transferred a' \<le> length buf
        \<and> tx s' = t0 @ take (ad_transferred a') buf \<and> rx s' = r0" if "done"
    using that facts by (auto simp: complete_write_def Let_def split: if_splits)
qed

text \<open>A completed read without error has filled the whole buffer with the next bytes.\<close>

lemma read_exact:
  assumes "reading rx tx n r0 t0 a" "drive rd wr k a = Some a'" "ad_error a' = None"
  shows "\<exists>s'. ad_socket a' = Some s' \<and> ad_rbuf a' = take n r0 \<and> length (ad_rbuf a') = n
    \<and> rx s' = drop n r0 \<and> tx s' = t0 \<and> io_await_resume a' = Inr n"
  using assms
proof (induction k arbitrary: a)
  case (Suc k)
  obtain f b where fb: "complete_read rd a = (f, b)" by force
  note eq = complete_read_drive [OF Suc.prems(1), of rd wr]
  show ?case
  proof (cases f)
    case True
    then have "b = a'" using Suc.prems(2) eq fb by simp
    then show ?thesis
      using reading_step(1) [OF Suc.prems(1) fb True] Suc.prems(3)
      by (auto simp: io_await_resume_def)
  next
    case False
    have "drive rd wr k b = Some a'" using Suc.prems(2) eq fb False by simp
    from Suc.IH [OF reading_step(2) [OF Suc.prems(1) fb False] this Suc.prems(3)]
    show ?thesis .
  qed
qed simp

text \<open>A failed read reports how many bytes it consumed, and they are in the buffer.\<close>

lemma read_partial:
  assumes "reading rx tx n r0 t0 a" "drive rd wr k a = Some a'"
  shows "\<exists>s'. ad_socket a' = Some s' \<and> ad_transferred a' \<le> n
    \<and> r0 = take (ad_transferred a') (ad_rbuf a') @ rx s' \<and> tx s' = t0"
  using assms
proof (induction k arbitrary: a)
  case (Suc k)
  obtain f b where fb: "complete_read rd a = (f, b)" by force
  note eq = complete_read_drive [OF Suc.prems(1), of rd wr]
  show ?case
  proof (cases f)
    case True
    then have "b = a'" using Suc.prems(2) eq fb by simp
    then show ?thesis using reading_step(3) [OF Suc.prems(1) fb True] by simp
  next
    case False
    have "drive rd wr k b = Some a'" using Suc.prems(2) eq fb False by simp
    from Suc.IH [OF reading_step(2) [OF Suc.prems(1) fb False] this] show ?thesis .
  qed
qed simp

lemma write_exact:
  assumes "writing rx tx buf r0 t0 a" "drive rd wr k a = Some a'" "ad_error a' = None"
  shows "\<exists>s'. ad_socket a' = Some s' \<and> tx s' = t0 @ buf \<and> rx s' = r0
    \<and> io_await_resume a' = Inr (length buf)"
  using assms
proof (induction k arbitrary: a)
  case (Suc k)
  obtain f b where fb: "complete_write wr a = (f, b)" by force
  note eq = complete_write_drive [OF Suc.prems(1), of rd wr]
  show ?case
  proof (cases f)
    case True
    then have "b = a'" using Suc.prems(2) eq fb by simp
    then show ?thesis
      using writing_step(1) [OF Suc.prems(1) fb True] Suc.prems(3)
      by (auto simp: io_await_resume_def)
  next
    case False
    have "drive rd wr k b = Some a'" using Suc.prems(2) eq fb False by simp
    from Suc.IH [OF writing_step(2) [OF Suc.prems(1) fb False] this Suc.prems(3)]
    show ?thesis .
  qed
qed simp

text \<open>
  A read terminates when the stream makes progress: if every non-empty read of the streams
  in \<open>R\<close> fails or yields a byte, a read of \<open>n\<close> bytes needs at most \<open>n + 1\<close> polls.
\<close>

lemma read_terminates:
  assumes "reading rx tx n r0 t0 a" "ad_socket a = Some s" "R s" "n - ad_roff a < k"
    and prog: "\<And>s n d bs e s'. R s \<Longrightarrow> 0 < n \<Longrightarrow> rd s n = (d, bs, e, s') \<Longrightarrow>
      e \<noteq> None \<or> (bs \<noteq> [] \<and> R s')"
  shows "\<exists>a'. drive rd wr k a = Some a'"
  using assms(1-4)
proof (induction k arbitrary: a s)
  case (Suc k)
  obtain d bs e s' where r: "rd s (n - ad_roff a) = (d, bs, e, s')" by (metis prod_cases4)
  obtain f b where fb: "complete_read rd a = (f, b)" by force
  have sz: "ad_rsize a = n" using Suc.prems(1) by (auto simp: reading_def)
  note eq = complete_read_drive [OF Suc.prems(1), of rd wr]
  show ?case
  proof (cases f)
    case True
    then show ?thesis using eq fb by simp
  next
    case False
    then have b: "e = None" "ad_socket b = Some s'" "ad_roff b = ad_roff a + length bs"
        "ad_roff a + length bs < n"
      using fb r Suc.prems(2) sz by (auto simp: complete_read_def Let_def split: if_splits)
    then have bs: "bs \<noteq> []" "R s'" using prog [OF Suc.prems(3) _ r] by auto
    have "n - ad_roff b < k" using b bs(1) Suc.prems(4) by (cases bs) auto
    from Suc.IH [OF reading_step(2) [OF Suc.prems(1) fb False] b(2) bs(2) this]
    show ?thesis using eq fb False by simp
  qed
qed simp

lemma write_terminates:
  assumes "writing rx tx buf r0 t0 a" "ad_socket a = Some s" "R s" "length buf - ad_woff a < k"
    and prog: "\<And>s bs d n e s'. R s \<Longrightarrow> bs \<noteq> [] \<Longrightarrow> wr s bs = (d, n, e, s') \<Longrightarrow>
      e \<noteq> None \<or> (0 < n \<and> R s')"
  shows "\<exists>a'. drive rd wr k a = Some a'"
  using assms(1-4)
proof (induction k arbitrary: a s)
  case (Suc k)
  obtain d n e s' where r: "wr s (drop (ad_woff a) buf) = (d, n, e, s')" by (metis prod_cases4)
  obtain f b where fb: "complete_write wr a = (f, b)" by force
  have sz: "ad_wsize a = length buf" "ad_wbuf a = buf"
    using Suc.prems(1) by (auto simp: writing_def)
  note eq = complete_write_drive [OF Suc.prems(1), of rd wr]
  show ?case
  proof (cases f)
    case True
    then show ?thesis using eq fb by simp
  next
    case False
    then have b: "e = None" "ad_socket b = Some s'" "ad_woff b = ad_woff a + n"
        "ad_woff a + n < length buf"
      using fb r Suc.prems(2) sz by (auto simp: complete_write_def Let_def split: if_splits)
    then have n: "0 < n" "R s'" using prog [OF Suc.prems(3) _ r] by auto
    have "length buf - ad_woff b < k" using b n(1) Suc.prems(4) by simp
    from Suc.IH [OF writing_step(2) [OF Suc.prems(1) fb False] b(2) n(2) this]
    show ?thesis using eq fb False by simp
  qed
qed simp

end

end
