(* ===== verification/ZtSocket.thy ===== *)
theory ZtSocket
  imports ZtErrno ZtNode SocketAdapter
begin

section \<open>The ZeroTier stream socket\<close>

text \<open>
  \<open>ZeroTierSocket\<close> (transport/socket/zerotier/ZeroTierSocket.hpp, .cpp). libzt is not part
  of the repository: its calls are the fields of \<open>zts_api\<close>, functions of a network state of
  type \<open>'k\<close>. A call takes the thread's \<open>zts_errno\<close> where the source reads it afterwards and
  returns the new one. \<open>zts_recv\<close> gives \<open>Some\<close> received bytes (empty: result 0) or \<open>None\<close>
  for a negative result; \<open>zts_send\<close> gives the count sent or \<open>None\<close>.

  The blocking calls loop until the buffer is complete, retrying on timeouts, so they may
  run for ever against a silent peer: they take the number of loop iterations allowed and
  return \<open>None\<close> when it is used up. Other threads may call \<open>shutdown\<close> or \<open>close\<close> while a
  call loops; the argument \<open>env\<close> is what they do to the socket before each look at it.

  The node service is process-wide like the network; a socket carries the state of both.

  The locale \<open>bsd_api\<close> states the documented behaviour of a stream socket that the code
  relies on. Under it the non-blocking calls satisfy the stream contract of
  \<open>SocketAdapter\<close> and the blocking ones the contract \<open>blocking_stream\<close>.
\<close>

record 'k zts_api =
  zts_recv :: "'k \<Rightarrow> int \<Rightarrow> nat \<Rightarrow> bool \<Rightarrow> int \<Rightarrow> bytes option \<times> int \<times> 'k"
  zts_send :: "'k \<Rightarrow> int \<Rightarrow> bytes \<Rightarrow> int \<Rightarrow> nat option \<times> int \<times> 'k"
  zts_socket :: "'k \<Rightarrow> int \<times> int \<times> 'k"
  zts_connect :: "'k \<Rightarrow> int \<Rightarrow> string \<Rightarrow> int \<Rightarrow> bool \<times> int \<times> 'k"
  zts_getpeername :: "'k \<Rightarrow> int \<Rightarrow> (string \<times> u16) option \<times> int"
  zts_getsockname :: "'k \<Rightarrow> int \<Rightarrow> (string \<times> u16) option"
  zts_node_get_id :: "'k \<Rightarrow> u64"
  zts_accept :: "'k \<Rightarrow> int \<Rightarrow> int \<times> int \<times> 'k"
  zts_poll_out :: "'k \<Rightarrow> int \<Rightarrow> int \<times> bool \<times> int \<times> 'k"
  zts_so_error :: "'k \<Rightarrow> int \<Rightarrow> int option"
  zts_bind :: "'k \<Rightarrow> int \<Rightarrow> string \<Rightarrow> int \<Rightarrow> bool \<times> 'k"
  zts_listen :: "'k \<Rightarrow> int \<Rightarrow> int \<Rightarrow> bool \<times> 'k"
  zts_close :: "'k \<Rightarrow> int \<Rightarrow> 'k"
  zts_inet_pton :: "string \<Rightarrow> bool"
  zts_node :: "'k node_api"

record 'k ZeroTierSocket =
  zs_fd :: int
  zs_errno :: int
  zs_shutdown :: bool
  zs_connected :: bool
  zs_server :: bool
  zs_connecting :: bool
  zs_nonblocking :: bool
  zs_lease :: NetworkLease
  zs_service :: ZeroTierNodeService
  zs_kernel :: 'k

definition new_socket :: "bool \<Rightarrow> ZeroTierNodeService \<Rightarrow> 'k \<Rightarrow> 'k ZeroTierSocket" where
  "new_socket nonblocking svc k = \<lparr>zs_fd = -1, zs_errno = 0, zs_shutdown = False,
     zs_connected = False, zs_server = False, zs_connecting = False,
     zs_nonblocking = nonblocking, zs_lease = null_lease,
     zs_service = svc, zs_kernel = k\<rparr>"

definition socket_from_fd ::
  "int \<Rightarrow> ZeroTierNodeService \<Rightarrow> 'k \<Rightarrow> 'k ZeroTierSocket result" where
  "socket_from_fd fd svc k =
     (if fd < 0 then Inl runtime_error
      else Inr ((new_socket True svc k)\<lparr>zs_fd := fd, zs_connected := True\<rparr>))"

definition net :: "'k \<Rightarrow> int \<Rightarrow> 'k ZeroTierSocket \<Rightarrow> 'k ZeroTierSocket" where
  "net k err z = z\<lparr>zs_kernel := k, zs_errno := err\<rparr>"

subsection \<open>Non-blocking calls\<close>

definition try_read :: "'k zts_api \<Rightarrow> 'k ZeroTierSocket try_read_fn" where
  "try_read api z n =
     (if zs_fd z < 0 then (True, [], Some bad_file_descriptor, z)
      else case zts_recv api (zs_kernel z) (zs_fd z) n False 0 of
        (r, err, k) \<Rightarrow>
          let z' = net k err z in
          (case r of
             Some bs \<Rightarrow>
               if bs \<noteq> [] then (length bs = n, bs, None, z')
               else (True, [], Some (if err \<noteq> 0 then translate_error err else not_connected), z')
           | None \<Rightarrow>
               if is_would_block_errno err then (False, [], None, z')
               else (True, [], Some (translate_error err), z')))"

definition check_alive ::
  "'k zts_api \<Rightarrow> 'k ZeroTierSocket \<Rightarrow> bool \<times> errc option \<times> 'k ZeroTierSocket" where
  "check_alive api z =
     (if zs_fd z < 0 then (False, Some bad_file_descriptor, z)
      else case zts_recv api (zs_kernel z) (zs_fd z) 1 True 0 of
        (r, err, k) \<Rightarrow>
          let z' = net k err z in
          (case r of
             Some bs \<Rightarrow>
               if bs \<noteq> [] then (True, None, z')
               else (False, Some (if err \<noteq> 0 then translate_error err else not_connected), z')
           | None \<Rightarrow>
               if is_would_block_errno err then (True, None, z')
               else (False, Some (translate_error err), z')))"

definition try_write :: "'k zts_api \<Rightarrow> 'k ZeroTierSocket try_write_fn" where
  "try_write api z buf =
     (if zs_fd z < 0 then (True, 0, Some bad_file_descriptor, z)
      else case zts_send api (zs_kernel z) (zs_fd z) buf 0 of
        (r, err, k) \<Rightarrow>
          let z' = net k err z in
          (case r of
             Some n \<Rightarrow> if 0 < n then (n = length buf, n, None, z') else (False, 0, None, z')
           | None \<Rightarrow>
               if is_would_block_errno err then (False, 0, None, z')
               else (True, 0, Some (translate_error err), z')))"

subsection \<open>Opening and connecting\<close>

definition ensure_lease ::
  "'k zts_api \<Rightarrow> nat \<Rightarrow> 'k ZeroTierSocket \<Rightarrow> (unit result \<times> 'k ZeroTierSocket) option" where
  "ensure_lease api fuel z =
     (if lease_valid (zs_lease z) then Some (Inr (), z)
      else case acquire_default (zts_node api) fuel (zs_service z) (zs_kernel z) of
        None \<Rightarrow> None
      | Some (Inl e, svc, k) \<Rightarrow> Some (Inl e, z\<lparr>zs_service := svc, zs_kernel := k\<rparr>)
      | Some (Inr l, svc, k) \<Rightarrow>
          (case lease_move_assign (zts_node api) (zs_lease z) l svc k of
             (l', _, svc', k') \<Rightarrow> Some (Inr (), z\<lparr>zs_lease := l', zs_service := svc', zs_kernel := k'\<rparr>)))"

text \<open>The callers of \<open>ensure_lease\<close> do not catch the exceptions of the node service.\<close>

definition with_lease ::
  "'k zts_api \<Rightarrow> nat \<Rightarrow> ('k ZeroTierSocket \<Rightarrow> ('a result \<times> 'k ZeroTierSocket) option) \<Rightarrow>
   'k ZeroTierSocket \<Rightarrow> ('a result \<times> 'k ZeroTierSocket) option" where
  "with_lease api fuel body z0 =
     (case ensure_lease api fuel z0 of
        None \<Rightarrow> None
      | Some (Inl e, z) \<Rightarrow> Some (Inl e, z)
      | Some (Inr _, z) \<Rightarrow> body z)"

definition open_fd_if_needed ::
  "'k zts_api \<Rightarrow> 'k ZeroTierSocket \<Rightarrow> errc option \<times> 'k ZeroTierSocket" where
  "open_fd_if_needed api z =
     (if 0 \<le> zs_fd z then (None, z)
      else case zts_socket api (zs_kernel z) of
        (fd, err, k) \<Rightarrow>
          if fd < 0 then (Some (translate_error err), net k err z)
          else (None, (net k err z)\<lparr>zs_fd := fd\<rparr>))"

definition check_connect_complete ::
  "'k zts_api \<Rightarrow> 'k ZeroTierSocket \<Rightarrow> bool \<times> errc option \<times> 'k ZeroTierSocket" where
  "check_connect_complete api z =
     (if zs_fd z < 0 \<or> \<not> zs_connecting z then (True, Some bad_file_descriptor, z)
      else case zts_getpeername api (zs_kernel z) (zs_fd z) of
        (Some _, err) \<Rightarrow> (True, None, z\<lparr>zs_errno := err, zs_connecting := False\<rparr>)
      | (None, err) \<Rightarrow>
          if is_would_block_errno err \<or> err = ZTS_ENOTCONN
          then (False, None, z\<lparr>zs_errno := err\<rparr>)
          else (True, Some (translate_error err), z\<lparr>zs_errno := err, zs_connecting := False\<rparr>))"

definition try_connect ::
  "'k zts_api \<Rightarrow> nat \<Rightarrow> string \<Rightarrow> int \<Rightarrow> 'k ZeroTierSocket \<Rightarrow>
   ((bool \<times> errc option) result \<times> 'k ZeroTierSocket) option" where
  "try_connect api fuel host port =
     with_lease api fuel (\<lambda>z0.
       case open_fd_if_needed api z0 of
         (Some e, z) \<Rightarrow> Some (Inr (True, Some e), z)
       | (None, z) \<Rightarrow>
           if zs_connecting z
           then (case check_connect_complete api z of (fin, e, z') \<Rightarrow> Some (Inr (fin, e), z'))
           else if \<not> zts_inet_pton api host then Some (Inr (True, Some invalid_argument), z)
           else case zts_connect api (zs_kernel z) (zs_fd z) host port of
             (ok, err, k) \<Rightarrow>
               let z' = net k err z in
               if ok then Some (Inr (True, None), z')
               else if is_would_block_errno err then Some (Inr (False, None), z'\<lparr>zs_connecting := True\<rparr>)
               else Some (Inr (True, Some (translate_error err)), z'))"

fun connect_loop ::
  "'k zts_api \<Rightarrow> ('k ZeroTierSocket \<Rightarrow> 'k ZeroTierSocket) \<Rightarrow> int \<Rightarrow> nat \<Rightarrow> 'k ZeroTierSocket \<Rightarrow>
   (errc option \<times> 'k ZeroTierSocket) option" where
  "connect_loop api env fd 0 z = None"
| "connect_loop api env fd (Suc fuel) z0 =
     (let z = env z0 in
      if zs_shutdown z then Some (Some bad_file_descriptor, z)
      else if zs_fd z < 0 then Some (Some bad_file_descriptor, z)
      else case zts_poll_out api (zs_kernel z) fd of
        (r, writable, err, k) \<Rightarrow>
          let z' = net k err z in
          if 0 < r \<and> writable then
            (case zts_so_error api k fd of
               Some se \<Rightarrow>
                 if se = 0 then Some (None, z'\<lparr>zs_connected := True\<rparr>)
                 else Some (Some (translate_error se), z')
             | None \<Rightarrow> connect_loop api env fd fuel z')
          else if r < 0 then Some (Some (translate_error err), z')
          else connect_loop api env fd fuel z')"

definition zt_connect ::
  "'k zts_api \<Rightarrow> ('k ZeroTierSocket \<Rightarrow> 'k ZeroTierSocket) \<Rightarrow> nat \<Rightarrow> string \<Rightarrow> int \<Rightarrow>
   'k ZeroTierSocket \<Rightarrow> (errc option result \<times> 'k ZeroTierSocket) option" where
  "zt_connect api env fuel host port =
     with_lease api fuel (\<lambda>z0.
       case open_fd_if_needed api z0 of
         (Some e, z) \<Rightarrow> Some (Inr (Some e), z)
       | (None, z) \<Rightarrow>
           if \<not> zts_inet_pton api host then Some (Inr (Some invalid_argument), z)
           else
             let z1 = env z; fd = zs_fd z1 in
             if fd < 0 then Some (Inr (Some bad_file_descriptor), z1)
             else case zts_connect api (zs_kernel z1) fd host port of
               (ok, err, k) \<Rightarrow>
                 let z' = net k err z1 in
                 if ok then Some (Inr None, z'\<lparr>zs_connected := True\<rparr>)
                 else if \<not> is_would_block_errno err \<and> err \<noteq> EINPROGRESS
                 then Some (Inr (Some (translate_error err)), z')
                 else map_option (\<lambda>(e, z''). (Inr e, z'')) (connect_loop api env fd fuel z'))"

subsection \<open>Listening and accepting\<close>

definition zt_bind ::
  "'k zts_api \<Rightarrow> nat \<Rightarrow> string \<Rightarrow> int \<Rightarrow> 'k ZeroTierSocket \<Rightarrow>
   (bool result \<times> 'k ZeroTierSocket) option" where
  "zt_bind api fuel host port =
     with_lease api fuel (\<lambda>z0.
       case open_fd_if_needed api z0 of
         (Some e, z) \<Rightarrow> Some (Inr False, z)
       | (None, z) \<Rightarrow>
           let addr = (if host = [] \<or> host = ''0.0.0.0'' then ''0.0.0.0'' else host) in
           if \<not> zts_inet_pton api addr then Some (Inr False, z)
           else case zts_bind api (zs_kernel z) (zs_fd z) addr port of
             (ok, k) \<Rightarrow> Some (Inr ok, z\<lparr>zs_kernel := k\<rparr>))"

definition zt_listen :: "'k zts_api \<Rightarrow> int \<Rightarrow> 'k ZeroTierSocket \<Rightarrow> bool \<times> 'k ZeroTierSocket" where
  "zt_listen api backlog z =
     (if zs_fd z < 0 then (False, z)
      else case zts_listen api (zs_kernel z) (zs_fd z) backlog of
        (ok, k) \<Rightarrow> if ok then (True, z\<lparr>zs_kernel := k, zs_server := True\<rparr>)
                   else (False, z\<lparr>zs_kernel := k\<rparr>))"

definition start_listening ::
  "'k zts_api \<Rightarrow> nat \<Rightarrow> string \<Rightarrow> int \<Rightarrow> int \<Rightarrow> 'k ZeroTierSocket \<Rightarrow>
   (bool result \<times> 'k ZeroTierSocket) option" where
  "start_listening api fuel host port backlog =
     with_lease api fuel (\<lambda>z0.
       case open_fd_if_needed api z0 of
         (Some e, z) \<Rightarrow> Some (Inr False, z)
       | (None, z) \<Rightarrow>
           (case zt_bind api fuel host port z of
              Some (Inr True, z') \<Rightarrow>
                (case zt_listen api backlog z' of (ok, z'') \<Rightarrow> Some (Inr ok, z''))
            | r \<Rightarrow> r))"

text \<open>
  \<open>accept\<close> returns after one \<open>zts_bsd_accept\<close>: every path through the body of its loop
  returns. The result is the child's descriptor, if any, and the error.
\<close>

definition zt_accept ::
  "'k zts_api \<Rightarrow> 'k ZeroTierSocket \<Rightarrow> int option \<times> errc option \<times> 'k ZeroTierSocket" where
  "zt_accept api z =
     (if zs_fd z < 0 \<or> \<not> zs_server z then (None, Some bad_file_descriptor, z)
      else if zs_shutdown z then (None, Some bad_file_descriptor, z)
      else case zts_accept api (zs_kernel z) (zs_fd z) of
        (cfd, err, k) \<Rightarrow>
          let z' = net k err z; n = normalize_errno err in
          if 0 \<le> cfd then (Some cfd, None, z')
          else if n = EAGAIN \<or> n = EWOULDBLOCK \<or> n = ETIMEDOUT then (None, None, z')
          else if n = ECONNABORTED \<or> n = ESHUTDOWN \<or> n = EBADF then (None, None, z')
          else (None, Some (translate_error err), z'))"

subsection \<open>Closing\<close>

definition zt_shutdown :: "'k ZeroTierSocket \<Rightarrow> 'k ZeroTierSocket" where
  "zt_shutdown z = z\<lparr>zs_shutdown := True, zs_service := service_shutdown (zs_service z)\<rparr>"

definition zt_close :: "'k zts_api \<Rightarrow> 'k ZeroTierSocket \<Rightarrow> 'k ZeroTierSocket" where
  "zt_close api z =
     (if 0 \<le> zs_fd z
      then z\<lparr>zs_fd := -1, zs_kernel := zts_close api (zs_kernel z) (zs_fd z),
             zs_server := False, zs_connecting := False\<rparr>
      else z)"

definition cleanup_resources ::
  "'k zts_api \<Rightarrow> 'k ZeroTierSocket \<Rightarrow> 'k ZeroTierSocket" where
  "cleanup_resources api z =
     (let z' = (if 0 \<le> zs_fd z
                then z\<lparr>zs_kernel := zts_close api (zs_kernel z) (zs_fd z), zs_fd := -1,
                       zs_server := False, zs_connecting := False\<rparr>
                else z)
      in case lease_release (zts_node api) (zs_lease z') (zs_service z') (zs_kernel z') of
           (l, svc, k) \<Rightarrow> z'\<lparr>zs_lease := l, zs_service := svc, zs_kernel := k\<rparr>)"

definition zt_is_open :: "'k ZeroTierSocket \<Rightarrow> bool" where
  "zt_is_open z \<longleftrightarrow> 0 \<le> zs_fd z"

definition remote_endpoint :: "'k zts_api \<Rightarrow> 'k ZeroTierSocket \<Rightarrow> string" where
  "remote_endpoint api z =
     (if \<not> zt_is_open z then []
      else case zts_getpeername api (zs_kernel z) (zs_fd z) of
        (Some (ip, port), _) \<Rightarrow> ip @ '':'' @ to_string (unat port) | (None, _) \<Rightarrow> [])"

definition local_endpoint :: "'k zts_api \<Rightarrow> 'k ZeroTierSocket \<Rightarrow> string" where
  "local_endpoint api z =
     (if \<not> zt_is_open z then []
      else case zts_getsockname api (zs_kernel z) (zs_fd z) of
        None \<Rightarrow> []
      | Some (ip, port) \<Rightarrow>
          let net_id = (case g_default_network_hex (zs_service z) of
                          Some hex \<Rightarrow> if hex \<noteq> [] then strtoull16 hex else 0
                        | None \<Rightarrow> 0);
              ip' = (if ip = ''0.0.0.0'' \<and> net_id \<noteq> 0
                     then case get_ip_v4 (zts_node api) net_id (zs_kernel z) of
                            Some assigned \<Rightarrow> assigned | None \<Rightarrow> ip
                     else ip)
          in ip' @ '':'' @ to_string (unat port))"

definition zt_node_id :: "'k zts_api \<Rightarrow> 'k ZeroTierSocket \<Rightarrow> u64" where
  "zt_node_id api z = zts_node_get_id api (zs_kernel z)"

subsection \<open>Blocking calls\<close>

text \<open>The errors after which a blocking call tries again while the socket is open.\<close>

definition retry_errno :: "int \<Rightarrow> bool" where
  "retry_errno err \<longleftrightarrow>
     (let n = normalize_errno err in n = ETIMEDOUT \<or> n = ESHUTDOWN \<or> n = EWOULDBLOCK)"

fun read_loop ::
  "'k zts_api \<Rightarrow> ('k ZeroTierSocket \<Rightarrow> 'k ZeroTierSocket) \<Rightarrow> nat \<Rightarrow> nat \<Rightarrow> bytes \<Rightarrow>
   'k ZeroTierSocket \<Rightarrow> (bytes \<times> errc option \<times> 'k ZeroTierSocket) option" where
  "read_loop api env 0 sz acc z = None"
| "read_loop api env (Suc fuel) sz acc z0 =
     (if sz \<le> length acc then Some (acc, None, z0)
      else let z = env z0 in
        if zs_shutdown z then Some (acc, Some bad_file_descriptor, z)
        else if zs_fd z < 0 then Some (acc, Some bad_file_descriptor, z)
        else case zts_recv api (zs_kernel z) (zs_fd z) (sz - length acc) False (zs_errno z) of
          (r, err, k) \<Rightarrow>
            let z' = net k err z in
            (case r of
               Some bs \<Rightarrow>
                 if bs \<noteq> [] then read_loop api env fuel sz (acc @ bs) z'
                 else Some (acc, Some (if err \<noteq> 0 then translate_error err else not_connected), z')
             | None \<Rightarrow>
                 if retry_errno err then
                   let z'' = env z' in
                   if 0 \<le> zs_fd z'' then read_loop api env fuel sz acc z''
                   else Some (acc, Some bad_file_descriptor, z'')
                 else Some (acc, Some (translate_error err), z')))"

definition zt_read ::
  "'k zts_api \<Rightarrow> ('k ZeroTierSocket \<Rightarrow> 'k ZeroTierSocket) \<Rightarrow> nat \<Rightarrow> 'k ZeroTierSocket \<Rightarrow> nat \<Rightarrow>
   (bytes \<times> errc option \<times> 'k ZeroTierSocket) option" where
  "zt_read api env fuel z sz = read_loop api env fuel sz [] z"

fun write_loop ::
  "'k zts_api \<Rightarrow> ('k ZeroTierSocket \<Rightarrow> 'k ZeroTierSocket) \<Rightarrow> nat \<Rightarrow> bytes \<Rightarrow> nat \<Rightarrow>
   'k ZeroTierSocket \<Rightarrow> (nat \<times> errc option \<times> 'k ZeroTierSocket) option" where
  "write_loop api env 0 buf wn z = None"
| "write_loop api env (Suc fuel) buf wn z0 =
     (if length buf \<le> wn then Some (wn, None, z0)
      else let z = env z0 in
        if zs_shutdown z then Some (wn, Some bad_file_descriptor, z)
        else if zs_fd z < 0 then Some (wn, Some bad_file_descriptor, z)
        else case zts_send api (zs_kernel z) (zs_fd z) (drop wn buf) (zs_errno z) of
          (r, err, k) \<Rightarrow>
            let z' = net k err z in
            (case r of
               Some n \<Rightarrow> write_loop api env fuel buf (wn + n) z'
             | None \<Rightarrow>
                 if retry_errno err then
                   let z'' = env z' in
                   if 0 \<le> zs_fd z'' then write_loop api env fuel buf wn z''
                   else Some (wn, Some bad_file_descriptor, z'')
                 else Some (wn, Some (translate_error err), z')))"

definition zt_write ::
  "'k zts_api \<Rightarrow> ('k ZeroTierSocket \<Rightarrow> 'k ZeroTierSocket) \<Rightarrow> nat \<Rightarrow> 'k ZeroTierSocket \<Rightarrow> bytes \<Rightarrow>
   (nat \<times> errc option \<times> 'k ZeroTierSocket) option" where
  "zt_write api env fuel z buf = write_loop api env fuel buf 0 z"

subsection \<open>Contracts\<close>

text \<open>
  The contract of the blocking interface (\<open>IBlockingStream\<close>) as its clients use it: a call
  that returns without error has transferred everything, and with or without error what it
  transferred is the next part of the stream.
\<close>

locale blocking_stream =
  fixes rdb :: "'s \<Rightarrow> nat \<Rightarrow> (bytes \<times> errc option \<times> 's) option"
    and wrb :: "'s \<Rightarrow> bytes \<Rightarrow> (nat \<times> errc option \<times> 's) option"
    and rx :: "'s \<Rightarrow> bytes" and tx :: "'s \<Rightarrow> bytes"
  assumes rdb_order: "rdb s n = Some (bs, e, s') \<Longrightarrow> rx s = bs @ rx s' \<and> tx s' = tx s"
    and rdb_full: "rdb s n = Some (bs, None, s') \<Longrightarrow> length bs = n"
    and wrb_order: "wrb s buf = Some (n, e, s') \<Longrightarrow> tx s' = tx s @ take n buf \<and> rx s' = rx s"
    and wrb_full: "wrb s buf = Some (n, None, s') \<Longrightarrow> n = length buf"
begin

lemma rdb_exact:
  "rdb s n = Some (bs, None, s') \<Longrightarrow> bs = take n (rx s) \<and> rx s' = drop n (rx s) \<and> tx s' = tx s"
  using rdb_order [of s n bs None s'] rdb_full [of s n bs s'] by auto

lemma wrb_exact: "wrb s buf = Some (n, None, s') \<Longrightarrow> tx s' = tx s @ buf \<and> rx s' = rx s"
  using wrb_order [of s buf n None s'] wrb_full [of s buf n s'] by auto

end

locale bsd_api =
  fixes api :: "'k zts_api" and krx :: "'k \<Rightarrow> bytes" and ktx :: "'k \<Rightarrow> bytes"
    and env :: "'k ZeroTierSocket \<Rightarrow> 'k ZeroTierSocket"
  assumes recv_data: "zts_recv api k fd n False e = (Some bs, e', k') \<Longrightarrow>
      length bs \<le> n \<and> krx k = bs @ krx k' \<and> ktx k' = ktx k"
    and recv_fail: "zts_recv api k fd n False e = (None, e', k') \<Longrightarrow> krx k' = krx k \<and> ktx k' = ktx k"
    and recv_peek: "zts_recv api k fd n True e = (r, e', k') \<Longrightarrow> krx k' = krx k \<and> ktx k' = ktx k"
    and send_data: "zts_send api k fd buf e = (Some m, e', k') \<Longrightarrow>
      m \<le> length buf \<and> ktx k' = ktx k @ take m buf \<and> krx k' = krx k"
    and send_fail: "zts_send api k fd buf e = (None, e', k') \<Longrightarrow> krx k' = krx k \<and> ktx k' = ktx k"
    and env_keeps: "krx (zs_kernel (env z)) = krx (zs_kernel z) \<and> ktx (zs_kernel (env z)) = ktx (zs_kernel z)"

definition sock_rx :: "('k \<Rightarrow> bytes) \<Rightarrow> 'k ZeroTierSocket \<Rightarrow> bytes" where
  "sock_rx f z = f (zs_kernel z)"

lemma net_sel [simp]:
  "zs_kernel (net k e z) = k" "zs_errno (net k e z) = e" "zs_fd (net k e z) = zs_fd z"
  "zs_shutdown (net k e z) = zs_shutdown z"
  by (simp_all add: net_def)

context bsd_api
begin

lemma read_loop_spec:
  "read_loop api env fuel sz acc z = Some (bs, e, z') \<Longrightarrow> length acc \<le> sz \<Longrightarrow>
     \<exists>got. bs = acc @ got \<and> krx (zs_kernel z) = got @ krx (zs_kernel z')
       \<and> ktx (zs_kernel z') = ktx (zs_kernel z) \<and> length bs \<le> sz \<and> (e = None \<longrightarrow> length bs = sz)"
proof (induction fuel arbitrary: acc z)
  case (Suc fuel)
  let ?z = "env z"
  show ?case
  proof (cases "sz \<le> length acc \<or> zs_shutdown ?z \<or> zs_fd ?z < 0")
    case True
    then show ?thesis using Suc.prems env_keeps [of z] by (auto simp: Let_def split: if_splits)
  next
    case False
    obtain r err k where rk:
      "zts_recv api (zs_kernel ?z) (zs_fd ?z) (sz - length acc) False (zs_errno ?z) = (r, err, k)"
      by (metis prod_cases3)
    show ?thesis
    proof (cases r)
      case None
      note keep = recv_fail [OF rk [unfolded None]] env_keeps [of z] env_keeps [of "net k err ?z"]
      show ?thesis
      proof (cases "retry_errno err \<and> 0 \<le> zs_fd (env (net k err ?z))")
        case True
        with False None rk Suc.prems(1)
        have "read_loop api env fuel sz acc (env (net k err ?z)) = Some (bs, e, z')"
          by (simp add: Let_def)
        from Suc.IH [OF this Suc.prems(2)] keep show ?thesis by auto
      next
        case F: False
        then show ?thesis using False None rk Suc.prems keep
          by (auto simp: Let_def split: if_splits)
      qed
    next
      case (Some got)
      note d = recv_data [OF rk [unfolded Some]] env_keeps [of z]
      show ?thesis
      proof (cases "got = []")
        case True
        then show ?thesis using False Some rk Suc.prems d by (auto simp: Let_def)
      next
        case F: False
        with False Some rk Suc.prems(1)
        have "read_loop api env fuel sz (acc @ got) (net k err ?z) = Some (bs, e, z')"
          by (simp add: Let_def)
        from Suc.IH [OF this] d Suc.prems(2) False show ?thesis by fastforce
      qed
    qed
  qed
qed simp

lemma write_loop_spec:
  "write_loop api env fuel buf wn z = Some (n, e, z') \<Longrightarrow> wn \<le> length buf \<Longrightarrow>
     wn \<le> n \<and> n \<le> length buf \<and> ktx (zs_kernel z') = ktx (zs_kernel z) @ take (n - wn) (drop wn buf)
       \<and> krx (zs_kernel z') = krx (zs_kernel z) \<and> (e = None \<longrightarrow> n = length buf)"
proof (induction fuel arbitrary: wn z)
  case (Suc fuel)
  let ?z = "env z"
  show ?case
  proof (cases "length buf \<le> wn \<or> zs_shutdown ?z \<or> zs_fd ?z < 0")
    case True
    then show ?thesis using Suc.prems env_keeps [of z] by (auto simp: Let_def split: if_splits)
  next
    case False
    obtain r err k where rk:
      "zts_send api (zs_kernel ?z) (zs_fd ?z) (drop wn buf) (zs_errno ?z) = (r, err, k)"
      by (metis prod_cases3)
    show ?thesis
    proof (cases r)
      case None
      note keep = send_fail [OF rk [unfolded None]] env_keeps [of z] env_keeps [of "net k err ?z"]
      show ?thesis
      proof (cases "retry_errno err \<and> 0 \<le> zs_fd (env (net k err ?z))")
        case True
        with False None rk Suc.prems(1)
        have "write_loop api env fuel buf wn (env (net k err ?z)) = Some (n, e, z')"
          by (simp add: Let_def)
        from Suc.IH [OF this Suc.prems(2)] keep show ?thesis by simp
      next
        case F: False
        then show ?thesis using False None rk Suc.prems keep
          by (auto simp: Let_def split: if_splits)
      qed
    next
      case (Some m)
      note d = send_data [OF rk [unfolded Some]] env_keeps [of z]
      have le: "wn + m \<le> length buf" using d Suc.prems(2) by auto
      have "write_loop api env fuel buf (wn + m) (net k err ?z) = Some (n, e, z')"
        using False Some rk Suc.prems(1) by (simp add: Let_def)
      note ih = Suc.IH [OF this le]
      have "take (n - wn) (drop wn buf) = take m (drop wn buf) @ take (n - (wn + m)) (drop (wn + m) buf)"
        if "wn + m \<le> n"
        using that take_add [of m "n - (wn + m)" "drop wn buf"] by (simp add: add.commute)
      then show ?thesis using ih d by simp
    qed
  qed
qed simp

lemma zt_read_spec:
  assumes "zt_read api env fuel z n = Some (bs, e, z')"
  shows "krx (zs_kernel z) = bs @ krx (zs_kernel z')" "ktx (zs_kernel z') = ktx (zs_kernel z)"
    "length bs \<le> n" "e = None \<Longrightarrow> length bs = n"
  using read_loop_spec [OF assms [unfolded zt_read_def]] by auto

lemma zt_write_spec:
  assumes "zt_write api env fuel z buf = Some (n, e, z')"
  shows "ktx (zs_kernel z') = ktx (zs_kernel z) @ take n buf" "krx (zs_kernel z') = krx (zs_kernel z)"
    "e = None \<Longrightarrow> n = length buf"
  using write_loop_spec [OF assms [unfolded zt_write_def]] by auto

end

sublocale bsd_api \<subseteq> nb: async_stream "try_read api" "try_write api" "sock_rx krx" "sock_rx ktx"
proof unfold_locales
  fix s n d bs e s'
  assume r: "try_read api s n = (d, bs, e, s')"
  obtain r' err k where rk: "zts_recv api (zs_kernel s) (zs_fd s) n False 0 = (r', err, k)"
    by (metis prod_cases3)
  have facts: "length bs \<le> n \<and> sock_rx krx s = bs @ sock_rx krx s' \<and> sock_rx ktx s' = sock_rx ktx s"
    using r rk recv_data [of _ _ n 0] recv_fail [of _ _ n 0]
    by (cases r') (auto simp: try_read_def sock_rx_def Let_def split: if_splits)
  then show "length bs \<le> n" "sock_rx krx s = bs @ sock_rx krx s'" "sock_rx ktx s' = sock_rx ktx s"
    by blast+
next
  fix s bs d n e s'
  assume w: "try_write api s bs = (d, n, e, s')"
  obtain r' err k where rk: "zts_send api (zs_kernel s) (zs_fd s) bs 0 = (r', err, k)"
    by (metis prod_cases3)
  have facts: "n \<le> length bs \<and> sock_rx ktx s' = sock_rx ktx s @ take n bs \<and> sock_rx krx s' = sock_rx krx s"
    using w rk send_data [of _ _ bs 0] send_fail [of _ _ bs 0]
    by (cases r') (auto simp: try_write_def sock_rx_def Let_def split: if_splits)
  then show "n \<le> length bs" "sock_rx ktx s' = sock_rx ktx s @ take n bs"
      "sock_rx krx s' = sock_rx krx s"
    by blast+
qed

sublocale bsd_api \<subseteq> bl: blocking_stream "zt_read api env fuel" "zt_write api env fuel"
    "sock_rx krx" "sock_rx ktx" for fuel
  by unfold_locales (auto simp: sock_rx_def dest: zt_read_spec zt_write_spec)

context bsd_api
begin

lemmas sock_read_exact = nb.read_exact
lemmas sock_write_exact = nb.write_exact
lemmas sock_read_terminates = nb.read_terminates
lemmas sock_rdb_exact = bl.rdb_exact
lemmas sock_wrb_exact = bl.wrb_exact

end

subsection \<open>An in-memory link\<close>

text \<open>
  The network state used when two endpoints of the program are composed: the bytes on their
  way to this side, the bytes this side has sent, whether the peer has closed, and how many
  bytes each coming call may move (0: would block; nothing scheduled: all).
\<close>

record link =
  lk_in :: bytes
  lk_out :: bytes
  lk_eof :: bool
  lk_sched :: "nat list"

definition lk_quota :: "link \<Rightarrow> nat \<Rightarrow> nat" where
  "lk_quota k n = (case lk_sched k of [] \<Rightarrow> n | c # _ \<Rightarrow> min c n)"

definition link_recv :: "link \<Rightarrow> int \<Rightarrow> nat \<Rightarrow> bool \<Rightarrow> int \<Rightarrow> bytes option \<times> int \<times> link" where
  "link_recv k fd n peek e =
     (let m = min (lk_quota k n) (length (lk_in k)); k' = k\<lparr>lk_sched := tl (lk_sched k)\<rparr> in
      if lk_in k = [] \<and> lk_eof k then (Some [], e, k')
      else if m = 0 then (None, ZTS_EAGAIN, k')
      else if peek then (Some (take m (lk_in k)), e, k')
      else (Some (take m (lk_in k)), e, k'\<lparr>lk_in := drop m (lk_in k)\<rparr>))"

definition link_send :: "link \<Rightarrow> int \<Rightarrow> bytes \<Rightarrow> int \<Rightarrow> nat option \<times> int \<times> link" where
  "link_send k fd buf e =
     (let m = lk_quota k (length buf); k' = k\<lparr>lk_sched := tl (lk_sched k)\<rparr> in
      if m = 0 then (None, ZTS_EAGAIN, k')
      else (Some m, e, k'\<lparr>lk_out := lk_out k @ take m buf\<rparr>))"

definition link_node :: "link node_api" where
  "link_node = \<lparr>zts_node_is_online = (\<lambda>k. True), zts_node_start = (\<lambda>k. (0, k)), zts_node_stop = (\<lambda>k. k),
     zts_init_from_storage = (\<lambda>p k. k), zts_net_get_status = (\<lambda>n k. 1), zts_net_join = (\<lambda>n k. (0, k)),
     zts_net_leave = (\<lambda>n k. k), zts_addr_is_assigned = (\<lambda>n v6 k. True),
     zts_addr_get_str = (\<lambda>n v6 k. Some ''10.0.0.1''), steady_clock_ms = (\<lambda>k. 0),
     sleep_ms = (\<lambda>d k. (False, k)), fs_is_relative = (\<lambda>p. False), fs_append = (\<lambda>d p. d @ p),
     fs_absolute = Some, fs_exists = (\<lambda>p. False), fs_is_directory = (\<lambda>p. False),
     fs_weakly_canonical = Some, fs_parent_path = (\<lambda>p. None)\<rparr>"

definition link_api :: "link zts_api" where
  "link_api = \<lparr>zts_recv = link_recv, zts_send = link_send, zts_socket = (\<lambda>k. (3, 0, k)),
     zts_connect = (\<lambda>k fd h p. (True, 0, k)), zts_getpeername = (\<lambda>k fd. (Some (''peer'', 80), 0)),
     zts_getsockname = (\<lambda>k fd. Some (''0.0.0.0'', 4000)), zts_node_get_id = (\<lambda>k. 1),
     zts_accept = (\<lambda>k fd. (4, 0, k)), zts_poll_out = (\<lambda>k fd. (1, True, 0, k)),
     zts_so_error = (\<lambda>k fd. Some 0), zts_bind = (\<lambda>k fd h p. (True, k)),
     zts_listen = (\<lambda>k fd b. (True, k)), zts_close = (\<lambda>k fd. k), zts_inet_pton = (\<lambda>h. True),
     zts_node = link_node\<rparr>"

lemma link_quota_le: "lk_quota k n \<le> n"
  by (simp add: lk_quota_def split: list.splits)

interpretation link: bsd_api link_api lk_in lk_out "\<lambda>z. z"
proof unfold_locales
  fix k fd n e bs e' k'
  assume "zts_recv link_api k fd n False e = (Some bs, e', k')"
  then show "length bs \<le> n \<and> lk_in k = bs @ lk_in k' \<and> lk_out k' = lk_out k"
    using link_quota_le [of k n] by (auto simp: link_api_def link_recv_def Let_def split: if_splits)
next
  fix k fd buf e m e' k'
  assume "zts_send link_api k fd buf e = (Some m, e', k')"
  then show "m \<le> length buf \<and> lk_out k' = lk_out k @ take m buf \<and> lk_in k' = lk_in k"
    using link_quota_le [of k "length buf"]
    by (auto simp: link_api_def link_send_def Let_def split: if_splits)
qed (auto simp: link_api_def link_recv_def link_send_def Let_def split: if_splits)

definition link_socket :: "link \<Rightarrow> link ZeroTierSocket" where
  "link_socket k = (new_socket False (node_service_new None) k)\<lparr>zs_fd := 3, zs_connected := True\<rparr>"

subsection \<open>Properties\<close>

text \<open>
  C9. An awaited read on a ZeroTier socket is exact. However the network splits the stream
  over partial reads and would-block results, an \<open>async_read\<close> or \<open>async_read_header\<close> of
  \<open>n\<close> bytes that completes without error has filled the buffer with exactly the next \<open>n\<close>
  bytes of the peer's stream, consumed no byte beyond them and sent nothing.
\<close>

theorem async_read_exact:
  assumes "bsd_api api krx ktx env" "ad_socket a = Some z" "op = OP_READ \<or> op = OP_READ_HEADER"
    "length buf = n"
    "drive (try_read api) (try_write api) k (start_read op buf n a) = Some a'" "ad_error a' = None"
  shows "\<exists>z'. ad_socket a' = Some z' \<and> ad_rbuf a' = take n (krx (zs_kernel z))
    \<and> length (ad_rbuf a') = n \<and> krx (zs_kernel z') = drop n (krx (zs_kernel z))
    \<and> ktx (zs_kernel z') = ktx (zs_kernel z) \<and> io_await_resume a' = Inr n"
proof -
  have r: "reading (sock_rx krx) (sock_rx ktx) n (sock_rx krx z) (sock_rx ktx z) (start_read op buf n a)"
    using assms by (intro reading_start) auto
  from bsd_api.sock_read_exact [OF assms(1) r assms(5,6)] show ?thesis
    by (simp add: sock_rx_def)
qed

text \<open>A read of three bytes that the network delivers in pieces of two, none and one.\<close>

definition demo_link :: link where
  "demo_link = \<lparr>lk_in = [7, 8, 9, 10], lk_out = [], lk_eof = False, lk_sched = [2, 0, 1]\<rparr>"

theorem async_read_exact_witness:
  "\<exists>a' z'. drive (try_read link_api) (try_write link_api) 3
       (start_read OP_READ [0, 0, 0] 3 (new_adapter (Some (link_socket demo_link)))) = Some a'
     \<and> ad_rbuf a' = [7, 8, 9] \<and> ad_socket a' = Some z' \<and> lk_in (zs_kernel z') = [10]"
proof -
  let ?a = "start_read OP_READ [0, 0, 0] 3 (new_adapter (Some (link_socket demo_link)))"
  have "\<exists>a'. drive (try_read link_api) (try_write link_api) 3 ?a = Some a' \<and> ad_error a' = None"
    by (simp add: numeral_3_eq_3 try_complete_current_operation_def complete_read_def start_read_def
        prepare_read_operation_def new_adapter_def try_read_def link_api_def link_recv_def
        link_socket_def new_socket_def demo_link_def lk_quota_def net_def would_block_iff
        ZTS_EAGAIN_def splice_def)
  then obtain a' where a': "drive (try_read link_api) (try_write link_api) 3 ?a = Some a'"
      "ad_error a' = None" by blast
  have "ad_socket (new_adapter (Some (link_socket demo_link))) = Some (link_socket demo_link)"
    by (simp add: new_adapter_def)
  from async_read_exact [OF link.bsd_api_axioms this _ _ a'] a' show ?thesis
    by (auto simp: link_socket_def new_socket_def demo_link_def)
qed

text \<open>
  Writes are exact too, in the same sense: an \<open>async_write\<close> that completes without
  error has appended exactly its buffer to the outgoing stream, once and in order.
\<close>

theorem async_write_exact:
  assumes "bsd_api api krx ktx env" "ad_socket a = Some z"
    "drive (try_read api) (try_write api) k (start_write buf (length buf) a) = Some a'"
    "ad_error a' = None"
  shows "\<exists>z'. ad_socket a' = Some z' \<and> ktx (zs_kernel z') = ktx (zs_kernel z) @ buf
    \<and> krx (zs_kernel z') = krx (zs_kernel z) \<and> io_await_resume a' = Inr (length buf)"
proof -
  have w: "writing (sock_rx krx) (sock_rx ktx) buf (sock_rx krx z) (sock_rx ktx z)
      (start_write buf (length buf) a)"
    using assms(2) by (rule writing_start)
  from bsd_api.sock_write_exact [OF assms(1) w assms(3,4)] show ?thesis by (simp add: sock_rx_def)
qed

theorem async_write_exact_witness:
  "\<exists>a' z'. drive (try_read link_api) (try_write link_api) 4
       (start_write [1, 2, 3, 4] (length [1, 2, 3, 4 :: byte])
         (new_adapter (Some (link_socket demo_link)))) = Some a'
     \<and> ad_socket a' = Some z' \<and> lk_out (zs_kernel z') = [1, 2, 3, 4]"
proof -
  let ?a = "start_write [1, 2, 3, 4] (length [1, 2, 3, 4 :: byte])
    (new_adapter (Some (link_socket demo_link)))"
  have "\<exists>a'. drive (try_read link_api) (try_write link_api) 4 ?a = Some a' \<and> ad_error a' = None"
    by (simp add: eval_nat_numeral try_complete_current_operation_def complete_write_def
        start_write_def prepare_write_operation_def new_adapter_def try_write_def link_api_def
        link_send_def link_socket_def new_socket_def demo_link_def lk_quota_def net_def
        would_block_iff ZTS_EAGAIN_def)
  then obtain a' where a': "drive (try_read link_api) (try_write link_api) 4 ?a = Some a'"
      "ad_error a' = None" by blast
  have "ad_socket (new_adapter (Some (link_socket demo_link))) = Some (link_socket demo_link)"
    by (simp add: new_adapter_def)
  from async_write_exact [OF link.bsd_api_axioms this a'] a' show ?thesis
    by (auto simp: link_socket_def new_socket_def demo_link_def)
qed

text \<open>
  C10. The blocking calls transfer all or report an error: a \<open>read\<close> that returns without
  error has delivered exactly the requested next bytes, a \<open>write\<close> without error has sent its
  whole buffer once; with an error the count they report is exactly what was consumed or
  sent. This holds with other threads shutting the socket down or closing it at any time.
\<close>

theorem blocking_io_exact:
  assumes "bsd_api api krx ktx env"
  shows "(\<forall>bs e z'. zt_read api env fuel z n = Some (bs, e, z') \<longrightarrow>
      krx (zs_kernel z) = bs @ krx (zs_kernel z') \<and> length bs \<le> n \<and> (e = None \<longrightarrow> length bs = n)
      \<and> ktx (zs_kernel z') = ktx (zs_kernel z))
    \<and> (\<forall>m e z'. zt_write api env fuel z buf = Some (m, e, z') \<longrightarrow>
      ktx (zs_kernel z') = ktx (zs_kernel z) @ take m buf \<and> (e = None \<longrightarrow> m = length buf)
      \<and> krx (zs_kernel z') = krx (zs_kernel z))"
proof (intro conjI allI impI)
  fix bs e z'
  assume "zt_read api env fuel z n = Some (bs, e, z')"
  note r = bsd_api.zt_read_spec [OF assms this]
  show "krx (zs_kernel z) = bs @ krx (zs_kernel z')" "length bs \<le> n"
    "ktx (zs_kernel z') = ktx (zs_kernel z)" by (rule r)+
  show "length bs = n" if "e = None" using that by (rule r(4))
next
  fix m e z'
  assume "zt_write api env fuel z buf = Some (m, e, z')"
  note w = bsd_api.zt_write_spec [OF assms this]
  show "ktx (zs_kernel z') = ktx (zs_kernel z) @ take m buf" "krx (zs_kernel z') = krx (zs_kernel z)"
    by (rule w)+
  show "m = length buf" if "e = None" using that by (rule w(3))
qed

theorem blocking_io_exact_witness:
  "\<exists>z'. zt_read link_api (\<lambda>z. z) 5 (link_socket demo_link) 3 = Some ([7, 8, 9], None, z')
     \<and> lk_in (zs_kernel z') = [10]"
proof -
  have "\<exists>bs z'. zt_read link_api (\<lambda>z. z) 5 (link_socket demo_link) 3 = Some (bs, None, z')"
    by (simp add: zt_read_def eval_nat_numeral link_api_def link_recv_def
        link_socket_def new_socket_def demo_link_def lk_quota_def net_def retry_errno_def
        normalize_errno_def errno_defs)
  then obtain bs z' where r: "zt_read link_api (\<lambda>z. z) 5 (link_socket demo_link) 3 = Some (bs, None, z')"
    by blast
  have k: "lk_in (zs_kernel (link_socket demo_link)) = [7, 8, 9, 10]"
    by (simp add: link_socket_def new_socket_def demo_link_def)
  from blocking_io_exact [OF link.bsd_api_axioms] r k have "[7, 8, 9, 10] = bs @ lk_in (zs_kernel z')"
      "length bs = 3" by auto
  then have "bs = take 3 [7, 8, 9, 10] \<and> lk_in (zs_kernel z') = drop 3 [7, 8, 9, 10]"
    by (metis append_eq_conv_conj)
  with r show ?thesis by (auto simp: eval_nat_numeral)
qed

text \<open>
  A blocking \<open>read\<close> misreports an orderly close after a timeout. \<open>try_read\<close> clears
  \<open>zts_errno\<close> before \<open>zts_recv\<close> and reports \<open>not_connected\<close> when the peer has closed; the
  loop of \<open>read\<close> does not clear it, so when \<open>zts_recv\<close> leaves the errno of an earlier timed
  out attempt in place, the same close is reported as the stale error, here "try again".
\<close>

theorem blocking_read_stale_errno:
  "(case zt_read link_api (\<lambda>z. z) 3
      ((link_socket (demo_link\<lparr>lk_in := [], lk_eof := True\<rparr>))\<lparr>zs_errno := ZTS_EAGAIN\<rparr>) 1 of
      Some (bs, e, _) \<Rightarrow> e | None \<Rightarrow> None) = Some resource_unavailable_try_again
   \<and> (case try_read link_api
      ((link_socket (demo_link\<lparr>lk_in := [], lk_eof := True\<rparr>))\<lparr>zs_errno := ZTS_EAGAIN\<rparr>) 1 of
      (_, _, e, _) \<Rightarrow> e) = Some not_connected"
  by (simp add: zt_read_def eval_nat_numeral link_api_def link_recv_def link_socket_def
      new_socket_def demo_link_def lk_quota_def net_def try_read_def translate_error_def
      normalize_errno_def errno_defs)

subsection \<open>One process, one shutdown flag\<close>

text \<open>
  Shutting down one socket disables the others. \<open>ZeroTierSocket::shutdown\<close> sets the
  shutdown flag of the process-wide node service, and no operation of the service clears it.
  After any history of leases that begins with the shutdown of some socket, \<open>connect\<close> of a
  fresh socket throws as soon as it would have to join its network (no lease of the default
  network is left and it is not up), even if the join would succeed at once. A worker whose
  rendezvous exchange was cancelled, which shuts the exchange's socket down, cannot connect
  again in the same process.
\<close>

theorem shutdown_disables_other_sockets:
  assumes "zs_service (zt_shutdown zs) = svc"
    "lease_run (zts_node api) f evs (lease_world_new m svc k) = Some w"
    "node_started (lw_svc w)" "count_of (lw_svc w) (default_network_id (lw_svc w)) = 0"
    "zts_net_get_status (zts_node api) (default_network_id (lw_svc w)) (lw_kernel w) \<noteq> ZTS_NETWORK_STATUS_OK"
  shows "\<exists>z'. zt_connect api env (Suc fuel) host port (new_socket mode (lw_svc w) (lw_kernel w))
      = Some (Inl runtime_error, z') \<and> zs_fd z' = -1"
proof -
  have "node_shutdown_requested svc" using assms(1) by (auto simp: zt_shutdown_def service_shutdown_def)
  then have "node_shutdown_requested (lw_svc w)"
    using run_flag [OF assms(2)] by (simp add: lease_world_new_def)
  from shutdown_blocks_joins [OF this assms(3-5)] show ?thesis
    by (simp add: zt_connect_def with_lease_def ensure_lease_def new_socket_def null_lease_def
        lease_valid_def acquire_default_def)
qed

text \<open>The network of the witness is joined by request only.\<close>

definition vnet_sockets :: "vnet zts_api" where
  "vnet_sockets = \<lparr>zts_recv = (\<lambda>k fd n peek e. (None, ZTS_EAGAIN, k)), zts_send = (\<lambda>k fd bs e. (None, ZTS_EAGAIN, k)),
     zts_socket = (\<lambda>k. (3, 0, k)), zts_connect = (\<lambda>k fd h p. (True, 0, k)),
     zts_getpeername = (\<lambda>k fd. (None, 0)), zts_getsockname = (\<lambda>k fd. None), zts_node_get_id = (\<lambda>k. 1),
     zts_accept = (\<lambda>k fd. (-1, 0, k)), zts_poll_out = (\<lambda>k fd. (0, False, 0, k)), zts_so_error = (\<lambda>k fd. None),
     zts_bind = (\<lambda>k fd h p. (True, k)), zts_listen = (\<lambda>k fd b. (True, k)), zts_close = (\<lambda>k fd. k),
     zts_inet_pton = (\<lambda>h. True), zts_node = vnet_api\<rparr>"

definition vnet_shut_socket :: "vnet ZeroTierSocket" where
  "vnet_shut_socket = new_socket False ((node_service_new None)\<lparr>node_started := True\<rparr>) (vnet_start\<lparr>vn_online := True\<rparr>)"

theorem shutdown_disables_other_sockets_witness:
  "\<exists>z'. zt_connect vnet_sockets (\<lambda>z. z) (Suc 5) ''10.0.0.2'' 8080
      (new_socket False (zs_service (zt_shutdown vnet_shut_socket)) (vnet_start\<lparr>vn_online := True\<rparr>))
      = Some (Inl runtime_error, z') \<and> zs_fd z' = -1"
  using shutdown_disables_other_sockets [where zs = vnet_shut_socket and api = vnet_sockets and f = 1 and evs = "[]"
      and m = 0 and k = "vnet_start\<lparr>vn_online := True\<rparr>" and env = "\<lambda>z. z" and fuel = 5 and mode = False
      and host = "''10.0.0.2''" and port = 8080, OF refl]
  by (simp add: vnet_sockets_def vnet_api_def vnet_shut_socket_def new_socket_def zt_shutdown_def service_shutdown_def
      lease_world_new_def node_service_new_def vnet_start_def count_of_def ZTS_NETWORK_STATUS_OK_def)

text \<open>
  \<open>local_endpoint\<close> replaces the unspecified address by the assigned one only for a
  configured default network. A socket on the built-in default network reports \<open>0.0.0.0\<close>,
  which the dispatcher then registers as its address.
\<close>

lemma local_endpoint_configured:
  assumes "zt_is_open z" "zts_getsockname api (zs_kernel z) (zs_fd z) = Some (''0.0.0.0'', p)"
    "g_default_network_hex (zs_service z) = Some hex" "hex \<noteq> []" "strtoull16 hex \<noteq> 0"
    "get_ip_v4 (zts_node api) (strtoull16 hex) (zs_kernel z) = Some ip"
  shows "local_endpoint api z = ip @ '':'' @ to_string (unat p)"
  using assms by (simp add: local_endpoint_def)

lemma local_endpoint_builtin:
  assumes "zt_is_open z" "zts_getsockname api (zs_kernel z) (zs_fd z) = Some (''0.0.0.0'', p)"
    "g_default_network_hex (zs_service z) = None"
  shows "local_endpoint api z = ''0.0.0.0:'' @ to_string (unat p)"
  using assms by (simp add: local_endpoint_def)

end
