(* ===== verification/IoContext.thy ===== *)
theory IoContext
  imports Complex_Main "HOL-Library.Sublist" Prelude
begin

section \<open>The coroutine event loop\<close>

text \<open>
  \<open>CoroIoContext\<close> (transport/coro/coroIoContext.hpp, .cpp): pending operations are stolen in
  a batch, tried once each, and either their coroutine is resumed and counted or they go
  back to the queue with one more failed attempt. A pending operation's \<open>std::function\<close> is
  named by a number; \<open>tc f s\<close> is the effect of calling it (an exception, or the returned
  flag), \<open>fin h s\<close> is \<open>handle.done()\<close> and \<open>res h c\<close> is \<open>handle.resume()\<close> on the whole
  context, which may register further operations. The program state the coroutines work on
  is the record's parameter \<open>io_prog\<close>. Counters are \<open>size_t\<close> words; \<open>attempts\<close> is 16 bits.
\<close>

datatype PendingOpCategory = Generic | Read | ReadHeader | Write | Timer

definition category_index :: "PendingOpCategory \<Rightarrow> nat" where
  "category_index c = (case c of Generic \<Rightarrow> 0 | Read \<Rightarrow> 1 | ReadHeader \<Rightarrow> 2 | Write \<Rightarrow> 3 | Timer \<Rightarrow> 4)"

definition category_count :: nat where
  "category_count = 5"

definition max_tracked_attempts :: nat where
  "max_tracked_attempts = 1024"

record PendingOp =
  po_try_complete :: "nat option"
  po_handle :: "nat option"
  po_attempts :: u16
  po_category :: PendingOpCategory

record 's CoroIoContext =
  io_pending :: "PendingOp list"
  io_running :: bool
  io_outstanding :: nat
  io_thread_count :: nat
  io_per_thread :: "u64 list"
  io_total :: u64
  io_hists :: "u64 list list"
  io_min_failures :: u64
  io_max_failures :: u64
  io_sum_failures :: u64
  io_completed :: u64
  io_prog :: 's

definition new_context :: "'s \<Rightarrow> 's CoroIoContext" where
  "new_context s = \<lparr>io_pending = [], io_running = False, io_outstanding = 0, io_thread_count = 0,
     io_per_thread = [], io_total = 0,
     io_hists = replicate category_count (replicate max_tracked_attempts 0),
     io_min_failures = -1, io_max_failures = 0, io_sum_failures = 0, io_completed = 0,
     io_prog = s\<rparr>"

definition io_start :: "nat \<Rightarrow> 's CoroIoContext \<Rightarrow> 's CoroIoContext" where
  "io_start threads c =
     (let n = (if threads = 0 then 1 else threads) in
      if io_running c then c
      else c\<lparr>io_running := True, io_thread_count := n, io_per_thread := replicate n 0\<rparr>)"

definition io_stop :: "'s CoroIoContext \<Rightarrow> 's CoroIoContext" where
  "io_stop c = c\<lparr>io_running := False\<rparr>"

definition io_loop_continues :: "'s CoroIoContext \<Rightarrow> bool" where
  "io_loop_continues c \<longleftrightarrow> io_running c \<or> 0 < io_outstanding c"

definition register_pending ::
  "PendingOpCategory \<Rightarrow> nat option \<Rightarrow> nat option \<Rightarrow> 's CoroIoContext \<Rightarrow> 's CoroIoContext" where
  "register_pending cat f h c =
     c\<lparr>io_pending := io_pending c
       @ [\<lparr>po_try_complete = f, po_handle = h, po_attempts = 0, po_category = cat\<rparr>]\<rparr>"

definition ensure_inline_stats :: "'s CoroIoContext \<Rightarrow> 's CoroIoContext" where
  "ensure_inline_stats c =
     (if io_thread_count c = 0 then c\<lparr>io_thread_count := 1, io_per_thread := [0]\<rparr> else c)"

text \<open>The statistics of one completed operation, under the statistics mutex.\<close>

definition bump :: "nat \<Rightarrow> u64 list \<Rightarrow> u64 list" where
  "bump i xs = (if i < length xs then xs[i := xs ! i + 1] else xs)"

definition record_completion :: "nat \<Rightarrow> PendingOp \<Rightarrow> 's CoroIoContext \<Rightarrow> 's CoroIoContext" where
  "record_completion ti op c =
     (let failures = unat (po_attempts op);
          idx = min failures (max_tracked_attempts - 1);
          cat0 = category_index (po_category op);
          cat = (if cat0 \<ge> category_count then 0 else cat0);
          hist = (if length (io_hists c ! cat) < max_tracked_attempts
                  then replicate max_tracked_attempts 0 else io_hists c ! cat)
      in c\<lparr>io_total := io_total c + 1,
           io_hists := (io_hists c)[cat := bump idx hist],
           io_min_failures := min (io_min_failures c) (of_nat failures),
           io_max_failures := max (io_max_failures c) (of_nat failures),
           io_sum_failures := io_sum_failures c + of_nat failures,
           io_completed := io_completed c + 1,
           io_per_thread := (if ti < io_thread_count c then bump ti (io_per_thread c)
                             else io_per_thread c)\<rparr>)"

definition more_attempts :: "PendingOp \<Rightarrow> PendingOp" where
  "more_attempts op =
     (if po_attempts op < 65535 then op\<lparr>po_attempts := po_attempts op + 1\<rparr> else op)"

text \<open>
  The batch loop. \<open>requeue\<close> collects the unfinished operations; an exception of the
  attempt drops the operation as completed.
\<close>

fun process_batch ::
  "(nat \<Rightarrow> 's \<Rightarrow> (exn + bool) \<times> 's) \<Rightarrow> (nat \<Rightarrow> 's \<Rightarrow> bool) \<Rightarrow>
   (nat \<Rightarrow> 's CoroIoContext \<Rightarrow> exn option \<times> 's CoroIoContext) \<Rightarrow> nat \<Rightarrow>
   PendingOp list \<Rightarrow> PendingOp list \<Rightarrow> 's CoroIoContext \<Rightarrow> PendingOp list \<times> 's CoroIoContext" where
  "process_batch tc fin res ti [] requeue c = (requeue, c)"
| "process_batch tc fin res ti (op # ops) requeue c =
     (let (r, p) = (case po_try_complete op of
                      None \<Rightarrow> (Inr False, io_prog c) | Some f \<Rightarrow> tc f (io_prog c));
          c1 = c\<lparr>io_prog := p\<rparr>;
          completed = (case r of Inl _ \<Rightarrow> True | Inr b \<Rightarrow> b)
      in if completed then
           (case po_handle op of
              Some h \<Rightarrow>
                if \<not> fin h p then
                  (case res h c1 of
                     (None, c2) \<Rightarrow> process_batch tc fin res ti ops requeue (record_completion ti op c2)
                   | (Some e, c2) \<Rightarrow> process_batch tc fin res ti ops requeue c2)
                else process_batch tc fin res ti ops requeue c1
            | None \<Rightarrow> process_batch tc fin res ti ops requeue c1)
         else process_batch tc fin res ti ops (requeue @ [more_attempts op]) c1)"

definition process_pending_ops ::
  "(nat \<Rightarrow> 's \<Rightarrow> (exn + bool) \<times> 's) \<Rightarrow> (nat \<Rightarrow> 's \<Rightarrow> bool) \<Rightarrow>
   (nat \<Rightarrow> 's CoroIoContext \<Rightarrow> exn option \<times> 's CoroIoContext) \<Rightarrow> nat \<Rightarrow>
   's CoroIoContext \<Rightarrow> 's CoroIoContext" where
  "process_pending_ops tc fin res ti c =
     (if io_pending c = [] then c
      else let (requeue, c') =
             process_batch tc fin res ti (io_pending c) [] (c\<lparr>io_pending := []\<rparr>)
           in c'\<lparr>io_pending := io_pending c' @ requeue\<rparr>)"

definition poll_once ::
  "(nat \<Rightarrow> 's \<Rightarrow> (exn + bool) \<times> 's) \<Rightarrow> (nat \<Rightarrow> 's \<Rightarrow> bool) \<Rightarrow>
   (nat \<Rightarrow> 's CoroIoContext \<Rightarrow> exn option \<times> 's CoroIoContext) \<Rightarrow>
   's CoroIoContext \<Rightarrow> 's CoroIoContext" where
  "poll_once tc fin res c = process_pending_ops tc fin res 0 (ensure_inline_stats c)"

subsection \<open>Statistics\<close>

definition get_completion_attempt_histogram :: "'s CoroIoContext \<Rightarrow> u64 list" where
  "get_completion_attempt_histogram c =
     foldl (\<lambda>agg hist. if length hist < max_tracked_attempts then agg
              else map (\<lambda>i. agg ! i + hist ! i) [0..<max_tracked_attempts])
       (replicate max_tracked_attempts 0) (io_hists c)"

definition get_failure_attempt_stats :: "'s CoroIoContext \<Rightarrow> (u64 \<times> u64) \<times> real \<times> u64" where
  "get_failure_attempt_stats c =
     (if io_completed c = 0 then ((0, 0), 0, io_completed c)
      else (((if io_min_failures c = -1 then 0 else io_min_failures c), io_max_failures c),
            real (unat (io_sum_failures c)) / real (unat (io_completed c)), io_completed c))"

definition get_thread_operations_processed :: "nat \<Rightarrow> 's CoroIoContext \<Rightarrow> u64" where
  "get_thread_operations_processed i c =
     (if io_thread_count c \<le> i then 0 else io_per_thread c ! i)"

definition reset_statistics :: "'s CoroIoContext \<Rightarrow> 's CoroIoContext" where
  "reset_statistics c =
     c\<lparr>io_total := 0, io_per_thread := replicate (io_thread_count c) 0\<rparr>"

subsection \<open>Work guards\<close>

record WorkGuard =
  wg_loop :: bool
  wg_active :: bool

definition wg_increment :: "WorkGuard \<Rightarrow> nat \<Rightarrow> nat" where
  "wg_increment g n = (if wg_loop g \<and> wg_active g then n + 1 else n)"

definition wg_decrement :: "WorkGuard \<Rightarrow> nat \<Rightarrow> WorkGuard \<times> nat" where
  "wg_decrement g n = (if wg_loop g \<and> wg_active g then (g\<lparr>wg_active := False\<rparr>, n - 1) else (g, n))"

definition wg_new :: "bool \<Rightarrow> nat \<Rightarrow> WorkGuard \<times> nat" where
  "wg_new has_loop n =
     (let g = \<lparr>wg_loop = has_loop, wg_active = True\<rparr> in (g, wg_increment g n))"

definition wg_move :: "WorkGuard \<Rightarrow> WorkGuard \<times> WorkGuard" where
  "wg_move other = (other, \<lparr>wg_loop = False, wg_active = False\<rparr>)"

definition wg_move_assign ::
  "WorkGuard \<Rightarrow> WorkGuard \<Rightarrow> nat \<Rightarrow> (WorkGuard \<times> WorkGuard) \<times> nat" where
  "wg_move_assign this other n =
     (case wg_decrement this n of
        (_, n') \<Rightarrow> ((other, \<lparr>wg_loop = False, wg_active = False\<rparr>), n'))"

definition wg_contrib :: "WorkGuard \<Rightarrow> nat" where
  "wg_contrib g = (if wg_loop g \<and> wg_active g then 1 else 0)"

subsection \<open>The statistics invariant\<close>

text \<open>
  The histograms keep their shape, the per-thread counters match the thread count, and the
  histogram entries add up to the number of completed operations, modulo the width of the
  counters.
\<close>

definition io_inv :: "'s CoroIoContext \<Rightarrow> bool" where
  "io_inv c \<longleftrightarrow>
     length (io_hists c) = category_count
   \<and> list_all (\<lambda>h. length h = max_tracked_attempts) (io_hists c)
   \<and> length (io_per_thread c) = io_thread_count c
   \<and> sum_list (map sum_list (io_hists c)) = io_completed c"

text \<open>Resumed coroutines reach the context only by registering operations.\<close>

definition only_registers ::
  "(nat \<Rightarrow> 's CoroIoContext \<Rightarrow> exn option \<times> 's CoroIoContext) \<Rightarrow> bool" where
  "only_registers res \<longleftrightarrow>
     (\<forall>h c. \<exists>e ops p. res h c = (e, c\<lparr>io_pending := io_pending c @ ops, io_prog := p\<rparr>))"

lemma category_index_less: "category_index cat < category_count"
  by (cases cat) (simp_all add: category_index_def category_count_def)

lemma sum_list_bump: "i < length xs \<Longrightarrow> sum_list (bump i xs) = sum_list xs + (1 :: u64)"
proof (induction xs arbitrary: i)
  case (Cons x xs)
  then show ?case by (cases i) (auto simp: bump_def)
qed simp

lemma length_bump [simp]: "length (bump i xs) = length xs"
  by (simp add: bump_def)

lemma sum_list_map_update:
  "i < length xss \<Longrightarrow> sum_list ys = sum_list (xss ! i) + (1 :: u64) \<Longrightarrow>
     sum_list (map sum_list (xss[i := ys])) = sum_list (map sum_list xss) + 1"
proof (induction xss arbitrary: i)
  case (Cons x xss)
  then show ?case by (cases i) auto
qed simp

lemma list_all_update: "list_all P xs \<Longrightarrow> P y \<Longrightarrow> list_all P (xs[i := y])"
  by (metis list_all_iff set_update_subset_insert insertE subsetD)

lemma record_completion_inv:
  assumes "io_inv c"
  shows "io_inv (record_completion ti op c)"
proof -
  let ?cat = "category_index (po_category op)"
  let ?idx = "min (unat (po_attempts op)) (max_tracked_attempts - 1)"
  have cat: "?cat < length (io_hists c)"
    using assms category_index_less by (simp add: io_inv_def)
  then have len: "length (io_hists c ! ?cat) = max_tracked_attempts"
    using assms by (simp add: io_inv_def list_all_length)
  have idx: "?idx < length (io_hists c ! ?cat)" using len by (simp add: max_tracked_attempts_def)
  have s: "sum_list (map sum_list ((io_hists c)[?cat := bump ?idx (io_hists c ! ?cat)]))
      = sum_list (map sum_list (io_hists c)) + 1"
    using sum_list_map_update [OF cat sum_list_bump [OF idx]] .
  have l: "list_all (\<lambda>h. length h = max_tracked_attempts)
      ((io_hists c)[?cat := bump ?idx (io_hists c ! ?cat)])"
    using assms len by (intro list_all_update) (simp_all add: io_inv_def)
  have "record_completion ti op c = c\<lparr>io_total := io_total c + 1,
      io_hists := (io_hists c)[?cat := bump ?idx (io_hists c ! ?cat)],
      io_min_failures := min (io_min_failures c) (of_nat (unat (po_attempts op))),
      io_max_failures := max (io_max_failures c) (of_nat (unat (po_attempts op))),
      io_sum_failures := io_sum_failures c + of_nat (unat (po_attempts op)),
      io_completed := io_completed c + 1,
      io_per_thread := (if ti < io_thread_count c then bump ti (io_per_thread c)
                        else io_per_thread c)\<rparr>"
    using category_index_less [of "po_category op"] len by (simp add: record_completion_def Let_def)
  then show ?thesis using assms s l by (simp add: io_inv_def)
qed

lemma io_inv_frame [simp]:
  "io_inv (c\<lparr>io_pending := q\<rparr>) = io_inv c" "io_inv (c\<lparr>io_prog := p\<rparr>) = io_inv c"
  by (simp_all add: io_inv_def)

lemma record_completion_pending [simp]:
  "io_pending (record_completion ti op c) = io_pending c"
  by (simp add: record_completion_def Let_def)

text \<open>
  One batch: the invariant is kept, and what is put back is a subsequence of the batch,
  with the attempts counted, after what the resumed coroutines registered.
\<close>

lemma process_batch_spec:
  assumes reg: "only_registers res"
  shows "process_batch tc fin res ti ops requeue c = (requeue', c') \<Longrightarrow> io_inv c \<Longrightarrow>
    io_inv c' \<and> (\<exists>keep new. subseq keep ops \<and> requeue' = requeue @ map more_attempts keep
      \<and> io_pending c' = io_pending c @ new)"
proof (induction ops arbitrary: requeue c)
  case (Cons op ops)
  obtain r p where rp: "(case po_try_complete op of
      None \<Rightarrow> (Inr False, io_prog c) | Some f \<Rightarrow> tc f (io_prog c)) = (r, p)" by force
  let ?c1 = "c\<lparr>io_prog := p\<rparr>"
  have inv1: "io_inv ?c1" using Cons.prems(2) by simp
  show ?case
  proof (cases "(case r of Inl _ \<Rightarrow> True | Inr b \<Rightarrow> b)")
    case False
    then have "process_batch tc fin res ti ops (requeue @ [more_attempts op]) ?c1 = (requeue', c')"
      using Cons.prems(1) rp by (simp split: sum.splits)
    from Cons.IH [OF this inv1] obtain keep new where
      "io_inv c'" "subseq keep ops" "requeue' = requeue @ map more_attempts (op # keep)"
      "io_pending c' = io_pending c @ new" by auto
    then show ?thesis by (metis subseq_Cons2)
  next
    case True
    have "\<exists>c2 new. process_batch tc fin res ti ops requeue c2 = (requeue', c') \<and> io_inv c2
        \<and> io_pending c2 = io_pending c @ new"
    proof (cases "\<exists>h. po_handle op = Some h \<and> \<not> fin h p")
      case F: True
      then obtain h where h: "po_handle op = Some h" "\<not> fin h p" by blast
      obtain e ops' p' where r: "res h ?c1 = (e, ?c1\<lparr>io_pending := io_pending ?c1 @ ops', io_prog := p'\<rparr>)"
        using reg unfolding only_registers_def by blast
      let ?c2 = "?c1\<lparr>io_pending := io_pending ?c1 @ ops', io_prog := p'\<rparr>"
      have i2: "io_inv ?c2" using Cons.prems(2) by simp
      show ?thesis
      proof (cases e)
        case None
        then have "process_batch tc fin res ti ops requeue (record_completion ti op ?c2) = (requeue', c')"
          using Cons.prems(1) rp True h r by (simp split: sum.splits)
        moreover have "io_inv (record_completion ti op ?c2)" using i2 by (rule record_completion_inv)
        ultimately show ?thesis by fastforce
      next
        case (Some x)
        then have "process_batch tc fin res ti ops requeue ?c2 = (requeue', c')"
          using Cons.prems(1) rp True h r by (simp split: sum.splits)
        then show ?thesis using i2 by fastforce
      qed
    next
      case F: False
      then have "process_batch tc fin res ti ops requeue ?c1 = (requeue', c')"
        using Cons.prems(1) rp True by (cases "po_handle op") (auto split: sum.splits)
      then show ?thesis using inv1 by fastforce
    qed
    then obtain c2 new where c2: "process_batch tc fin res ti ops requeue c2 = (requeue', c')"
        "io_inv c2" "io_pending c2 = io_pending c @ new" by blast
    from Cons.IH [OF c2(1,2)] obtain keep new' where
      "io_inv c'" "subseq keep ops" "requeue' = requeue @ map more_attempts keep"
      "io_pending c' = io_pending c2 @ new'" by auto
    then show ?thesis using c2(3) by (metis append.assoc list_emb_Cons)
  qed
qed (auto simp: exI [of _ "[]"])

lemma process_pending_ops_spec:
  assumes "only_registers res" "io_inv c"
  shows "io_inv (process_pending_ops tc fin res ti c) \<and>
    (\<exists>keep new. subseq keep (io_pending c)
      \<and> io_pending (process_pending_ops tc fin res ti c) = new @ map more_attempts keep)"
proof (cases "io_pending c = []")
  case True
  then show ?thesis using assms(2) by (auto simp: process_pending_ops_def)
next
  case False
  obtain rq c' where b: "process_batch tc fin res ti (io_pending c) [] (c\<lparr>io_pending := []\<rparr>) = (rq, c')"
    by force
  have "io_inv (c\<lparr>io_pending := []\<rparr>)" using assms(2) by simp
  from process_batch_spec [OF assms(1) b this] False b show ?thesis
    by (auto simp: process_pending_ops_def)
qed

lemma io_inv_new: "io_inv (new_context s)"
  by (simp add: io_inv_def new_context_def sum_list_replicate list_all_iff)

lemma io_inv_ops [simp]:
  "io_inv c \<Longrightarrow> io_inv (io_start n c)" "io_inv (io_stop c) = io_inv c"
  "io_inv c \<Longrightarrow> io_inv (register_pending cat f h c)"
  "io_inv c \<Longrightarrow> io_inv (ensure_inline_stats c)" "io_inv c \<Longrightarrow> io_inv (reset_statistics c)"
  by (simp_all add: io_inv_def io_start_def io_stop_def register_pending_def
      ensure_inline_stats_def reset_statistics_def Let_def)

subsection \<open>Properties\<close>

text \<open>
  Polling loses and invents nothing: after one pass over the pending operations, the
  queue holds what the resumed coroutines registered followed by a subsequence of the old
  queue in its order, each operation with its attempt counter stepped by one and stopping at
  65535; and the histogram entries still add up to the completed operations.
\<close>

theorem poll_pass_keeps_operations:
  assumes "only_registers res" "io_inv c"
  shows "io_inv (process_pending_ops tc fin res ti c)
    \<and> (\<exists>keep new. subseq keep (io_pending c)
        \<and> io_pending (process_pending_ops tc fin res ti c) = new @ map more_attempts keep)
    \<and> (\<forall>op. unat (po_attempts (more_attempts op)) = min 65535 (unat (po_attempts op) + 1))"
proof -
  have "unat (po_attempts (more_attempts op)) = min 65535 (unat (po_attempts op) + 1)" for op
  proof (cases "po_attempts op < 65535")
    case True
    then have "unat (po_attempts op) < 65535" by (simp add: word_less_nat_alt)
    moreover have "unat (po_attempts op + 1) = unat (po_attempts op) + 1"
      using calculation by (simp add: unat_word_ariths)
    ultimately show ?thesis using True by (simp add: more_attempts_def)
  next
    case False
    then have "65535 \<le> unat (po_attempts op)" by (simp add: word_less_nat_alt)
    moreover have "unat (po_attempts op) < 65536" using unsigned_less [of "po_attempts op"] by simp
    ultimately show ?thesis using False by (simp add: more_attempts_def)
  qed
  then show ?thesis using process_pending_ops_spec [OF assms] by blast
qed

theorem poll_pass_keeps_operations_witness:
  "io_inv (process_pending_ops (\<lambda>f p. (Inr (f = 1), p)) (\<lambda>h p. False)
     (\<lambda>h c. (None, register_pending Read (Some 2) (Some h) c)) 0
     (register_pending Read (Some 1) (Some 7) (ensure_inline_stats (new_context ()))))"
proof -
  have r: "only_registers (\<lambda>h c. (None, register_pending Read (Some 2) (Some h) (c :: unit CoroIoContext)))"
    unfolding only_registers_def
  proof (intro allI)
    fix h and c :: "unit CoroIoContext"
    have "(None, register_pending Read (Some 2) (Some h) c) = (None, c\<lparr>io_pending := io_pending c
        @ [\<lparr>po_try_complete = Some 2, po_handle = Some h, po_attempts = 0, po_category = Read\<rparr>],
        io_prog := io_prog c\<rparr>)"
      by (simp add: register_pending_def)
    then show "\<exists>e ops p. (None, register_pending Read (Some 2) (Some h) c)
        = (e, c\<lparr>io_pending := io_pending c @ ops, io_prog := p\<rparr>)" by blast
  qed
  have "io_inv (register_pending Read (Some 1) (Some 7) (ensure_inline_stats (new_context ())))"
    by (intro io_inv_ops io_inv_new)
  from poll_pass_keeps_operations [OF r this] show ?thesis by blast
qed

text \<open>
  \<open>reset_statistics\<close> is documented to reset all statistics; it clears the total and the
  per-thread counters only. The histograms, and with them the failure statistics, survive.
\<close>

theorem reset_keeps_histograms:
  "io_total (reset_statistics c) = 0
   \<and> io_hists (reset_statistics c) = io_hists c
   \<and> get_failure_attempt_stats (reset_statistics c) = get_failure_attempt_stats c
   \<and> get_completion_attempt_histogram (reset_statistics c) = get_completion_attempt_histogram c"
  by (simp add: reset_statistics_def get_failure_attempt_stats_def
      get_completion_attempt_histogram_def)

text \<open>
  The outstanding-work counter is the number of active guards: creating, moving,
  move-assigning and destroying guards changes the counter by exactly the change in the
  guards' contributions, so the loop keeps running after \<open>stop\<close> as long as some guard is
  active and no longer.
\<close>

theorem work_guards_counted:
  assumes "wg_contrib this + wg_contrib other \<le> n"
  shows "(let (g, n') = wg_new b n in n' = n + wg_contrib g)
    \<and> (let (g, o') = wg_move other in wg_contrib g + wg_contrib o' = wg_contrib other)
    \<and> (let ((t, o'), n') = wg_move_assign this other n in
         n' + (wg_contrib this + wg_contrib other) = n + (wg_contrib t + wg_contrib o'))
    \<and> (let (g, n') = wg_decrement this n in n' + wg_contrib this = n \<and> wg_contrib g = 0)"
  using assms
  by (auto simp: wg_contrib_def wg_new_def wg_increment_def wg_move_def wg_move_assign_def
      wg_decrement_def Let_def)

theorem work_guards_counted_witness:
  "wg_decrement \<lparr>wg_loop = True, wg_active = True\<rparr> 2 = (\<lparr>wg_loop = True, wg_active = False\<rparr>, 1)
   \<and> (let (g, n') = wg_decrement \<lparr>wg_loop = True, wg_active = True\<rparr> 2 in n' + 1 = 2)"
  using work_guards_counted [of "\<lparr>wg_loop = True, wg_active = True\<rparr>"
      "\<lparr>wg_loop = False, wg_active = False\<rparr>" 2 True]
  by (simp add: wg_contrib_def wg_decrement_def Let_def)

end
