(* ===== verification/DispSession.thy ===== *)
theory DispSession
  imports Complex_Main Completion "HOL-Library.AList"
begin

section \<open>Dispatcher sessions\<close>

text \<open>
  \<open>Session\<close> and \<open>SessionStats\<close> (dispatcher/session/). A session's coroutine is a state
  machine: \<open>s_pc\<close> is the suspension point it waits at, \<open>s_task\<close> its local variable \<open>task\<close>
  while a task is in flight. \<open>PRunning\<close> marks a coroutine that is executing, which matters
  because requeuing a task resumes other sessions synchronously. A session's coroutine
  handle, awaitable slot and cancellation token are all addressed by its session number.

  One transition runs a coroutine from a suspension point to the next one. An awaited socket
  operation is delivered as an \<open>io_result\<close>: its completed bytes, or its error code (the
  theory \<open>ZtSocket\<close> shows that completed transfers are exact). An operation that completes
  in \<open>await_ready\<close> is the delivery of its result with no other event in between. Clock
  readings and the outcome of the response buffer's allocation come with the event.

  The dispatcher record extends the queue and completion state by the session table, and by
  three histories: submitted tasks, completed tasks with the response they were completed
  with, and tasks offered to a queue that was already shut down.
\<close>

subsection \<open>Data\<close>

datatype SessionState =
    INITIALIZING | WAITING_FOR_TASK | PROCESSING_TASK | ACTIVE | COMPLETING | TERMINATED
  | ERROR_STATE

datatype SessionDisconnectReason =
    NoReason | RemoteClosed | ConnectionReset | ConnectionAborted | NotConnected
  | BadFileDescriptor | GreetingReadFailed | GreetingInvalid | TransportError
  | LocalTermination | UnknownReason

record SessionStats =
  start_time :: int
  tasks_sent :: u32
  tasks_completed :: u32
  tasks_failed :: u32
  bytes_sent :: u64
  bytes_received :: u64
  total_task_roundtrip_time :: int
  last_task_roundtrip_time :: int
  timed_tasks :: u32

datatype session_pc =
    PNotStarted | PRunning | PGreeting | PQueue | PWriteHeader | PWritePayload | PReadHeader
  | PReadBody | PDone

record Session =
  s_id :: u32
  s_endpoint :: string
  s_state :: SessionState
  s_stats :: SessionStats
  s_term :: bool
  s_node :: u64
  s_last_seen :: int
  s_reason :: SessionDisconnectReason
  s_disconnected_at :: int
  s_pc :: session_pc
  s_task :: "TaskMessage option"
  s_rt_start :: int
  s_response :: TaskHeader
  s_shutdown :: bool
  s_closed :: bool
  s_written :: bytes

record RecentDisconnectSnapshot =
  rd_node :: u64
  rd_session :: u32
  rd_endpoint :: string
  rd_reason :: string
  rd_ts_ms :: int

record Dispatcher = RespQueue +
  d_sessions :: "(nat \<times> Session) list"
  d_next_id :: u32
  d_recent :: "RecentDisconnectSnapshot list"
  d_submitted :: "TaskMessage list"
  d_completed :: "(TaskMessage \<times> TaskHeader \<times> bytes) list"
  d_dropped :: "TaskMessage list"

datatype io_result = IoOk bytes | IoErr errc

record event =
  ev_steady :: int
  ev_wall :: int
  ev_alloc :: bool

definition get_s :: "nat \<Rightarrow> 'a Dispatcher_scheme \<Rightarrow> Session option" where
  "get_s sid d = map_of (d_sessions d) sid"

definition put_s :: "nat \<Rightarrow> Session \<Rightarrow> 'a Dispatcher_scheme \<Rightarrow> 'a Dispatcher_scheme" where
  "put_s sid s d = d\<lparr>d_sessions := AList.update sid s (d_sessions d)\<rparr>"

subsection \<open>Statistics\<close>

definition zero_stats :: "int \<Rightarrow> SessionStats" where
  "zero_stats now = \<lparr>start_time = now, tasks_sent = 0, tasks_completed = 0, tasks_failed = 0,
     bytes_sent = 0, bytes_received = 0, total_task_roundtrip_time = 0,
     last_task_roundtrip_time = 0, timed_tasks = 0\<rparr>"

definition get_duration :: "int \<Rightarrow> SessionStats \<Rightarrow> int" where
  "get_duration now st = (now - start_time st) sdiv 1000000000"

definition get_success_rate :: "SessionStats \<Rightarrow> rat" where
  "get_success_rate st =
     (let n = tasks_completed st + tasks_failed st in
      if n = 0 then 0 else of_nat (unat (tasks_completed st)) / of_nat (unat n) * 100)"

definition get_avg_roundtrip_ms :: "SessionStats \<Rightarrow> rat" where
  "get_avg_roundtrip_ms st =
     (if timed_tasks st = 0 then 0
      else of_int (total_task_roundtrip_time st sdiv int (unat (timed_tasks st))) / 1000000)"

subsection \<open>Helpers of the session\<close>

definition touch_last_seen :: "int \<Rightarrow> Session \<Rightarrow> Session" where
  "touch_last_seen w s = s\<lparr>s_last_seen := w\<rparr>"

definition update_state :: "int \<Rightarrow> SessionState \<Rightarrow> Session \<Rightarrow> Session" where
  "update_state w st s = touch_last_seen w (s\<lparr>s_state := st\<rparr>)"

definition mark_disconnected :: "int \<Rightarrow> SessionDisconnectReason \<Rightarrow> Session \<Rightarrow> Session" where
  "mark_disconnected w r s = s\<lparr>s_reason := r, s_disconnected_at := w\<rparr>"

definition record_task_sent :: "int \<Rightarrow> Session \<Rightarrow> Session" where
  "record_task_sent w s =
     touch_last_seen w (s\<lparr>s_stats := (s_stats s)\<lparr>tasks_sent := tasks_sent (s_stats s) + 1\<rparr>\<rparr>)"

definition record_task_completed :: "int \<Rightarrow> Session \<Rightarrow> Session" where
  "record_task_completed w s = touch_last_seen w
     (s\<lparr>s_stats := (s_stats s)\<lparr>tasks_completed := tasks_completed (s_stats s) + 1\<rparr>\<rparr>)"

definition record_task_failed :: "int \<Rightarrow> Session \<Rightarrow> Session" where
  "record_task_failed w s = touch_last_seen w
     (s\<lparr>s_stats := (s_stats s)\<lparr>tasks_failed := tasks_failed (s_stats s) + 1\<rparr>\<rparr>)"

definition add_bytes_sent :: "nat \<Rightarrow> Session \<Rightarrow> Session" where
  "add_bytes_sent n s =
     s\<lparr>s_stats := (s_stats s)\<lparr>bytes_sent := bytes_sent (s_stats s) + of_nat n\<rparr>\<rparr>"

definition add_bytes_received :: "nat \<Rightarrow> Session \<Rightarrow> Session" where
  "add_bytes_received n s =
     s\<lparr>s_stats := (s_stats s)\<lparr>bytes_received := bytes_received (s_stats s) + of_nat n\<rparr>\<rparr>"

definition add_roundtrip :: "int \<Rightarrow> Session \<Rightarrow> Session" where
  "add_roundtrip dt s =
     s\<lparr>s_stats := (s_stats s)
         \<lparr>total_task_roundtrip_time := total_task_roundtrip_time (s_stats s) + dt,
          last_task_roundtrip_time := dt, timed_tasks := timed_tasks (s_stats s) + 1\<rparr>\<rparr>"

definition finalize_session :: "Session \<Rightarrow> Session" where
  "finalize_session s = s\<lparr>s_shutdown := True, s_closed := True\<rparr>"

definition is_open :: "Session \<Rightarrow> bool" where
  "is_open s \<longleftrightarrow> \<not> s_closed s"

definition is_active :: "Session \<Rightarrow> bool" where
  "is_active s \<longleftrightarrow>
     s_state s \<in> {ACTIVE, WAITING_FOR_TASK, PROCESSING_TASK, COMPLETING}
     \<and> is_open s \<and> \<not> s_term s"

definition is_done :: "Session \<Rightarrow> bool" where
  "is_done s \<longleftrightarrow> s_pc s = PDone"

definition is_completed :: "Session \<Rightarrow> bool" where
  "is_completed s \<longleftrightarrow> is_done s \<and> s_state s \<in> {TERMINATED, ERROR_STATE}"

definition is_awaiting_teardown :: "Session \<Rightarrow> bool" where
  "is_awaiting_teardown s \<longleftrightarrow> \<not> is_done s \<and> s_state s \<in> {TERMINATED, ERROR_STATE}"

definition get_state_name :: "SessionState \<Rightarrow> string" where
  "get_state_name st = (case st of
       INITIALIZING \<Rightarrow> ''INITIALIZING'' | WAITING_FOR_TASK \<Rightarrow> ''WAITING_FOR_TASK''
     | PROCESSING_TASK \<Rightarrow> ''PROCESSING_TASK'' | ACTIVE \<Rightarrow> ''ACTIVE''
     | COMPLETING \<Rightarrow> ''COMPLETING'' | TERMINATED \<Rightarrow> ''TERMINATED'' | ERROR_STATE \<Rightarrow> ''ERROR'')"

subsection \<open>Construction\<close>

definition Session_new :: "event \<Rightarrow> u32 \<Rightarrow> string \<Rightarrow> Session" where
  "Session_new ev sid ep =
     touch_last_seen (ev_wall ev)
       \<lparr>s_id = sid, s_endpoint = (if ep = [] then ''unknown'' else ep), s_state = INITIALIZING,
        s_stats = zero_stats (ev_steady ev), s_term = False, s_node = 0, s_last_seen = 0,
        s_reason = NoReason, s_disconnected_at = 0, s_pc = PNotStarted, s_task = None,
        s_rt_start = 0, s_response = zero_header, s_shutdown = False, s_closed = False,
        s_written = []\<rparr>"

definition session_run :: "event \<Rightarrow> Session \<Rightarrow> Session" where
  "session_run ev s =
     (touch_last_seen (ev_wall ev) (s\<lparr>s_stats := zero_stats (ev_steady ev)\<rparr>))\<lparr>s_pc := PGreeting\<rparr>"

subsection \<open>The session coroutine\<close>

text \<open>Leaving the main loop: lines 246 to 249 of \<open>run_coroutine\<close>.\<close>

definition leave_loop :: "event \<Rightarrow> Session \<Rightarrow> Session" where
  "leave_loop ev s =
     (finalize_session (update_state (ev_wall ev) TERMINATED s))\<lparr>s_pc := PDone, s_task := None\<rparr>"

text \<open>Continuing after \<open>co_await get_next_task\<close> with the awaited message.\<close>

definition session_got_task ::
  "event \<Rightarrow> nat \<Rightarrow> Session \<Rightarrow> 'a Dispatcher_scheme \<Rightarrow> 'a Dispatcher_scheme" where
  "session_got_task ev sid s d =
     (case await_resume (ev_steady ev) sid d of
        (m, d') \<Rightarrow>
          if \<not> is_valid m then put_s sid (leave_loop ev s) d'
          else put_s sid
            ((update_state (ev_wall ev) PROCESSING_TASK (record_task_sent (ev_wall ev) s))
               \<lparr>s_task := Some m, s_rt_start := ev_steady ev, s_pc := PWriteHeader\<rparr>) d')"

text \<open>\<open>handle.resume()\<close> for a session suspended on the queue.\<close>

definition session_resume ::
  "event \<Rightarrow> nat \<Rightarrow> 'a Dispatcher_scheme \<Rightarrow> 'a Dispatcher_scheme" where
  "session_resume ev h d =
     (case get_s h d of
        Some s \<Rightarrow> if s_pc s = PQueue then session_got_task ev h s d else d
      | None \<Rightarrow> d)"

text \<open>The loop condition, the next request to the queue and its \<open>co_await\<close>.\<close>

definition session_loop ::
  "event \<Rightarrow> nat \<Rightarrow> Session \<Rightarrow> 'a Dispatcher_scheme \<Rightarrow> 'a Dispatcher_scheme" where
  "session_loop ev sid s d =
     (if is_active s \<and> \<not> s_term s then
        (let s' = (update_state (ev_wall ev) WAITING_FOR_TASK s)\<lparr>s_pc := PQueue\<rparr> in
         case await_ready sid (Some sid) (put_s sid s' d) of
           (True, d') \<Rightarrow> session_got_task ev sid s' d'
         | (False, d') \<Rightarrow> await_suspend (session_resume ev) sid sid (Some sid) d')
      else put_s sid (leave_loop ev s) d)"

text \<open>Offering a task to the queue; the history notes the ones a shut queue discards.\<close>

definition offer_task ::
  "event \<Rightarrow> TaskMessage \<Rightarrow> 'a Dispatcher_scheme \<Rightarrow> 'a Dispatcher_scheme" where
  "offer_task ev m d =
     add_task (session_resume ev) m
       (if tq_shut d then d\<lparr>d_dropped := d_dropped d @ [m]\<rparr> else d)"

definition disconnect_reason_of :: "errc \<Rightarrow> SessionDisconnectReason" where
  "disconnect_reason_of e =
     (if e = not_connected then NotConnected
      else if e = connection_reset then ConnectionReset
      else if e = connection_aborted then ConnectionAborted
      else if e = bad_file_descriptor then BadFileDescriptor
      else UnknownReason)"

definition is_connection_loss :: "errc \<Rightarrow> bool" where
  "is_connection_loss e \<longleftrightarrow>
     e = not_connected \<or> e = connection_reset \<or> e = connection_aborted \<or> e = bad_file_descriptor"

text \<open>
  A \<open>system_error\<close> while a task is in flight: requeue it, count the failure, and end the
  session. \<open>s\<close> is the running session without its task.
\<close>

definition session_io_failed ::
  "event \<Rightarrow> errc \<Rightarrow> nat \<Rightarrow> Session \<Rightarrow> TaskMessage \<Rightarrow> 'a Dispatcher_scheme \<Rightarrow> 'a Dispatcher_scheme" where
  "session_io_failed ev e sid s m d =
     (let d1 = offer_task ev m (put_s sid s d);
          s1 = record_task_failed (ev_wall ev) s;
          s2 = (if is_connection_loss e
                then update_state (ev_wall ev) TERMINATED
                       (mark_disconnected (ev_wall ev) (disconnect_reason_of e) s1)
                else update_state (ev_wall ev) ERROR_STATE
                       (mark_disconnected (ev_wall ev) TransportError s1))
      in put_s sid ((finalize_session s2)\<lparr>s_pc := PDone\<rparr>) d1)"

text \<open>
  A response that does not answer the task, or a failed allocation: count the failure,
  requeue, and go on with the loop (\<open>continue\<close>).
\<close>

definition session_requeue ::
  "event \<Rightarrow> nat \<Rightarrow> Session \<Rightarrow> TaskMessage \<Rightarrow> 'a Dispatcher_scheme \<Rightarrow> 'a Dispatcher_scheme" where
  "session_requeue ev sid s m d =
     (let s1 = record_task_failed (ev_wall ev) s
      in session_loop ev sid s1 (offer_task ev m (put_s sid s1 d)))"

text \<open>
  The whole response is here: lines 164 to 191. The completion is signalled through the
  task's completion source, on the whole dispatcher state; generator coroutines always
  attach a response context, so \<open>complete\<close> posts their handle.
\<close>

definition session_response ::
  "event \<Rightarrow> nat \<Rightarrow> Session \<Rightarrow> TaskMessage \<Rightarrow> TaskHeader \<Rightarrow> bytes \<Rightarrow>
   'a Dispatcher_scheme \<Rightarrow> 'a Dispatcher_scheme" where
  "session_response ev sid s m rh body d =
     (let s1 = update_state (ev_wall ev) ACTIVE (add_roundtrip (ev_steady ev - s_rt_start s) s) in
      if skill_id rh = skill_id (tm_header m) then
        let s2 = record_task_completed (ev_wall ev) s1;
            d1 = message_complete (\<lambda>h q. False) (\<lambda>h q. q) m rh body True (put_s sid s2 d)
        in session_loop ev sid s2 (d1\<lparr>d_completed := d_completed d1 @ [(m, rh, body)]\<rparr>)
      else session_requeue ev sid s1 m d)"

definition session_sent ::
  "nat \<Rightarrow> Session \<Rightarrow> TaskMessage \<Rightarrow> 'a Dispatcher_scheme \<Rightarrow> 'a Dispatcher_scheme" where
  "session_sent sid s m d =
     put_s sid ((add_bytes_sent (length (fst (wire_bytes m)) + length (snd (wire_bytes m))) s)
       \<lparr>s_pc := PReadHeader, s_task := Some m\<rparr>) d"

definition session_greeting ::
  "event \<Rightarrow> bytes \<Rightarrow> nat \<Rightarrow> Session \<Rightarrow> 'a Dispatcher_scheme \<Rightarrow> 'a Dispatcher_scheme" where
  "session_greeting ev bs sid s d =
     (case greeting_of_bytes bs of
        None \<Rightarrow> d
      | Some g \<Rightarrow>
          if magic g \<noteq> kWorkerGreetingMagic \<or> version g \<noteq> kWorkerGreetingVersion then
            put_s sid ((finalize_session (update_state (ev_wall ev) ERROR_STATE
               (mark_disconnected (ev_wall ev) GreetingInvalid s)))\<lparr>s_pc := PDone\<rparr>) d
          else
            let s1 = update_state (ev_wall ev) ACTIVE (s\<lparr>s_node := node_id g\<rparr>)
            in session_loop ev sid s1 (put_s sid s1 d))"

definition session_header ::
  "event \<Rightarrow> bytes \<Rightarrow> nat \<Rightarrow> Session \<Rightarrow> TaskMessage \<Rightarrow> 'a Dispatcher_scheme \<Rightarrow> 'a Dispatcher_scheme" where
  "session_header ev bs sid s m d =
     (case header_of_bytes bs of
        None \<Rightarrow> d
      | Some rh \<Rightarrow>
          let s1 = add_bytes_received kHeaderSize s in
          if task_id rh \<noteq> task_id (tm_header m) then session_requeue ev sid s1 m d
          else if body_size rh > 0 then
            if ev_alloc ev
            then put_s sid (s1\<lparr>s_pc := PReadBody, s_task := Some m, s_response := rh\<rparr>) d
            else session_requeue ev sid s1 m d
          else session_response ev sid s1 m rh [] d)"

text \<open>
  Delivery of the awaited socket operation. \<open>s_written\<close> collects what was written.
\<close>

definition session_io ::
  "event \<Rightarrow> io_result \<Rightarrow> nat \<Rightarrow> 'a Dispatcher_scheme \<Rightarrow> 'a Dispatcher_scheme" where
  "session_io ev r sid d =
     (case get_s sid d of
        None \<Rightarrow> d
      | Some s \<Rightarrow>
          let run = s\<lparr>s_pc := PRunning, s_task := None\<rparr> in
          (case (s_pc s, s_task s) of
             (PGreeting, _) \<Rightarrow>
               (case r of
                  IoErr e \<Rightarrow> put_s sid ((finalize_session (update_state (ev_wall ev) ERROR_STATE
                      (mark_disconnected (ev_wall ev) UnknownReason run)))\<lparr>s_pc := PDone\<rparr>) d
                | IoOk bs \<Rightarrow> session_greeting ev bs sid run d)
           | (PWriteHeader, Some m) \<Rightarrow>
               (case r of
                  IoErr e \<Rightarrow> session_io_failed ev e sid run m d
                | IoOk _ \<Rightarrow>
                    let s1 = s\<lparr>s_written := s_written s @ fst (wire_bytes m)\<rparr> in
                    if snd (wire_bytes m) \<noteq> []
                    then put_s sid (s1\<lparr>s_pc := PWritePayload\<rparr>) d
                    else session_sent sid s1 m d)
           | (PWritePayload, Some m) \<Rightarrow>
               (case r of
                  IoErr e \<Rightarrow> session_io_failed ev e sid run m d
                | IoOk _ \<Rightarrow> session_sent sid (s\<lparr>s_written := s_written s @ snd (wire_bytes m)\<rparr>) m d)
           | (PReadHeader, Some m) \<Rightarrow>
               (case r of
                  IoErr e \<Rightarrow> session_io_failed ev e sid run m d
                | IoOk bs \<Rightarrow> session_header ev bs sid run m d)
           | (PReadBody, Some m) \<Rightarrow>
               (case r of
                  IoErr e \<Rightarrow> session_io_failed ev e sid run m d
                | IoOk bs \<Rightarrow>
                    if length bs = unat (body_size (s_response s))
                    then session_response ev sid (add_bytes_received (length bs) run) m
                           (s_response s) bs d
                    else d)
           | _ \<Rightarrow> d))"

subsection \<open>Requests from outside the coroutine\<close>

definition request_termination ::
  "event \<Rightarrow> nat \<Rightarrow> 'a Dispatcher_scheme \<Rightarrow> 'a Dispatcher_scheme" where
  "request_termination ev sid d =
     (case get_s sid d of
        None \<Rightarrow> d
      | Some s \<Rightarrow> put_s sid ((update_state (ev_wall ev) COMPLETING
           (mark_disconnected (ev_wall ev) LocalTermination (s\<lparr>s_term := True\<rparr>)))
             \<lparr>s_shutdown := True\<rparr>) (cancel sid d))"

text \<open>\<open>alive\<close> is what \<open>check_alive\<close> returned on the session's socket.\<close>

definition probe_connection_liveness ::
  "event \<Rightarrow> bool \<times> errc option \<Rightarrow> nat \<Rightarrow> 'a Dispatcher_scheme \<Rightarrow> bool \<times> 'a Dispatcher_scheme" where
  "probe_connection_liveness ev alive sid d =
     (case get_s sid d of
        None \<Rightarrow> (False, d)
      | Some s \<Rightarrow>
          if s_state s \<noteq> WAITING_FOR_TASK then (False, d)
          else if fst alive then (False, d)
          else
            let r = (case snd alive of
                       Some e \<Rightarrow> if e = not_connected \<or> e = connection_reset \<or> e = connection_aborted
                                 then RemoteClosed else TransportError
                     | None \<Rightarrow> RemoteClosed)
            in (True, put_s sid ((update_state (ev_wall ev) TERMINATED
                  (mark_disconnected (ev_wall ev) r s))\<lparr>s_shutdown := True\<rparr>) (cancel sid d)))"

definition cancel_queue_wait ::
  "event \<Rightarrow> nat \<Rightarrow> 'a Dispatcher_scheme \<Rightarrow> 'a Dispatcher_scheme" where
  "cancel_queue_wait ev sid d =
     cancel_and_resume_waiter (session_resume ev) (ev_steady ev) (Some sid) d"

end
