(* ===== verification/DispInv.thy ===== *)
theory DispInv
  imports DispSession
begin

section \<open>Invariants of the dispatcher\<close>

text \<open>
  What holds between two events of the dispatcher: the queue invariant; every queue waiter is
  a live session suspended on the queue, at most once; no awaitable holds a message; a
  session holds a task exactly while it is in flight, the task is valid and the session's
  counters account for it; completed responses answer their task. Together with it,
  conservation: the valid tasks submitted are those queued, in flight, completed, or refused
  by a queue already shut down.
\<close>

subsection \<open>Access to the session table\<close>

lemma get_put [simp, session_simps]:
  "get_s k (put_s sid s d) = (if k = sid then Some s else get_s k d)"
  by (simp add: get_s_def put_s_def update_conv')

lemma put_sel [simp, session_simps]:
  "tq_tasks (put_s sid s d) = tq_tasks d" "tq_waiting (put_s sid s d) = tq_waiting d"
  "tq_shut (put_s sid s d) = tq_shut d" "tq_cancelled (put_s sid s d) = tq_cancelled d"
  "tq_result (put_s sid s d) = tq_result d" "d_completed (put_s sid s d) = d_completed d"
  "d_dropped (put_s sid s d) = d_dropped d" "d_submitted (put_s sid s d) = d_submitted d"
  "d_next_id (put_s sid s d) = d_next_id d" "d_recent (put_s sid s d) = d_recent d"
  by (simp_all add: put_s_def)

lemma fst_update_alist: "map fst (AList.update k v xs) =
    (if k \<in> set (map fst xs) then map fst xs else map fst xs @ [k])"
  by (induction xs) auto

lemma distinct_put: "distinct (map fst (d_sessions d)) \<Longrightarrow> distinct (map fst (d_sessions (put_s sid s d)))"
  by (simp add: put_s_def distinct_update)

lemma dom_get: "(\<exists>s. get_s sid d = Some s) \<longleftrightarrow> sid \<in> fst ` set (d_sessions d)"
  by (metis get_s_def map_of_eq_None_iff not_None_eq)

subsection \<open>Tasks at work\<close>

definition task_mset :: "Session \<Rightarrow> TaskMessage multiset" where
  "task_mset s = (case s_task s of Some m \<Rightarrow> {#m#} | None \<Rightarrow> {#})"

definition flight :: "(nat \<times> Session) list \<Rightarrow> TaskMessage multiset" where
  "flight al = sum_list (map (\<lambda>(k, s). task_mset s) al)"

definition work :: "'a Dispatcher_scheme \<Rightarrow> TaskMessage multiset" where
  "work d = filter_mset is_valid (mset (tq_tasks d)) + flight (d_sessions d)"

lemma flight_update:
  "map_of al sid = Some s0 \<Longrightarrow> flight (AList.update sid s al) + task_mset s0 = flight al + task_mset s"
  by (induction al) (auto simp: flight_def ac_simps split: if_splits)

lemma flight_update_new:
  "map_of al sid = None \<Longrightarrow> flight (AList.update sid s al) = flight al + task_mset s"
  by (induction al) (auto simp: flight_def ac_simps split: if_splits)

lemma work_put:
  "get_s sid d = Some s0 \<Longrightarrow> work (put_s sid s d) + task_mset s0 = work d + task_mset s"
  using flight_update [of "d_sessions d" sid s0 s]
  by (simp add: work_def put_s_def get_s_def ac_simps)

lemma work_put_same:
  "get_s sid d = Some s0 \<Longrightarrow> task_mset s0 = task_mset s \<Longrightarrow> work (put_s sid s d) = work d"
  using work_put [of sid d s0 s] by simp

lemma task_mset_simps [simp]:
  "s_task s = None \<Longrightarrow> task_mset s = {#}" "s_task s = Some m \<Longrightarrow> task_mset s = {#m#}"
  by (simp_all add: task_mset_def)

subsection \<open>Sessions\<close>

definition io_pcs :: "session_pc set" where
  "io_pcs = {PWriteHeader, PWritePayload, PReadHeader, PReadBody}"

definition counters_ok :: "Session \<Rightarrow> bool" where
  "counters_ok s \<longleftrightarrow>
     tasks_sent (s_stats s) = tasks_completed (s_stats s) + tasks_failed (s_stats s)
       + (if s_task s = None then 0 else 1)"

definition session_ok :: "Session \<Rightarrow> bool" where
  "session_ok s \<longleftrightarrow>
     (s_task s \<noteq> None \<longleftrightarrow> s_pc s \<in> io_pcs)
   \<and> (\<forall>m. s_task s = Some m \<longrightarrow> is_valid m)
   \<and> (s_pc s \<noteq> PRunning \<longrightarrow> counters_ok s)
   \<and> (\<forall>m. s_task s = Some m \<longrightarrow> s_pc s = PReadBody \<longrightarrow>
        task_id (s_response s) = task_id (tm_header m))
   \<and> (s_pc s = PDone \<longrightarrow> s_closed s)"

definition answers :: "TaskMessage \<times> TaskHeader \<times> bytes \<Rightarrow> bool" where
  "answers c \<longleftrightarrow>
     (case c of (m, rh, body) \<Rightarrow>
        is_valid m \<and> task_id rh = task_id (tm_header m) \<and> skill_id rh = skill_id (tm_header m)
        \<and> unat (body_size rh) = length body)"

definition waiter_ok :: "'a Dispatcher_scheme \<Rightarrow> Waiter \<Rightarrow> bool" where
  "waiter_ok d w \<longleftrightarrow>
     w_awaiter w = Some (w_handle w) \<and> w_token w = Some (w_handle w)
     \<and> (\<exists>s. get_s (w_handle w) d = Some s \<and> s_pc s = PQueue)"

text \<open>The invariant, with the awaitable slots as a parameter: between events all are empty.\<close>

definition disp_inv_with ::
  "(nat \<Rightarrow> TaskMessage option) \<Rightarrow> 'a Dispatcher_scheme \<Rightarrow> bool" where
  "disp_inv_with res d \<longleftrightarrow>
     queue_inv d
   \<and> (\<forall>w \<in> set (tq_waiting d). waiter_ok d w)
   \<and> distinct (map w_handle (tq_waiting d))
   \<and> tq_result d = res
   \<and> (\<forall>sid s. get_s sid d = Some s \<longrightarrow> session_ok s)
   \<and> distinct (map fst (d_sessions d))
   \<and> list_all answers (d_completed d)"

abbreviation disp_inv :: "'a Dispatcher_scheme \<Rightarrow> bool" where
  "disp_inv d \<equiv> disp_inv_with (\<lambda>_. None) d"

definition conserved :: "'a Dispatcher_scheme \<Rightarrow> bool" where
  "conserved d \<longleftrightarrow>
     filter_mset is_valid (mset (d_submitted d)) =
       work d + mset (map fst (d_completed d)) + filter_mset is_valid (mset (d_dropped d))"

text \<open>What a resumed session may change of the dispatcher.\<close>

definition frame :: "nat set \<Rightarrow> 'a Dispatcher_scheme \<Rightarrow> 'a Dispatcher_scheme \<Rightarrow> bool" where
  "frame X d d' \<longleftrightarrow>
     (\<forall>k. k \<notin> X \<longrightarrow> get_s k d' = get_s k d)
   \<and> tq_shut d' = tq_shut d \<and> tq_cancelled d' = tq_cancelled d
   \<and> d_completed d' = d_completed d \<and> d_dropped d' = d_dropped d
   \<and> d_submitted d' = d_submitted d"

lemma frame_refl [simp]: "frame X d d"
  by (simp add: frame_def)

lemma frame_trans: "frame X d d' \<Longrightarrow> frame Y d' d'' \<Longrightarrow> X \<union> Y \<subseteq> Z \<Longrightarrow> frame Z d d''"
  unfolding frame_def by (metis Un_subset_iff subset_iff)

lemma frame_put [simp]: "sid \<in> X \<Longrightarrow> frame X d (put_s sid s d)"
  by (auto simp: frame_def)

subsection \<open>Field lemmas of the helpers\<close>

lemma helper_sel [simp, session_simps]:
  "s_task (touch_last_seen w s) = s_task s" "s_pc (touch_last_seen w s) = s_pc s"
  "s_stats (touch_last_seen w s) = s_stats s" "s_response (touch_last_seen w s) = s_response s"
  "s_closed (touch_last_seen w s) = s_closed s" "s_state (touch_last_seen w s) = s_state s"
  "s_term (touch_last_seen w s) = s_term s"
  "s_task (update_state w st s) = s_task s" "s_pc (update_state w st s) = s_pc s"
  "s_stats (update_state w st s) = s_stats s" "s_response (update_state w st s) = s_response s"
  "s_closed (update_state w st s) = s_closed s" "s_state (update_state w st s) = st"
  "s_term (update_state w st s) = s_term s"
  "s_task (mark_disconnected w r s) = s_task s" "s_pc (mark_disconnected w r s) = s_pc s"
  "s_stats (mark_disconnected w r s) = s_stats s"
  "s_response (mark_disconnected w r s) = s_response s"
  "s_closed (mark_disconnected w r s) = s_closed s"
  "s_state (mark_disconnected w r s) = s_state s"
  "s_task (finalize_session s) = s_task s" "s_pc (finalize_session s) = s_pc s"
  "s_stats (finalize_session s) = s_stats s" "s_response (finalize_session s) = s_response s"
  "s_closed (finalize_session s) = True" "s_state (finalize_session s) = s_state s"
  by (simp_all add: touch_last_seen_def update_state_def mark_disconnected_def finalize_session_def)

lemma record_sel [simp, session_simps]:
  "s_task (record_task_sent w s) = s_task s" "s_pc (record_task_sent w s) = s_pc s"
  "s_closed (record_task_sent w s) = s_closed s" "s_response (record_task_sent w s) = s_response s"
  "s_task (record_task_failed w s) = s_task s" "s_pc (record_task_failed w s) = s_pc s"
  "s_closed (record_task_failed w s) = s_closed s" "s_response (record_task_failed w s) = s_response s"
  "s_task (record_task_completed w s) = s_task s" "s_pc (record_task_completed w s) = s_pc s"
  "s_closed (record_task_completed w s) = s_closed s"
  "s_response (record_task_completed w s) = s_response s"
  "s_task (add_bytes_sent n s) = s_task s" "s_pc (add_bytes_sent n s) = s_pc s"
  "s_closed (add_bytes_sent n s) = s_closed s" "s_response (add_bytes_sent n s) = s_response s"
  "s_task (add_bytes_received n s) = s_task s" "s_pc (add_bytes_received n s) = s_pc s"
  "s_closed (add_bytes_received n s) = s_closed s"
  "s_response (add_bytes_received n s) = s_response s"
  "s_task (add_roundtrip dt s) = s_task s" "s_pc (add_roundtrip dt s) = s_pc s"
  "s_closed (add_roundtrip dt s) = s_closed s" "s_response (add_roundtrip dt s) = s_response s"
  by (simp_all add: record_task_sent_def record_task_failed_def record_task_completed_def
      add_bytes_sent_def add_bytes_received_def add_roundtrip_def)

text \<open>The counters, as the triple (sent, completed, failed).\<close>

definition counts :: "Session \<Rightarrow> u32 \<times> u32 \<times> u32" where
  "counts s = (tasks_sent (s_stats s), tasks_completed (s_stats s), tasks_failed (s_stats s))"

lemma counts_simps [simp, session_simps]:
  "counts (touch_last_seen w s) = counts s" "counts (update_state w st s) = counts s"
  "counts (mark_disconnected w r s) = counts s" "counts (finalize_session s) = counts s"
  "counts (add_bytes_sent n s) = counts s" "counts (add_bytes_received n s) = counts s"
  "counts (add_roundtrip dt s) = counts s"
  "counts (record_task_sent w s) = (case counts s of (a, b, c) \<Rightarrow> (a + 1, b, c))"
  "counts (record_task_completed w s) = (case counts s of (a, b, c) \<Rightarrow> (a, b + 1, c))"
  "counts (record_task_failed w s) = (case counts s of (a, b, c) \<Rightarrow> (a, b, c + 1))"
  "counts (s\<lparr>s_pc := pc\<rparr>) = counts s" "counts (s\<lparr>s_task := t\<rparr>) = counts s"
  "counts (s\<lparr>s_response := rh\<rparr>) = counts s" "counts (s\<lparr>s_rt_start := i\<rparr>) = counts s"
  "counts (s\<lparr>s_written := x\<rparr>) = counts s" "counts (s\<lparr>s_node := y\<rparr>) = counts s"
  "counts (s\<lparr>s_term := b\<rparr>) = counts s" "counts (s\<lparr>s_shutdown := b\<rparr>) = counts s"
  by (simp_all add: counts_def record_task_sent_def record_task_failed_def record_task_completed_def
      add_bytes_sent_def add_bytes_received_def add_roundtrip_def touch_last_seen_def
      update_state_def mark_disconnected_def finalize_session_def)

lemma counters_ok_counts:
  "counters_ok s \<longleftrightarrow> (case counts s of (a, b, c) \<Rightarrow> a = b + c + (if s_task s = None then 0 else 1))"
  by (simp add: counters_ok_def counts_def)

text \<open>A running session whose counters account for \<open>n\<close> tasks not yet resolved.\<close>

definition running_ok :: "u32 \<Rightarrow> Session \<Rightarrow> bool" where
  "running_ok n s \<longleftrightarrow> s_pc s = PRunning \<and> s_task s = None
     \<and> (case counts s of (a, b, c) \<Rightarrow> a = b + c + n)"

lemma running_session_ok: "running_ok n s \<Longrightarrow> session_ok s"
  by (simp add: running_ok_def session_ok_def io_pcs_def)

lemma disp_inv_session: "disp_inv_with res d \<Longrightarrow> get_s sid d = Some s \<Longrightarrow> session_ok s"
  by (auto simp: disp_inv_with_def)

lemma no_task_outside_io: "session_ok s \<Longrightarrow> s_pc s \<notin> io_pcs \<Longrightarrow> s_task s = None"
  by (auto simp: session_ok_def)

lemma leave_loop_ok:
  "(case counts s of (a, b, c) \<Rightarrow> a = b + c) \<Longrightarrow> session_ok (leave_loop ev s)"
  by (simp add: leave_loop_def session_ok_def io_pcs_def counters_ok_counts)

subsection \<open>Resuming a session that waits for a task\<close>

lemma disp_inv_put:
  assumes "disp_inv_with res d" "session_ok s" "sid \<notin> w_handle ` set (tq_waiting d)"
  shows "disp_inv_with res (put_s sid s d)"
  using assms distinct_put [of d sid s]
  by (auto simp: disp_inv_with_def waiter_ok_def queue_inv_def)

lemma disp_inv_put_waiting:
  assumes "disp_inv_with res d" "session_ok s" "s_pc s = PQueue"
  shows "disp_inv_with res (put_s sid s d)"
  using assms distinct_put [of d sid s]
  by (auto simp: disp_inv_with_def waiter_ok_def queue_inv_def)

lemma disp_inv_cong:
  assumes "disp_inv_with res d" "tq_tasks d' = tq_tasks d" "tq_waiting d' = tq_waiting d"
    "tq_result d' = res'" "d_sessions d' = d_sessions d" "list_all answers (d_completed d')"
  shows "disp_inv_with res' d'"
proof -
  have g: "get_s k d' = get_s k d" for k using assms(5) by (simp add: get_s_def)
  have "waiter_ok d' = waiter_ok d" using g by (auto simp: waiter_ok_def fun_eq_iff)
  then show ?thesis using assms g by (simp add: disp_inv_with_def queue_inv_def)
qed

lemma not_waiting:
  "disp_inv_with res d \<Longrightarrow> get_s sid d = Some s \<Longrightarrow> s_pc s \<noteq> PQueue \<Longrightarrow>
     sid \<notin> w_handle ` set (tq_waiting d)"
  by (auto simp: disp_inv_with_def waiter_ok_def)

lemma disp_inv_clear_slot:
  "disp_inv_with res d \<Longrightarrow> disp_inv_with (res(a := None)) (d\<lparr>tq_result := (tq_result d)(a := None)\<rparr>)"
  by (auto simp: disp_inv_with_def waiter_ok_def queue_inv_def get_s_def)

lemma await_resume_eq:
  "await_resume now a d =
     ((case tq_result d a of Some m \<Rightarrow> m | None \<Rightarrow> TaskMessage_default now),
      d\<lparr>tq_result := (tq_result d)(a := None)\<rparr>)"
  by (simp add: await_resume_def)

lemma d_result_sel [simp]:
  "get_s k (d\<lparr>tq_result := r\<rparr>) = get_s k d" "d_sessions (d\<lparr>tq_result := r\<rparr>) = d_sessions d"
  "d_completed (d\<lparr>tq_result := r\<rparr>) = d_completed d" "d_dropped (d\<lparr>tq_result := r\<rparr>) = d_dropped d"
  "d_submitted (d\<lparr>tq_result := r\<rparr>) = d_submitted d" "work (d\<lparr>tq_result := r\<rparr>) = work d"
  by (simp_all add: get_s_def work_def)

text \<open>The messages in the slots that are valid tasks.\<close>

definition slot_mset :: "TaskMessage option \<Rightarrow> TaskMessage multiset" where
  "slot_mset r = (case r of Some m \<Rightarrow> if is_valid m then {#m#} else {#} | None \<Rightarrow> {#})"

lemma got_task_spec:
  assumes inv: "disp_inv_with ((\<lambda>_. None)(sid := r)) d"
    and s: "get_s sid d = Some s" "s_pc s = PQueue"
    and nw: "sid \<notin> w_handle ` set (tq_waiting d)"
  shows "disp_inv (session_got_task ev sid s d)"
    "work (session_got_task ev sid s d) = work d + slot_mset r"
    "frame {sid} d (session_got_task ev sid s d)"
    "tq_tasks (session_got_task ev sid s d) = tq_tasks d"
    "tq_waiting (session_got_task ev sid s d) = tq_waiting d"
proof -
  let ?d' = "d\<lparr>tq_result := (tq_result d)(sid := None)\<rparr>"
  let ?m = "case r of Some m \<Rightarrow> m | None \<Rightarrow> TaskMessage_default (ev_steady ev)"
  have ok: "session_ok s" and slot: "tq_result d sid = r"
    using inv s by (auto simp: disp_inv_with_def)
  then have st: "s_task s = None" "case counts s of (a, b, c) \<Rightarrow> a = b + c"
    using s(2) by (auto simp: session_ok_def io_pcs_def counters_ok_counts)
  have inv': "disp_inv ?d'" using disp_inv_clear_slot [OF inv, of sid] by simp
  define t where "t = (if \<not> is_valid ?m then leave_loop ev s
      else (update_state (ev_wall ev) PROCESSING_TASK (record_task_sent (ev_wall ev) s))
               \<lparr>s_task := Some ?m, s_rt_start := ev_steady ev, s_pc := PWriteHeader\<rparr>)"
  have eq: "session_got_task ev sid s d = put_s sid t ?d'"
    by (simp add: session_got_task_def await_resume_eq slot t_def)
  have tok: "session_ok t" and tm: "task_mset t = slot_mset r"
    using st leave_loop_ok [of s ev]
    by (auto simp: t_def session_ok_def io_pcs_def counters_ok_counts slot_mset_def leave_loop_def
        split: option.splits)
  show "disp_inv (session_got_task ev sid s d)"
    unfolding eq using inv' tok nw by (intro disp_inv_put) auto
  show "work (session_got_task ev sid s d) = work d + slot_mset r"
    using work_put [of sid ?d' s t] s(1) st(1) tm by (simp add: eq)
  show "frame {sid} d (session_got_task ev sid s d)"
    by (auto simp: eq frame_def)
  show "tq_tasks (session_got_task ev sid s d) = tq_tasks d"
    "tq_waiting (session_got_task ev sid s d) = tq_waiting d"
    by (simp_all add: eq)
qed

lemma session_resume_at_queue:
  "get_s h d = Some s \<Longrightarrow> s_pc s = PQueue \<Longrightarrow> session_resume ev h d = session_got_task ev h s d"
  by (simp add: session_resume_def)

subsection \<open>Adding a task\<close>

lemma queue_update_sel [simp]:
  "get_s k (d\<lparr>tq_waiting := ws\<rparr>) = get_s k d" "get_s k (d\<lparr>tq_tasks := ts\<rparr>) = get_s k d"
  "get_s k (set_result a m d) = get_s k d" "get_s k (d\<lparr>tq_shut := b\<rparr>) = get_s k d"
  "d_sessions (set_result a m d) = d_sessions d" "d_completed (set_result a m d) = d_completed d"
  "d_dropped (set_result a m d) = d_dropped d" "d_submitted (set_result a m d) = d_submitted d"
  by (simp_all add: get_s_def set_result_def)

lemma work_queue_sel [simp]:
  "work (d\<lparr>tq_waiting := ws\<rparr>) = work d" "work (set_result a m d) = work d"
  "work (d\<lparr>tq_shut := b\<rparr>) = work d" "work (d\<lparr>d_dropped := x\<rparr>) = work d"
  "work (d\<lparr>d_completed := y\<rparr>) = work d" "work (d\<lparr>d_submitted := x\<rparr>) = work d"
  by (simp_all add: work_def)

lemma waiter_ok_cong:
  "(\<And>k. get_s k d' = get_s k d) \<Longrightarrow> waiter_ok d' w = waiter_ok d w"
  by (simp add: waiter_ok_def)

lemma skip_cancelled_suffix: "\<exists>pre. tq_waiting d = pre @ skip_cancelled d"
  unfolding skip_cancelled_def by (metis takeWhile_dropWhile_id)

lemma add_task_spec:
  assumes inv: "disp_inv d" and open_q: "\<not> tq_shut d"
  shows "disp_inv (add_task (session_resume ev) m d)"
    "work (add_task (session_resume ev) m d) = work d + filter_mset is_valid {#m#}"
    "\<exists>X. frame X d (add_task (session_resume ev) m d)
        \<and> (\<forall>k \<in> X. \<exists>s. get_s k d = Some s \<and> s_pc s = PQueue)"
proof -
  have q: "queue_inv d" using inv by (simp add: disp_inv_with_def)
  obtain pre where pre: "tq_waiting d = pre @ skip_cancelled d" using skip_cancelled_suffix by blast
  from q have "disp_inv (add_task (session_resume ev) m d)
    \<and> work (add_task (session_resume ev) m d) = work d + filter_mset is_valid {#m#}
    \<and> (\<exists>X. frame X d (add_task (session_resume ev) m d)
        \<and> (\<forall>k \<in> X. \<exists>s. get_s k d = Some s \<and> s_pc s = PQueue))"
  proof (cases rule: add_task_locked_cases [where m = m])
    case queued
    let ?d' = "d\<lparr>tq_waiting := [], tq_tasks := tq_tasks d @ [m]\<rparr>"
    have "add_task (session_resume ev) m d = ?d'"
      using queued open_q by (simp add: add_task_def resume_opt_def)
    moreover have "disp_inv ?d'" using inv by (auto simp: disp_inv_with_def queue_inv_def)
    moreover have "work ?d' = work d + filter_mset is_valid {#m#}" by (simp add: work_def)
    moreover have "frame {} d ?d'" by (simp add: frame_def)
    ultimately show ?thesis by auto
  next
    case (handed w ws a)
    let ?h = "w_handle w" and ?d' = "d\<lparr>tq_waiting := ws\<rparr>"
    have win: "w \<in> set (tq_waiting d)" "set ws \<subseteq> set (tq_waiting d)"
      using handed(1) pre by auto
    then obtain s where w: "w_awaiter w = Some ?h" "get_s ?h d = Some s" "s_pc s = PQueue"
      using inv by (auto simp: disp_inv_with_def waiter_ok_def)
    have nd: "?h \<notin> w_handle ` set ws" "distinct (map w_handle ws)"
      using inv handed(1) pre by (auto simp: disp_inv_with_def)
    let ?d2 = "set_result ?h m ?d'"
    have i2: "disp_inv_with ((\<lambda>_. None)(?h := Some m)) ?d2"
      using inv nd win handed(3) skip_cancelled_awaiters [OF q] handed(1)
      by (auto simp: disp_inv_with_def queue_inv_def waiter_ok_def)
    have "add_task (session_resume ev) m d = session_got_task ev ?h s ?d2"
      using handed open_q w
      by (simp add: add_task_def resume_opt_def session_resume_at_queue)
    moreover note got_task_spec [OF i2, of s ev]
    moreover have "frame {} d ?d2" by (simp add: frame_def)
    ultimately show ?thesis using w nd(1)
      by (auto simp: slot_mset_def intro!: exI [of _ "{?h}"] intro: frame_trans)
  qed
  then show "disp_inv (add_task (session_resume ev) m d)"
    "work (add_task (session_resume ev) m d) = work d + filter_mset is_valid {#m#}"
    "\<exists>X. frame X d (add_task (session_resume ev) m d)
        \<and> (\<forall>k \<in> X. \<exists>s. get_s k d = Some s \<and> s_pc s = PQueue)"
    by blast+
qed

subsection \<open>The loop of a running session\<close>

lemma cancelled_upd [simp]: "is_cancelled (put_s sid s d) tok = is_cancelled d tok"
  by (simp add: is_cancelled_def split: option.splits)

text \<open>
  A session that executes goes round its loop: it takes a task, enrols as a waiter, or
  leaves. \<open>s0\<close> is its entry in the table, \<open>s\<close> its current state.
\<close>

lemma session_loop_spec:
  assumes inv: "disp_inv d" and s0: "get_s sid d = Some s0" "s_pc s0 = PRunning"
    and s: "running_ok 0 s"
  shows "disp_inv (session_loop ev sid s d) \<and> work (session_loop ev sid s d) = work d
    \<and> frame {sid} d (session_loop ev sid s d)"
proof -
  have nw: "sid \<notin> w_handle ` set (tq_waiting d)"
    using not_waiting [OF inv s0(1)] s0(2) by simp
  have t0: "s_task s0 = None"
    using no_task_outside_io [OF disp_inv_session [OF inv s0(1)]] s0(2) by (simp add: io_pcs_def)
  have s': "s_task s = None" "case counts s of (a, b, c) \<Rightarrow> a = b + c"
    using s by (auto simp: running_ok_def)
  show ?thesis
  proof (cases "is_active s \<and> \<not> s_term s")
    case False
    then have eq: "session_loop ev sid s d = put_s sid (leave_loop ev s) d"
      unfolding session_loop_def by (rule if_not_P)
    have "task_mset (leave_loop ev s) = {#}" by (simp add: leave_loop_def)
    then show ?thesis unfolding eq
      using disp_inv_put [OF inv leave_loop_ok [OF s'(2), of ev] nw]
        work_put_same [OF s0(1), of "leave_loop ev s"] t0 by simp
  next
    case True
    define q where "q = (update_state (ev_wall ev) WAITING_FOR_TASK s)\<lparr>s_pc := PQueue\<rparr>"
    let ?d = "put_s sid q d"
    have qok: "session_ok q" "s_pc q = PQueue" "s_task q = None"
      using s' by (simp_all add: q_def session_ok_def io_pcs_def counters_ok_counts)
    have i: "disp_inv ?d" using disp_inv_put [OF inv qok(1) nw] .
    have w: "work ?d = work d" using work_put_same [OF s0(1), of q] t0 qok(3) by simp
    have got: "disp_inv (session_got_task ev sid q d')
          \<and> work (session_got_task ev sid q d') = work d' + slot_mset r
          \<and> frame {sid} d (session_got_task ev sid q d')"
      if "disp_inv_with ((\<lambda>_. None)(sid := r)) d'" "get_s sid d' = Some q"
        "sid \<notin> w_handle ` set (tq_waiting d')" "frame {sid} ?d d'" for d' r
    proof -
      note g = got_task_spec [OF that(1,2) qok(2) that(3), of ev]
      have "frame {sid} d ?d" by simp
      from frame_trans [OF frame_trans [OF this that(4), where Z = "{sid}"] g(3), where Z = "{sid}"]
      have "frame {sid} d (session_got_task ev sid q d')" by simp
      with g show ?thesis by blast
    qed
    have none: "(\<lambda>_. None)(sid := None) = (\<lambda>_. None :: TaskMessage option)" by auto
    show ?thesis
    proof (cases "is_cancelled ?d (Some sid) \<or> tq_shut ?d")
      case True
      then have "session_loop ev sid s d = session_got_task ev sid q ?d"
        using \<open>is_active s \<and> \<not> s_term s\<close> qok(2)
        by (auto simp: session_loop_def q_def [symmetric] await_ready_def
            try_get_task_immediately_def await_suspend_def session_resume_at_queue Let_def)
      then show ?thesis using got [of None ?d] i nw w none by (simp add: slot_mset_def)
    next
      case F: False
      show ?thesis
      proof (cases "tq_tasks d")
        case Nil
        define d' where "d' = ?d\<lparr>tq_waiting := tq_waiting ?d
            @ [\<lparr>w_handle = sid, w_awaiter = Some sid, w_token = Some sid\<rparr>]\<rparr>"
        have "session_loop ev sid s d = d'"
          using F Nil \<open>is_active s \<and> \<not> s_term s\<close>
          by (simp add: session_loop_def q_def [symmetric] await_ready_def d'_def
              try_get_task_immediately_def try_get_locked_def await_suspend_def
              await_suspend_locked_def resume_opt_def Let_def)
        moreover have "disp_inv d'"
          using i nw qok Nil
          by (auto simp: disp_inv_with_def d'_def queue_inv_def waiter_ok_def)
        moreover have "work d' = work d" "frame {sid} d d'"
          using w by (auto simp: d'_def frame_def)
        ultimately show ?thesis by simp
      next
        case (Cons m ms)
        let ?d' = "set_result sid m (?d\<lparr>tq_tasks := ms\<rparr>)"
        have "session_loop ev sid s d = session_got_task ev sid q ?d'"
          using F Cons \<open>is_active s \<and> \<not> s_term s\<close>
          by (simp add: session_loop_def q_def [symmetric] await_ready_def
              try_get_task_immediately_def try_get_locked_def Let_def)
        moreover have "disp_inv_with ((\<lambda>_. None)(sid := Some m)) ?d'"
          using i Cons by (auto simp: disp_inv_with_def queue_inv_def waiter_ok_def)
        moreover have "work d = work ?d' + slot_mset (Some m)"
          using w Cons by (auto simp: work_def slot_mset_def put_s_def)
        moreover have "frame {sid} ?d ?d'" by (simp add: frame_def)
        ultimately show ?thesis using got [of "Some m" ?d'] nw by simp
      qed
    qed
  qed
qed

subsection \<open>Offering a task while a session runs\<close>

lemma offer_task_spec:
  assumes inv: "disp_inv d" and c: "is_valid m"
    and s0: "get_s sid d = Some s0" "s_pc s0 = PRunning"
  shows "disp_inv (offer_task ev m d)" "get_s sid (offer_task ev m d) = Some s0"
    "work (offer_task ev m d) + filter_mset is_valid (mset (d_dropped (offer_task ev m d)))
       = work d + filter_mset is_valid (mset (d_dropped d)) + {#m#}"
    "d_completed (offer_task ev m d) = d_completed d" "d_submitted (offer_task ev m d) = d_submitted d"
proof -
  have "disp_inv (offer_task ev m d) \<and> get_s sid (offer_task ev m d) = Some s0
    \<and> work (offer_task ev m d) + filter_mset is_valid (mset (d_dropped (offer_task ev m d)))
       = work d + filter_mset is_valid (mset (d_dropped d)) + {#m#}
    \<and> d_completed (offer_task ev m d) = d_completed d \<and> d_submitted (offer_task ev m d) = d_submitted d"
  proof (cases "tq_shut d")
    case True
    then have eq: "offer_task ev m d = d\<lparr>d_dropped := d_dropped d @ [m]\<rparr>"
      by (simp add: offer_task_def add_task_def)
    have "disp_inv (d\<lparr>d_dropped := d_dropped d @ [m]\<rparr>)"
      using inv by (intro disp_inv_cong [OF inv]) (simp_all add: disp_inv_with_def)
    then show ?thesis using s0 c by (simp add: eq get_s_def)
  next
    case False
    then have eq: "offer_task ev m d = add_task (session_resume ev) m d"
      by (simp add: offer_task_def)
    obtain X where X: "frame X d (offer_task ev m d)" "\<forall>k \<in> X. \<exists>s. get_s k d = Some s \<and> s_pc s = PQueue"
      using add_task_spec(3) [OF inv False, of ev m] eq by auto
    have "sid \<notin> X" using X(2) s0 by auto
    then show ?thesis
      using add_task_spec(1,2) [OF inv False, of ev m] X(1) s0 c eq by (auto simp: frame_def)
  qed
  then show "disp_inv (offer_task ev m d)" "get_s sid (offer_task ev m d) = Some s0"
    "work (offer_task ev m d) + filter_mset is_valid (mset (d_dropped (offer_task ev m d)))
       = work d + filter_mset is_valid (mset (d_dropped d)) + {#m#}"
    "d_completed (offer_task ev m d) = d_completed d" "d_submitted (offer_task ev m d) = d_submitted d"
    by blast+
qed

text \<open>
  The balance of the dispatcher: submitted tasks against the places a task can be. A running
  session that holds the task \<open>m\<close> in a local variable owes it to the balance.
\<close>

definition balance :: "TaskMessage multiset \<Rightarrow> 'a Dispatcher_scheme \<Rightarrow> bool" where
  "balance local d \<longleftrightarrow>
     filter_mset is_valid (mset (d_submitted d)) =
       work d + mset (map fst (d_completed d)) + filter_mset is_valid (mset (d_dropped d)) + local"

lemma conserved_balance: "conserved d \<longleftrightarrow> balance {#} d"
  by (simp add: conserved_def balance_def)

lemma balance_frame:
  "frame X d d' \<Longrightarrow> work d' = work d \<Longrightarrow> balance l d' = balance l d"
  by (simp add: balance_def frame_def)

definition sound :: "'a Dispatcher_scheme \<Rightarrow> bool" where
  "sound d \<longleftrightarrow> disp_inv d \<and> conserved d"

text \<open>Putting a session that is not suspended on the queue back into the table.\<close>

lemma put_sound:
  assumes "disp_inv d" "get_s sid d = Some s0" "s_pc s0 \<noteq> PQueue" "session_ok s"
    "balance (task_mset s) d" "s_task s0 = None"
  shows "sound (put_s sid s d)"
proof -
  have "disp_inv (put_s sid s d)"
    using disp_inv_put [OF assms(1,4) not_waiting [OF assms(1-3)]] .
  moreover have "work (put_s sid s d) = work d + task_mset s"
    using work_put [OF assms(2), of s] assms(6) by simp
  ultimately show ?thesis
    using assms(5) by (simp add: sound_def conserved_balance balance_def ac_simps)
qed

lemma session_loop_sound:
  assumes "disp_inv d" "conserved d" "get_s sid d = Some s0" "s_pc s0 = PRunning" "running_ok 0 s"
  shows "sound (session_loop ev sid s d)"
  using session_loop_spec [OF assms(1,3,4,5), of ev] assms(2)
  by (auto simp: sound_def conserved_balance balance_frame)

text \<open>The table entry of a session that starts to run with its task in hand.\<close>

lemma start_running:
  assumes "sound d" "get_s sid d = Some s" "s_pc s \<noteq> PQueue" "running_ok n r"
  shows "disp_inv (put_s sid r d)" "balance (task_mset s) (put_s sid r d)"
    "get_s sid (put_s sid r d) = Some r" "s_pc r = PRunning"
proof -
  have d: "disp_inv d" "conserved d" using assms(1) by (simp_all add: sound_def)
  show "disp_inv (put_s sid r d)"
    using disp_inv_put [OF d(1) running_session_ok [OF assms(4)] not_waiting [OF d(1) assms(2,3)]] .
  have "task_mset r = {#}" using assms(4) by (simp add: running_ok_def)
  then show "balance (task_mset s) (put_s sid r d)"
    using work_put [OF assms(2), of r] d(2)
    by (simp add: conserved_balance balance_def ac_simps)
  show "get_s sid (put_s sid r d) = Some r" "s_pc r = PRunning"
    using assms(4) by (simp_all add: running_ok_def)
qed

lemma offer_conserved:
  assumes "disp_inv d" "balance {#m#} d" "is_valid m" "get_s sid d = Some s0" "s_pc s0 = PRunning"
  shows "conserved (offer_task ev m d)"
  using offer_task_spec [OF assms(1,3,4,5), of ev] assms(2)
  by (simp add: conserved_balance balance_def ac_simps)

lemma session_requeue_sound:
  assumes d: "sound d" and s: "get_s sid d = Some s" "s_pc s \<noteq> PQueue" "s_task s = Some m"
    and m: "is_valid m" and r: "running_ok 1 r"
  shows "sound (session_requeue ev sid r m d)"
proof -
  let ?r = "record_task_failed (ev_wall ev) r"
  have r': "running_ok 0 ?r"
    using r by (auto simp: running_ok_def ac_simps split: prod.splits)
  note st = start_running [OF d s(1,2) r']
  have b: "balance {#m#} (put_s sid ?r d)" using st(2) s(3) by simp
  note o = offer_task_spec [OF st(1) m st(3,4), of ev]
  show ?thesis
    using session_loop_sound [OF o(1) offer_conserved [OF st(1) b m st(3,4)] o(2) st(4) r']
    by (simp add: session_requeue_def Let_def)
qed

lemma session_io_failed_sound:
  assumes d: "sound d" and s: "get_s sid d = Some s" "s_pc s \<noteq> PQueue" "s_task s = Some m"
    and m: "is_valid m" and r: "running_ok 1 r"
  shows "sound (session_io_failed ev e sid r m d)"
proof -
  note st = start_running [OF d s(1,2) r]
  have b: "balance {#m#} (put_s sid r d)" using st(2) s(3) by simp
  note o = offer_task_spec [OF st(1) m st(3,4), of ev]
  have c: "conserved (offer_task ev m (put_s sid r d))"
    using offer_conserved [OF st(1) b m st(3,4)] .
  have rt: "s_task r = None" using r by (simp add: running_ok_def)
  define t where "t = (finalize_session (if is_connection_loss e
      then update_state (ev_wall ev) TERMINATED
        (mark_disconnected (ev_wall ev) (disconnect_reason_of e) (record_task_failed (ev_wall ev) r))
      else update_state (ev_wall ev) ERROR_STATE
        (mark_disconnected (ev_wall ev) TransportError (record_task_failed (ev_wall ev) r))))
      \<lparr>s_pc := PDone\<rparr>"
  have "session_ok t" "s_task t = None"
    using r by (auto simp: t_def session_ok_def io_pcs_def running_ok_def counters_ok_counts
        split: prod.splits)
  then have "sound (put_s sid t (offer_task ev m (put_s sid r d)))"
    using put_sound [OF o(1) o(2), of t] st(4) c rt by (simp add: conserved_balance)
  then show ?thesis by (simp add: session_io_failed_def Let_def t_def)
qed

lemma complete_sel [simp]:
  "tq_tasks (message_complete fin (\<lambda>h q. q) m rh body ok d) = tq_tasks d"
  "tq_waiting (message_complete fin (\<lambda>h q. q) m rh body ok d) = tq_waiting d"
  "tq_shut (message_complete fin (\<lambda>h q. q) m rh body ok d) = tq_shut d"
  "tq_cancelled (message_complete fin (\<lambda>h q. q) m rh body ok d) = tq_cancelled d"
  "tq_result (message_complete fin (\<lambda>h q. q) m rh body ok d) = tq_result d"
  "d_sessions (message_complete fin (\<lambda>h q. q) m rh body ok d) = d_sessions d"
  "d_completed (message_complete fin (\<lambda>h q. q) m rh body ok d) = d_completed d"
  "d_dropped (message_complete fin (\<lambda>h q. q) m rh body ok d) = d_dropped d"
  "d_submitted (message_complete fin (\<lambda>h q. q) m rh body ok d) = d_submitted d"
  by (simp_all add: message_complete_def source_complete_def post_def Let_def split: option.splits)

lemma session_response_sound:
  assumes d: "sound d" and s: "get_s sid d = Some s" "s_pc s \<noteq> PQueue" "s_task s = Some m"
    and m: "is_valid m" "task_id rh = task_id (tm_header m)" "unat (body_size rh) = length body"
    and r: "running_ok 1 r"
  shows "sound (session_response ev sid r m rh body d)"
proof -
  let ?r1 = "update_state (ev_wall ev) ACTIVE (add_roundtrip (ev_steady ev - s_rt_start r) r)"
  have r1: "running_ok 1 ?r1" using r by (simp add: running_ok_def)
  show ?thesis
  proof (cases "skill_id rh = skill_id (tm_header m)")
    case False
    then show ?thesis
      using session_requeue_sound [OF d s m(1) r1] by (simp add: session_response_def Let_def)
  next
    case True
    let ?r2 = "record_task_completed (ev_wall ev) ?r1"
    have r2: "running_ok 0 ?r2"
      using r by (auto simp: running_ok_def ac_simps split: prod.splits)
    note st = start_running [OF d s(1,2) r2]
    let ?c = "message_complete (\<lambda>h q. False) (\<lambda>h q. q) m rh body True (put_s sid ?r2 d)"
    let ?d = "?c\<lparr>d_completed := d_completed ?c @ [(m, rh, body)]\<rparr>"
    have g: "get_s k ?d = get_s k (put_s sid ?r2 d)" for k by (simp add: get_s_def)
    have "list_all answers (d_completed d)" using d by (simp add: sound_def disp_inv_with_def)
    then have "disp_inv ?d"
      using m True st(1)
      by (intro disp_inv_cong [OF st(1)]) (simp_all add: answers_def disp_inv_with_def)
    moreover have "conserved ?d"
      using st(2) s(3) by (simp add: conserved_balance balance_def work_def ac_simps)
    ultimately have "sound (session_loop ev sid ?r2 ?d)"
      using session_loop_sound [of ?d sid ?r2 ?r2 ev] g [of sid] st(3,4) r2 by simp
    then show ?thesis using True by (simp add: session_response_def Let_def)
  qed
qed

lemma session_sent_sound:
  assumes d: "sound d" and s: "get_s sid d = Some s" "s_pc s \<noteq> PQueue" "s_task s = Some m"
    and r: "s_task r = Some m" "counts r = counts s"
  shows "sound (session_sent sid r m d)"
proof -
  define t where "t = (add_bytes_sent (length (fst (wire_bytes m)) + length (snd (wire_bytes m))) r)
       \<lparr>s_pc := PReadHeader, s_task := Some m\<rparr>"
  have inv: "disp_inv d" using d by (simp add: sound_def)
  have ok: "session_ok s" using disp_inv_session [OF inv s(1)] .
  have "s_pc s \<in> io_pcs" using ok s(3) by (simp add: session_ok_def)
  then have "counters_ok s" "is_valid m" using ok s(3) by (auto simp: session_ok_def io_pcs_def)
  then have "session_ok t" using s(3) r(2)
    by (simp add: session_ok_def t_def io_pcs_def counters_ok_counts)
  then have "disp_inv (put_s sid t d)" using disp_inv_put [OF inv _ not_waiting [OF inv s(1,2)]] by simp
  moreover have "work (put_s sid t d) = work d"
    using work_put_same [OF s(1), of t] s(3) by (simp add: t_def)
  ultimately show ?thesis using d
    by (simp add: sound_def session_sent_def t_def conserved_balance balance_def)
qed

lemma put_flight_sound:
  assumes d: "sound d" and s: "get_s sid d = Some s" "s_pc s \<noteq> PQueue" "s_task s = Some m"
    and t: "session_ok t" "s_task t = Some m"
  shows "sound (put_s sid t d)"
proof -
  have inv: "disp_inv d" using d by (simp add: sound_def)
  have "disp_inv (put_s sid t d)" using disp_inv_put [OF inv t(1) not_waiting [OF inv s(1,2)]] .
  moreover have "work (put_s sid t d) = work d"
    using work_put_same [OF s(1), of t] s(3) t(2) by simp
  ultimately show ?thesis using d by (simp add: sound_def conserved_balance balance_def)
qed

lemma session_header_sound:
  assumes d: "sound d" and s: "get_s sid d = Some s" "s_pc s \<noteq> PQueue" "s_task s = Some m"
    and m: "is_valid m" and r: "running_ok 1 r"
  shows "sound (session_header ev bs sid r m d)"
proof (cases "header_of_bytes bs")
  case None
  then show ?thesis using d by (simp add: session_header_def)
next
  case (Some rh)
  let ?r = "add_bytes_received kHeaderSize r"
  have r': "running_ok 1 ?r" using r by (simp add: running_ok_def)
  have "session_ok (?r\<lparr>s_pc := PReadBody, s_task := Some m, s_response := rh\<rparr>)"
    if "task_id rh = task_id (tm_header m)"
    using that r' m by (auto simp: session_ok_def io_pcs_def running_ok_def counters_ok_counts
        split: prod.splits)
  then have body: "task_id rh = task_id (tm_header m) \<Longrightarrow>
      sound (put_s sid (?r\<lparr>s_pc := PReadBody, s_task := Some m, s_response := rh\<rparr>) d)"
    using put_flight_sound [OF d s] by simp
  have "body_size rh \<le> 0 \<Longrightarrow> unat (body_size rh) = length []" by simp
  then show ?thesis
    using Some body session_requeue_sound [OF d s m r', of ev]
      session_response_sound [OF d s m _ _ r', of rh "[]" ev]
    by (auto simp: session_header_def Let_def not_less)
qed

lemma session_greeting_sound:
  assumes d: "sound d" and s: "get_s sid d = Some s" "s_pc s = PGreeting" and r: "running_ok 0 r"
  shows "sound (session_greeting ev bs sid r d)"
proof (cases "greeting_of_bytes bs")
  case None
  then show ?thesis using d by (simp add: session_greeting_def)
next
  case (Some g)
  have inv: "disp_inv d" "conserved d" using d by (simp_all add: sound_def)
  have st: "s_task s = None"
    using no_task_outside_io [OF disp_inv_session [OF inv(1) s(1)]] s(2) by (simp add: io_pcs_def)
  have pq: "s_pc s \<noteq> PQueue" using s(2) by simp
  define t where "t = (finalize_session (update_state (ev_wall ev) ERROR_STATE
               (mark_disconnected (ev_wall ev) GreetingInvalid r)))\<lparr>s_pc := PDone\<rparr>"
  have "session_ok t" "s_task t = None"
    using r by (simp_all add: t_def session_ok_def io_pcs_def running_ok_def counters_ok_counts)
  then have bad: "sound (put_s sid t d)"
    using put_sound [OF inv(1) s(1) pq, of t] st inv(2) by (simp add: conserved_balance)
  let ?r = "update_state (ev_wall ev) ACTIVE (r\<lparr>s_node := node_id g\<rparr>)"
  have r': "running_ok 0 ?r" using r by (simp add: running_ok_def)
  note run = start_running [OF d s(1) pq r']
  have "conserved (put_s sid ?r d)" using run(2) st by (simp add: conserved_balance)
  then have "sound (session_loop ev sid ?r (put_s sid ?r d))"
    using session_loop_sound [OF run(1) _ run(3,4) r'] by simp
  then show ?thesis using Some bad by (simp add: session_greeting_def t_def Let_def)
qed

text \<open>Every delivery of a socket result keeps the dispatcher sound.\<close>

lemma session_ok_flight:
  "session_ok s \<Longrightarrow> s_task s = Some m \<Longrightarrow>
     s_pc s \<in> io_pcs \<and> is_valid m \<and> counters_ok s
     \<and> (s_pc s = PReadBody \<longrightarrow> task_id (s_response s) = task_id (tm_header m))"
  by (auto simp: session_ok_def io_pcs_def)

lemma session_io_flight_sound:
  assumes d: "sound d" and s: "get_s sid d = Some s" "s_task s = Some m"
  shows "sound (session_io ev r sid d)"
proof -
  let ?run = "s\<lparr>s_pc := PRunning, s_task := None\<rparr>"
  have inv: "disp_inv d" using d by (simp add: sound_def)
  note ok = session_ok_flight [OF disp_inv_session [OF inv s(1)] s(2)]
  have pq: "s_pc s \<noteq> PQueue" "is_valid m" using ok by (auto simp: io_pcs_def)
  have run: "running_ok 1 ?run" using ok s(2) by (simp add: running_ok_def counters_ok_counts)
  then have run': "running_ok 1 (add_bytes_received n ?run)" for n by (simp add: running_ok_def)
  have hdr: "sound (put_s sid (s\<lparr>s_written := x, s_pc := PWritePayload\<rparr>) d)" for x
    using put_flight_sound [OF d s(1) pq(1) s(2), of "s\<lparr>s_written := x, s_pc := PWritePayload\<rparr>"]
      ok s(2) by (simp add: session_ok_def io_pcs_def counters_ok_counts)
  note fail = session_io_failed_sound [OF d s(1) pq(1) s(2) pq(2) run]
    and sent = session_sent_sound [OF d s(1) pq(1) s(2)]
    and head = session_header_sound [OF d s(1) pq(1) s(2) pq(2) run]
    and resp = session_response_sound [OF d s(1) pq(1) s(2) pq(2) _ _ run']
  from ok have "s_pc s = PWriteHeader \<or> s_pc s = PWritePayload \<or> s_pc s = PReadHeader \<or> s_pc s = PReadBody"
    by (simp add: io_pcs_def)
  then show ?thesis
  proof (elim disjE)
    assume "s_pc s = PWriteHeader"
    then show ?thesis using s fail hdr sent [of "s\<lparr>s_written := _\<rparr>"]
      by (cases r) (simp_all add: session_io_def Let_def)
  next
    assume "s_pc s = PWritePayload"
    then show ?thesis using s fail sent [of "s\<lparr>s_written := _\<rparr>"]
      by (cases r) (simp_all add: session_io_def Let_def)
  next
    assume "s_pc s = PReadHeader"
    then show ?thesis using s fail head by (cases r) (simp_all add: session_io_def Let_def)
  next
    assume "s_pc s = PReadBody"
    then show ?thesis using s fail d ok resp [of "s_response s"]
      by (cases r) (simp_all add: session_io_def Let_def)
  qed
qed

lemma session_io_sound:
  assumes d: "sound d"
  shows "sound (session_io ev r sid d)"
proof (cases "get_s sid d")
  case None
  then show ?thesis using d by (simp add: session_io_def)
next
  case (Some s)
  have inv: "disp_inv d" "conserved d" using d by (simp_all add: sound_def)
  have ok: "session_ok s" using disp_inv_session [OF inv(1) Some] .
  show ?thesis
  proof (cases "s_task s")
    case (Some m)
    then show ?thesis using session_io_flight_sound [OF d \<open>get_s sid d = Some s\<close>] by simp
  next
    case None
    note none = None
    show ?thesis
    proof (cases "s_pc s = PGreeting")
      case True
      let ?run = "s\<lparr>s_pc := PRunning, s_task := None\<rparr>"
      have run: "running_ok 0 ?run"
        using ok none True by (simp add: running_ok_def session_ok_def counters_ok_counts)
      define t where "t = (finalize_session (update_state (ev_wall ev) ERROR_STATE
                      (mark_disconnected (ev_wall ev) UnknownReason ?run)))\<lparr>s_pc := PDone\<rparr>"
      have "session_ok t" "s_task t = None"
        using run by (simp_all add: t_def session_ok_def io_pcs_def running_ok_def counters_ok_counts)
      then have "sound (put_s sid t d)"
        using put_sound [OF inv(1) Some, of t] True none inv(2) by (simp add: conserved_balance)
      then show ?thesis
        using session_greeting_sound [OF d Some True run] Some True
        by (cases r) (simp_all add: session_io_def t_def Let_def)
    next
      case False
      have "s_pc s \<notin> io_pcs" using ok none by (simp add: session_ok_def)
      then have "session_io ev r sid d = d"
        using False Some none by (cases "s_pc s") (simp_all add: session_io_def Let_def io_pcs_def)
      then show ?thesis using d by simp
    qed
  qed
qed

subsection \<open>Requests from outside\<close>

text \<open>Updates of a session that leave its coroutine alone.\<close>

definition same_coroutine :: "Session \<Rightarrow> Session \<Rightarrow> bool" where
  "same_coroutine s t \<longleftrightarrow> s_pc t = s_pc s \<and> s_task t = s_task s \<and> counts t = counts s
     \<and> s_response t = s_response s \<and> s_closed t = s_closed s"

lemma put_same_coroutine:
  assumes "sound d" "get_s sid d = Some s" "same_coroutine s t"
  shows "sound (put_s sid t d)"
proof -
  have inv: "disp_inv d" using assms(1) by (simp add: sound_def)
  have ok: "session_ok t"
    using disp_inv_session [OF inv assms(2)] assms(3)
    by (simp add: session_ok_def same_coroutine_def counters_ok_counts)
  have "disp_inv (put_s sid t d)"
    using disp_inv_put_waiting [OF inv ok, of sid] disp_inv_put [OF inv ok]
      not_waiting [OF inv assms(2)] assms(3)
    by (cases "s_pc s = PQueue") (auto simp: same_coroutine_def)
  moreover have "work (put_s sid t d) = work d"
    using work_put_same [OF assms(2), of t] assms(3) by (simp add: same_coroutine_def task_mset_def)
  ultimately show ?thesis
    using assms(1) by (simp add: sound_def conserved_balance balance_def)
qed

lemma cancel_d_sel [simp]:
  "get_s k (cancel t d) = get_s k d" "d_sessions (cancel t d) = d_sessions d"
  "d_completed (cancel t d) = d_completed d" "d_dropped (cancel t d) = d_dropped d"
  "d_submitted (cancel t d) = d_submitted d" "work (cancel t d) = work d"
  by (simp_all add: cancel_def get_s_def work_def)

lemma cancel_sound: "sound d \<Longrightarrow> sound (cancel t d)"
  by (simp add: sound_def conserved_balance balance_def)
    (rule disp_inv_cong, auto simp: disp_inv_with_def)

lemma request_termination_sound: "sound d \<Longrightarrow> sound (request_termination ev sid d)"
proof (cases "get_s sid d")
  case (Some s)
  assume "sound d"
  then show ?thesis using Some
    by (auto simp: request_termination_def same_coroutine_def
        intro!: put_same_coroutine [OF cancel_sound, where s = s])
qed (simp add: request_termination_def)

lemma probe_sound: "sound d \<Longrightarrow> sound (snd (probe_connection_liveness ev alive sid d))"
proof (cases "get_s sid d")
  case (Some s)
  assume "sound d"
  then show ?thesis using Some
    by (auto simp: probe_connection_liveness_def same_coroutine_def Let_def
        intro!: put_same_coroutine [OF cancel_sound, where s = s])
qed (simp add: probe_connection_liveness_def)

text \<open>Resuming a session outside the waiter queue, with or without a message.\<close>

lemma resume_sound:
  assumes "disp_inv_with ((\<lambda>_. None)(h := r)) d" "get_s h d = Some s" "s_pc s = PQueue"
    "h \<notin> w_handle ` set (tq_waiting d)" "slot_mset r = {#}" "conserved d"
  shows "sound (session_resume ev h d)"
  using got_task_spec [OF assms(1-4), of ev] assms(5,6)
  by (simp add: sound_def session_resume_at_queue [OF assms(2,3)] conserved_balance balance_frame)

lemma cancel_queue_wait_sound:
  assumes "sound d"
  shows "sound (cancel_queue_wait ev sid d)"
proof -
  have inv: "disp_inv d" "conserved d" using assms by (simp_all add: sound_def)
  obtain r ws where t: "take_waiter (Some sid) (tq_waiting d) = (r, ws)" by force
  have sub: "set ws \<subseteq> set (tq_waiting d)" using take_waiter_subset [of "Some sid" "tq_waiting d"] t by simp
  have m: "mset (tq_waiting d) = (case r of Some w \<Rightarrow> {#w#} | None \<Rightarrow> {#}) + mset ws"
    using take_waiter_mset [of "tq_waiting d" "Some sid"] t by simp
  have qi: "queue_inv (d\<lparr>tq_waiting := ws\<rparr>)"
    using inv(1) sub m by (auto simp: disp_inv_with_def queue_inv_def list_all_iff)
  let ?rs = "case r of Some w \<Rightarrow> [w] | None \<Rightarrow> []"
  have "mset (map w_handle (tq_waiting d)) = mset (map w_handle (?rs @ ws))"
    using m by (auto split: option.splits)
  from mset_eq_imp_distinct_iff [OF this] have dm: "distinct (map w_handle (?rs @ ws))"
    using inv(1) by (simp add: disp_inv_with_def)
  have base: "disp_inv_with (\<lambda>_. None) (d\<lparr>tq_waiting := ws\<rparr>)"
    using inv(1) sub qi dm by (auto simp: disp_inv_with_def waiter_ok_def)
  show ?thesis
  proof (cases r)
    case None
    have "conserved (d\<lparr>tq_waiting := ws\<rparr>)" using inv(2) by (simp add: conserved_def)
    then show ?thesis using None t base
      by (simp add: cancel_queue_wait_def cancel_and_resume_waiter_def cancel_waiter_locked_def
          resume_opt_def sound_def)
  next
    case (Some w)
    have w: "w \<in> set (tq_waiting d)" using take_waiter_Some [of "Some sid" "tq_waiting d" w] t Some by simp
    then obtain s where s: "w_awaiter w = Some (w_handle w)" "get_s (w_handle w) d = Some s" "s_pc s = PQueue"
      using inv(1) by (auto simp: disp_inv_with_def waiter_ok_def)
    let ?d = "set_result (w_handle w) (TaskMessage_default (ev_steady ev)) (d\<lparr>tq_waiting := ws\<rparr>)"
    have i: "disp_inv_with ((\<lambda>_. None)(w_handle w := Some (TaskMessage_default (ev_steady ev)))) ?d"
      using base by (intro disp_inv_cong [OF base]) (auto simp: disp_inv_with_def)
    have "sound (session_resume ev (w_handle w) ?d)"
      using resume_sound [OF i, of s ev] s dm Some inv(2) by (simp add: slot_mset_def conserved_def)
    then show ?thesis using Some t s(1)
      by (simp add: cancel_queue_wait_def cancel_and_resume_waiter_def cancel_waiter_locked_def
          resume_opt_def)
  qed
qed

subsection \<open>Shutting the queue down\<close>

lemma session_resume_pc:
  "get_s k d = Some s \<Longrightarrow> k \<noteq> h \<Longrightarrow> get_s k (session_resume ev h d) = Some s"
  by (auto simp: session_resume_def session_got_task_def await_resume_eq split: option.splits)

lemma session_resume_queue [simp]:
  "tq_waiting (session_resume ev h d) = tq_waiting d" "tq_shut (session_resume ev h d) = tq_shut d"
  "tq_tasks (session_resume ev h d) = tq_tasks d"
  by (auto simp: session_resume_def session_got_task_def await_resume_eq split: option.splits)

text \<open>The sessions keep the promises the queue asks of its clients.\<close>

interpretation sess: queue_client "session_resume ev" for ev
  by unfold_locales (simp_all add: queue_inv_def shut_closed_def)

lemma shutdown_loop_sound:
  "sound d \<Longrightarrow> distinct (map w_handle ws) \<Longrightarrow>
   (\<forall>w \<in> set ws. w_handle w \<notin> w_handle ` set (tq_waiting d)
      \<and> (\<exists>s. get_s (w_handle w) d = Some s \<and> s_pc s = PQueue)) \<Longrightarrow>
   sound (shutdown_loop (session_resume ev) ws d)"
proof (induction ws arbitrary: d)
  case (Cons w ws)
  obtain s where s: "get_s (w_handle w) d = Some s" "s_pc s = PQueue" using Cons.prems(3) by auto
  have inv: "disp_inv d" "conserved d" using Cons.prems(1) by (simp_all add: sound_def)
  have none: "(\<lambda>_. None)(w_handle w := None) = (\<lambda>_. None :: TaskMessage option)" by auto
  have r: "sound (session_resume ev (w_handle w) d)"
    using resume_sound [of "w_handle w" None d s ev] inv s Cons.prems(3) none
    by (simp add: slot_mset_def)
  have "\<forall>v \<in> set ws. w_handle v \<notin> w_handle ` set (tq_waiting d)
      \<and> (\<exists>s. get_s (w_handle v) (session_resume ev (w_handle w) d) = Some s \<and> s_pc s = PQueue)"
  proof
    fix v
    assume v: "v \<in> set ws"
    then obtain t where t: "get_s (w_handle v) d = Some t" "s_pc t = PQueue"
        "w_handle v \<notin> w_handle ` set (tq_waiting d)"
      using Cons.prems(3) by auto
    moreover have "w_handle v \<noteq> w_handle w" using v Cons.prems(2) by (simp add: image_iff) metis
    ultimately show "w_handle v \<notin> w_handle ` set (tq_waiting d)
      \<and> (\<exists>s. get_s (w_handle v) (session_resume ev (w_handle w) d) = Some s \<and> s_pc s = PQueue)"
      using session_resume_pc [of "w_handle v" d t "w_handle w" ev] by blast
  qed
  then show ?case
    using Cons.IH [OF r] Cons.IH [OF Cons.prems(1)] Cons.prems(2,3) by simp
qed simp

lemma queue_shutdown_sound:
  assumes "sound d"
  shows "sound (queue_shutdown (session_resume ev) d)"
proof (cases "tq_shut d")
  case True
  then show ?thesis using assms by (simp add: queue_shutdown_def)
next
  case False
  let ?d = "d\<lparr>tq_shut := True, tq_waiting := []\<rparr>"
  have inv: "disp_inv d" "conserved d" using assms by (simp_all add: sound_def)
  have "disp_inv ?d" using inv(1) by (auto simp: disp_inv_with_def queue_inv_def)
  moreover have "conserved ?d" using inv(2) by (simp add: conserved_def)
  ultimately have "sound (shutdown_loop (session_resume ev) (tq_waiting d) ?d)"
    using inv(1)
    by (intro shutdown_loop_sound) (auto simp: sound_def disp_inv_with_def waiter_ok_def)
  then show ?thesis using False by (simp add: queue_shutdown_def swap_waiters_def)
qed

lemma drain_cancelled_sound:
  assumes "sound d"
  shows "sound (drain_cancelled d)"
proof -
  have inv: "disp_inv d" "conserved d" using assms by (simp_all add: sound_def)
  have "disp_inv (drain_cancelled d)"
    using inv(1) drain_cancelled_inv [of d]
    by (auto simp: disp_inv_with_def drain_cancelled_def waiter_ok_def distinct_map_filter)
  moreover have "conserved (drain_cancelled d)"
    using inv(2) by (simp add: conserved_def drain_cancelled_def)
  ultimately show ?thesis by (simp add: sound_def)
qed

end
