(* ===== verification/SessionMgr.thy ===== *)
theory SessionMgr
  imports DispInv
begin

section \<open>The session manager\<close>

text \<open>
  \<open>SessionManager\<close> (dispatcher/session/SessionManager.hpp, .cpp) over the dispatcher state:
  creating, terminating and cleaning up sessions, and handing tasks to the queue. The
  session map is traversed in the order of the table. \<open>alive\<close> gives, for every session, what
  \<open>check_alive\<close> returns on its socket when the cleanup probes it.
\<close>

definition kRecentDisconnectHistoryCap :: nat where
  "kRecentDisconnectHistoryCap = 100"

definition to_epoch_ms :: "int \<Rightarrow> int" where
  "to_epoch_ms t = t sdiv 1000000"

definition init_dispatcher :: Dispatcher where
  "init_dispatcher =
     \<lparr>tq_tasks = [], tq_waiting = [], tq_shut = False, tq_cancelled = (\<lambda>_. False),
      tq_result = (\<lambda>_. None), rq_sources = (\<lambda>_. fresh_source), rq_running = True,
      rq_pending = [], d_sessions = [], d_next_id = 1, d_recent = [], d_submitted = [],
      d_completed = [], d_dropped = []\<rparr>"

definition generate_session_id :: "Dispatcher \<Rightarrow> u32 \<times> Dispatcher" where
  "generate_session_id d = (d_next_id d, d\<lparr>d_next_id := d_next_id d + 1\<rparr>)"

definition create_session :: "event \<Rightarrow> string option \<Rightarrow> Dispatcher \<Rightarrow> u32 \<times> Dispatcher" where
  "create_session ev sock d =
     (case sock of
        None \<Rightarrow> (0, d)
      | Some ep \<Rightarrow>
          (case generate_session_id d of
             (sid, d1) \<Rightarrow>
               let s = Session_new ev sid ep; d2 = put_s (unat sid) s d1
               in (sid, put_s (unat sid) (session_run ev s) d2)))"

definition session_ids :: "Dispatcher \<Rightarrow> nat list" where
  "session_ids d = map fst (d_sessions d)"

definition get_active_session_count :: "Dispatcher \<Rightarrow> nat" where
  "get_active_session_count d = length (d_sessions d)"

definition terminate_session :: "event \<Rightarrow> nat \<Rightarrow> Dispatcher \<Rightarrow> bool \<times> Dispatcher" where
  "terminate_session ev sid d =
     (case get_s sid d of
        Some s \<Rightarrow> (True, request_termination ev sid d)
      | None \<Rightarrow> (False, d))"

definition awaiting_teardown :: "nat \<Rightarrow> Dispatcher \<Rightarrow> bool" where
  "awaiting_teardown sid d = (case get_s sid d of Some s \<Rightarrow> is_awaiting_teardown s | None \<Rightarrow> False)"

definition teardown :: "event \<Rightarrow> nat \<Rightarrow> Dispatcher \<Rightarrow> Dispatcher" where
  "teardown ev sid d = (if awaiting_teardown sid d then cancel_queue_wait ev sid d else d)"

definition terminate_all_sessions :: "event \<Rightarrow> Dispatcher \<Rightarrow> Dispatcher" where
  "terminate_all_sessions ev d =
     fold (teardown ev) (session_ids d) (fold (request_termination ev) (session_ids d) d)"

definition disconnect_reason_to_string :: "SessionDisconnectReason \<Rightarrow> string" where
  "disconnect_reason_to_string r = (case r of
       NoReason \<Rightarrow> ''none'' | RemoteClosed \<Rightarrow> ''remote_closed''
     | ConnectionReset \<Rightarrow> ''connection_reset'' | ConnectionAborted \<Rightarrow> ''connection_aborted''
     | NotConnected \<Rightarrow> ''not_connected'' | BadFileDescriptor \<Rightarrow> ''bad_file_descriptor''
     | GreetingReadFailed \<Rightarrow> ''greeting_read_failed'' | GreetingInvalid \<Rightarrow> ''greeting_invalid''
     | TransportError \<Rightarrow> ''transport_error'' | LocalTermination \<Rightarrow> ''local_termination''
     | UnknownReason \<Rightarrow> ''unknown'')"

definition disconnect_record :: "int \<Rightarrow> Session \<Rightarrow> RecentDisconnectSnapshot" where
  "disconnect_record now s =
     \<lparr>rd_node = s_node s, rd_session = s_id s, rd_endpoint = s_endpoint s,
      rd_reason = disconnect_reason_to_string (s_reason s),
      rd_ts_ms = to_epoch_ms (if s_disconnected_at s > 0 then s_disconnected_at s else now)\<rparr>"

definition push_recent ::
  "RecentDisconnectSnapshot \<Rightarrow> RecentDisconnectSnapshot list \<Rightarrow> RecentDisconnectSnapshot list" where
  "push_recent r rs =
     (let rs' = r # rs in
      if length rs' > kRecentDisconnectHistoryCap then take kRecentDisconnectHistoryCap rs' else rs')"

text \<open>The erase loop: completed sessions leave the table, newest disconnects first.\<close>

fun erase_completed ::
  "int \<Rightarrow> (nat \<times> Session) list \<Rightarrow> RecentDisconnectSnapshot list \<Rightarrow>
   (nat \<times> Session) list \<times> RecentDisconnectSnapshot list \<times> nat" where
  "erase_completed now [] rs = ([], rs, 0)"
| "erase_completed now ((k, s) # al) rs =
     (if is_completed s then
        (case erase_completed now al (push_recent (disconnect_record now s) rs) of
           (al', rs', n) \<Rightarrow> (al', rs', n + 1))
      else
        (case erase_completed now al rs of (al', rs', n) \<Rightarrow> ((k, s) # al', rs', n)))"

definition probe_all ::
  "event \<Rightarrow> (nat \<Rightarrow> bool \<times> errc option) \<Rightarrow> Dispatcher \<Rightarrow> Dispatcher" where
  "probe_all ev alive d =
     fold (\<lambda>k x. snd (probe_connection_liveness ev (alive k) k x)) (session_ids d) d"

definition cleanup_completed_sessions ::
  "event \<Rightarrow> (nat \<Rightarrow> bool \<times> errc option) \<Rightarrow> Dispatcher \<Rightarrow> nat \<times> Dispatcher" where
  "cleanup_completed_sessions ev alive d =
     (let d1 = probe_all ev alive d;
          d2 = fold (teardown ev) (session_ids d1) d1;
          d3 = drain_cancelled d2
      in case erase_completed (ev_wall ev) (d_sessions d3) (d_recent d3) of
           (al, rs, n) \<Rightarrow> (n, d3\<lparr>d_sessions := al, d_recent := rs\<rparr>))"

definition has_active_session :: "nat \<Rightarrow> Dispatcher \<Rightarrow> bool" where
  "has_active_session sid d = (case get_s sid d of Some s \<Rightarrow> is_active s | None \<Rightarrow> False)"

definition get_session_stats :: "nat \<Rightarrow> Dispatcher \<Rightarrow> SessionStats option" where
  "get_session_stats sid d = map_option s_stats (get_s sid d)"

definition enqueue_tasks :: "event \<Rightarrow> TaskMessage list \<Rightarrow> Dispatcher \<Rightarrow> Dispatcher" where
  "enqueue_tasks ev ms d =
     (if ms \<noteq> [] then
        add_tasks (session_resume ev) ms
          (d\<lparr>d_submitted := d_submitted d @ ms,
             d_dropped := d_dropped d @ (if tq_shut d then ms else [])\<rparr>)
      else d)"

definition get_task_queue_size :: "Dispatcher \<Rightarrow> nat" where
  "get_task_queue_size d = queue_size d"

definition get_task_queue_waiting_workers_count :: "Dispatcher \<Rightarrow> nat" where
  "get_task_queue_waiting_workers_count d = waiting_workers_count d"

text \<open>A generator submits one task through its awaitable.\<close>

definition submit_task :: "event \<Rightarrow> TaskMessage \<Rightarrow> Dispatcher \<Rightarrow> Dispatcher" where
  "submit_task ev m d = offer_task ev m (d\<lparr>d_submitted := d_submitted d @ [m]\<rparr>)"

record WorkerMonitoringSnapshot =
  wm_node :: u64
  wm_session :: u32
  wm_endpoint :: string
  wm_state :: SessionState
  wm_stats :: SessionStats
  wm_last_seen_ms :: int
  wm_fresh :: bool

text \<open>\<open>live\<close> is what the session's socket reports as its remote endpoint.\<close>

definition get_client_endpoint :: "string \<Rightarrow> Session \<Rightarrow> string" where
  "get_client_endpoint live s = (if live = [] then s_endpoint s else live)"

definition get_worker_monitoring_snapshot ::
  "int \<Rightarrow> int \<Rightarrow> (nat \<Rightarrow> string) \<Rightarrow> Dispatcher \<Rightarrow> WorkerMonitoringSnapshot list" where
  "get_worker_monitoring_snapshot now window live d =
     map (\<lambda>(k, s). \<lparr>wm_node = s_node s, wm_session = s_id s,
            wm_endpoint = get_client_endpoint (live k) s,
            wm_state = s_state s, wm_stats = s_stats s,
            wm_last_seen_ms = to_epoch_ms (s_last_seen s),
            wm_fresh = (now - s_last_seen s \<le> window)\<rparr>) (d_sessions d)"

subsection \<open>The dispatcher as a transition system\<close>

text \<open>
  Everything that can happen to a dispatcher, one event at a time. A new session needs an
  identifier that is not in use: identifiers are 32 bits wide and wrap.
\<close>

inductive dstep :: "Dispatcher \<Rightarrow> Dispatcher \<Rightarrow> bool" where
  enqueue: "dstep d (enqueue_tasks ev ms d)"
| submit: "dstep d (submit_task ev m d)"
| io: "dstep d (session_io ev r sid d)"
| create: "get_s (unat (d_next_id d)) d = None \<Longrightarrow> dstep d (snd (create_session ev sock d))"
| terminate: "dstep d (snd (terminate_session ev sid d))"
| terminate_all: "dstep d (terminate_all_sessions ev d)"
| cleanup: "dstep d (snd (cleanup_completed_sessions ev alive d))"
| queue_down: "dstep d (queue_shutdown (session_resume ev) d)"

definition dreachable :: "Dispatcher \<Rightarrow> bool" where
  "dreachable d \<longleftrightarrow> dstep\<^sup>*\<^sup>* init_dispatcher d"

subsection \<open>Every transition keeps the dispatcher sound\<close>

lemma sound_init: "sound init_dispatcher"
  by (simp add: sound_def disp_inv_with_def conserved_def init_dispatcher_def queue_inv_def
      get_s_def work_def flight_def)

lemma fold_sound:
  "(\<And>k d. sound d \<Longrightarrow> sound (f k d)) \<Longrightarrow> sound d \<Longrightarrow> sound (fold f ks d)"
  by (induction ks arbitrary: d) simp_all

lemma add_tasks_loop_sound:
  "disp_inv d \<Longrightarrow> \<not> tq_shut d \<Longrightarrow> balance (filter_mset is_valid (mset ms)) d \<Longrightarrow>
     sound (add_tasks_loop (session_resume ev) ms d)"
proof (induction ms arbitrary: d)
  case Nil
  then show ?case by (simp add: sound_def conserved_balance)
next
  case (Cons m ms)
  let ?d = "add_task (session_resume ev) m d"
  have eq: "resume_opt (session_resume ev) (add_task_locked m d) = ?d"
    using Cons.prems(2) by (simp add: add_task_def)
  note a = add_task_spec [OF Cons.prems(1,2), of ev m]
  obtain X where f: "frame X d ?d" using a(3) by blast
  have h: "d_submitted ?d = d_submitted d" "d_completed ?d = d_completed d" "d_dropped ?d = d_dropped d"
    using f by (simp_all add: frame_def)
  have split_ms: "filter_mset is_valid (mset (m # ms))
      = filter_mset is_valid {#m#} + filter_mset is_valid (mset ms)"
    by simp
  have "balance (filter_mset is_valid (mset ms)) ?d"
    using Cons.prems(3) unfolding balance_def a(2) h split_ms by (simp only: ac_simps)
  moreover have "\<not> tq_shut ?d" using f Cons.prems(2) by (simp add: frame_def)
  ultimately have "sound (add_tasks_loop (session_resume ev) ms ?d)"
    by (rule Cons.IH [OF a(1), rotated])
  then show ?case by (simp add: eq)
qed

lemma enqueue_sound:
  assumes d: "sound d"
  shows "sound (enqueue_tasks ev ms d)"
proof -
  define e where "e = d\<lparr>d_submitted := d_submitted d @ ms,
    d_dropped := d_dropped d @ (if tq_shut d then ms else [])\<rparr>"
  have inv: "disp_inv d" "conserved d" "list_all answers (d_completed d)"
    using d by (simp_all add: sound_def disp_inv_with_def)
  have sel: "tq_tasks e = tq_tasks d" "tq_waiting e = tq_waiting d" "d_sessions e = d_sessions d"
    "d_completed e = d_completed d" "tq_shut e = tq_shut d" "tq_result e = tq_result d"
    "d_submitted e = d_submitted d @ ms" "d_dropped e = d_dropped d @ (if tq_shut d then ms else [])"
    "work e = work d"
    by (simp_all add: e_def)
  have "tq_result e = (\<lambda>_. None)" using inv(1) sel by (simp add: disp_inv_with_def)
  then have i: "disp_inv e" using inv(3) sel by (intro disp_inv_cong [OF inv(1)]) simp_all
  have c: "filter_mset is_valid (mset (d_submitted e)) = work d + mset (map fst (d_completed d))
      + filter_mset is_valid (mset (d_dropped d)) + filter_mset is_valid (mset ms)"
    using inv(2) sel(7) by (simp add: conserved_def)
  show ?thesis
  proof (cases "tq_shut d")
    case True
    then have "conserved e" using c unfolding conserved_def sel by (simp add: ac_simps)
    then have "sound e" using i by (simp add: sound_def)
    then show ?thesis using True d by (simp add: enqueue_tasks_def add_tasks_def e_def)
  next
    case False
    then have "balance (filter_mset is_valid (mset ms)) e"
      using c unfolding balance_def sel by simp
    from add_tasks_loop_sound [OF i _ this, of ev] have "sound (add_tasks_loop (session_resume ev) ms e)"
      using False sel(5) by simp
    then show ?thesis using False d by (simp add: enqueue_tasks_def add_tasks_def e_def)
  qed
qed

lemma submit_sound: "sound d \<Longrightarrow> sound (submit_task ev m d)"
proof -
  assume d: "sound d"
  have "submit_task ev m d = enqueue_tasks ev [m] d"
    by (simp add: submit_task_def enqueue_tasks_def offer_task_def add_tasks_def add_task_def)
  then show ?thesis using enqueue_sound [OF d] by simp
qed

lemma create_sound:
  assumes d: "sound d" and fresh: "get_s (unat (d_next_id d)) d = None"
  shows "sound (snd (create_session ev sock d))"
proof (cases sock)
  case None
  then show ?thesis using d by (simp add: create_session_def)
next
  case (Some ep)
  let ?sid = "unat (d_next_id d)" and ?d1 = "d\<lparr>d_next_id := d_next_id d + 1\<rparr>"
  let ?s = "Session_new ev (d_next_id d) ep"
  let ?r = "session_run ev ?s"
  have inv: "disp_inv d" "conserved d" using d by (simp_all add: sound_def)
  have i1: "disp_inv ?d1" using inv(1)
    by (intro disp_inv_cong [OF inv(1)]) (auto simp: disp_inv_with_def)
  have eq: "snd (create_session ev sock d) = put_s ?sid ?r ?d1"
    using Some by (simp add: create_session_def generate_session_id_def put_s_def Let_def)
  have ok: "session_ok ?r" "s_task ?r = None"
    by (simp_all add: session_ok_def session_run_def Session_new_def io_pcs_def counters_ok_def
        zero_stats_def touch_last_seen_def)
  have "?sid \<notin> w_handle ` set (tq_waiting ?d1)"
    using inv(1) fresh by (auto simp: disp_inv_with_def waiter_ok_def)
  then have "disp_inv (put_s ?sid ?r ?d1)" using disp_inv_put [OF i1 ok(1)] by simp
  moreover have "work (put_s ?sid ?r ?d1) = work d"
    using flight_update_new [of "d_sessions d" ?sid ?r] fresh ok(2)
    by (simp add: work_def put_s_def get_s_def)
  ultimately show ?thesis using inv(2)
    by (simp add: eq sound_def conserved_balance balance_def)
qed

lemma terminate_sound: "sound d \<Longrightarrow> sound (snd (terminate_session ev sid d))"
  by (simp add: terminate_session_def request_termination_sound split: option.splits)

lemma teardown_sound: "sound d \<Longrightarrow> sound (teardown ev sid d)"
  by (simp add: teardown_def cancel_queue_wait_sound)

lemma terminate_all_sound: "sound d \<Longrightarrow> sound (terminate_all_sessions ev d)"
  unfolding terminate_all_sessions_def
  by (intro fold_sound teardown_sound request_termination_sound)

lemma erase_completed_eq:
  "fst (erase_completed now al rs) = filter (\<lambda>(k, s). \<not> is_completed s) al"
  by (induction now al rs rule: erase_completed.induct) (auto split: prod.splits)

lemma flight_erase:
  "\<forall>(k, s) \<in> set al. is_completed s \<longrightarrow> s_task s = None \<Longrightarrow>
     flight (filter (\<lambda>(k, s). \<not> is_completed s) al) = flight al"
  by (induction al) (auto simp: flight_def)

lemma map_of_filter_distinct:
  "distinct (map fst al) \<Longrightarrow>
     map_of (filter (\<lambda>(k, s). P s) al) k = (case map_of al k of Some s \<Rightarrow> if P s then Some s else None | None \<Rightarrow> None)"
proof (induction al)
  case (Cons a al)
  then show ?case
    by (cases a) (auto split: option.splits dest: map_of_SomeD simp: rev_image_eqI)
qed simp

lemma erase_sound:
  assumes d: "sound d"
  shows "sound (d\<lparr>d_sessions := filter (\<lambda>(k, s). \<not> is_completed s) (d_sessions d), d_recent := rs\<rparr>)"
proof -
  let ?d = "d\<lparr>d_sessions := filter (\<lambda>(k, s). \<not> is_completed s) (d_sessions d), d_recent := rs\<rparr>"
  have inv: "disp_inv d" "conserved d" using d by (simp_all add: sound_def)
  have dist: "distinct (map fst (d_sessions d))" using inv(1) by (simp add: disp_inv_with_def)
  have g: "get_s k ?d = (case get_s k d of Some s \<Rightarrow> if \<not> is_completed s then Some s else None | None \<Rightarrow> None)" for k
    using map_of_filter_distinct [OF dist, of "\<lambda>s. \<not> is_completed s" k] by (simp add: get_s_def)
  have sub: "session_ok s" if "get_s k ?d = Some s" for k s
    using that inv(1) g [of k] by (auto simp: disp_inv_with_def split: option.splits if_splits)
  have w: "waiter_ok ?d v" if "v \<in> set (tq_waiting d)" for v
    using that inv(1) g [of "w_handle v"]
    by (auto simp: disp_inv_with_def waiter_ok_def is_completed_def is_done_def)
  have "disp_inv ?d" using inv(1) w sub
    by (simp add: disp_inv_with_def queue_inv_def distinct_map_filter)
  moreover have "s_task s = None" if "(k, s) \<in> set (d_sessions d)" "is_completed s" for k s
  proof -
    have "get_s k d = Some s" using that(1) dist by (simp add: get_s_def)
    then show ?thesis
      using no_task_outside_io [OF disp_inv_session [OF inv(1)]] that(2)
      by (auto simp: is_completed_def is_done_def io_pcs_def)
  qed
  then have "work ?d = work d" using flight_erase [of "d_sessions d"]
    by (auto simp: work_def)
  ultimately show ?thesis using inv(2) by (simp add: sound_def conserved_balance balance_def)
qed

lemma cleanup_sound:
  assumes "sound d"
  shows "sound (snd (cleanup_completed_sessions ev alive d))"
proof -
  let ?d1 = "probe_all ev alive d"
  let ?d3 = "drain_cancelled (fold (teardown ev) (session_ids ?d1) ?d1)"
  have "sound ?d1" unfolding probe_all_def using assms by (intro fold_sound probe_sound)
  then have s3: "sound ?d3" by (intro drain_cancelled_sound fold_sound teardown_sound)
  obtain al rs n where e: "erase_completed (ev_wall ev) (d_sessions ?d3) (d_recent ?d3) = (al, rs, n)"
    by (metis prod_cases3)
  then have "al = filter (\<lambda>(k, s). \<not> is_completed s) (d_sessions ?d3)"
    using erase_completed_eq [of "ev_wall ev" "d_sessions ?d3" "d_recent ?d3"] by simp
  then show ?thesis using erase_sound [OF s3, of rs] e
    by (simp add: cleanup_completed_sessions_def Let_def)
qed

lemma dstep_sound: "dstep d d' \<Longrightarrow> sound d \<Longrightarrow> sound d'"
  by (induction rule: dstep.induct)
    (simp_all add: enqueue_sound submit_sound session_io_sound create_sound terminate_sound
      terminate_all_sound cleanup_sound queue_shutdown_sound)

lemma dreachable_sound: "dreachable d \<Longrightarrow> sound d"
  unfolding dreachable_def
  by (induction rule: rtranclp_induct) (auto simp: sound_init dstep_sound)

lemma dreachable_step: "dreachable d \<Longrightarrow> dstep d d' \<Longrightarrow> dreachable d'"
  unfolding dreachable_def by (rule rtranclp.rtrancl_into_rtrancl)

subsection \<open>A complete run\<close>

text \<open>
  One worker connects and greets, one task is submitted, sent, answered and completed.
\<close>

definition demo_ev :: event where
  "demo_ev = \<lparr>ev_steady = 5, ev_wall = 6, ev_alloc = True\<rparr>"

definition demo_msg :: TaskMessage where
  "demo_msg = \<lparr>tm_header = \<lparr>task_id = 7, body_size = 1, skill_id = 9\<rparr>,
     tm_payload_buffer = Some \<lparr>pb_data = [42], pb_skill_id = 9\<rparr>, tm_response_buffer = None,
     tm_completion_source = Some 3, tm_created_time = 0\<rparr>"

definition demo_greeting :: bytes where
  "demo_greeting = greeting_to_bytes \<lparr>magic = kWorkerGreetingMagic,
     version = kWorkerGreetingVersion, node_id = 77\<rparr>"

definition demo_reply :: TaskHeader where
  "demo_reply = \<lparr>task_id = 7, body_size = 2, skill_id = 9\<rparr>"

definition demo_waiting :: Dispatcher where
  "demo_waiting = session_io demo_ev (IoOk demo_greeting) 1
     (snd (create_session demo_ev (Some ''10.0.0.2:9'') init_dispatcher))"

definition demo_flight :: Dispatcher where
  "demo_flight = session_io demo_ev (IoOk []) 1
     (session_io demo_ev (IoOk []) 1 (submit_task demo_ev demo_msg demo_waiting))"

definition demo_finished :: Dispatcher where
  "demo_finished = session_io demo_ev (IoOk [1, 2]) 1
     (session_io demo_ev (IoOk (header_to_bytes demo_reply)) 1 demo_flight)"

lemma demo_reachable:
  "dreachable demo_waiting" "dreachable demo_flight" "dreachable demo_finished"
proof -
  have 0: "dreachable init_dispatcher" by (simp add: dreachable_def)
  have "dreachable (snd (create_session demo_ev (Some ''10.0.0.2:9'') init_dispatcher))"
    by (rule dreachable_step [OF 0 dstep.create]) (simp add: init_dispatcher_def get_s_def)
  then show 1: "dreachable demo_waiting"
    unfolding demo_waiting_def by (rule dreachable_step [OF _ dstep.io])
  have "dreachable (submit_task demo_ev demo_msg demo_waiting)"
    by (rule dreachable_step [OF 1 dstep.submit])
  then show 2: "dreachable demo_flight"
    unfolding demo_flight_def by (intro dreachable_step [OF _ dstep.io])
  then show "dreachable demo_finished"
    unfolding demo_finished_def by (intro dreachable_step [OF _ dstep.io])
qed

lemma demo_values:
  "tq_waiting demo_waiting = [\<lparr>w_handle = 1, w_awaiter = Some 1, w_token = Some 1\<rparr>]"
  "map_option s_pc (get_s 1 demo_flight) = Some PReadHeader"
  "d_completed demo_finished = [(demo_msg, demo_reply, [1, 2])]"
  "map_option s_state (get_s 1 demo_finished) = Some WAITING_FOR_TASK"
  by code_simp+

subsection \<open>Properties\<close>

text \<open>
  C1. No task is lost or duplicated by the dispatcher. After any history of submissions,
  socket results, connection losses, terminations, cleanups and a queue shutdown, the valid
  tasks submitted are, as a multiset, exactly the tasks still queued, the tasks in flight on
  some session, the tasks completed, and the tasks refused because the queue was shut down.
  In particular every task completes at most as often as it was submitted.
\<close>

theorem tasks_conserved:
  assumes "dreachable d"
  shows "filter_mset is_valid (mset (d_submitted d)) =
      filter_mset is_valid (mset (tq_tasks d))
      + sum_list (map (\<lambda>(k, s). case s_task s of Some m \<Rightarrow> {#m#} | None \<Rightarrow> {#}) (d_sessions d))
      + mset (map fst (d_completed d)) + filter_mset is_valid (mset (d_dropped d))"
proof -
  have "conserved d" using dreachable_sound [OF assms] by (simp add: sound_def)
  then show ?thesis
    by (simp add: conserved_def work_def flight_def task_mset_def)
qed

theorem tasks_conserved_witness:
  "{#demo_msg#} = filter_mset is_valid (mset (tq_tasks demo_finished))
      + sum_list (map (\<lambda>(k, s). case s_task s of Some m \<Rightarrow> {#m#} | None \<Rightarrow> {#}) (d_sessions demo_finished))
      + {#demo_msg#} + filter_mset is_valid (mset (d_dropped demo_finished))"
proof -
  have "d_submitted demo_finished = [demo_msg]" "is_valid demo_msg" by code_simp+
  then show ?thesis using tasks_conserved [OF demo_reachable(3)] demo_values(3) by simp
qed

text \<open>
  C6. A task is completed only by its own response: the response header carries the task's
  identifier and its skill, and the body is as long as the header says.
\<close>

theorem completions_answer_their_task:
  assumes "dreachable d" "(m, rh, body) \<in> set (d_completed d)"
  shows "is_valid m \<and> task_id rh = task_id (tm_header m) \<and> skill_id rh = skill_id (tm_header m)
    \<and> unat (body_size rh) = length body"
  using dreachable_sound [OF assms(1)] assms(2)
  by (auto simp: sound_def disp_inv_with_def list_all_iff answers_def)

theorem completions_answer_their_task_witness:
  "is_valid demo_msg \<and> task_id demo_reply = task_id (tm_header demo_msg)
   \<and> skill_id demo_reply = skill_id (tm_header demo_msg) \<and> unat (body_size demo_reply) = 2"
  using completions_answer_their_task [OF demo_reachable(3), of demo_msg demo_reply "[1, 2]"]
    demo_values(3) by simp

text \<open>
  C4. Queue waiters are never dangling. Every entry of the waiter queue is a session of the
  table that is suspended on the queue, with its own token and awaitable, and no session is
  enrolled twice. So resuming a waiter never touches the frame of a finished or erased
  session.
\<close>

theorem queue_waiters_are_live:
  assumes "dreachable d"
  shows "(\<forall>w \<in> set (tq_waiting d). w_awaiter w = Some (w_handle w) \<and> w_token w = Some (w_handle w)
      \<and> (\<exists>s. get_s (w_handle w) d = Some s \<and> s_pc s = PQueue))
    \<and> distinct (map w_handle (tq_waiting d)) \<and> (\<forall>a. tq_result d a = None)"
  using dreachable_sound [OF assms] by (simp add: sound_def disp_inv_with_def waiter_ok_def)

theorem queue_waiters_are_live_witness:
  "\<exists>s. get_s 1 demo_waiting = Some s \<and> s_pc s = PQueue"
  using queue_waiters_are_live [OF demo_reachable(1)] demo_values(1) by simp

text \<open>
  A session's counters balance: the tasks it sent are those it completed, those that
  failed, and the one in flight (modulo the 32 bit width of the counters); and it holds a
  task exactly while an exchange with its worker is under way.
\<close>

theorem session_counters_balance:
  assumes "dreachable d" "get_s sid d = Some s" "s_pc s \<noteq> PRunning"
  shows "tasks_sent (s_stats s) = tasks_completed (s_stats s) + tasks_failed (s_stats s)
      + (if s_task s = None then 0 else 1)
    \<and> (s_task s \<noteq> None \<longleftrightarrow> s_pc s \<in> {PWriteHeader, PWritePayload, PReadHeader, PReadBody})"
  using dreachable_sound [OF assms(1)] disp_inv_session [of "\<lambda>_. None" d sid s] assms(2,3)
  by (auto simp: sound_def session_ok_def counters_ok_def io_pcs_def)

theorem session_counters_balance_witness:
  "\<exists>s. get_s 1 demo_flight = Some s \<and> s_pc s = PReadHeader \<and> s_task s \<noteq> None
     \<and> tasks_sent (s_stats s) = tasks_completed (s_stats s) + tasks_failed (s_stats s) + 1"
proof -
  obtain s where s: "get_s 1 demo_flight = Some s" "s_pc s = PReadHeader"
    using demo_values(2) by (cases "get_s 1 demo_flight") auto
  from session_counters_balance [OF demo_reachable(2) s(1)] s show ?thesis by auto
qed

lemma push_recent_length: "length rs \<le> 100 \<Longrightarrow> length (push_recent r rs) \<le> 100"
  by (simp add: push_recent_def kRecentDisconnectHistoryCap_def Let_def)

lemma erase_completed_spec:
  "erase_completed now al rs = (al', rs', n) \<Longrightarrow>
     n + length al' = length al \<and> (length rs \<le> 100 \<longrightarrow> length rs' \<le> 100)"
proof (induction now al rs arbitrary: al' rs' n rule: erase_completed.induct)
  case (2 now k s al rs)
  then show ?case using push_recent_length [of rs "disconnect_record now s"]
    by (auto split: if_splits prod.splits)
qed simp

text \<open>Probing, tearing down and draining add and remove no session.\<close>

definition same_table :: "Dispatcher \<Rightarrow> Dispatcher \<Rightarrow> bool" where
  "same_table d d' \<longleftrightarrow> session_ids d' = session_ids d \<and> d_recent d' = d_recent d"

lemma same_table_put: "get_s sid d = Some s \<Longrightarrow> same_table d (put_s sid t d)"
  using dom_get [of sid d] by (auto simp: same_table_def session_ids_def put_s_def fst_update_alist)

lemma same_table_fields:
  "same_table d (d\<lparr>tq_result := r\<rparr>)" "same_table d (d\<lparr>tq_waiting := ws\<rparr>)"
  "same_table d (set_result a m d)" "same_table d (cancel t d)" "same_table d (drain_cancelled d)"
  by (simp_all add: same_table_def session_ids_def set_result_def cancel_def drain_cancelled_def)

lemma same_table_trans: "same_table d d' \<Longrightarrow> same_table d' d'' \<Longrightarrow> same_table d d''"
  by (simp add: same_table_def)

lemma same_table_resume: "same_table d (session_resume ev h d)"
proof (cases "\<exists>s. get_s h d = Some s \<and> s_pc s = PQueue")
  case True
  then obtain s where s: "get_s h d = Some s" "s_pc s = PQueue" by blast
  have "get_s h (d\<lparr>tq_result := (tq_result d)(h := None)\<rparr>) = Some s" using s by simp
  from same_table_trans [OF same_table_fields(1) same_table_put [OF this]] s show ?thesis
    by (simp add: session_resume_at_queue session_got_task_def await_resume_eq)
next
  case False
  then show ?thesis by (auto simp: session_resume_def same_table_def split: option.splits)
qed

lemma same_table_cancel_wait: "same_table d (cancel_queue_wait ev sid d)"
proof -
  obtain r ws where t: "take_waiter (Some sid) (tq_waiting d) = (r, ws)" by force
  show ?thesis
  proof (cases r)
    case None
    then show ?thesis using t same_table_fields(2)
      by (simp add: cancel_queue_wait_def cancel_and_resume_waiter_def cancel_waiter_locked_def resume_opt_def)
  next
    case (Some w)
    let ?d = "case w_awaiter w of Some a \<Rightarrow> set_result a (TaskMessage_default (ev_steady ev)) (d\<lparr>tq_waiting := ws\<rparr>)
        | None \<Rightarrow> d\<lparr>tq_waiting := ws\<rparr>"
    have "same_table d ?d"
      using same_table_fields(2) same_table_trans [OF same_table_fields(2) same_table_fields(3)]
      by (auto split: option.splits)
    from same_table_trans [OF this same_table_resume [of ?d ev "w_handle w"]] show ?thesis
      using t Some
      by (simp add: cancel_queue_wait_def cancel_and_resume_waiter_def cancel_waiter_locked_def resume_opt_def)
  qed
qed

lemma same_table_teardown: "same_table d (teardown ev sid d)"
  using same_table_cancel_wait by (simp add: teardown_def same_table_def)

lemma same_table_probe: "same_table d (snd (probe_connection_liveness ev alive sid d))"
proof (cases "get_s sid d")
  case (Some s)
  have "get_s sid (cancel sid d) = Some s" using Some by simp
  from same_table_trans [OF same_table_fields(4) same_table_put [OF this]] show ?thesis
    by (simp add: probe_connection_liveness_def Some Let_def same_table_def)
qed (simp add: probe_connection_liveness_def same_table_def)

lemma same_table_fold:
  "(\<And>k d. same_table d (f k d)) \<Longrightarrow> same_table d (fold f ks d)"
  by (induction ks arbitrary: d) (simp add: same_table_def, metis fold_simps(2) same_table_trans)

lemma cleanup_table:
  "same_table d (drain_cancelled (fold (teardown ev) (session_ids (probe_all ev alive d))
     (probe_all ev alive d)))"
  unfolding probe_all_def
  by (intro same_table_trans [OF _ same_table_fields(5)] same_table_trans
      [OF same_table_fold same_table_fold] same_table_teardown same_table_probe)

text \<open>
  The cleanup removes exactly the finished sessions and keeps a bounded history: the
  number it reports is the number of sessions that left the table, no completed session
  stays, and the list of recent disconnects never exceeds one hundred entries.
\<close>

theorem cleanup_removes_completed:
  assumes "cleanup_completed_sessions ev alive d = (n, d')"
  shows "(\<forall>(k, s) \<in> set (d_sessions d'). \<not> is_completed s)
    \<and> n + get_active_session_count d' = get_active_session_count d
    \<and> (length (d_recent d) \<le> 100 \<longrightarrow> length (d_recent d') \<le> 100)"
proof -
  let ?d = "drain_cancelled (fold (teardown ev) (session_ids (probe_all ev alive d)) (probe_all ev alive d))"
  obtain al rs where e: "erase_completed (ev_wall ev) (d_sessions ?d) (d_recent ?d) = (al, rs, n)"
      "d' = ?d\<lparr>d_sessions := al, d_recent := rs\<rparr>"
    using assms by (auto simp: cleanup_completed_sessions_def Let_def split: prod.splits)
  have "al = filter (\<lambda>(k, s). \<not> is_completed s) (d_sessions ?d)"
    using erase_completed_eq [of "ev_wall ev" "d_sessions ?d" "d_recent ?d"] e by simp
  moreover have "length (d_sessions ?d) = length (d_sessions d)" "d_recent ?d = d_recent d"
    using cleanup_table [of d ev alive] unfolding same_table_def session_ids_def
    by (metis length_map)+
  ultimately show ?thesis
    using erase_completed_spec [OF e(1)] e(2) by (auto simp: get_active_session_count_def)
qed

text \<open>The peer of the waiting session has closed its connection.\<close>

theorem cleanup_removes_completed_witness:
  "fst (cleanup_completed_sessions demo_ev (\<lambda>_. (False, None)) demo_waiting) = 1
   \<and> get_active_session_count (snd (cleanup_completed_sessions demo_ev (\<lambda>_. (False, None)) demo_waiting)) = 0"
proof -
  have "fst (cleanup_completed_sessions demo_ev (\<lambda>_. (False, None)) demo_waiting) = 1"
    "get_active_session_count demo_waiting = 1" by code_simp+
  with cleanup_removes_completed [of demo_ev "\<lambda>_. (False, None)" demo_waiting,
      OF surjective_pairing] show ?thesis by simp
qed

end
