(* ===== verification/Teardown.thy ===== *)
theory Teardown
  imports SessionMgr
begin

section \<open>Terminating a session that waits for a task\<close>

text \<open>
  \<open>terminate_session\<close> and \<open>terminate_all_sessions\<close> set the state of a session to
  \<open>COMPLETING\<close> before they look for sessions to resume, and \<open>is_awaiting_teardown\<close> asks for
  \<open>TERMINATED\<close> or \<open>ERROR_STATE\<close>. A session suspended on the queue is therefore not resumed;
  the next cleanup drops its cancelled waiter entry, and after that nothing in the
  dispatcher can reach its coroutine any more. This theory proves that such a session stays
  in the session table for ever.
\<close>

text \<open>A session that nothing can resume: suspended on the queue without a waiter entry.\<close>

definition orphaned :: "nat \<Rightarrow> Dispatcher \<Rightarrow> bool" where
  "orphaned sid d \<longleftrightarrow>
     (\<exists>s. get_s sid d = Some s \<and> s_pc s = PQueue \<and> s_state s = COMPLETING)
     \<and> sid \<notin> w_handle ` set (tq_waiting d)"

subsection \<open>Events of other sessions leave it alone\<close>

lemma orphaned_put: "k \<noteq> sid \<Longrightarrow> orphaned sid (put_s k s d) = orphaned sid d"
  by (simp add: orphaned_def)

lemma orphaned_fields [simp]:
  "orphaned sid (d\<lparr>tq_result := r\<rparr>) = orphaned sid d" "orphaned sid (d\<lparr>tq_tasks := ts\<rparr>) = orphaned sid d"
  "orphaned sid (set_result a m d) = orphaned sid d" "orphaned sid (cancel t d) = orphaned sid d"
  "orphaned sid (d\<lparr>tq_shut := b\<rparr>) = orphaned sid d"
  "orphaned sid (d\<lparr>d_dropped := x\<rparr>) = orphaned sid d"
  "orphaned sid (d\<lparr>d_submitted := x\<rparr>) = orphaned sid d"
  "orphaned sid (d\<lparr>d_completed := y\<rparr>) = orphaned sid d"
  "orphaned sid (message_complete fin (\<lambda>h q. q) m rh body ok d) = orphaned sid d"
  by (simp_all add: orphaned_def get_s_def)

lemma orphaned_waiting:
  "orphaned sid d \<Longrightarrow> sid \<notin> w_handle ` set ws \<Longrightarrow> orphaned sid (d\<lparr>tq_waiting := ws\<rparr>)"
  by (simp add: orphaned_def)

lemma orphaned_got_task:
  "orphaned sid d \<Longrightarrow> k \<noteq> sid \<Longrightarrow> orphaned sid (session_got_task ev k s d)"
  by (simp add: session_got_task_def await_resume_eq orphaned_put)

lemma orphaned_resume: "orphaned sid d \<Longrightarrow> k \<noteq> sid \<Longrightarrow> orphaned sid (session_resume ev k d)"
  by (simp add: session_resume_def orphaned_got_task split: option.splits)

lemma orphaned_handle: "orphaned sid d \<Longrightarrow> w \<in> set (tq_waiting d) \<Longrightarrow> w_handle w \<noteq> sid"
  by (auto simp: orphaned_def)

lemma orphaned_add_locked:
  assumes "orphaned sid d"
  shows "orphaned sid (resume_opt (session_resume ev) (add_task_locked m d))"
proof (cases "skip_cancelled d")
  case Nil
  then show ?thesis using assms
    by (simp add: add_task_locked_def resume_opt_def orphaned_waiting)
next
  case (Cons w ws)
  have sub: "set (w # ws) \<subseteq> set (tq_waiting d)" using skip_cancelled_subset [of d] Cons by simp
  then have h: "w_handle w \<noteq> sid" "sid \<notin> w_handle ` set ws"
    using assms by (auto simp: orphaned_def)
  show ?thesis using Cons h assms
    by (auto simp: add_task_locked_def resume_opt_def orphaned_waiting orphaned_resume
        split: option.splits)
qed

lemma orphaned_add_task: "orphaned sid d \<Longrightarrow> orphaned sid (add_task (session_resume ev) m d)"
  by (simp add: add_task_def orphaned_add_locked)

lemma orphaned_add_tasks: "orphaned sid d \<Longrightarrow> orphaned sid (add_tasks_loop (session_resume ev) ms d)"
  by (induction ms arbitrary: d) (simp_all add: orphaned_add_locked)

lemma orphaned_offer: "orphaned sid d \<Longrightarrow> orphaned sid (offer_task ev m d)"
  by (simp add: offer_task_def orphaned_add_task)

lemma orphaned_loop:
  assumes o: "orphaned sid d" and k: "k \<noteq> sid"
  shows "orphaned sid (session_loop ev k s d)"
proof -
  define q where "q = (update_state (ev_wall ev) WAITING_FOR_TASK s)\<lparr>s_pc := PQueue\<rparr>"
  let ?d = "put_s k q d"
  have o': "orphaned sid ?d" using o k by (simp add: orphaned_put)
  obtain rdy d' where r: "await_ready k (Some k) ?d = (rdy, d')" by force
  have d': "orphaned sid d'"
    using r o' by (auto simp: await_ready_def try_get_task_immediately_def try_get_locked_def
        split: if_splits list.splits)
  have "orphaned sid (d'\<lparr>tq_waiting := tq_waiting d'
      @ [\<lparr>w_handle = k, w_awaiter = Some k, w_token = Some k\<rparr>]\<rparr>)"
    using d' k by (intro orphaned_waiting) (auto simp: orphaned_def)
  then have "orphaned sid (resume_opt (session_resume ev) (await_suspend_locked k k (Some k) d'))"
    using d' k by (simp add: await_suspend_locked_def resume_opt_def orphaned_resume split: list.splits)
  then have "orphaned sid (await_suspend (session_resume ev) k k (Some k) d')"
    using d' k by (simp add: await_suspend_def orphaned_resume)
  then show ?thesis using o k r d'
    by (auto simp: session_loop_def q_def [symmetric] orphaned_put orphaned_got_task Let_def
        split: bool.splits)
qed

lemma orphaned_requeue:
  "orphaned sid d \<Longrightarrow> k \<noteq> sid \<Longrightarrow> orphaned sid (session_requeue ev k s m d)"
  by (simp add: session_requeue_def Let_def orphaned_loop orphaned_offer orphaned_put)

lemma orphaned_response:
  "orphaned sid d \<Longrightarrow> k \<noteq> sid \<Longrightarrow> orphaned sid (session_response ev k s m rh body d)"
  by (simp add: session_response_def Let_def orphaned_requeue orphaned_loop orphaned_put)

lemma orphaned_io:
  assumes o: "orphaned sid d"
  shows "orphaned sid (session_io ev r k d)"
proof (cases "k = sid")
  case True
  then have "session_io ev r k d = d"
    using o by (auto simp: orphaned_def session_io_def Let_def)
  then show ?thesis using o by simp
next
  case False
  note f = o False
  have fail: "orphaned sid (session_io_failed ev e k s m d)" for e s m
    using f by (simp add: session_io_failed_def Let_def orphaned_put orphaned_offer)
  have sent: "orphaned sid (session_sent k s m d)" for s m
    using f by (simp add: session_sent_def orphaned_put)
  have greet: "orphaned sid (session_greeting ev bs k s d)" for bs s
    using f by (simp add: session_greeting_def Let_def orphaned_put orphaned_loop split: option.splits)
  have head: "orphaned sid (session_header ev bs k s m d)" for bs s m
    using f by (simp add: session_header_def Let_def orphaned_put orphaned_requeue orphaned_response
        split: option.splits)
  show ?thesis using f fail sent greet head orphaned_response [OF f] orphaned_put [OF False]
    by (cases "get_s k d"; cases r)
      (simp_all add: session_io_def Let_def split: option.splits session_pc.splits)
qed

subsection \<open>Termination, cleanup and shutdown leave it alone too\<close>

lemma orphaned_request: "orphaned sid d \<Longrightarrow> orphaned sid (request_termination ev k d)"
  by (cases "k = sid")
    (auto simp: request_termination_def orphaned_put orphaned_def split: option.splits)

lemma orphaned_probe: "orphaned sid d \<Longrightarrow> orphaned sid (snd (probe_connection_liveness ev alive k d))"
  by (cases "k = sid")
    (auto simp: probe_connection_liveness_def orphaned_put Let_def orphaned_def split: option.splits)

lemma orphaned_teardown:
  assumes o: "orphaned sid d"
  shows "orphaned sid (teardown ev k d)"
proof (cases "awaiting_teardown k d")
  case False
  then show ?thesis using o by (simp add: teardown_def)
next
  case True
  obtain r ws where t: "take_waiter (Some k) (tq_waiting d) = (r, ws)" by force
  have sub: "set ws \<subseteq> set (tq_waiting d)" using take_waiter_subset [of "Some k" "tq_waiting d"] t by simp
  then have ws: "orphaned sid (d\<lparr>tq_waiting := ws\<rparr>)" using o by (auto simp: orphaned_def)
  have "w_handle w \<noteq> sid" if "r = Some w" for w
    using take_waiter_Some [of "Some k" "tq_waiting d" w] t that orphaned_handle [OF o] by simp
  then show ?thesis using True t ws
    by (auto simp: teardown_def cancel_queue_wait_def cancel_and_resume_waiter_def
        cancel_waiter_locked_def resume_opt_def orphaned_resume split: option.splits)
qed

lemma orphaned_fold:
  "(\<And>k d. orphaned sid d \<Longrightarrow> orphaned sid (f k d)) \<Longrightarrow> orphaned sid d \<Longrightarrow> orphaned sid (fold f ks d)"
  by (induction ks arbitrary: d) simp_all

lemma orphaned_drain: "orphaned sid d \<Longrightarrow> orphaned sid (drain_cancelled d)"
  by (auto simp: drain_cancelled_def orphaned_def)

lemma orphaned_erase:
  assumes "orphaned sid d" "distinct (map fst (d_sessions d))"
  shows "orphaned sid (d\<lparr>d_sessions := filter (\<lambda>(k, s). \<not> is_completed s) (d_sessions d), d_recent := rs\<rparr>)"
  using assms map_of_filter_distinct [OF assms(2), of "\<lambda>s. \<not> is_completed s" sid]
  by (auto simp: orphaned_def get_s_def is_completed_def is_done_def)

lemma orphaned_cleanup:
  assumes "orphaned sid d" "sound d"
  shows "orphaned sid (snd (cleanup_completed_sessions ev alive d))"
proof -
  let ?d = "drain_cancelled (fold (teardown ev) (session_ids (probe_all ev alive d)) (probe_all ev alive d))"
  have "orphaned sid ?d" unfolding probe_all_def
    using assms(1) by (intro orphaned_drain orphaned_fold orphaned_teardown orphaned_probe)
  moreover have "sound ?d" unfolding probe_all_def
    using assms(2) by (intro drain_cancelled_sound fold_sound teardown_sound probe_sound)
  moreover obtain al rs n where e: "erase_completed (ev_wall ev) (d_sessions ?d) (d_recent ?d) = (al, rs, n)"
    by (metis prod_cases3)
  moreover have "al = filter (\<lambda>(k, s). \<not> is_completed s) (d_sessions ?d)"
    using erase_completed_eq [of "ev_wall ev" "d_sessions ?d" "d_recent ?d"] e by simp
  ultimately show ?thesis using orphaned_erase [of sid ?d rs]
    by (simp add: cleanup_completed_sessions_def Let_def sound_def disp_inv_with_def)
qed

lemma orphaned_shutdown_loop:
  "orphaned sid d \<Longrightarrow> \<forall>w \<in> set ws. w_handle w \<noteq> sid \<Longrightarrow>
     orphaned sid (shutdown_loop (session_resume ev) ws d)"
  by (induction ws arbitrary: d) (simp_all add: orphaned_resume)

lemma orphaned_shutdown:
  "orphaned sid d \<Longrightarrow> orphaned sid (queue_shutdown (session_resume ev) d)"
  by (auto simp: queue_shutdown_def swap_waiters_def orphaned_waiting
      intro!: orphaned_shutdown_loop dest: orphaned_handle)

lemma orphaned_step: "dstep d d' \<Longrightarrow> sound d \<Longrightarrow> orphaned sid d \<Longrightarrow> orphaned sid d'"
proof (induction rule: dstep.induct)
  case (enqueue d ev ms)
  then show ?case by (simp add: enqueue_tasks_def add_tasks_def orphaned_add_tasks)
next
  case (submit d ev m)
  then show ?case by (simp add: submit_task_def orphaned_offer)
next
  case (create d ev sock)
  then have "sid \<noteq> unat (d_next_id d)" by (auto simp: orphaned_def)
  moreover have "orphaned sid (d\<lparr>d_next_id := d_next_id d + 1\<rparr>)"
    using create by (simp add: orphaned_def get_s_def)
  ultimately show ?case using create
    by (simp add: create_session_def generate_session_id_def Let_def orphaned_put split: option.splits)
next
  case (terminate d ev k)
  then show ?case by (simp add: terminate_session_def orphaned_request split: option.splits)
next
  case (terminate_all d ev)
  then show ?case unfolding terminate_all_sessions_def
    by (intro orphaned_fold orphaned_teardown orphaned_request)
qed (simp_all add: orphaned_io orphaned_cleanup orphaned_shutdown)

lemma orphaned_forever:
  assumes "dstep\<^sup>*\<^sup>* d d'" "dreachable d" "orphaned sid d"
  shows "orphaned sid d'"
  using assms
proof (induction rule: rtranclp_induct)
  case (step d' d'')
  then have "dreachable d'" unfolding dreachable_def by (meson rtranclp_trans)
  then show ?case using step dreachable_sound orphaned_step by blast
qed

subsection \<open>How a session becomes an orphan\<close>

definition marked :: "nat \<Rightarrow> session_pc \<Rightarrow> Dispatcher \<Rightarrow> bool" where
  "marked k p d \<longleftrightarrow>
     (\<exists>s. get_s k d = Some s \<and> s_pc s = p \<and> s_state s = COMPLETING) \<and> tq_cancelled d k"

lemma cancelled_cancel [simp]: "tq_cancelled (cancel t d) = (tq_cancelled d)(t := True)"
  by (simp add: cancel_def)

lemma request_keeps_pc:
  "\<exists>s. get_s k d = Some s \<and> s_pc s = p \<Longrightarrow> \<exists>s. get_s k (request_termination ev j d) = Some s \<and> s_pc s = p"
  by (cases "j = k") (auto simp: request_termination_def split: option.splits)

lemma request_marks:
  "\<exists>s. get_s k d = Some s \<and> s_pc s = p \<Longrightarrow> marked k p (request_termination ev k d)"
  by (auto simp: request_termination_def marked_def)

lemma request_keeps_marked: "marked k p d \<Longrightarrow> marked k p (request_termination ev j d)"
  by (cases "j = k") (auto simp: request_termination_def marked_def split: option.splits)

lemma fold_request_keeps: "marked k p d \<Longrightarrow> marked k p (fold (request_termination ev) ks d)"
  by (induction ks arbitrary: d) (simp_all add: request_keeps_marked)

lemma fold_request_marks:
  "\<exists>s. get_s k d = Some s \<and> s_pc s = p \<Longrightarrow> k \<in> set ks \<Longrightarrow>
     marked k p (fold (request_termination ev) ks d)"
proof (induction ks arbitrary: d)
  case (Cons j ks)
  show ?case
  proof (cases "j = k")
    case True
    then show ?thesis using fold_request_keeps [OF request_marks [OF Cons.prems(1)]] by simp
  next
    case False
    then show ?thesis using Cons.IH [OF request_keeps_pc [OF Cons.prems(1)]] Cons.prems(2) by simp
  qed
qed simp

lemma fold_request_waiting [simp]: "tq_waiting (fold (request_termination ev) ks d) = tq_waiting d"
  by (induction ks arbitrary: d) (simp_all add: request_termination_def split: option.splits)

lemma fold_unchanged: "\<forall>k \<in> set ks. f k d = d \<Longrightarrow> fold f ks d = d"
  by (induction ks) simp_all

lemma request_table: "same_table d (request_termination ev k d)"
proof (cases "get_s k d")
  case (Some s)
  have "get_s k (cancel k d) = Some s" using Some by simp
  from same_table_trans [OF same_table_fields(4) same_table_put [OF this]] Some show ?thesis
    by (simp add: request_termination_def)
qed (simp add: request_termination_def same_table_def)

text \<open>After the first loop every session is completing, so the second loop does nothing.\<close>

lemma terminate_all_eq:
  "terminate_all_sessions ev d = fold (request_termination ev) (session_ids d) d"
  "\<forall>k \<in> set (session_ids (terminate_all_sessions ev d)).
     \<exists>p. marked k p (terminate_all_sessions ev d)"
proof -
  let ?d = "fold (request_termination ev) (session_ids d) d"
  have t: "session_ids ?d = session_ids d"
    using same_table_fold [of "request_termination ev" d "session_ids d", OF request_table] by (simp add: same_table_def)
  have m: "\<exists>p. marked k p ?d" if "k \<in> set (session_ids d)" for k
    using that fold_request_marks [of k d _ "session_ids d" ev] dom_get [of k d]
    by (auto simp: session_ids_def)
  have "teardown ev k ?d = ?d" if "k \<in> set (session_ids d)" for k
    using m [OF that] by (auto simp: teardown_def awaiting_teardown_def marked_def is_awaiting_teardown_def)
  then show eq: "terminate_all_sessions ev d = ?d"
    unfolding terminate_all_sessions_def by (intro fold_unchanged) simp
  show "\<forall>k \<in> set (session_ids (terminate_all_sessions ev d)).
     \<exists>p. marked k p (terminate_all_sessions ev d)"
    using m t unfolding eq by simp
qed

text \<open>The next cleanup finds nothing to probe or resume and drops the waiter entries.\<close>

lemma cleanup_orphans:
  assumes d: "sound d" and m: "\<forall>k \<in> set (session_ids d). \<exists>p. marked k p d"
    and w: "\<exists>s. get_s sid d = Some s \<and> s_pc s = PQueue"
  shows "orphaned sid (snd (cleanup_completed_sessions ev alive d))"
proof -
  have p: "probe_all ev alive d = d" unfolding probe_all_def
    using m by (intro fold_unchanged) (auto simp: probe_connection_liveness_def marked_def)
  have t: "fold (teardown ev) (session_ids d) d = d"
    using m by (intro fold_unchanged)
      (auto simp: teardown_def awaiting_teardown_def marked_def is_awaiting_teardown_def)
  have "is_cancelled d (w_token v)" if "v \<in> set (tq_waiting d)" for v
  proof -
    have t: "w_token v = Some (w_handle v)" and g: "\<exists>s. get_s (w_handle v) d = Some s"
      using d that by (auto simp: sound_def disp_inv_with_def waiter_ok_def)
    have "w_handle v \<in> set (session_ids d)"
      using g dom_get [of "w_handle v" d] by (auto simp: session_ids_def)
    with t show ?thesis using m by (auto simp: marked_def is_cancelled_def)
  qed
  then have "tq_waiting (drain_cancelled d) = []" by (simp add: drain_cancelled_def)
  moreover have "sid \<in> set (session_ids d)" using w dom_get [of sid d] by (auto simp: session_ids_def)
  moreover have "get_s sid (drain_cancelled d) = get_s sid d" by (simp add: drain_cancelled_def get_s_def)
  ultimately have o: "orphaned sid (drain_cancelled d)"
    using m w by (fastforce simp: orphaned_def marked_def)
  moreover have "distinct (map fst (d_sessions (drain_cancelled d)))"
    using d by (simp add: sound_def disp_inv_with_def drain_cancelled_def)
  ultimately show ?thesis
    using orphaned_erase [of sid "drain_cancelled d"]
      erase_completed_eq [of "ev_wall ev" "d_sessions (drain_cancelled d)" "d_recent (drain_cancelled d)"]
    by (simp add: cleanup_completed_sessions_def p t Let_def split: prod.splits)
      (metis fst_conv)
qed

text \<open>
  A waiting session that is terminated leaks. Take any reachable dispatcher and a
  session enrolled in the waiter queue. After \<open>terminate_all_sessions\<close> and one cleanup, and
  in every later history of the dispatcher, whatever is submitted, terminated, cleaned up or
  shut down, the session is still in the table, suspended on the queue without a waiter
  entry: its coroutine never finishes, it is never completed and never removed.
\<close>

theorem terminated_waiter_leaks:
  assumes "dreachable d" "w \<in> set (tq_waiting d)"
    "dstep\<^sup>*\<^sup>* (snd (cleanup_completed_sessions ev alive (terminate_all_sessions ev' d))) d'"
  shows "\<exists>s. get_s (w_handle w) d' = Some s \<and> s_pc s = PQueue \<and> \<not> is_completed s
    \<and> \<not> is_awaiting_teardown s \<and> w_handle w \<notin> w_handle ` set (tq_waiting d')"
proof -
  let ?t = "terminate_all_sessions ev' d"
  have r: "dreachable ?t" using assms(1) by (rule dreachable_step [OF _ dstep.terminate_all])
  have "\<exists>s. get_s (w_handle w) d = Some s \<and> s_pc s = PQueue"
    using dreachable_sound [OF assms(1)] assms(2) by (auto simp: sound_def disp_inv_with_def waiter_ok_def)
  moreover have "w_handle w \<in> set (session_ids d)"
    using calculation dom_get [of "w_handle w" d] by (auto simp: session_ids_def)
  ultimately have "marked (w_handle w) PQueue ?t"
    unfolding terminate_all_eq(1) by (rule fold_request_marks)
  then have "orphaned (w_handle w) (snd (cleanup_completed_sessions ev alive ?t))"
    by (intro cleanup_orphans [OF dreachable_sound [OF r] terminate_all_eq(2)]) (auto simp: marked_def)
  from orphaned_forever [OF assms(3) dreachable_step [OF r dstep.cleanup] this]
  show ?thesis by (auto simp: orphaned_def is_completed_def is_done_def is_awaiting_teardown_def)
qed

theorem terminated_waiter_leaks_witness:
  "\<exists>s. get_s 1 (snd (cleanup_completed_sessions demo_ev (\<lambda>_. (True, None))
       (terminate_all_sessions demo_ev demo_waiting))) = Some s \<and> s_pc s = PQueue \<and> \<not> is_completed s"
  using terminated_waiter_leaks [OF demo_reachable(1), of "\<lparr>w_handle = 1, w_awaiter = Some 1, w_token = Some 1\<rparr>",
      OF _ rtranclp.rtrancl_refl, of demo_ev "\<lambda>_. (True, None)" demo_ev] demo_values(1)
  by auto

end
