(* ===== verification/Skills.thy ===== *)
theory Skills
  imports TaskMsg "HOL-Library.AList"
begin

section \<open>Skills and their registry\<close>

text \<open>
  The skill layer (skills/registry/): skill keys, the \<open>ISkill\<close> interface, the class template
  \<open>Skill\<close>, the registry, the exact comparison helpers and the \<open>compute\<close> of the string
  reversal skill. An object behind \<open>ISkill\<close> is the record of its virtual functions. What a
  derived class provides (the typed accessors the code generator writes from a description
  file, and the skill's own functions) is the record \<open>Derived\<close>, an argument of the model of
  the template. Typed pointers into a buffer have an abstract type; functions that follow
  them take the buffer as well. \<open>mutable_span\<close> writes are the returned buffer.

  The locale \<open>skill_contract\<close> states what a derived class promises; the string reversal
  skill over a plain byte layout is an instance.
\<close>

unbundle bit_operations_syntax

subsection \<open>Skill keys (SkillKey.hpp)\<close>

definition fnv_step :: "u32 \<Rightarrow> char \<Rightarrow> u32" where
  "fnv_step hash c = (hash XOR word_of_nat (of_char c)) * 16777619"

definition from_name :: "string \<Rightarrow> u32" where
  "from_name name = foldl fnv_step 2166136261 name"

text \<open>\<open>name.find('.')\<close>: the first position of the character, if any.\<close>

fun find_char :: "char \<Rightarrow> string \<Rightarrow> nat option" where
  "find_char c [] = None"
| "find_char c (x # xs) = (if x = c then Some 0 else map_option Suc (find_char c xs))"

definition is_valid_name :: "string \<Rightarrow> bool" where
  "is_valid_name name =
     (if name = [] then False
      else case find_char CHR ''.'' name of
             None \<Rightarrow> False
           | Some dot \<Rightarrow> \<not> (dot = 0 \<or> dot = length name - 1))"

subsection \<open>Verification results and exact comparisons\<close>

record VerificationResult =
  passed :: bool
  message :: string

definition success :: VerificationResult where
  "success = \<lparr>passed = True, message = []\<rparr>"

definition failure :: "string \<Rightarrow> VerificationResult" where
  "failure msg = \<lparr>passed = False, message = msg\<rparr>"

fun compare_bytes_loop :: "string \<Rightarrow> bool \<Rightarrow> nat \<Rightarrow> bytes \<Rightarrow> bytes \<Rightarrow> VerificationResult" where
  "compare_bytes_loop field injected i (e # es) (a # as) =
     (if e \<noteq> a then
        failure (field @ '' mismatch at index '' @ to_string i @ '': expected=''
          @ [CHR 39] @ [char_of (unat e)] @ [CHR 39] @ '' got='' @ [CHR 39] @ [char_of (unat a)] @ [CHR 39]
          @ (if injected then '' [INJECTED]'' else []))
      else compare_bytes_loop field injected (Suc i) es as)"
| "compare_bytes_loop field injected i _ _ = success"

definition compare_bytes :: "bool \<Rightarrow> string \<Rightarrow> bytes \<Rightarrow> bytes \<Rightarrow> VerificationResult" where
  "compare_bytes inject_failure field expected actual =
     (if length expected \<noteq> length actual then
        failure (field @ '' length mismatch: expected='' @ to_string (length expected)
          @ '' got='' @ to_string (length actual))
      else
        let injected = inject_failure \<and> actual \<noteq> [];
            span = (if injected then (hd actual XOR 0x20) # tl actual else actual)
        in compare_bytes_loop field injected 0 expected span)"

definition compare_int :: "string \<Rightarrow> 'a::len word \<Rightarrow> 'a word \<Rightarrow> VerificationResult" where
  "compare_int field expected actual =
     (if expected \<noteq> actual
      then failure (field @ '' mismatch: expected='' @ to_string (unat expected)
        @ '' got='' @ to_string (unat actual))
      else success)"

subsection \<open>The skill interface and the class template\<close>

record ISkill =
  isk_id :: u32
  isk_name :: string
  isk_description :: string
  isk_version :: u32
  isk_process :: "bytes \<Rightarrow> bytes \<Rightarrow> bool \<times> bytes"
  isk_create_response :: "bytes \<Rightarrow> PayloadBuffer option"
  isk_create_test :: "nat \<Rightarrow> PayloadBuffer option"
  isk_test_count :: nat
  isk_verify :: "bytes \<Rightarrow> bytes \<Rightarrow> VerificationResult"

record ('q, 'p) Derived =
  kSkillName :: string
  kSkillDescription :: string
  kSkillVersion :: u32
  scatter_request :: "bytes \<Rightarrow> 'q option"
  scatter_response :: "bytes \<Rightarrow> 'p option"
  create_response_for_request :: "bytes \<Rightarrow> PayloadBuffer option"
  compute :: "bytes \<Rightarrow> 'q \<Rightarrow> bytes \<Rightarrow> 'p \<Rightarrow> bool \<times> bytes"
  derived_test_case_count :: nat
  create_test_request :: "nat \<Rightarrow> PayloadBuffer"
  compare_response :: "bytes \<Rightarrow> 'p \<Rightarrow> bytes \<Rightarrow> 'p \<Rightarrow> VerificationResult"

definition kSkillId :: "('q, 'p) Derived \<Rightarrow> u32" where
  "kSkillId d = from_name (kSkillName d)"

definition skill_process :: "('q, 'p) Derived \<Rightarrow> bytes \<Rightarrow> bytes \<Rightarrow> bool \<times> bytes" where
  "skill_process d request response =
     (case scatter_request d request of
        None \<Rightarrow> (False, response)
      | Some req \<Rightarrow>
          (case scatter_response d response of
             None \<Rightarrow> (False, response)
           | Some resp \<Rightarrow> compute d request req response resp))"

definition skill_create_test_request_buffer ::
  "('q, 'p) Derived \<Rightarrow> nat \<Rightarrow> PayloadBuffer option" where
  "skill_create_test_request_buffer d i =
     (if i \<ge> derived_test_case_count d then None else Some (create_test_request d i))"

definition skill_verify_response :: "('q, 'p) Derived \<Rightarrow> bytes \<Rightarrow> bytes \<Rightarrow> VerificationResult" where
  "skill_verify_response d request worker_response =
     (case scatter_request d request of
        None \<Rightarrow> failure ''Failed to scatter request''
      | Some req \<Rightarrow>
     (case create_response_for_request d request of
        None \<Rightarrow> failure ''Failed to create local response buffer''
      | Some local_buf \<Rightarrow>
     (case scatter_response d (pb_span local_buf) of
        None \<Rightarrow> failure ''Failed to scatter local response''
      | Some local_resp \<Rightarrow>
     (case compute d request req (pb_span local_buf) local_resp of
        (False, _) \<Rightarrow> failure ''Local computation failed''
      | (True, local_bytes) \<Rightarrow>
     (case scatter_response d worker_response of
        None \<Rightarrow> failure ''Failed to scatter worker response''
      | Some worker_resp \<Rightarrow>
          compare_response d local_bytes local_resp worker_response worker_resp)))))"

definition Skill :: "('q, 'p) Derived \<Rightarrow> ISkill" where
  "Skill d =
     \<lparr>isk_id = kSkillId d, isk_name = kSkillName d, isk_description = kSkillDescription d,
      isk_version = kSkillVersion d, isk_process = skill_process d,
      isk_create_response = create_response_for_request d,
      isk_create_test = skill_create_test_request_buffer d,
      isk_test_count = derived_test_case_count d, isk_verify = skill_verify_response d\<rparr>"

subsection \<open>The registry\<close>

text \<open>
  The two unordered maps are association lists with one entry per key; the order of
  \<open>skill_ids\<close>, which the code leaves to the hash table, is the list's. \<open>None\<close> is the
  \<open>abort\<close> of \<open>register_skill\<close>.
\<close>

record SkillRegistry =
  sr_skills :: "(u32 \<times> ISkill) list"
  sr_name_to_id :: "(string \<times> u32) list"

definition empty_registry :: SkillRegistry where
  "empty_registry = \<lparr>sr_skills = [], sr_name_to_id = []\<rparr>"

definition register_skill :: "ISkill \<Rightarrow> SkillRegistry \<Rightarrow> SkillRegistry option" where
  "register_skill skill r =
     (case map_of (sr_skills r) (isk_id skill) of
        Some old \<Rightarrow>
          if isk_name old \<noteq> isk_name skill then None
          else Some (r\<lparr>sr_name_to_id := AList.update (isk_name skill) (isk_id skill) (sr_name_to_id r),
                       sr_skills := AList.update (isk_id skill) skill (sr_skills r)\<rparr>)
      | None \<Rightarrow>
          Some (r\<lparr>sr_name_to_id := AList.update (isk_name skill) (isk_id skill) (sr_name_to_id r),
                  sr_skills := AList.update (isk_id skill) skill (sr_skills r)\<rparr>))"

definition has_skill :: "u32 \<Rightarrow> SkillRegistry \<Rightarrow> bool" where
  "has_skill i r \<longleftrightarrow> map_of (sr_skills r) i \<noteq> None"

definition has_skill_name :: "string \<Rightarrow> SkillRegistry \<Rightarrow> bool" where
  "has_skill_name n r \<longleftrightarrow> map_of (sr_name_to_id r) n \<noteq> None"

definition get_skill_id :: "string \<Rightarrow> SkillRegistry \<Rightarrow> u32 option" where
  "get_skill_id n r = map_of (sr_name_to_id r) n"

definition get_skill_name :: "u32 \<Rightarrow> SkillRegistry \<Rightarrow> string" where
  "get_skill_name i r = (case map_of (sr_skills r) i of Some s \<Rightarrow> isk_name s | None \<Rightarrow> [])"

definition skill_ids :: "SkillRegistry \<Rightarrow> u32 list" where
  "skill_ids r = map fst (sr_skills r)"

definition skill_count :: "SkillRegistry \<Rightarrow> nat" where
  "skill_count r = length (sr_skills r)"

definition dispatch :: "u32 \<Rightarrow> bytes \<Rightarrow> bytes \<Rightarrow> SkillRegistry \<Rightarrow> bool \<times> bytes" where
  "dispatch i request response r =
     (case map_of (sr_skills r) i of
        None \<Rightarrow> (False, response)
      | Some s \<Rightarrow> isk_process s request response)"

definition get_payload_factory :: "u32 \<Rightarrow> SkillRegistry \<Rightarrow> ISkill option" where
  "get_payload_factory i r = map_of (sr_skills r) i"

definition create_response_buffer :: "u32 \<Rightarrow> bytes \<Rightarrow> SkillRegistry \<Rightarrow> PayloadBuffer option" where
  "create_response_buffer i request r =
     (case get_payload_factory i r of None \<Rightarrow> None | Some f \<Rightarrow> isk_create_response f request)"

definition create_test_request_buffer :: "u32 \<Rightarrow> nat \<Rightarrow> SkillRegistry \<Rightarrow> PayloadBuffer option" where
  "create_test_request_buffer i k r =
     (case get_payload_factory i r of None \<Rightarrow> None | Some f \<Rightarrow> isk_create_test f k)"

definition get_test_case_count :: "u32 \<Rightarrow> SkillRegistry \<Rightarrow> nat" where
  "get_test_case_count i r = (case get_payload_factory i r of Some f \<Rightarrow> isk_test_count f | None \<Rightarrow> 0)"

definition verify_response :: "u32 \<Rightarrow> bytes \<Rightarrow> bytes \<Rightarrow> SkillRegistry \<Rightarrow> VerificationResult" where
  "verify_response i request response r =
     (case get_payload_factory i r of
        None \<Rightarrow> failure (''Unknown skill_id='' @ to_string (unat i))
      | Some f \<Rightarrow> isk_verify f request response)"

definition registry_clear :: "SkillRegistry \<Rightarrow> SkillRegistry" where
  "registry_clear r = r\<lparr>sr_skills := [], sr_name_to_id := []\<rparr>"

text \<open>The static registrations run one after the other; the program aborts at a collision.\<close>

fun register_all :: "ISkill list \<Rightarrow> SkillRegistry \<Rightarrow> SkillRegistry option" where
  "register_all [] r = Some r"
| "register_all (s # ss) r =
     (case register_skill s r of None \<Rightarrow> None | Some r' \<Rightarrow> register_all ss r')"

subsection \<open>String reversal (StringReversalSkill\_impl.hpp)\<close>

text \<open>
  The typed pointers of the request and response: the characters and, for the response, the
  cell of \<open>original_length\<close>. \<open>reversal_loop\<close> is the copying loop from index \<open>i\<close> on.
\<close>

record ReversalResponse =
  rr_output :: bytes
  rr_original_length :: u32

function reversal_loop :: "nat \<Rightarrow> nat \<Rightarrow> bytes \<Rightarrow> bytes \<Rightarrow> bytes" where
  "reversal_loop i n input output =
     (if i < n then reversal_loop (Suc i) n input (output[i := input ! (n - 1 - i)]) else output)"
  by pat_completeness auto
termination by (relation "measure (\<lambda>(i, n, _, _). n - i)") auto

declare reversal_loop.simps [simp del]

definition reversal_compute :: "bytes \<Rightarrow> ReversalResponse \<Rightarrow> bool \<times> ReversalResponse" where
  "reversal_compute input resp =
     (let original_length = (word_of_nat (length input) :: u32) in
      if length (rr_output resp) \<noteq> unat original_length then (False, resp)
      else (True, resp\<lparr>rr_output := reversal_loop 0 (unat original_length) input (rr_output resp),
                      rr_original_length := original_length\<rparr>))"

text \<open>The test inputs of the skill; the long one runs through the capital letters.\<close>

definition reversal_long_str :: string where
  "reversal_long_str = map (\<lambda>i. char_of (65 + i mod 26)) [0..<500]"

definition reversal_fill_test_request :: "nat \<Rightarrow> bytes" where
  "reversal_fill_test_request case_index =
     map (\<lambda>c. word_of_nat (of_char c))
       (if case_index = 0 then ''Hello, World!'' else if case_index = 1 then reversal_long_str
        else if case_index = 2 then ''X'' else ''Hello, World!'')"

subsection \<open>Skill names\<close>

lemma find_char_append: "c \<notin> set a \<Longrightarrow> find_char c (a @ c # b) = Some (length a)"
  by (induction a) auto

lemma find_char_None: "find_char c xs = None \<longleftrightarrow> c \<notin> set xs"
  by (induction xs) auto

lemma is_valid_name_split:
  "is_valid_name n \<longleftrightarrow> (\<exists>a b. n = a @ ''.'' @ b \<and> a \<noteq> [] \<and> b \<noteq> [] \<and> CHR ''.'' \<notin> set a)"
proof (cases "find_char CHR ''.'' n")
  case None
  then have "CHR ''.'' \<notin> set n" by (simp add: find_char_None)
  then show ?thesis using None by (auto simp: is_valid_name_def)
next
  case (Some i)
  then have "CHR ''.'' \<in> set n" using find_char_None [of "CHR ''.''" n] by auto
  from split_list_first [OF this] obtain a b where n: "n = a @ CHR ''.'' # b" "CHR ''.'' \<notin> set a"
    by blast
  have u: "length a' = i" if "n = a' @ CHR ''.'' # b'" "CHR ''.'' \<notin> set a'" for a' b'
    using that Some find_char_append [of "CHR ''.''" a' b'] by simp
  have "is_valid_name n \<longleftrightarrow> i \<noteq> 0 \<and> i \<noteq> length n - 1" using Some n(1) by (auto simp: is_valid_name_def)
  also have "\<dots> \<longleftrightarrow> (\<exists>a b. n = a @ ''.'' @ b \<and> a \<noteq> [] \<and> b \<noteq> [] \<and> CHR ''.'' \<notin> set a)"
  proof
    assume "i \<noteq> 0 \<and> i \<noteq> length n - 1"
    then have "n = a @ ''.'' @ b \<and> a \<noteq> [] \<and> b \<noteq> [] \<and> CHR ''.'' \<notin> set a"
      using n u [OF n] by auto
    then show "\<exists>a b. n = a @ ''.'' @ b \<and> a \<noteq> [] \<and> b \<noteq> [] \<and> CHR ''.'' \<notin> set a" by blast
  next
    assume "\<exists>a b. n = a @ ''.'' @ b \<and> a \<noteq> [] \<and> b \<noteq> [] \<and> CHR ''.'' \<notin> set a"
    then obtain a' b' where s: "n = a' @ CHR ''.'' # b'" "CHR ''.'' \<notin> set a'" "a' \<noteq> []" "b' \<noteq> []"
      by auto
    then show "i \<noteq> 0 \<and> i \<noteq> length n - 1" using u [OF s(1,2)] by auto
  qed
  finally show ?thesis .
qed

text \<open>
  The name check looks at the first dot only. A name is accepted exactly when it has a
  first dot with at least one character before and after it; so names with an empty
  segment, such as \<open>a..b\<close> and \<open>a.b.\<close>, are accepted although the documentation of
  \<open>is_valid_name\<close> promises non-empty segments.
\<close>

theorem is_valid_name_first_dot:
  "(is_valid_name n \<longleftrightarrow> (\<exists>a b. n = a @ ''.'' @ b \<and> a \<noteq> [] \<and> b \<noteq> [] \<and> CHR ''.'' \<notin> set a))
   \<and> is_valid_name ''a..b'' \<and> is_valid_name ''a.b.'' \<and> \<not> is_valid_name ''.b'' \<and> \<not> is_valid_name ''a.''
   \<and> \<not> is_valid_name ''ab''"
proof (intro conjI)
  show "is_valid_name n \<longleftrightarrow> (\<exists>a b. n = a @ ''.'' @ b \<and> a \<noteq> [] \<and> b \<noteq> [] \<and> CHR ''.'' \<notin> set a)"
    by (rule is_valid_name_split)
qed (simp_all add: is_valid_name_def)

subsection \<open>The registry keeps its two maps inverse to each other\<close>

text \<open>
  \<open>named s\<close>: the identifier is the hash of the name, which \<open>Skill\<close> enforces by overriding
  \<open>skill_id\<close> as \<open>final\<close>.
\<close>

definition named :: "ISkill \<Rightarrow> bool" where
  "named s \<longleftrightarrow> isk_id s = from_name (isk_name s)"

definition registry_inv :: "SkillRegistry \<Rightarrow> bool" where
  "registry_inv r \<longleftrightarrow>
     distinct (map fst (sr_skills r)) \<and> distinct (map fst (sr_name_to_id r))
     \<and> (\<forall>i s. map_of (sr_skills r) i = Some s \<longrightarrow> isk_id s = i \<and> named s)
     \<and> (\<forall>n i. map_of (sr_name_to_id r) n = Some i \<longleftrightarrow>
            (\<exists>s. map_of (sr_skills r) i = Some s \<and> isk_name s = n))"

lemma empty_registry_inv [simp]: "registry_inv empty_registry"
  by (simp add: registry_inv_def empty_registry_def)

lemma registry_clear_inv [simp]: "registry_inv (registry_clear r)"
  by (simp add: registry_inv_def registry_clear_def)

lemma Skill_named [simp]: "named (Skill d)"
  by (simp add: named_def Skill_def kSkillId_def)

lemma register_skill_eq:
  "register_skill s r =
     (if \<exists>old. map_of (sr_skills r) (isk_id s) = Some old \<and> isk_name old \<noteq> isk_name s then None
      else Some (r\<lparr>sr_name_to_id := AList.update (isk_name s) (isk_id s) (sr_name_to_id r),
                   sr_skills := AList.update (isk_id s) s (sr_skills r)\<rparr>))"
  by (auto simp: register_skill_def split: option.splits)

lemma register_skill_inv:
  assumes r: "registry_inv r" and s: "named s" and reg: "register_skill s r = Some r'"
  shows "registry_inv r'"
proof -
  let ?S = "map_of (sr_skills r)" and ?N = "map_of (sr_name_to_id r)"
  have r': "r' = r\<lparr>sr_name_to_id := AList.update (isk_name s) (isk_id s) (sr_name_to_id r),
      sr_skills := AList.update (isk_id s) s (sr_skills r)\<rparr>"
    and same: "\<And>old. ?S (isk_id s) = Some old \<Longrightarrow> isk_name old = isk_name s"
    using reg by (auto simp: register_skill_eq split: if_splits)
  have inv: "\<And>i t. ?S i = Some t \<Longrightarrow> isk_id t = i \<and> named t"
      "\<And>n i. ?N n = Some i \<longleftrightarrow> (\<exists>t. ?S i = Some t \<and> isk_name t = n)"
    using r by (auto simp: registry_inv_def)
  have name: "i = isk_id s" if "?S i = Some t" "isk_name t = isk_name s" for i t
    using inv(1) [OF that(1)] that(2) s by (auto simp: named_def)
  have "(?N(isk_name s \<mapsto> isk_id s)) n = Some i \<longleftrightarrow>
      (\<exists>t. (?S(isk_id s \<mapsto> s)) i = Some t \<and> isk_name t = n)" for n i
  proof (cases "i = isk_id s")
    case True
    then show ?thesis using inv(2) [of n i] same by auto
  next
    case False
    then show ?thesis using inv(2) [of n i] name [of i] by auto
  qed
  moreover have "isk_id t = i \<and> named t" if "(?S(isk_id s \<mapsto> s)) i = Some t" for i t
    using that s inv(1) by (auto split: if_splits)
  ultimately show ?thesis using r
    unfolding registry_inv_def r' by (simp add: update_conv' distinct_update del: fun_upd_apply)
qed

lemma register_all_inv:
  "registry_inv r \<Longrightarrow> \<forall>s \<in> set ss. named s \<Longrightarrow> register_all ss r = Some r' \<Longrightarrow> registry_inv r'"
  by (induction ss arbitrary: r) (auto split: option.splits intro: register_skill_inv)

lemma register_skills:
  "register_skill s r = Some r' \<Longrightarrow> map_of (sr_skills r') = (map_of (sr_skills r))(isk_id s \<mapsto> s)"
  by (auto simp: register_skill_eq update_conv' split: if_splits)

lemma register_all_skills:
  "register_all ss r = Some r' \<Longrightarrow>
     map_of (sr_skills r') = map_of (sr_skills r) ++ map_of (map (\<lambda>s. (isk_id s, s)) (rev ss))"
  by (induction ss arbitrary: r)
    (auto simp: register_skills map_add_upd_left map_add_def fun_eq_iff split: option.splits)

text \<open>Registration aborts exactly when two names share an identifier.\<close>

definition id_names :: "SkillRegistry \<Rightarrow> (u32 \<times> string) set" where
  "id_names r = {(i, isk_name s) | i s. map_of (sr_skills r) i = Some s}"

lemma id_names_single: "single_valued (id_names r)"
  by (auto simp: id_names_def single_valued_def)

lemma id_names_register:
  assumes "register_skill s r = Some r'"
  shows "id_names r' = insert (isk_id s, isk_name s) (id_names r)"
proof -
  have same: "isk_name old = isk_name s" if "map_of (sr_skills r) (isk_id s) = Some old" for old
    using assms that by (simp add: register_skill_eq split: if_splits)
  have "(i, n) \<in> id_names r' \<longleftrightarrow> (i, n) = (isk_id s, isk_name s) \<or> (i, n) \<in> id_names r" for i n
    using same by (cases "i = isk_id s") (auto simp: id_names_def register_skills [OF assms])
  then show ?thesis by auto
qed

lemma single_valued_pairs:
  "single_valued (set (map (\<lambda>s. (f s, g s)) ss)) \<longleftrightarrow>
     (\<forall>s \<in> set ss. \<forall>t \<in> set ss. f s = f t \<longrightarrow> g s = g t)"
  by (simp add: single_valued_def image_iff) metis

lemma register_all_total:
  "(\<exists>r'. register_all ss r = Some r') \<longleftrightarrow>
     single_valued (id_names r \<union> set (map (\<lambda>s. (isk_id s, isk_name s)) ss))"
proof (induction ss arbitrary: r)
  case Nil
  then show ?case by (simp add: id_names_single)
next
  case (Cons x ss)
  show ?case
  proof (cases "register_skill x r")
    case None
    then obtain old where "map_of (sr_skills r) (isk_id x) = Some old" "isk_name old \<noteq> isk_name x"
      by (auto simp: register_skill_eq split: if_splits)
    then have "(isk_id x, isk_name old) \<in> id_names r" "isk_name old \<noteq> isk_name x"
      by (auto simp: id_names_def)
    then show ?thesis using None by (auto simp: single_valued_def)
  next
    case (Some r1)
    then show ?thesis using Cons.IH [of r1] id_names_register [OF Some] by simp
  qed
qed

text \<open>
  C25. Skill registration. The registrations of any list of skills whose identifiers are the
  hashes of their names (\<open>Skill\<close> makes them so) run to completion exactly when no two of
  them have different names and the same hash; otherwise the program aborts. Afterwards the
  two maps are inverse: a name is known exactly when its identifier is registered under
  that name, every registered skill is found under the hash of its name, and each
  identifier dispatches to the last skill registered for it.
\<close>

theorem registry_consistent:
  assumes "\<forall>s \<in> set ss. named s"
  shows "((\<exists>r. register_all ss empty_registry = Some r) \<longleftrightarrow>
      (\<forall>s \<in> set ss. \<forall>t \<in> set ss. from_name (isk_name s) = from_name (isk_name t) \<longrightarrow>
         isk_name s = isk_name t))
    \<and> (\<forall>r. register_all ss empty_registry = Some r \<longrightarrow>
        (\<forall>n i. get_skill_id n r = Some i \<longleftrightarrow> has_skill i r \<and> get_skill_name i r = n)
        \<and> (\<forall>s \<in> set ss. get_skill_id (isk_name s) r = Some (from_name (isk_name s)))
        \<and> (\<forall>i. get_payload_factory i r = find (\<lambda>s. isk_id s = i) (rev ss)))"
proof (intro conjI allI impI)
  have e: "id_names empty_registry = {}" by (simp add: id_names_def empty_registry_def)
  show "(\<exists>r. register_all ss empty_registry = Some r) \<longleftrightarrow>
      (\<forall>s \<in> set ss. \<forall>t \<in> set ss. from_name (isk_name s) = from_name (isk_name t) \<longrightarrow>
         isk_name s = isk_name t)"
    using assms unfolding register_all_total e Un_empty_left single_valued_pairs named_def by metis
  fix r
  assume reg: "register_all ss empty_registry = Some r"
  have inv: "registry_inv r" using register_all_inv [OF empty_registry_inv assms reg] .
  show idn: "get_skill_id n r = Some i \<longleftrightarrow> has_skill i r \<and> get_skill_name i r = n" for n i
    using inv by (auto simp: registry_inv_def get_skill_id_def has_skill_def get_skill_name_def)
  have m: "map_of (sr_skills r) = map_of (map (\<lambda>s. (isk_id s, s)) (rev ss))"
    using register_all_skills [OF reg] by (simp add: empty_registry_def)
  have f: "map_of (map (\<lambda>s. (isk_id s, s)) xs) i = find (\<lambda>s. isk_id s = i) xs"
    for xs :: "ISkill list" and i
    by (induction xs) auto
  show "get_payload_factory i r = find (\<lambda>s. isk_id s = i) (rev ss)" for i
    using m f by (simp add: get_payload_factory_def)
  show "\<forall>s \<in> set ss. get_skill_id (isk_name s) r = Some (from_name (isk_name s))"
  proof
    fix s assume s: "s \<in> set ss"
    then obtain t where t: "map_of (sr_skills r) (isk_id s) = Some t"
      using m weak_map_of_SomeI [of "isk_id s" s "map (\<lambda>s. (isk_id s, s)) (rev ss)"] by auto
    have "isk_name t = isk_name s"
    proof (rule ccontr)
      assume "isk_name t \<noteq> isk_name s"
      moreover have "t \<in> set ss" using map_of_SomeD [OF t [unfolded m]] by auto
      moreover have "single_valued (set (map (\<lambda>s. (isk_id s, isk_name s)) ss))"
        using register_all_total [of ss empty_registry] reg e by simp
      moreover have "isk_id t = isk_id s" using inv t by (simp add: registry_inv_def)
      ultimately show False using s unfolding single_valued_pairs by blast
    qed
    then show "get_skill_id (isk_name s) r = Some (from_name (isk_name s))"
      using idn [of "isk_name s" "isk_id s"] t s assms
      by (simp add: has_skill_def get_skill_name_def named_def)
  qed
qed

text \<open>Two skills whose static registrations the witness runs; only the names matter.\<close>

definition demo_named :: "string \<Rightarrow> ISkill" where
  "demo_named n = \<lparr>isk_id = from_name n, isk_name = n, isk_description = [], isk_version = 1,
     isk_process = (\<lambda>_ b. (True, b)), isk_create_response = (\<lambda>_. None), isk_create_test = (\<lambda>_. None),
     isk_test_count = 0, isk_verify = (\<lambda>_ _. success)\<rparr>"

theorem registry_consistent_witness:
  "\<exists>r. register_all [demo_named ''b.A'', demo_named ''b.B''] empty_registry = Some r
    \<and> get_skill_id ''b.A'' r = Some (from_name ''b.A'')"
proof -
  let ?ss = "[demo_named ''b.A'', demo_named ''b.B'']"
  have n: "\<forall>s \<in> set ?ss. named s" by (simp add: demo_named_def named_def)
  have "from_name ''b.A'' \<noteq> from_name ''b.B''"
    by (simp add: from_name_def fnv_step_def)
  then show ?thesis using registry_consistent [OF n] by (auto simp: demo_named_def)
qed

subsection \<open>Exact comparison\<close>

lemma compare_bytes_loop_passed:
  "length es = length as \<Longrightarrow> passed (compare_bytes_loop f jd i es as) \<longleftrightarrow> es = as"
  by (induction f jd i es as rule: compare_bytes_loop.induct) (auto simp: failure_def success_def)

lemma flip_case_neq: "(b :: byte) XOR 0x20 \<noteq> b"
proof
  assume "b XOR 0x20 = b"
  then have "(b XOR 0x20) XOR b = b XOR b" by simp
  then show False by (simp add: xor.commute [of b] xor.assoc)
qed

text \<open>
  Byte comparison. Without failure injection two byte sequences pass exactly when they
  are equal. With failure injection a correct response that is not empty never passes, so
  the failure path is really exercised.
\<close>

theorem compare_bytes_exact:
  "(passed (compare_bytes False f e a) \<longleftrightarrow> e = a) \<and> (passed (compare_bytes True f a a) \<longleftrightarrow> a = [])"
proof (intro conjI)
  show "passed (compare_bytes False f e a) \<longleftrightarrow> e = a"
    by (auto simp: compare_bytes_def compare_bytes_loop_passed failure_def)
  show "passed (compare_bytes True f a a) \<longleftrightarrow> a = []"
    using flip_case_neq [of "hd a"]
    by (cases a) (auto simp: compare_bytes_def compare_bytes_loop_passed success_def failure_def)
qed

subsection \<open>String reversal\<close>

lemma reversal_loop_eq:
  "i \<le> n \<Longrightarrow> n \<le> length input \<Longrightarrow> length out = n \<Longrightarrow> reversal_loop i n input out =
     take i out @ map (\<lambda>j. input ! (n - 1 - j)) [i..<n]"
proof (induction i n input out rule: reversal_loop.induct)
  case (1 i n input out)
  show ?case
  proof (cases "i < n")
    case True
    then show ?thesis
      using 1 by (subst reversal_loop.simps)
        (simp add: take_Suc_conv_app_nth upt_conv_Cons)
  next
    case False
    then show ?thesis using 1 by (subst reversal_loop.simps) simp
  qed
qed

lemma reversal_loop_rev: "length out = length input \<Longrightarrow> reversal_loop 0 (length input) input out = rev input"
  by (subst reversal_loop_eq) (auto intro: nth_equalityI simp: rev_nth)

text \<open>
  String reversal. On a request of less than \<open>2 ^ 32\<close> characters \<open>compute\<close> succeeds
  exactly when the response has room for as many characters, and then the response holds
  the reversed characters and their number, whatever it held before.
\<close>

theorem reversal_correct:
  assumes "length input < 2 ^ 32"
  shows "(fst (reversal_compute input resp) \<longleftrightarrow> length (rr_output resp) = length input)
    \<and> (fst (reversal_compute input resp) \<longrightarrow>
        rr_output (snd (reversal_compute input resp)) = rev input
        \<and> unat (rr_original_length (snd (reversal_compute input resp))) = length input)"
proof -
  have "unat (word_of_nat (length input) :: u32) = length input"
    using assms by (simp add: unat_of_nat take_bit_nat_eq_self unsigned_of_nat)
  then show ?thesis by (simp add: reversal_compute_def Let_def reversal_loop_rev)
qed

theorem reversal_correct_witness:
  "rr_output (snd (reversal_compute [1, 2, 3] \<lparr>rr_output = [9, 9, 9], rr_original_length = 0\<rparr>)) = [3, 2, 1]"
  using reversal_correct [of "[1, 2, 3]" "\<lparr>rr_output = [9, 9, 9], rr_original_length = 0\<rparr>"]
  by simp

subsection \<open>What a derived skill promises\<close>

text \<open>
  The contract between a skill class, the registry and the worker: response buffers carry
  the skill's identifier, computing changes neither the size of the response buffer nor
  where the typed pointers of a response point, and a response compared with itself passes.
  From it follow what the dispatcher relies on: processing keeps the size of the buffer, and
  the verification of a response that was computed by the same skill passes.
\<close>

locale skill_contract =
  fixes d :: "('q, 'p) Derived"
  assumes response_id: "create_response_for_request d req = Some buf \<Longrightarrow> pb_skill_id buf = kSkillId d"
    and compute_length: "length (snd (compute d req q b p)) = length b"
    and compute_pointers: "scatter_response d b = Some p \<Longrightarrow>
      scatter_response d (snd (compute d req q b p)) = Some p"
    and compare_refl: "passed (compare_response d b p b p)"
begin

lemma process_length: "length (snd (skill_process d req b)) = length b"
  by (simp add: skill_process_def compute_length split: option.splits)

lemma honest_response_passes:
  assumes "create_response_for_request d req = Some b" "skill_process d req (pb_data b) = (True, out)"
  shows "passed (skill_verify_response d req out)"
proof -
  obtain q p where q: "scatter_request d req = Some q" "scatter_response d (pb_data b) = Some p"
      "compute d req q (pb_data b) p = (True, out)"
    using assms(2) by (auto simp: skill_process_def split: option.splits)
  then have "scatter_response d out = Some p" using compute_pointers [OF q(2), of req q] by simp
  then show ?thesis using q assms(1) compare_refl by (simp add: skill_verify_response_def)
qed

end

text \<open>
  The string reversal skill over a plain layout: the request buffer is the characters, the
  response buffer the length cell followed by the characters.
\<close>

definition plain_response :: "bytes \<Rightarrow> ReversalResponse option" where
  "plain_response b =
     (if length b < 4 then None
      else Some \<lparr>rr_output = drop 4 b, rr_original_length = le_word (take 4 b)\<rparr>)"

definition StringReversalSkill :: "(bytes, nat) Derived" where
  "StringReversalSkill =
     \<lparr>kSkillName = ''builtin.StringReversal'', kSkillDescription = ''Reverses the input string'',
      kSkillVersion = 1, scatter_request = (\<lambda>r. Some r),
      scatter_response = (\<lambda>b. map_option (\<lambda>_. length b) (plain_response b)),
      create_response_for_request =
        (\<lambda>r. Some (RawPayload (replicate (4 + length r) 0) (from_name ''builtin.StringReversal''))),
      compute = (\<lambda>_ q b p.
        case plain_response b of
          None \<Rightarrow> (False, b)
        | Some resp \<Rightarrow>
            (case reversal_compute q resp of
               (False, _) \<Rightarrow> (False, b)
             | (True, r) \<Rightarrow> (True, le_bytes 4 (rr_original_length r) @ rr_output r))),
      derived_test_case_count = 3,
      create_test_request = (\<lambda>i. RawPayload (if i = 2 then [88] else [72, 105]) (from_name ''builtin.StringReversal'')),
      compare_response = (\<lambda>e _ a _. compare_bytes False ''output'' e a)\<rparr>"

lemma reversal_length: "length (rr_output (snd (reversal_compute q r))) = length (rr_output r)"
proof -
  have "length (reversal_loop i n q out) = length out" for i n out
    by (induction i n q out rule: reversal_loop.induct) (subst reversal_loop.simps, simp)
  then show ?thesis by (simp add: reversal_compute_def Let_def)
qed

interpretation reversal: skill_contract StringReversalSkill
proof unfold_locales
  let ?c = "compute StringReversalSkill"
  show "pb_skill_id b = kSkillId StringReversalSkill"
    if "create_response_for_request StringReversalSkill req = Some b" for req b
    using that by (auto simp: StringReversalSkill_def kSkillId_def RawPayload_def)
  show len: "length (snd (?c req q b p)) = length b" for req q b p
    using reversal_length [of q "\<lparr>rr_output = drop 4 b, rr_original_length = le_word (take 4 b)\<rparr>"]
    by (auto simp: StringReversalSkill_def plain_response_def split: prod.splits bool.splits)
  show "scatter_response StringReversalSkill (snd (?c req q b p)) = Some p"
    if "scatter_response StringReversalSkill b = Some p" for req q b p
    using that len [of req q b p] by (auto simp: StringReversalSkill_def plain_response_def split: if_splits)
  show "passed (compare_response StringReversalSkill b p b p)" for b p
    by (simp add: StringReversalSkill_def compare_bytes_def compare_bytes_loop_passed)
qed

text \<open>
  Verification accepts honest workers. For a registered skill that keeps its contract,
  if the worker obtains a response buffer for a request and the skill processes it, then the
  buffer carries the skill's identifier, keeps its size, and the dispatcher's verification
  of the bytes the worker sends back passes.
\<close>

theorem honest_response_verifies:
  assumes "skill_contract d" "get_payload_factory (kSkillId d) r = Some (Skill d)"
    "create_response_buffer (kSkillId d) req r = Some b"
    "dispatch (kSkillId d) req (pb_data b) r = (True, out)"
  shows "pb_skill_id b = kSkillId d \<and> length out = length (pb_data b)
    \<and> passed (verify_response (kSkillId d) req out r)"
proof -
  have c: "create_response_for_request d req = Some b"
    using assms(2,3) by (simp add: create_response_buffer_def Skill_def)
  have p: "skill_process d req (pb_data b) = (True, out)"
    using assms(2,4) by (simp add: dispatch_def get_payload_factory_def Skill_def)
  show ?thesis
    using skill_contract.response_id [OF assms(1) c] skill_contract.process_length [OF assms(1), of req "pb_data b"]
      skill_contract.honest_response_passes [OF assms(1) c p] assms(2) p
    by (simp add: verify_response_def Skill_def)
qed

definition demo_registry :: SkillRegistry where
  "demo_registry = \<lparr>sr_skills = [(kSkillId StringReversalSkill, Skill StringReversalSkill)],
     sr_name_to_id = [(''builtin.StringReversal'', kSkillId StringReversalSkill)]\<rparr>"

lemma demo_registered: "register_skill (Skill StringReversalSkill) empty_registry = Some demo_registry"
  by (simp add: register_skill_eq empty_registry_def demo_registry_def Skill_def StringReversalSkill_def)

lemma demo_factory:
  "get_payload_factory (kSkillId StringReversalSkill) demo_registry = Some (Skill StringReversalSkill)"
  by (simp add: get_payload_factory_def demo_registry_def)

lemma demo_reversal:
  "create_response_buffer (kSkillId StringReversalSkill) [72, 105] demo_registry =
     Some (RawPayload [0, 0, 0, 0, 0, 0] (kSkillId StringReversalSkill))"
  "dispatch (kSkillId StringReversalSkill) [72, 105] [0, 0, 0, 0, 0, 0] demo_registry =
     (True, [2, 0, 0, 0, 105, 72])"
proof -
  show "create_response_buffer (kSkillId StringReversalSkill) [72, 105] demo_registry =
     Some (RawPayload [0, 0, 0, 0, 0, 0] (kSkillId StringReversalSkill))"
    by (simp add: create_response_buffer_def demo_factory Skill_def)
      (simp add: StringReversalSkill_def kSkillId_def eval_nat_numeral)
  have p: "plain_response [0, 0, 0, 0, 0, 0] = Some \<lparr>rr_output = [0, 0], rr_original_length = 0\<rparr>"
    by (simp add: plain_response_def)
  have c: "reversal_compute [72, 105] \<lparr>rr_output = [0, 0], rr_original_length = 0\<rparr> =
      (True, \<lparr>rr_output = [105, 72], rr_original_length = 2\<rparr>)"
    by (simp add: reversal_compute_def Let_def reversal_loop.simps)
  have l: "le_bytes 4 (2 :: u32) = [2, 0, 0, 0]" by code_simp
  show "dispatch (kSkillId StringReversalSkill) [72, 105] [0, 0, 0, 0, 0, 0] demo_registry =
     (True, [2, 0, 0, 0, 105, 72])"
    by (simp add: dispatch_def demo_registry_def Skill_def skill_process_def)
      (simp add: StringReversalSkill_def p c l)
qed

theorem honest_response_verifies_witness:
  "passed (verify_response (kSkillId StringReversalSkill) [72, 105] [2, 0, 0, 0, 105, 72] demo_registry)"
  using honest_response_verifies [OF reversal.skill_contract_axioms demo_factory demo_reversal(1)]
    demo_reversal(2) by (simp add: RawPayload_def)

end
