(* ===== verification/WorkerRuntime.thy ===== *)
theory WorkerRuntime
  imports Skills ZtSocket
begin

section \<open>Worker runtimes\<close>

text \<open>
  \<open>BlockingRuntime\<close> and \<open>AsyncRuntime\<close> (worker/runtime/) and \<open>TaskProcessor\<close>
  (worker/processor/). A stream interface of the program is the record of its virtual
  functions over a state \<open>'s\<close>; a function that may block for ever returns an option, \<open>None\<close>
  when it does not return within the given fuel. Both runtimes keep the same members and
  share the record \<open>Runtime\<close>; the socket pointer with the object it points to is
  \<open>rt_socket\<close>. The members \<open>pause\<close> and \<open>disconnect\<close> are called by the user interface's
  thread while the loop runs: \<open>env\<close> is what other threads have done to the runtime when the
  loop looks at its pause flag. Log output and running out of memory are not modelled.

  The reference of both loops is \<open>answer\<close>: the bytes that answer one request frame.
\<close>

record 's IBlockingStream =
  bs_read :: "'s \<Rightarrow> nat \<Rightarrow> (bytes \<times> errc option \<times> 's) option"
  bs_write :: "'s \<Rightarrow> bytes \<Rightarrow> (nat \<times> errc option \<times> 's) option"
  bs_connect :: "string \<Rightarrow> int \<Rightarrow> 's \<Rightarrow> (errc option result \<times> 's) option"
  bs_is_open :: "'s \<Rightarrow> bool"
  bs_close :: "'s \<Rightarrow> 's"
  bs_shutdown :: "'s \<Rightarrow> 's"
  bs_node_id :: "'s \<Rightarrow> u64"
  bs_local_endpoint :: "'s \<Rightarrow> string"

record 's Runtime =
  rt_host :: string
  rt_port :: int
  rt_socket :: "'s option"
  rt_tasks_completed :: u64
  rt_bytes_sent :: u64
  rt_bytes_received :: u64
  rt_pause_requested :: bool
  rt_disconnect_requested :: bool

definition new_runtime :: "string \<Rightarrow> int \<Rightarrow> 's Runtime" where
  "new_runtime host port = \<lparr>rt_host = host, rt_port = port, rt_socket = None,
     rt_tasks_completed = 0, rt_bytes_sent = 0, rt_bytes_received = 0,
     rt_pause_requested = False, rt_disconnect_requested = False\<rparr>"

subsection \<open>Frames on a blocking stream\<close>

definition max_frame_size :: nat where
  "max_frame_size = 16 * 1024 * 1024"

definition read_task ::
  "'s IBlockingStream \<Rightarrow> 's \<Rightarrow> ((TaskHeader \<times> bytes \<times> u64) result \<times> 's) option" where
  "read_task io s =
     (case bs_read io s kHeaderSize of
        None \<Rightarrow> None
      | Some (hb, Some e, s1) \<Rightarrow> Some (Inl (system_error e), s1)
      | Some (hb, None, s1) \<Rightarrow>
          (case header_of_bytes hb of
             None \<Rightarrow> Some (Inl (system_error protocol_error), s1)
           | Some h \<Rightarrow>
               let n = unat (body_size h) in
               if n > max_frame_size then Some (Inl (system_error message_size), s1)
               else if n > 0 then
                 (case bs_read io s1 n of
                    None \<Rightarrow> None
                  | Some (body, Some e, s2) \<Rightarrow> Some (Inl (system_error e), s2)
                  | Some (body, None, s2) \<Rightarrow>
                      if length body \<noteq> n then Some (Inl (system_error protocol_error), s2)
                      else Some (Inr (h, body, of_nat kHeaderSize + of_nat n), s2))
               else Some (Inr (h, [], of_nat kHeaderSize), s1)))"

definition write_response ::
  "'s IBlockingStream \<Rightarrow> int \<Rightarrow> u32 \<Rightarrow> PayloadBuffer option \<Rightarrow> 's \<Rightarrow> (u64 result \<times> 's) option" where
  "write_response io now tid buf s =
     (case TaskMessage_new now tid buf of
        Inl e \<Rightarrow> Some (Inl e, s)
      | Inr response \<Rightarrow>
          (case wire_bytes response of
             (hs, ps) \<Rightarrow>
               (case bs_write io s hs of
                  None \<Rightarrow> None
                | Some (bw, Some e, s1) \<Rightarrow> Some (Inl (system_error e), s1)
                | Some (bw, None, s1) \<Rightarrow>
                    if bw \<noteq> length hs then Some (Inl (system_error protocol_error), s1)
                    else if ps \<noteq> [] then
                      (case bs_write io s1 ps of
                         None \<Rightarrow> None
                       | Some (bw2, Some e, s2) \<Rightarrow> Some (Inl (system_error e), s2)
                       | Some (bw2, None, s2) \<Rightarrow>
                           if bw2 \<noteq> length ps then Some (Inl (system_error protocol_error), s2)
                           else Some (Inr (of_nat bw + of_nat bw2), s2))
                    else Some (Inr (of_nat bw), s1))))"

text \<open>The loop that sends the greeting from offset \<open>sent\<close> (\<open>total\<close> in the source) on.\<close>

function greeting_loop ::
  "'s IBlockingStream \<Rightarrow> bytes \<Rightarrow> nat \<Rightarrow> 's \<Rightarrow> (bool \<times> errc option \<times> 's) option" where
  "greeting_loop io data sent s =
     (if sent < length data then
        (case bs_write io s (drop sent data) of
           None \<Rightarrow> None
         | Some (bw, Some e, s1) \<Rightarrow> Some (False, Some e, s1)
         | Some (bw, None, s1) \<Rightarrow>
             if bw = 0 then Some (False, Some connection_reset, s1)
             else greeting_loop io data (sent + bw) s1)
      else Some (True, None, s))"
  by pat_completeness auto
termination by (relation "measure (\<lambda>(io, data, sent, s). length data - sent)") auto

declare greeting_loop.simps [simp del]

definition worker_greeting :: "u64 \<Rightarrow> WorkerGreeting" where
  "worker_greeting node =
     \<lparr>magic = kWorkerGreetingMagic, version = kWorkerGreetingVersion, node_id = node\<rparr>"

definition send_worker_greeting ::
  "'s IBlockingStream \<Rightarrow> 's \<Rightarrow> (bool \<times> errc option \<times> 's) option" where
  "send_worker_greeting io s =
     greeting_loop io (greeting_to_bytes (worker_greeting (bs_node_id io s))) 0 s"

subsection \<open>Connection management, shared by both runtimes\<close>

text \<open>
  \<open>connect\<close>: \<open>create\<close> is the socket factory (\<open>None\<close>: it returned a null pointer) and \<open>greet\<close>
  the function that sends the greeting. \<open>SocketFactory\<close> and \<open>connect\<close> of the socket may
  throw; every standard exception is caught and makes \<open>connect\<close> return false.
\<close>

definition runtime_connect ::
  "'s IBlockingStream \<Rightarrow> ('s \<Rightarrow> (bool \<times> errc option \<times> 's) option) \<Rightarrow> 's option result \<Rightarrow>
   's Runtime \<Rightarrow> (bool \<times> 's Runtime) option" where
  "runtime_connect io greet create rt =
     (case (case rt_socket rt of Some s \<Rightarrow> Inr (Some s) | None \<Rightarrow> create) of
        Inl e \<Rightarrow> Some (False, rt)
      | Inr None \<Rightarrow> Some (False, rt)
      | Inr (Some s0) \<Rightarrow>
          let s = (if bs_is_open io s0 then bs_close io s0 else s0) in
          (case bs_connect io (rt_host rt) (rt_port rt) s of
             None \<Rightarrow> None
           | Some (Inl e, s1) \<Rightarrow> Some (False, rt\<lparr>rt_socket := Some s1\<rparr>)
           | Some (Inr (Some e), s1) \<Rightarrow> Some (False, rt\<lparr>rt_socket := Some s1\<rparr>)
           | Some (Inr None, s1) \<Rightarrow>
               (case greet s1 of
                  None \<Rightarrow> None
                | Some (False, _, s2) \<Rightarrow> Some (False, rt\<lparr>rt_socket := Some (bs_close io s2)\<rparr>)
                | Some (True, _, s2) \<Rightarrow> Some (True, rt\<lparr>rt_socket := Some s2\<rparr>))))"

definition runtime_disconnect :: "'s IBlockingStream \<Rightarrow> 's Runtime \<Rightarrow> 's Runtime" where
  "runtime_disconnect io rt =
     rt\<lparr>rt_disconnect_requested := True, rt_socket := map_option (bs_close io) (rt_socket rt)\<rparr>"

definition runtime_shutdown :: "'s IBlockingStream \<Rightarrow> 's Runtime \<Rightarrow> 's Runtime" where
  "runtime_shutdown io rt =
     rt\<lparr>rt_socket := map_option (\<lambda>s. bs_close io (bs_shutdown io s)) (rt_socket rt)\<rparr>"

definition runtime_release :: "'s Runtime \<Rightarrow> 's Runtime" where
  "runtime_release rt = rt\<lparr>rt_socket := None\<rparr>"

definition runtime_is_connected :: "'s IBlockingStream \<Rightarrow> 's Runtime \<Rightarrow> bool" where
  "runtime_is_connected io rt = (case rt_socket rt of None \<Rightarrow> False | Some s \<Rightarrow> bs_is_open io s)"

definition runtime_local_endpoint :: "'s IBlockingStream \<Rightarrow> 's Runtime \<Rightarrow> string" where
  "runtime_local_endpoint io rt = (case rt_socket rt of None \<Rightarrow> [] | Some s \<Rightarrow> bs_local_endpoint io s)"

definition runtime_pause :: "'s Runtime \<Rightarrow> 's Runtime" where
  "runtime_pause rt = rt\<lparr>rt_pause_requested := True\<rparr>"

definition was_disconnect_requested :: "'s Runtime \<Rightarrow> bool" where
  "was_disconnect_requested rt = rt_disconnect_requested rt"

text \<open>\<open>get_task_count\<close> narrows the counter to \<open>int\<close>.\<close>

definition get_task_count :: "'s Runtime \<Rightarrow> int" where
  "get_task_count rt = sint (ucast (rt_tasks_completed rt) :: 32 word)"

subsection \<open>Processing a task\<close>

definition process :: "SkillRegistry \<Rightarrow> u32 \<Rightarrow> u32 \<Rightarrow> bytes \<Rightarrow> bytes \<Rightarrow> bool \<times> bytes" where
  "process reg tid sid request response = dispatch sid request response reg"

text \<open>What one round of a loop decides: go on, return, or leave by an exception.\<close>

datatype round = Continue | Return bool | Throw exn

definition blocking_round ::
  "'s IBlockingStream \<Rightarrow> SkillRegistry \<Rightarrow> int \<Rightarrow> 's Runtime \<Rightarrow> (round \<times> 's Runtime) option" where
  "blocking_round io reg now rt =
     (case rt_socket rt of
        None \<Rightarrow> Some (Return False, rt)
      | Some s \<Rightarrow>
     (case read_task io s of
        None \<Rightarrow> None
      | Some (Inl e, s1) \<Rightarrow> Some (Return False, rt\<lparr>rt_socket := Some s1\<rparr>)
      | Some (Inr (h, body, n), s1) \<Rightarrow>
          let rt1 = rt\<lparr>rt_socket := Some s1, rt_bytes_received := rt_bytes_received rt + n\<rparr> in
          (case create_response_buffer (skill_id h) body reg of
             None \<Rightarrow> Some (Return False, rt1)
           | Some buf \<Rightarrow>
          (case process reg (task_id h) (skill_id h) body (pb_span buf) of
             (False, _) \<Rightarrow> Some (Return False, rt1)
           | (True, out) \<Rightarrow>
          (case write_response io now (task_id h) (Some (buf\<lparr>pb_data := out\<rparr>)) s1 of
             None \<Rightarrow> None
           | Some (Inl (system_error e), s2) \<Rightarrow> Some (Return False, rt1\<lparr>rt_socket := Some s2\<rparr>)
           | Some (Inl e, s2) \<Rightarrow> Some (Throw e, rt1\<lparr>rt_socket := Some s2\<rparr>)
           | Some (Inr w, s2) \<Rightarrow>
               Some (Continue, rt1\<lparr>rt_socket := Some s2, rt_bytes_sent := rt_bytes_sent rt1 + w,
                                 rt_tasks_completed := rt_tasks_completed rt1 + 1\<rparr>))))))"

text \<open>
  The loop around a round is the same in both runtimes. \<open>None\<close> means that the loop has not
  returned after \<open>fuel\<close> rounds.
\<close>

fun runtime_loop ::
  "('s Runtime \<Rightarrow> (round \<times> 's Runtime) option) \<Rightarrow> ('s Runtime \<Rightarrow> 's Runtime) \<Rightarrow> nat \<Rightarrow>
   's Runtime \<Rightarrow> (bool result \<times> 's Runtime) option" where
  "runtime_loop body env 0 rt = None"
| "runtime_loop body env (Suc fuel) rt =
     (let rt0 = env rt in
      if rt_pause_requested rt0 then Some (Inr True, rt0\<lparr>rt_pause_requested := False\<rparr>)
      else case body rt0 of
             None \<Rightarrow> None
           | Some (Continue, rt1) \<Rightarrow> runtime_loop body env fuel rt1
           | Some (Return b, rt1) \<Rightarrow> Some (Inr b, rt1)
           | Some (Throw e, rt1) \<Rightarrow> Some (Inl e, rt1))"

definition run_loop_with ::
  "('s Runtime \<Rightarrow> (round \<times> 's Runtime) option) \<Rightarrow> ('s Runtime \<Rightarrow> 's Runtime) \<Rightarrow> nat \<Rightarrow>
   's Runtime \<Rightarrow> (bool result \<times> 's Runtime) option" where
  "run_loop_with body env fuel rt =
     (if rt_socket rt = None then Some (Inr False, rt)
      else runtime_loop body env fuel
             (rt\<lparr>rt_pause_requested := False, rt_disconnect_requested := False\<rparr>))"

definition blocking_run_loop ::
  "'s IBlockingStream \<Rightarrow> SkillRegistry \<Rightarrow> int \<Rightarrow> ('s Runtime \<Rightarrow> 's Runtime) \<Rightarrow> nat \<Rightarrow>
   's Runtime \<Rightarrow> (bool result \<times> 's Runtime) option" where
  "blocking_run_loop io reg now env fuel rt = run_loop_with (blocking_round io reg now) env fuel rt"

subsection \<open>The asynchronous runtime\<close>

text \<open>
  The coroutine awaits reads and writes of the socket adapter; the inline context polls the
  pending operation until it completes (\<open>drive\<close>, at most \<open>polls\<close> times). The value is the
  exception \<open>await_resume\<close> throws, or the bytes read.
\<close>

definition await_read ::
  "'s try_read_fn \<Rightarrow> 's try_write_fn \<Rightarrow> nat \<Rightarrow> nat \<Rightarrow> 's CoroSocketAdapter \<Rightarrow>
   (bytes result \<times> 's CoroSocketAdapter) option" where
  "await_read rd wr polls n a =
     (case drive rd wr polls (start_read OP_READ (replicate n 0) n a) of
        None \<Rightarrow> None
      | Some a' \<Rightarrow>
          Some (case io_await_resume a' of Inl e \<Rightarrow> Inl e | Inr _ \<Rightarrow> Inr (ad_rbuf a'), a'))"

definition await_write ::
  "'s try_read_fn \<Rightarrow> 's try_write_fn \<Rightarrow> nat \<Rightarrow> bytes \<Rightarrow> 's CoroSocketAdapter \<Rightarrow>
   (nat result \<times> 's CoroSocketAdapter) option" where
  "await_write rd wr polls buf a =
     (case drive rd wr polls (start_write buf (length buf) a) of
        None \<Rightarrow> None
      | Some a' \<Rightarrow> Some (io_await_resume a', a'))"

definition async_read_body ::
  "'s try_read_fn \<Rightarrow> 's try_write_fn \<Rightarrow> nat \<Rightarrow> TaskHeader \<Rightarrow> 's CoroSocketAdapter \<Rightarrow>
   (bytes result \<times> 's CoroSocketAdapter) option" where
  "async_read_body rd wr polls h a =
     (if body_size h > 0 then await_read rd wr polls (unat (body_size h)) a else Some (Inr [], a))"

definition async_write_frame ::
  "'s try_read_fn \<Rightarrow> 's try_write_fn \<Rightarrow> nat \<Rightarrow> bytes \<Rightarrow> bytes \<Rightarrow> 's CoroSocketAdapter \<Rightarrow>
   (nat result \<times> 's CoroSocketAdapter) option" where
  "async_write_frame rd wr polls hs ps a =
     (case await_write rd wr polls hs a of
        None \<Rightarrow> None
      | Some (Inl e, a1) \<Rightarrow> Some (Inl e, a1)
      | Some (Inr _, a1) \<Rightarrow>
          if ps \<noteq> [] then await_write rd wr polls ps a1 else Some (Inr 0, a1))"

text \<open>Processing a request and sending the response, from line 240 of AsyncRuntime.cpp on.\<close>

definition async_respond ::
  "'s try_read_fn \<Rightarrow> 's try_write_fn \<Rightarrow> nat \<Rightarrow> SkillRegistry \<Rightarrow> int \<Rightarrow> TaskHeader \<Rightarrow> bytes \<Rightarrow>
   's CoroSocketAdapter \<Rightarrow> 's CoroSocketAdapter Runtime \<Rightarrow>
   (round \<times> 's CoroSocketAdapter Runtime) option" where
  "async_respond rd wr polls reg now h body a rt =
     (case create_response_buffer (skill_id h) body reg of
        None \<Rightarrow> Some (Return False, rt)
      | Some buf \<Rightarrow>
     (case process reg (task_id h) (skill_id h) body (pb_span buf) of
        (False, _) \<Rightarrow> Some (Return False, rt)
      | (True, out) \<Rightarrow>
     (case TaskMessage_new now (task_id h) (Some (buf\<lparr>pb_data := out\<rparr>)) of
        Inl e \<Rightarrow> Some (Throw e, rt)
      | Inr response \<Rightarrow>
     (case wire_bytes response of
        (hs, ps) \<Rightarrow>
     (case async_write_frame rd wr polls hs ps a of
        None \<Rightarrow> None
      | Some (Inl e, a') \<Rightarrow> Some (Return False, rt\<lparr>rt_socket := Some a'\<rparr>)
      | Some (Inr _, a') \<Rightarrow>
          Some (Continue, rt\<lparr>rt_socket := Some a',
            rt_bytes_sent := rt_bytes_sent rt + of_nat (length hs + length ps),
            rt_tasks_completed := rt_tasks_completed rt + 1\<rparr>))))))"

definition async_round ::
  "'s try_read_fn \<Rightarrow> 's try_write_fn \<Rightarrow> nat \<Rightarrow> SkillRegistry \<Rightarrow> int \<Rightarrow>
   's CoroSocketAdapter Runtime \<Rightarrow> (round \<times> 's CoroSocketAdapter Runtime) option" where
  "async_round rd wr polls reg now rt =
     (case rt_socket rt of
        None \<Rightarrow> Some (Return False, rt)
      | Some a \<Rightarrow>
     (case await_read rd wr polls kHeaderSize a of
        None \<Rightarrow> None
      | Some (Inl e, a1) \<Rightarrow> Some (Return False, rt\<lparr>rt_socket := Some a1\<rparr>)
      | Some (Inr hb, a1) \<Rightarrow>
          let h = the (header_of_bytes hb);
              rt1 = rt\<lparr>rt_socket := Some a1, rt_bytes_received := rt_bytes_received rt + of_nat kHeaderSize\<rparr> in
     (case async_read_body rd wr polls h a1 of
        None \<Rightarrow> None
      | Some (Inl e, a2) \<Rightarrow> Some (Return False, rt1\<lparr>rt_socket := Some a2\<rparr>)
      | Some (Inr body, a2) \<Rightarrow>
          async_respond rd wr polls reg now h body a2
            (rt1\<lparr>rt_socket := Some a2,
                 rt_bytes_received := rt_bytes_received rt1 + of_nat (length body)\<rparr>))))"

definition async_run_loop ::
  "'s try_read_fn \<Rightarrow> 's try_write_fn \<Rightarrow> nat \<Rightarrow> SkillRegistry \<Rightarrow> int \<Rightarrow>
   ('s CoroSocketAdapter Runtime \<Rightarrow> 's CoroSocketAdapter Runtime) \<Rightarrow> nat \<Rightarrow>
   's CoroSocketAdapter Runtime \<Rightarrow> (bool result \<times> 's CoroSocketAdapter Runtime) option" where
  "async_run_loop rd wr polls reg now env fuel rt =
     run_loop_with (async_round rd wr polls reg now) env fuel rt"

text \<open>
  The greeting of the asynchronous runtime goes through the blocking interface of the
  wrapped stream; \<open>io\<close> is \<open>None\<close> when the stream does not have that interface.
\<close>

definition send_greeting_via_underlying_stream ::
  "'s IBlockingStream option \<Rightarrow> 's CoroSocketAdapter \<Rightarrow>
   (bool \<times> errc option \<times> 's CoroSocketAdapter) option" where
  "send_greeting_via_underlying_stream io a =
     (case ad_socket a of
        None \<Rightarrow> Some (False, Some bad_file_descriptor, a)
      | Some s \<Rightarrow>
          (case io of
             None \<Rightarrow> Some (False, Some operation_not_supported, a)
           | Some b \<Rightarrow>
               (case greeting_loop b (greeting_to_bytes (worker_greeting (bs_node_id b s))) 0 s of
                  None \<Rightarrow> None
                | Some (ok, e, s') \<Rightarrow> Some (ok, e, a\<lparr>ad_socket := Some s'\<rparr>))))"

text \<open>
  The connection operations of the asynchronous runtime are those of the blocking one on the
  adapter, which forwards them to the stream it wraps. The adapter has no blocking read and
  write.
\<close>

definition adapter_connect ::
  "'s IBlockingStream \<Rightarrow> string \<Rightarrow> int \<Rightarrow> 's CoroSocketAdapter \<Rightarrow>
   (errc option result \<times> 's CoroSocketAdapter) option" where
  "adapter_connect io host port a =
     (case ad_socket a of
        None \<Rightarrow> Some (Inr (Some bad_file_descriptor), a)
      | Some s \<Rightarrow>
          (case bs_connect io host port s of
             None \<Rightarrow> None
           | Some (r, s') \<Rightarrow> Some (r, a\<lparr>ad_socket := Some s'\<rparr>)))"

definition adapter_close :: "'s IBlockingStream \<Rightarrow> 's CoroSocketAdapter \<Rightarrow> 's CoroSocketAdapter" where
  "adapter_close io a = a\<lparr>ad_socket := map_option (bs_close io) (ad_socket a)\<rparr>"

definition adapter_shutdown :: "'s IBlockingStream \<Rightarrow> 's CoroSocketAdapter \<Rightarrow> 's CoroSocketAdapter" where
  "adapter_shutdown io a = a\<lparr>ad_socket := map_option (bs_shutdown io) (ad_socket a)\<rparr>"

definition adapter_is_open :: "'s IBlockingStream \<Rightarrow> 's CoroSocketAdapter \<Rightarrow> bool" where
  "adapter_is_open io a = (case ad_socket a of None \<Rightarrow> False | Some s \<Rightarrow> bs_is_open io s)"

definition adapter_stream :: "'s IBlockingStream \<Rightarrow> 's CoroSocketAdapter IBlockingStream" where
  "adapter_stream io =
     \<lparr>bs_read = (\<lambda>_ _. None), bs_write = (\<lambda>_ _. None), bs_connect = adapter_connect io,
      bs_is_open = adapter_is_open io, bs_close = adapter_close io, bs_shutdown = adapter_shutdown io,
      bs_node_id = (\<lambda>a. case ad_socket a of None \<Rightarrow> 0 | Some s \<Rightarrow> bs_node_id io s),
      bs_local_endpoint = (\<lambda>a. case ad_socket a of None \<Rightarrow> [] | Some s \<Rightarrow> bs_local_endpoint io s)\<rparr>"

definition async_connect ::
  "'s IBlockingStream \<Rightarrow> 's CoroSocketAdapter option result \<Rightarrow> 's CoroSocketAdapter Runtime \<Rightarrow>
   (bool \<times> 's CoroSocketAdapter Runtime) option" where
  "async_connect io create rt =
     runtime_connect (adapter_stream io) (send_greeting_via_underlying_stream (Some io)) create rt"

definition async_disconnect ::
  "'s IBlockingStream \<Rightarrow> 's CoroSocketAdapter Runtime \<Rightarrow> 's CoroSocketAdapter Runtime" where
  "async_disconnect io rt = runtime_disconnect (adapter_stream io) rt"

definition async_shutdown ::
  "'s IBlockingStream \<Rightarrow> 's CoroSocketAdapter Runtime \<Rightarrow> 's CoroSocketAdapter Runtime" where
  "async_shutdown io rt = runtime_shutdown (adapter_stream io) rt"

definition async_is_connected :: "'s IBlockingStream \<Rightarrow> 's CoroSocketAdapter Runtime \<Rightarrow> bool" where
  "async_is_connected io rt = runtime_is_connected (adapter_stream io) rt"

subsection \<open>The answer to a request frame\<close>

definition response_frame :: "u32 \<Rightarrow> PayloadBuffer \<Rightarrow> bytes option" where
  "response_frame tid b =
     (if length (pb_data b) > uint32_max then None
      else Some (header_to_bytes \<lparr>task_id = tid, body_size = of_nat (length (pb_data b)),
                                  skill_id = pb_skill_id b\<rparr> @ pb_data b))"

definition answer :: "SkillRegistry \<Rightarrow> TaskHeader \<Rightarrow> bytes \<Rightarrow> bytes option" where
  "answer reg h body =
     (case create_response_buffer (skill_id h) body reg of
        None \<Rightarrow> None
      | Some buf \<Rightarrow>
          (case dispatch (skill_id h) body (pb_data buf) reg of
             (False, _) \<Rightarrow> None
           | (True, out) \<Rightarrow> response_frame (task_id h) (buf\<lparr>pb_data := out\<rparr>)))"

text \<open>Requests and the answers to them, in order.\<close>

definition answered :: "SkillRegistry \<Rightarrow> (TaskHeader \<times> bytes) list \<Rightarrow> bytes list \<Rightarrow> bool" where
  "answered reg fs outs \<longleftrightarrow>
     list_all2 (\<lambda>(h, body) out. length body = unat (body_size h) \<and> answer reg h body = Some out) fs outs"

definition frames :: "(TaskHeader \<times> bytes) list \<Rightarrow> bytes" where
  "frames fs = concat (map (\<lambda>(h, body). header_to_bytes h @ body) fs)"

lemma new_message_frame:
  "TaskMessage_new now tid (Some b) = Inr m \<Longrightarrow>
     response_frame tid b = Some (fst (wire_bytes m) @ snd (wire_bytes m))"
  by (auto simp: TaskMessage_new_def validated_payload_size_def response_frame_def wire_bytes_eq
      payload_def pb_size_def split: if_splits)

lemma new_message_error:
  "TaskMessage_new now tid (Some b) = Inl e \<Longrightarrow> e = length_error \<and> response_frame tid b = None"
  by (auto simp: TaskMessage_new_def validated_payload_size_def response_frame_def
      pb_size_def split: if_splits)

subsection \<open>The contract of one round\<close>

text \<open>
  What the loop relies on: a round that goes on has read one request frame from the stream
  and written exactly its answer; a round that stops has written nothing, or a beginning of
  the answer to the frame it had read. The counters follow what was transferred.
\<close>

locale runtime_round =
  fixes body :: "'s Runtime \<Rightarrow> (round \<times> 's Runtime) option"
    and rx :: "'s \<Rightarrow> bytes" and tx :: "'s \<Rightarrow> bytes" and reg :: SkillRegistry
  assumes goes_on: "body rt = Some (Continue, rt') \<Longrightarrow> rt_socket rt = Some s \<Longrightarrow>
      \<exists>s' h b out. rt_socket rt' = Some s' \<and> rx s = header_to_bytes h @ b @ rx s'
        \<and> tx s' = tx s @ out \<and> length b = unat (body_size h) \<and> answer reg h b = Some out
        \<and> rt_tasks_completed rt' = rt_tasks_completed rt + 1
        \<and> rt_bytes_sent rt' = rt_bytes_sent rt + of_nat (length out)
        \<and> rt_bytes_received rt' = rt_bytes_received rt + of_nat (kHeaderSize + length b)"
    and stops: "body rt = Some (r, rt') \<Longrightarrow> r \<noteq> Continue \<Longrightarrow> rt_socket rt = Some s \<Longrightarrow>
      r \<noteq> Return True \<and> (\<exists>s' got part. rt_socket rt' = Some s' \<and> rx s = got @ rx s'
        \<and> tx s' = tx s @ part \<and> rt_tasks_completed rt' = rt_tasks_completed rt
        \<and> rt_bytes_sent rt' = rt_bytes_sent rt
        \<and> (part \<noteq> [] \<longrightarrow> (\<exists>h b more. got = header_to_bytes h @ b \<and> answer reg h b = Some (part @ more))))"

text \<open>Other threads may set flags and close the socket but do not touch streams and counters.\<close>

definition env_ok :: "('s \<Rightarrow> bytes) \<Rightarrow> ('s \<Rightarrow> bytes) \<Rightarrow> ('s Runtime \<Rightarrow> 's Runtime) \<Rightarrow> bool" where
  "env_ok rx tx env \<longleftrightarrow>
     (\<forall>rt s. rt_socket rt = Some s \<longrightarrow>
        (\<exists>s'. rt_socket (env rt) = Some s' \<and> rx s' = rx s \<and> tx s' = tx s)
        \<and> rt_tasks_completed (env rt) = rt_tasks_completed rt
        \<and> rt_bytes_sent (env rt) = rt_bytes_sent rt \<and> rt_bytes_received (env rt) = rt_bytes_received rt)"

text \<open>What a finished loop has done on the stream.\<close>

definition loop_done ::
  "SkillRegistry \<Rightarrow> ('s \<Rightarrow> bytes) \<Rightarrow> ('s \<Rightarrow> bytes) \<Rightarrow> 's \<Rightarrow> 's Runtime \<Rightarrow> bool result \<Rightarrow> 's Runtime \<Rightarrow> bool" where
  "loop_done reg rx tx s rt res rt' \<longleftrightarrow>
     (\<exists>s' fs outs got part. rt_socket rt' = Some s' \<and> answered reg fs outs
        \<and> rx s = frames fs @ got @ rx s' \<and> tx s' = tx s @ concat outs @ part
        \<and> rt_tasks_completed rt' = rt_tasks_completed rt + of_nat (length fs)
        \<and> rt_bytes_sent rt' = rt_bytes_sent rt + of_nat (length (concat outs))
        \<and> (part \<noteq> [] \<longrightarrow> (\<exists>h b more. got = header_to_bytes h @ b \<and> answer reg h b = Some (part @ more)))
        \<and> (res = Inr True \<longrightarrow> got = [] \<and> part = []
             \<and> rt_bytes_received rt' = rt_bytes_received rt + of_nat (length (frames fs))))"

context runtime_round
begin

lemma loop_serves:
  assumes "env_ok rx tx env" "runtime_loop body env fuel rt = Some (res, rt')" "rt_socket rt = Some s"
  shows "loop_done reg rx tx s rt res rt'"
  using assms(2,3)
proof (induction fuel arbitrary: rt s)
  case (Suc fuel)
  let ?rt = "env rt"
  obtain s0 where s0: "rt_socket ?rt = Some s0" "rx s0 = rx s" "tx s0 = tx s"
      "rt_tasks_completed ?rt = rt_tasks_completed rt" "rt_bytes_sent ?rt = rt_bytes_sent rt"
      "rt_bytes_received ?rt = rt_bytes_received rt"
    using assms(1) Suc.prems(2) unfolding env_ok_def by blast
  show ?case
  proof (cases "rt_pause_requested ?rt")
    case True
    then have "res = Inr True" "rt' = ?rt\<lparr>rt_pause_requested := False\<rparr>"
      using Suc.prems(1) by (auto simp: Let_def)
    then show ?thesis using s0 unfolding loop_done_def
      by (intro exI [of _ s0] exI [of _ "[]"]) (simp add: answered_def frames_def)
  next
    case False
    then obtain r rt1 where r: "body ?rt = Some (r, rt1)"
      using Suc.prems(1) by (auto simp: Let_def split: option.splits)
    show ?thesis
    proof (cases "r = Continue")
      case True
      then have loop: "runtime_loop body env fuel rt1 = Some (res, rt')"
        using Suc.prems(1) False r by (simp add: Let_def)
      obtain s1 h b out where c: "rt_socket rt1 = Some s1" "rx s0 = header_to_bytes h @ b @ rx s1"
          "tx s1 = tx s0 @ out" "length b = unat (body_size h)" "answer reg h b = Some out"
          "rt_tasks_completed rt1 = rt_tasks_completed ?rt + 1"
          "rt_bytes_sent rt1 = rt_bytes_sent ?rt + of_nat (length out)"
          "rt_bytes_received rt1 = rt_bytes_received ?rt + of_nat (kHeaderSize + length b)"
        using goes_on [OF r [unfolded True] s0(1)] by blast
      obtain s' fs outs got part where d: "rt_socket rt' = Some s'" "answered reg fs outs"
          "rx s1 = frames fs @ got @ rx s'" "tx s' = tx s1 @ concat outs @ part"
          "rt_tasks_completed rt' = rt_tasks_completed rt1 + of_nat (length fs)"
          "rt_bytes_sent rt' = rt_bytes_sent rt1 + of_nat (length (concat outs))"
          "part \<noteq> [] \<longrightarrow> (\<exists>h b more. got = header_to_bytes h @ b \<and> answer reg h b = Some (part @ more))"
          "res = Inr True \<longrightarrow> got = [] \<and> part = []
             \<and> rt_bytes_received rt' = rt_bytes_received rt1 + of_nat (length (frames fs))"
        using Suc.IH [OF loop c(1)] unfolding loop_done_def by blast
      have "answered reg ((h, b) # fs) (out # outs)" using c(4,5) d(2) by (simp add: answered_def)
      moreover have "rx s = frames ((h, b) # fs) @ got @ rx s'" using c d s0 by (simp add: frames_def)
      moreover have "tx s' = tx s @ concat (out # outs) @ part" using c d s0 by simp
      moreover have "rt_tasks_completed rt' = rt_tasks_completed rt + of_nat (length ((h, b) # fs))"
        using c d s0 by simp
      moreover have "rt_bytes_sent rt' = rt_bytes_sent rt + of_nat (length (concat (out # outs)))"
        using c d s0 by simp
      moreover have "res = Inr True \<longrightarrow> got = [] \<and> part = []
             \<and> rt_bytes_received rt' = rt_bytes_received rt + of_nat (length (frames ((h, b) # fs)))"
        using c d s0 by (auto simp: frames_def)
      ultimately show ?thesis using d(1,7) unfolding loop_done_def by blast
    next
      case stop: False
      obtain s' got part where c: "r \<noteq> Return True" "rt_socket rt1 = Some s'" "rx s0 = got @ rx s'"
          "tx s' = tx s0 @ part" "rt_tasks_completed rt1 = rt_tasks_completed ?rt"
          "rt_bytes_sent rt1 = rt_bytes_sent ?rt"
          "part \<noteq> [] \<longrightarrow> (\<exists>h b more. got = header_to_bytes h @ b \<and> answer reg h b = Some (part @ more))"
        using stops [OF r stop s0(1)] by blast
      have "rt' = rt1 \<and> res \<noteq> Inr True"
        using Suc.prems(1) False r stop c(1) by (cases r) (auto simp: Let_def)
      then show ?thesis using c s0 unfolding loop_done_def
        by (intro exI [of _ s'] exI [of _ "[]"] exI [of _ got] exI [of _ part])
          (simp add: answered_def frames_def)
    qed
  qed
qed simp

lemma run_loop_serves:
  assumes "env_ok rx tx env" "run_loop_with body env fuel rt = Some (res, rt')" "rt_socket rt = Some s"
  shows "loop_done reg rx tx s rt res rt'"
  using loop_serves [OF assms(1), of fuel
      "rt\<lparr>rt_pause_requested := False, rt_disconnect_requested := False\<rparr>" res rt' s] assms(2,3)
  by (simp add: run_loop_with_def loop_done_def)

end

subsection \<open>The blocking runtime keeps the contract\<close>

locale worker_stream = blocking_stream "bs_read io" "bs_write io" rx tx
  for io :: "'s IBlockingStream" and rx :: "'s \<Rightarrow> bytes" and tx :: "'s \<Rightarrow> bytes"
begin

lemma read_task_error:
  "read_task io s = Some (Inl e, s') \<Longrightarrow> tx s' = tx s \<and> (\<exists>got. rx s = got @ rx s')"
  by (auto simp: read_task_def Let_def split: option.splits prod.splits if_splits dest!: rdb_order)

lemma read_task_ok:
  "read_task io s = Some (Inr (h, body, n), s') \<Longrightarrow>
     tx s' = tx s \<and> rx s = header_to_bytes h @ body @ rx s' \<and> length body = unat (body_size h)
     \<and> n = of_nat (kHeaderSize + length body)"
  by (auto simp: read_task_def Let_def hdr.dec_Some_iff unat_eq_0 split: option.splits prod.splits if_splits
      dest!: rdb_order)

lemma write_response_error:
  "write_response io now tid (Some b) s = Some (Inl e, s') \<Longrightarrow>
     rx s' = rx s \<and> (\<exists>part. tx s' = tx s @ part
       \<and> (part \<noteq> [] \<longrightarrow> (\<exists>more. response_frame tid b = Some (part @ more))))"
proof (cases "TaskMessage_new now tid (Some b)")
  case (Inr m)
  assume w: "write_response io now tid (Some b) s = Some (Inl e, s')"
  obtain hs ps where hp: "wire_bytes m = (hs, ps)" by force
  have f: "response_frame tid b = Some (hs @ ps)" using new_message_frame [OF Inr] hp by simp
  have p1: "response_frame tid b = Some (take n hs @ (drop n hs @ ps))" for n using f by simp
  have p2: "response_frame tid b = Some ((hs @ take n ps) @ drop n ps)" for n using f by simp
  obtain n e1 s1 where w1: "bs_write io s hs = Some (n, e1, s1)"
    using w Inr hp by (auto simp: write_response_def split: option.splits)
  note o1 = wrb_order [OF w1]
  show ?thesis
  proof (cases "e1 \<noteq> None \<or> n \<noteq> length hs")
    case True
    then have "s' = s1" using w Inr hp w1 by (auto simp: write_response_def split: option.splits if_splits)
    then show ?thesis using o1 p1 [of n] by auto
  next
    case False
    then obtain n2 e2 where w2: "bs_write io s1 ps = Some (n2, e2, s')"
      using w Inr hp w1 by (auto simp: write_response_def split: option.splits if_splits)
    have "tx s' = tx s @ (hs @ take n2 ps)" "rx s' = rx s" using o1 wrb_order [OF w2] False by auto
    then show ?thesis using p2 [of n2] by blast
  qed
qed (auto simp: write_response_def)

lemma write_response_ok:
  "write_response io now tid (Some b) s = Some (Inr n, s') \<Longrightarrow>
     rx s' = rx s \<and> (\<exists>out. response_frame tid b = Some out \<and> tx s' = tx s @ out \<and> n = of_nat (length out))"
  by (auto simp: write_response_def new_message_frame dest!: wrb_order
      split: option.splits prod.splits if_splits sum.splits)

lemma blocking_goes_on:
  assumes "blocking_round io reg now rt = Some (Continue, rt')" "rt_socket rt = Some s"
  shows "\<exists>s' h b out. rt_socket rt' = Some s' \<and> rx s = header_to_bytes h @ b @ rx s'
        \<and> tx s' = tx s @ out \<and> length b = unat (body_size h) \<and> answer reg h b = Some out
        \<and> rt_tasks_completed rt' = rt_tasks_completed rt + 1
        \<and> rt_bytes_sent rt' = rt_bytes_sent rt + of_nat (length out)
        \<and> rt_bytes_received rt' = rt_bytes_received rt + of_nat (kHeaderSize + length b)"
proof -
  obtain h b n s1 buf out w s2 where
      r: "read_task io s = Some (Inr (h, b, n), s1)"
      "create_response_buffer (skill_id h) b reg = Some buf"
      "dispatch (skill_id h) b (pb_data buf) reg = (True, out)"
      "write_response io now (task_id h) (Some (buf\<lparr>pb_data := out\<rparr>)) s1 = Some (Inr w, s2)"
    and rt': "rt' = rt\<lparr>rt_socket := Some s2, rt_bytes_received := rt_bytes_received rt + n,
        rt_bytes_sent := rt_bytes_sent rt + w, rt_tasks_completed := rt_tasks_completed rt + 1\<rparr>"
    using assms by (auto simp: blocking_round_def process_def Let_def
        split: option.splits prod.splits sum.splits bool.splits exn.splits)
  from read_task_ok [OF r(1)] write_response_ok [OF r(4)] r(2,3) show ?thesis
    by (auto simp: rt' answer_def)
qed

lemma blocking_stops:
  assumes "blocking_round io reg now rt = Some (r, rt')" "r \<noteq> Continue" "rt_socket rt = Some s"
  shows "r \<noteq> Return True \<and> (\<exists>s' got part. rt_socket rt' = Some s' \<and> rx s = got @ rx s'
        \<and> tx s' = tx s @ part \<and> rt_tasks_completed rt' = rt_tasks_completed rt
        \<and> rt_bytes_sent rt' = rt_bytes_sent rt
        \<and> (part \<noteq> [] \<longrightarrow> (\<exists>h b more. got = header_to_bytes h @ b \<and> answer reg h b = Some (part @ more))))"
proof -
  obtain t s1 where t: "read_task io s = Some (t, s1)"
    using assms by (auto simp: blocking_round_def split: option.splits)
  show ?thesis
  proof (cases t)
    case (Inl e)
    then show ?thesis using assms t read_task_error [of s e s1] by (auto simp: blocking_round_def)
  next
    case (Inr x)
    obtain h b n where x: "x = (h, b, n)" by (cases x)
    note ok = read_task_ok [OF t [unfolded Inr x]]
    define rt1 where "rt1 = rt\<lparr>rt_socket := Some s1, rt_bytes_received := rt_bytes_received rt + n\<rparr>"
    have quiet: ?thesis if "rt' = rt1" "r = Return False"
      using that ok by (auto simp: rt1_def)
    show ?thesis
    proof (cases "create_response_buffer (skill_id h) b reg")
      case None
      then have "rt' = rt1 \<and> r = Return False"
        using assms t Inr x by (auto simp: blocking_round_def rt1_def)
      then show ?thesis using quiet by blast
    next
      case (Some buf)
      obtain good out where d: "dispatch (skill_id h) b (pb_data buf) reg = (good, out)" by force
      show ?thesis
      proof (cases good)
        case False
        then have "rt' = rt1 \<and> r = Return False"
          using assms t Inr x Some d by (auto simp: blocking_round_def process_def rt1_def)
        then show ?thesis using quiet by blast
      next
        case True
        obtain e s2 where w: "write_response io now (task_id h) (Some (buf\<lparr>pb_data := out\<rparr>)) s1 = Some (Inl e, s2)"
            and rt': "rt' = rt1\<lparr>rt_socket := Some s2\<rparr>" "r \<noteq> Return True"
          using assms t Inr x Some d True
          by (auto simp: blocking_round_def process_def Let_def rt1_def split: option.splits sum.splits exn.splits)
        have a: "answer reg h b = response_frame (task_id h) (buf\<lparr>pb_data := out\<rparr>)"
          using Some d True by (simp add: answer_def)
        obtain part where p: "rx s2 = rx s1" "tx s2 = tx s1 @ part"
            "part \<noteq> [] \<longrightarrow> (\<exists>more. answer reg h b = Some (part @ more))"
          using write_response_error [OF w] a by auto
        then show ?thesis using ok rt' by (auto simp: rt1_def)
      qed
    qed
  qed
qed

end

sublocale worker_stream \<subseteq> blk: runtime_round "blocking_round io reg now" rx tx reg for reg now
  by unfold_locales (fact blocking_goes_on, fact blocking_stops)

context worker_stream
begin

lemmas blocking_contract = blk.runtime_round_axioms

end

subsection \<open>The asynchronous runtime keeps the contract\<close>

definition adapter_view :: "('s \<Rightarrow> bytes) \<Rightarrow> 's CoroSocketAdapter \<Rightarrow> bytes" where
  "adapter_view f a = (case ad_socket a of None \<Rightarrow> [] | Some s \<Rightarrow> f s)"

lemma drive_no_socket:
  "ad_socket a = None \<Longrightarrow> ad_op a \<noteq> OP_NONE \<Longrightarrow> drive rd wr k a = Some a' \<Longrightarrow>
     ad_socket a' = None \<and> ad_error a' = Some bad_file_descriptor"
  by (cases k; cases "ad_op a")
    (auto simp: try_complete_current_operation_def complete_read_def complete_write_def)

context async_stream
begin

lemma write_partial:
  assumes "writing rx tx buf r0 t0 a" "drive rd wr k a = Some a'"
  shows "\<exists>s'. ad_socket a' = Some s' \<and> tx s' = t0 @ take (ad_transferred a') buf \<and> rx s' = r0"
  using assms
proof (induction k arbitrary: a)
  case (Suc k)
  obtain f b where fb: "complete_write wr a = (f, b)" by force
  note eq = complete_write_drive [OF Suc.prems(1), of rd wr]
  show ?case
  proof (cases f)
    case True
    then have "b = a'" using Suc.prems(2) eq fb by simp
    then show ?thesis using writing_step(3) [OF Suc.prems(1) fb True] by auto
  next
    case False
    have "drive rd wr k b = Some a'" using Suc.prems(2) eq fb False by simp
    from Suc.IH [OF writing_step(2) [OF Suc.prems(1) fb False] this] show ?thesis .
  qed
qed simp

lemma await_read_spec:
  assumes "await_read rd wr polls n a = Some (r, a')"
  shows "adapter_view tx a' = adapter_view tx a \<and> (\<exists>got. adapter_view rx a = got @ adapter_view rx a'
    \<and> (\<forall>bs. r = Inr bs \<longrightarrow> bs = got \<and> length bs = n))"
proof -
  let ?a = "start_read OP_READ (replicate n 0) n a"
  have d: "drive rd wr polls ?a = Some a'"
    and r: "r = (case io_await_resume a' of Inl e \<Rightarrow> Inl e | Inr _ \<Rightarrow> Inr (ad_rbuf a'))"
    using assms by (auto simp: await_read_def split: option.splits)
  show ?thesis
  proof (cases "ad_socket a")
    case None
    have "ad_socket a' = None \<and> ad_error a' = Some bad_file_descriptor"
      using drive_no_socket [OF _ _ d] None by (simp add: start_read_def prepare_read_operation_def)
    then show ?thesis using r None by (simp add: adapter_view_def io_await_resume_def)
  next
    case (Some s)
    then have st: "reading rx tx n (rx s) (tx s) ?a" by (intro reading_start) auto
    show ?thesis
    proof (cases "ad_error a'")
      case None
      from read_exact [OF st d this] obtain s' where s': "ad_socket a' = Some s'"
          "ad_rbuf a' = take n (rx s)" "length (ad_rbuf a') = n" "rx s' = drop n (rx s)" "tx s' = tx s"
          "io_await_resume a' = Inr n" by blast
      then have "rx s = ad_rbuf a' @ rx s'" by simp
      then show ?thesis using s' r Some by (simp add: adapter_view_def)
    next
      case e: (Some e)
      with read_partial [OF st d] r Some show ?thesis
        by (auto simp: adapter_view_def io_await_resume_def)
    qed
  qed
qed

lemma await_write_spec:
  assumes "await_write rd wr polls buf a = Some (r, a')"
  shows "adapter_view rx a' = adapter_view rx a \<and> (\<exists>n. adapter_view tx a' = adapter_view tx a @ take n buf
    \<and> (\<forall>k. r = Inr k \<longrightarrow> n = length buf))"
proof -
  let ?a = "start_write buf (length buf) a"
  have d: "drive rd wr polls ?a = Some a'" and r: "r = io_await_resume a'"
    using assms by (auto simp: await_write_def split: option.splits)
  show ?thesis
  proof (cases "ad_socket a")
    case None
    have "ad_socket a' = None \<and> ad_error a' = Some bad_file_descriptor"
      using drive_no_socket [OF _ _ d] None by (simp add: start_write_def prepare_write_operation_def)
    then show ?thesis using r None by (auto simp: adapter_view_def io_await_resume_def)
  next
    case (Some s)
    then have st: "writing rx tx buf (rx s) (tx s) ?a" by (rule writing_start)
    show ?thesis
    proof (cases "ad_error a'")
      case None
      with write_exact [OF st d] r Some show ?thesis by (auto simp: adapter_view_def)
    next
      case e: (Some e)
      with write_partial [OF st d] r Some show ?thesis
        by (auto simp: adapter_view_def io_await_resume_def)
    qed
  qed
qed

lemma async_read_body_spec:
  assumes "async_read_body rd wr polls h a = Some (r, a')"
  shows "adapter_view tx a' = adapter_view tx a \<and> (\<exists>got. adapter_view rx a = got @ adapter_view rx a'
    \<and> (\<forall>bs. r = Inr bs \<longrightarrow> bs = got \<and> length bs = unat (body_size h)))"
  using assms await_read_spec [of polls "unat (body_size h)" a r a']
  by (auto simp: async_read_body_def word_gt_0 split: if_splits)

lemma async_write_frame_spec:
  assumes "async_write_frame rd wr polls hs ps a = Some (r, a')"
  shows "adapter_view rx a' = adapter_view rx a \<and> (\<exists>part more. adapter_view tx a' = adapter_view tx a @ part
    \<and> hs @ ps = part @ more \<and> (\<forall>k. r = Inr k \<longrightarrow> more = []))"
proof -
  obtain r1 a1 where w1: "await_write rd wr polls hs a = Some (r1, a1)"
    using assms by (auto simp: async_write_frame_def split: option.splits)
  obtain n where n: "adapter_view rx a1 = adapter_view rx a"
      "adapter_view tx a1 = adapter_view tx a @ take n hs" "\<forall>k. r1 = Inr k \<longrightarrow> n = length hs"
    using await_write_spec [OF w1] by auto
  show ?thesis
  proof (cases r1)
    case (Inl e)
    then have "a' = a1 \<and> r = Inl e" using assms w1 by (simp add: async_write_frame_def)
    then show ?thesis using n by (intro conjI exI [of _ "take n hs"] exI [of _ "drop n hs @ ps"]) auto
  next
    case (Inr k)
    show ?thesis
    proof (cases "ps = []")
      case True
      then have "a' = a1" using assms w1 Inr by (simp add: async_write_frame_def)
      then show ?thesis using n True Inr by auto
    next
      case False
      then have w2: "await_write rd wr polls ps a1 = Some (r, a')"
        using assms w1 Inr by (simp add: async_write_frame_def)
      obtain m where m: "adapter_view rx a' = adapter_view rx a1"
          "adapter_view tx a' = adapter_view tx a1 @ take m ps" "\<forall>k. r = Inr k \<longrightarrow> m = length ps"
        using await_write_spec [OF w2] by auto
      then show ?thesis using n Inr
        by (intro conjI exI [of _ "hs @ take m ps"] exI [of _ "drop m ps"]) auto
    qed
  qed
qed

lemma async_respond_cases:
  assumes "async_respond rd wr polls reg now h b a rt = Some (r, rt')" "rt_socket rt = Some a"
  shows "(r \<in> {Return False, Throw length_error} \<and> rt' = rt)
    \<or> (\<exists>a' part more. answer reg h b = Some (part @ more) \<and> rt_socket rt' = Some a'
         \<and> adapter_view rx a' = adapter_view rx a \<and> adapter_view tx a' = adapter_view tx a @ part
         \<and> rt_bytes_received rt' = rt_bytes_received rt
         \<and> (r = Return False \<and> rt_tasks_completed rt' = rt_tasks_completed rt
                   \<and> rt_bytes_sent rt' = rt_bytes_sent rt
            \<or> r = Continue \<and> more = [] \<and> rt_tasks_completed rt' = rt_tasks_completed rt + 1
                   \<and> rt_bytes_sent rt' = rt_bytes_sent rt + of_nat (length part)))"
proof (cases "answer reg h b")
  case None
  then show ?thesis
    using assms new_message_error new_message_frame
    by (fastforce simp: async_respond_def answer_def process_def
        split: option.splits prod.splits sum.splits bool.splits)
next
  case (Some out)
  then obtain hs ps w a' where w: "out = hs @ ps" "async_write_frame rd wr polls hs ps a = Some (w, a')"
      "rt_socket rt' = Some a'" "rt_bytes_received rt' = rt_bytes_received rt"
      "(\<exists>e. w = Inl e) \<and> r = Return False \<and> rt_tasks_completed rt' = rt_tasks_completed rt
             \<and> rt_bytes_sent rt' = rt_bytes_sent rt
         \<or> (\<exists>n. w = Inr n) \<and> r = Continue \<and> rt_tasks_completed rt' = rt_tasks_completed rt + 1
             \<and> rt_bytes_sent rt' = rt_bytes_sent rt + of_nat (length (hs @ ps))"
    using assms new_message_error new_message_frame
    by (fastforce simp: async_respond_def answer_def process_def
        split: option.splits prod.splits sum.splits bool.splits)
  obtain part more where p: "adapter_view rx a' = adapter_view rx a"
      "adapter_view tx a' = adapter_view tx a @ part" "hs @ ps = part @ more" "\<And>k. w = Inr k \<Longrightarrow> more = []"
    using async_write_frame_spec [OF w(2)] by blast
  from w(5) have "r = Return False \<and> rt_tasks_completed rt' = rt_tasks_completed rt
                   \<and> rt_bytes_sent rt' = rt_bytes_sent rt
            \<or> r = Continue \<and> more = [] \<and> rt_tasks_completed rt' = rt_tasks_completed rt + 1
                   \<and> rt_bytes_sent rt' = rt_bytes_sent rt + of_nat (length part)"
    using p(3,4) by auto
  then show ?thesis using Some w p by auto
qed

text \<open>A round reads a frame and responds to it, or stops while reading.\<close>

lemma async_round_cases:
  assumes "async_round rd wr polls reg now rt = Some (r, rt')" "rt_socket rt = Some a"
  shows "\<exists>got a1. adapter_view rx a = got @ adapter_view rx a1 \<and> adapter_view tx a1 = adapter_view tx a
    \<and> ((r = Return False \<and> rt_socket rt' = Some a1
         \<and> rt_tasks_completed rt' = rt_tasks_completed rt \<and> rt_bytes_sent rt' = rt_bytes_sent rt)
       \<or> (\<exists>h b. got = header_to_bytes h @ b \<and> length b = unat (body_size h)
            \<and> async_respond rd wr polls reg now h b a1 (rt\<lparr>rt_socket := Some a1,
                rt_bytes_received := rt_bytes_received rt + of_nat (kHeaderSize + length b)\<rparr>) = Some (r, rt')))"
proof -
  obtain r1 a1 where a1: "await_read rd wr polls kHeaderSize a = Some (r1, a1)"
    using assms by (auto simp: async_round_def split: option.splits)
  obtain g1 where g1: "adapter_view tx a1 = adapter_view tx a" "adapter_view rx a = g1 @ adapter_view rx a1"
      "\<And>bs. r1 = Inr bs \<Longrightarrow> bs = g1 \<and> length bs = kHeaderSize"
    using await_read_spec [OF a1] by blast
  show ?thesis
  proof (cases r1)
    case (Inl e)
    then have "r = Return False \<and> rt' = rt\<lparr>rt_socket := Some a1\<rparr>"
      using assms a1 by (auto simp: async_round_def)
    then show ?thesis using g1 by (intro exI [of _ g1] exI [of _ a1]) simp
  next
    case (Inr hb)
    obtain h where h: "header_of_bytes hb = Some h" "hb = header_to_bytes h"
      using g1(3) [OF Inr] hdr.dec_total [of hb] hdr.dec_Some_iff by auto
    obtain r2 a2 where a2: "async_read_body rd wr polls h a1 = Some (r2, a2)"
      using assms a1 Inr h by (auto simp: async_round_def Let_def split: option.splits)
    obtain g2 where g2: "adapter_view tx a2 = adapter_view tx a1" "adapter_view rx a1 = g2 @ adapter_view rx a2"
        "\<And>bs. r2 = Inr bs \<Longrightarrow> bs = g2 \<and> length bs = unat (body_size h)"
      using async_read_body_spec [OF a2] by blast
    have cons: "adapter_view rx a = (g1 @ g2) @ adapter_view rx a2" "adapter_view tx a2 = adapter_view tx a"
      using g1 g2 by simp_all
    show ?thesis
    proof (cases r2)
      case Inl2: (Inl e)
      then have "r = Return False \<and> rt_socket rt' = Some a2
         \<and> rt_tasks_completed rt' = rt_tasks_completed rt \<and> rt_bytes_sent rt' = rt_bytes_sent rt"
        using assms a1 Inr h a2 by (auto simp: async_round_def Let_def)
      then show ?thesis using cons by (intro exI [of _ "g1 @ g2"] exI [of _ a2]) simp
    next
      case Inr2: (Inr b)
      have "g1 @ g2 = header_to_bytes h @ b" "length b = unat (body_size h)"
        using g1(3) [OF Inr] g2(3) [OF Inr2] h by auto
      moreover have "async_respond rd wr polls reg now h b a2 (rt\<lparr>rt_socket := Some a2,
          rt_bytes_received := rt_bytes_received rt + of_nat (kHeaderSize + length b)\<rparr>) = Some (r, rt')"
        using assms a1 Inr h a2 Inr2 by (simp add: async_round_def Let_def add.assoc)
      ultimately show ?thesis using cons by blast
    qed
  qed
qed

end

sublocale async_stream \<subseteq> asy: runtime_round "async_round rd wr polls reg now" "adapter_view rx" "adapter_view tx" reg
  for polls reg now
proof unfold_locales
  fix rt rt' :: "'s CoroSocketAdapter Runtime" and a
  assume r: "async_round rd wr polls reg now rt = Some (Continue, rt')" "rt_socket rt = Some a"
  obtain h b a1 where c: "adapter_view rx a = header_to_bytes h @ b @ adapter_view rx a1"
      "adapter_view tx a1 = adapter_view tx a" "length b = unat (body_size h)"
      "async_respond rd wr polls reg now h b a1 (rt\<lparr>rt_socket := Some a1,
         rt_bytes_received := rt_bytes_received rt + of_nat (kHeaderSize + length b)\<rparr>) = Some (Continue, rt')"
    using async_round_cases [OF r] by auto
  from async_respond_cases [OF c(4)] c(1-3)
  show "\<exists>s' h b out. rt_socket rt' = Some s' \<and> adapter_view rx a = header_to_bytes h @ b @ adapter_view rx s'
        \<and> adapter_view tx s' = adapter_view tx a @ out \<and> length b = unat (body_size h) \<and> answer reg h b = Some out
        \<and> rt_tasks_completed rt' = rt_tasks_completed rt + 1
        \<and> rt_bytes_sent rt' = rt_bytes_sent rt + of_nat (length out)
        \<and> rt_bytes_received rt' = rt_bytes_received rt + of_nat (kHeaderSize + length b)"
    by auto
next
  fix rt rt' :: "'s CoroSocketAdapter Runtime" and a r
  assume r: "async_round rd wr polls reg now rt = Some (r, rt')" "r \<noteq> Continue" "rt_socket rt = Some a"
  obtain got a1 where g: "adapter_view rx a = got @ adapter_view rx a1" "adapter_view tx a1 = adapter_view tx a"
    and c: "(r = Return False \<and> rt_socket rt' = Some a1
         \<and> rt_tasks_completed rt' = rt_tasks_completed rt \<and> rt_bytes_sent rt' = rt_bytes_sent rt)
       \<or> (\<exists>h b. got = header_to_bytes h @ b
            \<and> async_respond rd wr polls reg now h b a1 (rt\<lparr>rt_socket := Some a1,
                rt_bytes_received := rt_bytes_received rt + of_nat (kHeaderSize + length b)\<rparr>) = Some (r, rt'))"
    using async_round_cases [OF r(1,3)] by blast
  show "r \<noteq> Return True \<and> (\<exists>s' got part. rt_socket rt' = Some s' \<and> adapter_view rx a = got @ adapter_view rx s'
        \<and> adapter_view tx s' = adapter_view tx a @ part \<and> rt_tasks_completed rt' = rt_tasks_completed rt
        \<and> rt_bytes_sent rt' = rt_bytes_sent rt
        \<and> (part \<noteq> [] \<longrightarrow> (\<exists>h b more. got = header_to_bytes h @ b \<and> answer reg h b = Some (part @ more))))"
    using c
  proof
    assume "r = Return False \<and> rt_socket rt' = Some a1
         \<and> rt_tasks_completed rt' = rt_tasks_completed rt \<and> rt_bytes_sent rt' = rt_bytes_sent rt"
    then show ?thesis using g by auto
  next
    assume "\<exists>h b. got = header_to_bytes h @ b
            \<and> async_respond rd wr polls reg now h b a1 (rt\<lparr>rt_socket := Some a1,
                rt_bytes_received := rt_bytes_received rt + of_nat (kHeaderSize + length b)\<rparr>) = Some (r, rt')"
    then obtain h b where h: "got = header_to_bytes h @ b"
        "async_respond rd wr polls reg now h b a1 (rt\<lparr>rt_socket := Some a1,
                rt_bytes_received := rt_bytes_received rt + of_nat (kHeaderSize + length b)\<rparr>) = Some (r, rt')"
      by blast
    from async_respond_cases [OF h(2)] r(2) g h(1) show ?thesis by fastforce
  qed
qed

context async_stream
begin

lemmas async_contract = asy.runtime_round_axioms

end

subsection \<open>The greeting\<close>

context worker_stream
begin

lemma greeting_loop_spec:
  "greeting_loop io data sent s = Some (ok, e, s') \<Longrightarrow> sent \<le> length data \<Longrightarrow>
     rx s' = rx s \<and> (ok \<longrightarrow> tx s' = tx s @ drop sent data) \<and> (\<not> ok \<longrightarrow> e \<noteq> None)"
proof (induction "length data - sent" arbitrary: sent s rule: less_induct)
  case less
  show ?case
  proof (cases "sent < length data")
    case False
    then have "greeting_loop io data sent s = Some (True, None, s)" by (subst greeting_loop.simps) simp
    then show ?thesis using less.prems False by simp
  next
    case True
    then obtain bw e1 s1 where w: "bs_write io s (drop sent data) = Some (bw, e1, s1)"
      using less.prems(1) by (auto simp: greeting_loop.simps [of io data sent] split: option.splits)
    note o = wrb_order [OF w]
    show ?thesis
    proof (cases "e1 = None \<and> bw \<noteq> 0")
      case False
      then show ?thesis using less.prems(1) True w o
        by (auto simp: greeting_loop.simps [of io data sent] split: if_splits option.splits)
    next
      case go: True
      then have bw: "bw = length data - sent" using wrb_full [of s "drop sent data" bw s1] w by simp
      have "greeting_loop io data (sent + bw) s1 = Some (ok, e, s')"
        using less.prems(1) True w go by (simp add: greeting_loop.simps [of io data sent])
      from less.hyps [OF _ this] bw go True o show ?thesis by simp
    qed
  qed
qed

end

subsection \<open>The runtimes over the ZeroTier socket\<close>

definition zt_stream ::
  "'k zts_api \<Rightarrow> ('k ZeroTierSocket \<Rightarrow> 'k ZeroTierSocket) \<Rightarrow> nat \<Rightarrow>
   'k ZeroTierSocket IBlockingStream" where
  "zt_stream api env fuel =
     \<lparr>bs_read = zt_read api env fuel, bs_write = zt_write api env fuel,
      bs_connect = zt_connect api env fuel,
      bs_is_open = zt_is_open, bs_close = zt_close api, bs_shutdown = zt_shutdown,
      bs_node_id = zt_node_id api, bs_local_endpoint = local_endpoint api\<rparr>"

sublocale bsd_api \<subseteq> wk: worker_stream "zt_stream api env fuel" "sock_rx krx" "sock_rx ktx"
  for fuel
  by unfold_locales (auto simp: zt_stream_def sock_rx_def dest: zt_read_spec zt_write_spec)

subsection \<open>Properties\<close>

text \<open>
  C22. A worker answers every request once, in order. Over any stream that keeps the contract
  of \<open>IBlockingStream\<close> (the ZeroTier socket does), with other threads pausing and
  disconnecting at any time: when \<open>run_loop\<close> of the blocking runtime returns, the bytes it
  consumed are whole request frames followed by the part of a request it was reading when it
  stopped; it has sent exactly the answers to those frames in the same order, followed at
  most by a beginning of the answer to one more; the counters count exactly these frames and
  bytes. A loop that returned true (it was paused) has stopped between two frames.
\<close>

theorem blocking_worker_serves:
  assumes "worker_stream io rx tx" "env_ok rx tx env" "rt_socket rt = Some s"
    "blocking_run_loop io reg now env fuel rt = Some (res, rt')"
  shows "loop_done reg rx tx s rt res rt'"
proof -
  have "runtime_round (blocking_round io reg now) rx tx reg"
    using assms(1) by (rule worker_stream.blocking_contract)
  from runtime_round.run_loop_serves [OF this assms(2) _ assms(3)] assms(4) show ?thesis
    by (simp add: blocking_run_loop_def)
qed

definition mem_read :: "bytes \<times> bytes \<Rightarrow> nat \<Rightarrow> bytes \<times> errc option \<times> bytes \<times> bytes" where
  "mem_read s n = (if n \<le> length (fst s) then (take n (fst s), None, drop n (fst s), snd s)
     else (fst s, Some not_connected, [], snd s))"

definition mem_io :: "(bytes \<times> bytes) IBlockingStream" where
  "mem_io = \<lparr>bs_read = (\<lambda>s n. Some (mem_read s n)),
     bs_write = (\<lambda>s b. Some (length b, None, fst s, snd s @ b)),
     bs_connect = (\<lambda>_ _ s. Some (Inr None, s)), bs_is_open = (\<lambda>_. True), bs_close = (\<lambda>s. s),
     bs_shutdown = (\<lambda>s. s), bs_node_id = (\<lambda>_. 1), bs_local_endpoint = (\<lambda>_. [])\<rparr>"

interpretation mem: worker_stream mem_io fst snd
  by unfold_locales (auto simp: mem_io_def mem_read_def split: if_splits)

definition demo_request :: bytes where
  "demo_request =
     header_to_bytes \<lparr>task_id = 7, body_size = 2, skill_id = kSkillId StringReversalSkill\<rparr> @ [72, 105]"

definition demo_reply :: bytes where
  "demo_reply =
     header_to_bytes \<lparr>task_id = 7, body_size = 6, skill_id = kSkillId StringReversalSkill\<rparr>
       @ [2, 0, 0, 0, 105, 72]"

definition demo_rt :: "'s \<Rightarrow> 's Runtime" where
  "demo_rt s = (new_runtime ''10.0.0.1'' 4000)\<lparr>rt_socket := Some s\<rparr>"

definition pause_after_one :: "'s Runtime \<Rightarrow> 's Runtime" where
  "pause_after_one rt = (if rt_tasks_completed rt = 0 then rt else runtime_pause rt)"

lemma pause_after_one_ok: "env_ok rx tx pause_after_one"
  by (simp add: env_ok_def pause_after_one_def runtime_pause_def)

lemma demo_message:
  obtains m where
    "TaskMessage_new now 7 (Some (RawPayload [2, 0, 0, 0, 105, 72] (kSkillId StringReversalSkill))) = Inr m"
    "wire_bytes m = (header_to_bytes \<lparr>task_id = 7, body_size = 6, skill_id = kSkillId StringReversalSkill\<rparr>,
       [2, 0, 0, 0, 105, 72])"
  by (simp add: TaskMessage_new_def validated_payload_size_def wire_bytes_eq payload_def pb_size_def
      RawPayload_def uint32_max_def)

lemma demo_processing:
  "process demo_registry 7 (kSkillId StringReversalSkill) [72, 105]
     (pb_data (RawPayload [0, 0, 0, 0, 0, 0] (kSkillId StringReversalSkill))) = (True, [2, 0, 0, 0, 105, 72])"
  "(RawPayload [0, 0, 0, 0, 0, 0] k)\<lparr>pb_data := out\<rparr> = RawPayload out k"
  by (simp_all add: process_def demo_reversal(2) RawPayload_def)

lemma demo_blocking_run:
  "\<exists>rt'. blocking_run_loop mem_io demo_registry 0 pause_after_one (Suc (Suc 0)) (demo_rt (demo_request, []))
     = Some (Inr True, rt') \<and> rt_socket rt' = Some ([], demo_reply) \<and> rt_tasks_completed rt' = 1"
proof -
  let ?s = "(demo_request, [])"
  have r: "read_task mem_io ?s = Some (Inr (\<lparr>task_id = 7, body_size = 2, skill_id = kSkillId StringReversalSkill\<rparr>,
      [72, 105], of_nat kHeaderSize + of_nat 2), ([], []))"
    by (simp add: read_task_def mem_io_def mem_read_def demo_request_def max_frame_size_def)
  obtain m where m:
      "TaskMessage_new 0 7 (Some (RawPayload [2, 0, 0, 0, 105, 72] (kSkillId StringReversalSkill))) = Inr m"
      "wire_bytes m = (header_to_bytes \<lparr>task_id = 7, body_size = 6, skill_id = kSkillId StringReversalSkill\<rparr>,
         [2, 0, 0, 0, 105, 72])" by (rule demo_message)
  have w: "\<exists>n. write_response mem_io 0 7
      (Some (RawPayload [2, 0, 0, 0, 105, 72] (kSkillId StringReversalSkill))) ([], []) = Some (Inr n, ([], demo_reply))"
    using m by (simp add: write_response_def mem_io_def demo_reply_def)
  then show ?thesis using r demo_processing
    by (auto simp: blocking_run_loop_def run_loop_with_def demo_rt_def new_runtime_def pause_after_one_def
        runtime_pause_def blocking_round_def demo_reversal(1))
qed

theorem blocking_worker_serves_witness:
  "\<exists>rt'. blocking_run_loop mem_io demo_registry 0 pause_after_one 2 (demo_rt (demo_request, [])) = Some (Inr True, rt')
     \<and> rt_socket rt' = Some ([], demo_reply)
     \<and> loop_done demo_registry fst snd (demo_request, []) (demo_rt (demo_request, [])) (Inr True) rt'"
proof -
  obtain rt' where r: "blocking_run_loop mem_io demo_registry 0 pause_after_one 2 (demo_rt (demo_request, [])) = Some (Inr True, rt')"
      "rt_socket rt' = Some ([], demo_reply)"
    using demo_blocking_run by (auto simp: numeral_2_eq_2)
  then show ?thesis
    using blocking_worker_serves [OF mem.worker_stream_axioms pause_after_one_ok _ r(1)]
    by (simp add: demo_rt_def)
qed

lemma frames_inj:
  "answered reg fs outs \<Longrightarrow> answered reg gs outs' \<Longrightarrow> frames fs = frames gs \<Longrightarrow> fs = gs \<and> outs = outs'"
proof (induction fs arbitrary: outs gs outs')
  case Nil
  then have "gs = []"
    by (cases gs) (auto simp: frames_def kHeaderSize_def dest: arg_cong [of _ _ length])
  then show ?case using Nil by (simp add: answered_def)
next
  case (Cons f fs)
  obtain h b where f: "f = (h, b)" by force
  have "gs \<noteq> []"
    using Cons.prems(3) f by (auto simp: frames_def kHeaderSize_def dest: arg_cong [of _ _ length])
  then obtain h' b' gs' where g: "gs = (h', b') # gs'" by (cases gs) auto
  obtain out outs1 where o: "outs = out # outs1" "length b = unat (body_size h)" "answer reg h b = Some out"
      "answered reg fs outs1"
    using Cons.prems(1) f by (auto simp: answered_def list_all2_Cons1)
  obtain out' outs1' where o': "outs' = out' # outs1'" "length b' = unat (body_size h')"
      "answer reg h' b' = Some out'" "answered reg gs' outs1'"
    using Cons.prems(2) g by (auto simp: answered_def list_all2_Cons1)
  have "header_to_bytes h @ b @ frames fs = header_to_bytes h' @ b' @ frames gs'"
    using Cons.prems(3) f g by (simp add: frames_def)
  then have h: "h = h'" "b @ frames fs = b' @ frames gs'" by (simp_all add: hdr.framing)
  then have b: "b = b'" "frames fs = frames gs'" using o(2) o'(2) by simp_all
  from Cons.IH [OF o(4) o'(4) b(2)] show ?case using f g h b o o' by simp
qed


text \<open>An in-memory asynchronous stream, and the run of the asynchronous runtime over it.\<close>

definition amem_read :: "(bytes \<times> bytes) try_read_fn" where
  "amem_read s n = (True, take n (fst s), None, drop n (fst s), snd s)"

definition amem_write :: "(bytes \<times> bytes) try_write_fn" where
  "amem_write s b = (True, length b, None, fst s, snd s @ b)"

interpretation amem: async_stream amem_read amem_write fst snd
  by unfold_locales (auto simp: amem_read_def amem_write_def)

lemma amem_await_read:
  assumes "ad_socket a = Some (i, t)" "n \<le> length i"
  obtains a' where "await_read amem_read amem_write (Suc 0) n a = Some (Inr (take n i), a')"
    "ad_socket a' = Some (drop n i, t)"
  using assms
  by (simp add: await_read_def start_read_def prepare_read_operation_def try_complete_current_operation_def
      complete_read_def amem_read_def io_await_resume_def splice_def)

lemma amem_await_write:
  assumes "ad_socket a = Some (i, t)"
  obtains a' n where "await_write amem_read amem_write (Suc 0) b a = Some (Inr n, a')"
    "ad_socket a' = Some (i, t @ b)"
  using assms
  by (simp add: await_write_def start_write_def prepare_write_operation_def try_complete_current_operation_def
      complete_write_def amem_write_def io_await_resume_def)

lemma demo_async_run:
  obtains rt' a' where
    "async_run_loop amem_read amem_write (Suc 0) demo_registry 0 pause_after_one (Suc (Suc 0))
      (demo_rt (new_adapter (Some (demo_request, [])))) = Some (Inr True, rt')"
    "rt_socket rt' = Some a'" "ad_socket a' = Some ([], demo_reply)"
proof -
  let ?h = "\<lparr>task_id = 7, body_size = 2, skill_id = kSkillId StringReversalSkill\<rparr>"
  let ?rh = "header_to_bytes \<lparr>task_id = 7, body_size = 6, skill_id = kSkillId StringReversalSkill\<rparr>"
  obtain a1 where a1: "await_read amem_read amem_write (Suc 0) kHeaderSize (new_adapter (Some (demo_request, [])))
      = Some (Inr (header_to_bytes ?h), a1)" "ad_socket a1 = Some ([72, 105], [])"
    by (rule amem_await_read [of "new_adapter (Some (demo_request, []))" demo_request "[]" kHeaderSize])
      (simp_all add: new_adapter_def demo_request_def)
  obtain a2 where a2: "async_read_body amem_read amem_write (Suc 0) ?h a1 = Some (Inr [72, 105], a2)"
      "ad_socket a2 = Some ([], [])"
    using amem_await_read [OF a1(2), of 2] by (auto simp: async_read_body_def)
  obtain a3 n3 where a3: "await_write amem_read amem_write (Suc 0) ?rh a2 = Some (Inr n3, a3)"
      "ad_socket a3 = Some ([], ?rh)"
    by (rule amem_await_write [OF a2(2), of ?rh]) simp
  obtain a4 n4 where a4: "await_write amem_read amem_write (Suc 0) [2, 0, 0, 0, 105, 72] a3 = Some (Inr n4, a4)"
      "ad_socket a4 = Some ([], demo_reply)"
    by (rule amem_await_write [OF a3(2), of "[2, 0, 0, 0, 105, 72]"]) (simp add: demo_reply_def)
  obtain m where m:
      "TaskMessage_new 0 7 (Some (RawPayload [2, 0, 0, 0, 105, 72] (kSkillId StringReversalSkill))) = Inr m"
      "wire_bytes m = (?rh, [2, 0, 0, 0, 105, 72])" by (rule demo_message)
  have w: "async_write_frame amem_read amem_write (Suc 0) ?rh [2, 0, 0, 0, 105, 72] a2 = Some (Inr n4, a4)"
    using a3(1) a4(1) by (simp add: async_write_frame_def)
  show thesis
    by (rule that)
      (auto simp: async_run_loop_def run_loop_with_def demo_rt_def new_runtime_def pause_after_one_def
        runtime_pause_def async_round_def async_respond_def a1(1) a2(1) demo_reversal(1) demo_processing m w a4(2))
qed


text \<open>
  The greeting reaches the dispatcher. A \<open>connect\<close> that returns true has sent exactly
  one greeting since the connection was made: sixteen bytes that decode to the magic number
  and version the dispatcher checks and the node's identifier; and it consumed no byte.
\<close>

theorem connect_sends_greeting:
  assumes "worker_stream io rx tx"
    "runtime_connect io (send_worker_greeting io) create rt = Some (True, rt')"
  shows "\<exists>s0 s1 s' g. (rt_socket rt = Some s0 \<or> rt_socket rt = None \<and> create = Inr (Some s0))
      \<and> bs_connect io (rt_host rt) (rt_port rt) (if bs_is_open io s0 then bs_close io s0 else s0) = Some (Inr None, s1)
      \<and> rt_socket rt' = Some s' \<and> rx s' = rx s1 \<and> tx s' = tx s1 @ g \<and> length g = 16
      \<and> greeting_of_bytes g = Some \<lparr>magic = kWorkerGreetingMagic, version = kWorkerGreetingVersion,
             node_id = bs_node_id io s1\<rparr>"
proof -
  obtain s0 s1 e s' where c: "rt_socket rt = Some s0 \<or> rt_socket rt = None \<and> create = Inr (Some s0)"
      "bs_connect io (rt_host rt) (rt_port rt) (if bs_is_open io s0 then bs_close io s0 else s0) = Some (Inr None, s1)"
      "send_worker_greeting io s1 = Some (True, e, s')" "rt_socket rt' = Some s'"
    using assms(2) by (auto simp: runtime_connect_def Let_def
        split: option.splits sum.splits prod.splits bool.splits)
  let ?g = "greeting_to_bytes (worker_greeting (bs_node_id io s1))"
  have "rx s' = rx s1" "tx s' = tx s1 @ ?g"
    using worker_stream.greeting_loop_spec [OF assms(1) c(3) [unfolded send_worker_greeting_def]] by auto
  moreover have "length ?g = 16" "greeting_of_bytes ?g = Some \<lparr>magic = kWorkerGreetingMagic,
      version = kWorkerGreetingVersion, node_id = bs_node_id io s1\<rparr>"
    by (simp_all add: kGreetingSize_def worker_greeting_def)
  ultimately show ?thesis using c(1,2,4) by blast
qed

theorem connect_sends_greeting_witness:
  "\<exists>rt' s' g. runtime_connect mem_io (send_worker_greeting mem_io) (Inr (Some ([], []))) (new_runtime ''h'' 1) = Some (True, rt')
     \<and> rt_socket rt' = Some s' \<and> greeting_of_bytes (snd s') = Some g \<and> node_id g = 1"
proof -
  obtain rt' where r: "runtime_connect mem_io (send_worker_greeting mem_io) (Inr (Some ([], []))) (new_runtime ''h'' 1)
      = Some (True, rt')"
    by (simp add: runtime_connect_def new_runtime_def mem_io_def send_worker_greeting_def greeting_loop.simps
        kGreetingSize_def)
  with connect_sends_greeting [OF mem.worker_stream_axioms r] show ?thesis
    by (force simp: new_runtime_def mem_io_def)
qed

text \<open>A round of the blocking runtime returns when the calls on its stream return.\<close>

lemma blocking_round_returns:
  assumes "\<And>s n. bs_read io s n \<noteq> None" "\<And>s b. bs_write io s b \<noteq> None"
  shows "blocking_round io reg now rt \<noteq> None"
proof -
  obtain f where "\<And>s n. bs_read io s n = Some (f s n)"
    by (rule that [of "\<lambda>s n. the (bs_read io s n)"]) (simp add: assms)
  moreover obtain g where "\<And>s b. bs_write io s b = Some (g s b)"
    by (rule that [of "\<lambda>s b. the (bs_write io s b)"]) (simp add: assms)
  ultimately have "read_task io s \<noteq> None" "write_response io now tid b s \<noteq> None" for s tid b
    by (simp_all add: read_task_def write_response_def Let_def split: option.splits sum.splits prod.splits)
  then show ?thesis
    by (simp add: blocking_round_def Let_def del: not_None_eq
        split: option.splits sum.splits prod.splits bool.splits exn.splits)
qed

context runtime_round
begin

lemma loop_returns:
  assumes "env_ok rx tx env" "\<And>rt. body rt \<noteq> None"
    "rt_socket rt = Some s" "length (rx s) < kHeaderSize * fuel"
  shows "\<exists>res rt'. runtime_loop body env fuel rt = Some (res, rt')"
  using assms(3,4)
proof (induction fuel arbitrary: rt s)
  case (Suc fuel)
  obtain s0 where s0: "rt_socket (env rt) = Some s0" "rx s0 = rx s"
    using assms(1) Suc.prems(1) unfolding env_ok_def by blast
  obtain r rt1 where r: "body (env rt) = Some (r, rt1)" using assms(2) [of "env rt"] by auto
  show ?case
  proof (cases "\<not> rt_pause_requested (env rt) \<and> r = Continue")
    case True
    obtain s1 h b where c: "rt_socket rt1 = Some s1" "rx s0 = header_to_bytes h @ b @ rx s1"
      using goes_on [OF _ s0(1)] r True by metis
    then have "length (rx s1) < kHeaderSize * fuel"
      using Suc.prems(2) s0 by simp
    from Suc.IH [OF c(1) this] show ?thesis using True r by (simp add: Let_def)
  next
    case False
    then show ?thesis using r by (cases r) (auto simp: Let_def)
  qed
qed simp

end



subsection \<open>A failed connection attempt\<close>

text \<open>
  After a failed connection attempt the runtime takes the socket for connected. When the
  network refuses the connection of a fresh ZeroTier socket, \<open>connect\<close> of the runtime
  returns false but leaves the descriptor open, and \<open>is_connected\<close>, which only asks whether
  the descriptor is open, returns true. \<open>WorkerSession::start\<close> then does not retry the
  connection, as it logs, but runs the request loop on the unconnected socket.
\<close>

theorem failed_connect_counts_as_connected:
  assumes "acquire_default (zts_node api) fuel svc k = Some (Inr l, svc', ka)"
    "zts_socket api ka = (fd, fe, kb)" "0 \<le> fd" "zts_inet_pton api (rt_host rt)"
    "zts_connect api kb fd (rt_host rt) (rt_port rt) = (False, err, kc)"
    "\<not> is_would_block_errno err" "err \<noteq> EINPROGRESS" "rt_socket rt = None"
  shows "\<exists>rt'. runtime_connect (zt_stream api (\<lambda>z. z) fuel)
      (send_worker_greeting (zt_stream api (\<lambda>z. z) fuel)) (Inr (Some (new_socket False svc k))) rt = Some (False, rt')
    \<and> runtime_is_connected (zt_stream api (\<lambda>z. z) fuel) rt'"
  using assms
  by (simp add: runtime_connect_def zt_stream_def zt_connect_def with_lease_def ensure_lease_def
      lease_valid_def null_lease_def lease_move_assign_def lease_release_def open_fd_if_needed_def
      new_socket_def zt_is_open_def runtime_is_connected_def Let_def net_def)

text \<open>The network of the witness refuses every connection.\<close>

definition refusing_api :: "link zts_api" where
  "refusing_api = link_api\<lparr>zts_connect := (\<lambda>k fd h p. (False, ZTS_ECONNREFUSED, k))\<rparr>"

theorem failed_connect_counts_as_connected_witness:
  "\<exists>rt'. runtime_connect (zt_stream refusing_api (\<lambda>z. z) 1)
      (send_worker_greeting (zt_stream refusing_api (\<lambda>z. z) 1))
      (Inr (Some (new_socket False (node_service_new None) demo_link))) (new_runtime ''10.0.0.1'' 4000) = Some (False, rt')
    \<and> runtime_is_connected (zt_stream refusing_api (\<lambda>z. z) 1) rt'"
proof -
  obtain l svc' where a: "acquire_default link_node (Suc 0) (node_service_new None) demo_link = Some (Inr l, svc', demo_link)"
    by (simp add: node_eval link_node_def)
  show ?thesis
    by (rule failed_connect_counts_as_connected
      [where fd = 3 and fe = 0 and ka = demo_link and kb = demo_link and err = ZTS_ECONNREFUSED
        and kc = demo_link and l = l and svc' = svc'])
    (simp_all add: a refusing_api_def link_api_def new_runtime_def would_block_iff ZTS_ECONNREFUSED_def
      EINPROGRESS_def ZTS_EAGAIN_def)
qed

end
