(* ===== verification/Rendezvous.thy ===== *)
theory Rendezvous
  imports WorkerRuntime
begin

section \<open>The rendezvous protocol, client and service\<close>

text \<open>
  rendezvous/RendezvousProtocol.hpp (frames over a blocking stream), rendezvous/RendezvousClient
  and services/rendezvous/ (\<open>RendezvousServer\<close>, the frame loop of \<open>SnapshotListener\<close>), and
  dispatcher/monitoring/SnapshotReporter. The JSON library is third-party code: it is the
  record \<open>Json\<close> of the functions the program calls, and the locale \<open>json_lib\<close> states what the
  program relies on (parsing what was dumped, reading fields of an object, the literal
  answers). A JSON text is a \<open>string\<close>; on the wire its characters are bytes.
\<close>

subsection \<open>Frames\<close>

definition kMaxFramePayload :: u32 where
  "kMaxFramePayload = 64 * 1024"

definition kFrameHeaderSize :: nat where
  "kFrameHeaderSize = 4"

text \<open>A received type byte is cast to the enumeration unchecked; \<open>OtherType\<close> is any other value.\<close>

datatype MessageType =
    RegisterRequest | RegisterResponse | UnregisterRequest | UnregisterResponse
  | DiscoverRequest | DiscoverResponse | ReportSnapshot | ReportAck | OtherType byte

definition type_byte :: "MessageType \<Rightarrow> byte" where
  "type_byte t = (case t of RegisterRequest \<Rightarrow> 1 | RegisterResponse \<Rightarrow> 2 | UnregisterRequest \<Rightarrow> 3
     | UnregisterResponse \<Rightarrow> 4 | DiscoverRequest \<Rightarrow> 5 | DiscoverResponse \<Rightarrow> 6 | ReportSnapshot \<Rightarrow> 7
     | ReportAck \<Rightarrow> 8 | OtherType b \<Rightarrow> b)"

definition message_type :: "byte \<Rightarrow> MessageType" where
  "message_type b = (if b = 1 then RegisterRequest else if b = 2 then RegisterResponse
     else if b = 3 then UnregisterRequest else if b = 4 then UnregisterResponse
     else if b = 5 then DiscoverRequest else if b = 6 then DiscoverResponse
     else if b = 7 then ReportSnapshot else if b = 8 then ReportAck else OtherType b)"

definition string_bytes :: "string \<Rightarrow> bytes" where
  "string_bytes s = map (\<lambda>c. word_of_nat (of_char c)) s"

definition bytes_string :: "bytes \<Rightarrow> string" where
  "bytes_string bs = map (\<lambda>b. char_of (unat b)) bs"

function read_exact ::
  "'s IBlockingStream \<Rightarrow> nat \<Rightarrow> bytes \<Rightarrow> 's \<Rightarrow> (bytes result \<times> 's) option" where
  "read_exact io remaining acc s =
     (if remaining > 0 then
        (case bs_read io s remaining of
           None \<Rightarrow> None
         | Some (bs, Some e, s1) \<Rightarrow> Some (Inl (system_error e), s1)
         | Some (bs, None, s1) \<Rightarrow>
             if length bs = 0 then Some (Inl runtime_error, s1)
             else read_exact io (remaining - length bs) (acc @ bs) s1)
      else Some (Inr acc, s))"
  by pat_completeness auto
termination by (relation "measure (\<lambda>(io, remaining, acc, s). remaining)") auto

declare read_exact.simps [simp del]

function write_exact ::
  "'s IBlockingStream \<Rightarrow> bytes \<Rightarrow> nat \<Rightarrow> 's \<Rightarrow> (unit result \<times> 's) option" where
  "write_exact io buf off s =
     (if length buf - off > 0 then
        (case bs_write io s (drop off buf) of
           None \<Rightarrow> None
         | Some (bw, Some e, s1) \<Rightarrow> Some (Inl (system_error e), s1)
         | Some (bw, None, s1) \<Rightarrow>
             if bw = 0 then Some (Inl runtime_error, s1)
             else write_exact io buf (off + bw) s1)
      else Some (Inr (), s))"
  by pat_completeness auto
termination by (relation "measure (\<lambda>(io, buf, off, s). length buf - off)") auto

declare write_exact.simps [simp del]

definition read_message ::
  "'s IBlockingStream \<Rightarrow> 's \<Rightarrow> ((MessageType \<times> string) result \<times> 's) option" where
  "read_message io s =
     (case read_exact io kFrameHeaderSize [] s of
        None \<Rightarrow> None
      | Some (Inl e, s1) \<Rightarrow> Some (Inl e, s1)
      | Some (Inr len_buf, s1) \<Rightarrow>
          let payload_len = (le_word len_buf :: u32) in
          if payload_len < 1 then Some (Inl runtime_error, s1)
          else if payload_len > kMaxFramePayload then Some (Inl runtime_error, s1)
          else
     (case read_exact io 1 [] s1 of
        None \<Rightarrow> None
      | Some (Inl e, s2) \<Rightarrow> Some (Inl e, s2)
      | Some (Inr tb, s2) \<Rightarrow>
          let json_len = payload_len - 1 in
          if json_len > 0 then
            (case read_exact io (unat json_len) [] s2 of
               None \<Rightarrow> None
             | Some (Inl e, s3) \<Rightarrow> Some (Inl e, s3)
             | Some (Inr body, s3) \<Rightarrow> Some (Inr (message_type (hd tb), bytes_string body), s3))
          else Some (Inr (message_type (hd tb), []), s2)))"

definition write_message ::
  "'s IBlockingStream \<Rightarrow> MessageType \<Rightarrow> string \<Rightarrow> 's \<Rightarrow> (unit result \<times> 's) option" where
  "write_message io type json_body s =
     (let payload_len = (word_of_nat (1 + length json_body) :: u32) in
      if payload_len > kMaxFramePayload then Some (Inl runtime_error, s)
      else
     (case write_exact io (le_bytes 4 payload_len) 0 s of
        None \<Rightarrow> None
      | Some (Inl e, s1) \<Rightarrow> Some (Inl e, s1)
      | Some (Inr _, s1) \<Rightarrow>
     (case write_exact io [type_byte type] 0 s1 of
        None \<Rightarrow> None
      | Some (Inl e, s2) \<Rightarrow> Some (Inl e, s2)
      | Some (Inr _, s2) \<Rightarrow>
          if json_body \<noteq> [] then write_exact io (string_bytes json_body) 0 s2
          else Some (Inr (), s2))))"

subsection \<open>The JSON library\<close>

datatype jfield = JStr string | JInt int | JBool bool

record 'j Json =
  json_parse :: "string \<Rightarrow> 'j option"
  json_dump :: "'j \<Rightarrow> string"
  json_object :: "(string \<times> jfield) list \<Rightarrow> 'j"
  json_value :: "'j \<Rightarrow> string \<Rightarrow> jfield \<Rightarrow> jfield option"
  json_contains_string :: "'j \<Rightarrow> string \<Rightarrow> string option"

text \<open>
  \<open>json_value j k d\<close> is \<open>j.value(k, d)\<close>, \<open>None\<close> when it throws;
  \<open>json_contains_string j k\<close> is the string member \<open>k\<close>, if \<open>j\<close> has one.
\<close>

definition str_value :: "'j Json \<Rightarrow> 'j \<Rightarrow> string \<Rightarrow> string option" where
  "str_value J j k = (case json_value J j k (JStr []) of Some (JStr s) \<Rightarrow> Some s | _ \<Rightarrow> None)"

definition int_value :: "'j Json \<Rightarrow> 'j \<Rightarrow> string \<Rightarrow> int option" where
  "int_value J j k = (case json_value J j k (JInt 0) of Some (JInt i) \<Rightarrow> Some i | _ \<Rightarrow> None)"

definition bool_value :: "'j Json \<Rightarrow> 'j \<Rightarrow> string \<Rightarrow> bool option" where
  "bool_value J j k = (case json_value J j k (JBool False) of Some (JBool b) \<Rightarrow> Some b | _ \<Rightarrow> None)"

definition ok_text :: string where
  "ok_text = ''{'' @ [CHR 0x22] @ ''ok'' @ [CHR 0x22] @ '':true}''"

definition bad_request_text :: string where
  "bad_request_text = ''{'' @ [CHR 0x22] @ ''ok'' @ [CHR 0x22] @ '':false,'' @ [CHR 0x22] @ ''error''
     @ [CHR 0x22] @ '':'' @ [CHR 0x22] @ ''bad request'' @ [CHR 0x22] @ ''}''"

definition unknown_type_text :: string where
  "unknown_type_text = ''{'' @ [CHR 0x22] @ ''ok'' @ [CHR 0x22] @ '':false,'' @ [CHR 0x22] @ ''error''
     @ [CHR 0x22] @ '':'' @ [CHR 0x22] @ ''unknown message type'' @ [CHR 0x22] @ ''}''"

definition not_found_text :: string where
  "not_found_text = ''{'' @ [CHR 0x22] @ ''found'' @ [CHR 0x22] @ '':false}''"

definition discover_error_text :: string where
  "discover_error_text = ''{'' @ [CHR 0x22] @ ''found'' @ [CHR 0x22] @ '':false,'' @ [CHR 0x22] @ ''error''
     @ [CHR 0x22] @ '':'' @ [CHR 0x22] @ ''bad request'' @ [CHR 0x22] @ ''}''"

subsection \<open>The service\<close>

text \<open>Clock readings are nanoseconds of the steady clock.\<close>

record RegisteredEndpoint =
  ep_role :: string
  ep_name :: string
  ep_host :: string
  ep_port :: int
  ep_last_seen :: int

record RendezvousServer =
  rs_endpoint :: "RegisteredEndpoint option"
  rs_snapshot :: string
  rs_ttl_seconds :: int

definition handle_register ::
  "'j Json \<Rightarrow> int \<Rightarrow> string \<Rightarrow> RendezvousServer \<Rightarrow> string \<times> RendezvousServer" where
  "handle_register J now body rs =
     (case json_parse J body of
        None \<Rightarrow> (bad_request_text, rs)
      | Some j \<Rightarrow>
          (case (str_value J j ''role'', str_value J j ''name'', str_value J j ''vn_host'', int_value J j ''vn_port'') of
             (Some role, Some name, Some host, Some port) \<Rightarrow>
               (ok_text, rs\<lparr>rs_endpoint := Some \<lparr>ep_role = role, ep_name = name, ep_host = host,
                            ep_port = port, ep_last_seen = now\<rparr>\<rparr>)
           | _ \<Rightarrow> (bad_request_text, rs)))"

definition handle_unregister ::
  "'j Json \<Rightarrow> string \<Rightarrow> RendezvousServer \<Rightarrow> string \<times> RendezvousServer" where
  "handle_unregister J body rs =
     (case json_parse J body of
        None \<Rightarrow> (bad_request_text, rs)
      | Some j \<Rightarrow>
          (case (str_value J j ''role'', str_value J j ''name'') of
             (Some role, Some name) \<Rightarrow>
               (case rs_endpoint rs of
                  Some ep \<Rightarrow>
                    if ep_role ep = role \<and> ep_name ep = name then (ok_text, rs\<lparr>rs_endpoint := None\<rparr>)
                    else (ok_text, rs)
                | None \<Rightarrow> (ok_text, rs))
           | _ \<Rightarrow> (bad_request_text, rs)))"

definition handle_discover ::
  "'j Json \<Rightarrow> int \<Rightarrow> string \<Rightarrow> RendezvousServer \<Rightarrow> string" where
  "handle_discover J now body rs =
     (case json_parse J body of
        None \<Rightarrow> discover_error_text
      | Some j \<Rightarrow>
          (case str_value J j ''role'' of
             None \<Rightarrow> discover_error_text
           | Some role \<Rightarrow>
               (case rs_endpoint rs of
                  None \<Rightarrow> not_found_text
                | Some ep \<Rightarrow>
                    if ep_role ep \<noteq> role then not_found_text
                    else
                      let stale = (now - ep_last_seen ep > rs_ttl_seconds rs * 1000000000) in
                      json_dump J (json_object J
                        [(''found'', JBool True), (''vn_host'', JStr (ep_host ep)),
                         (''vn_port'', JInt (ep_port ep)), (''name'', JStr (ep_name ep)),
                         (''stale'', JBool stale)]))))"

definition dispatch_message ::
  "'j Json \<Rightarrow> int \<Rightarrow> MessageType \<Rightarrow> string \<Rightarrow> RendezvousServer \<Rightarrow> string \<times> RendezvousServer" where
  "dispatch_message J now type body rs =
     (case type of
        RegisterRequest \<Rightarrow> handle_register J now body rs
      | UnregisterRequest \<Rightarrow> handle_unregister J body rs
      | DiscoverRequest \<Rightarrow> (handle_discover J now body rs, rs)
      | _ \<Rightarrow> (unknown_type_text, rs))"

text \<open>The result is the exception that ends the handler, if any.\<close>

definition handle_connection ::
  "'s IBlockingStream \<Rightarrow> 'j Json \<Rightarrow> int \<Rightarrow> RendezvousServer \<Rightarrow> 's \<Rightarrow>
   (unit result \<times> RendezvousServer \<times> 's) option" where
  "handle_connection io J now rs s =
     (case read_message io s of
        None \<Rightarrow> None
      | Some (Inl e, s1) \<Rightarrow> Some (Inl e, rs, s1)
      | Some (Inr (type, body), s1) \<Rightarrow>
          (case dispatch_message J now type body rs of
             (resp, rs') \<Rightarrow>
               (case (case type of
                        RegisterRequest \<Rightarrow> Some RegisterResponse
                      | UnregisterRequest \<Rightarrow> Some UnregisterResponse
                      | DiscoverRequest \<Rightarrow> Some DiscoverResponse
                      | _ \<Rightarrow> None) of
                  None \<Rightarrow> Some (Inr (), rs', s1)
                | Some rt \<Rightarrow>
                    (case write_message io rt resp s1 of
                       None \<Rightarrow> None
                     | Some (r, s2) \<Rightarrow> Some (r, rs', s2)))))"

definition on_snapshot ::
  "int \<Rightarrow> string \<Rightarrow> string \<Rightarrow> string \<Rightarrow> RendezvousServer \<Rightarrow> RendezvousServer" where
  "on_snapshot now role name snapshot rs =
     (let rs1 = rs\<lparr>rs_snapshot := snapshot\<rparr> in
      case rs_endpoint rs of
        Some ep \<Rightarrow>
          if ep_role ep = role \<and> ep_name ep = name
          then rs1\<lparr>rs_endpoint := Some (ep\<lparr>ep_last_seen := now\<rparr>)\<rparr> else rs1
      | None \<Rightarrow> rs1)"

text \<open>
  One frame of the snapshot listener's connection loop. The identity is taken from the first
  frame (\<open>seen\<close>: it has been). The flag says whether the loop goes on.
\<close>

definition snapshot_frame ::
  "'s IBlockingStream \<Rightarrow> 'j Json \<Rightarrow> int \<Rightarrow> string \<times> string \<times> bool \<Rightarrow> RendezvousServer \<Rightarrow> 's \<Rightarrow>
   (bool result \<times> (string \<times> string \<times> bool) \<times> RendezvousServer \<times> 's) option" where
  "snapshot_frame io J now ident rs s =
     (case read_message io s of
        None \<Rightarrow> None
      | Some (Inl e, s1) \<Rightarrow> Some (Inl e, ident, rs, s1)
      | Some (Inr (type, body), s1) \<Rightarrow>
          if type \<noteq> ReportSnapshot then Some (Inr False, ident, rs, s1)
          else
            let (role, name, seen) = ident;
                (role', name') =
                  (if seen then (role, name)
                   else case json_parse J body of
                          None \<Rightarrow> (role, name)
                        | Some j \<Rightarrow>
                            (case json_contains_string J j ''role'' of Some r \<Rightarrow> r | None \<Rightarrow> role,
                             case json_contains_string J j ''name'' of Some n \<Rightarrow> n | None \<Rightarrow> name));
                rs' = on_snapshot now role' name' body rs
            in (case write_message io ReportAck ok_text s1 of
                  None \<Rightarrow> None
                | Some (Inl e, s2) \<Rightarrow> Some (Inl e, (role', name', True), rs', s2)
                | Some (Inr _, s2) \<Rightarrow> Some (Inr True, (role', name', True), rs', s2)))"

subsection \<open>The client\<close>

record 's RendezvousClient =
  rc_host :: string
  rc_port :: int
  rc_cancelled :: bool
  rc_active :: "'s option"

definition client_cancel :: "'s IBlockingStream \<Rightarrow> 's RendezvousClient \<Rightarrow> 's RendezvousClient" where
  "client_cancel io c =
     c\<lparr>rc_cancelled := True, rc_active := map_option (\<lambda>s. bs_close io (bs_shutdown io s)) (rc_active c)\<rparr>"

text \<open>
  One exchange on a fresh socket. \<open>create\<close> is the socket factory (an exception or a socket);
  \<open>env\<close> is what other threads have done to the client between the publication of the socket
  and the second look at the cancelled flag. What they do to the socket later is part of the
  stream.
\<close>

definition exchange_on ::
  "'s IBlockingStream \<Rightarrow> MessageType \<Rightarrow> string \<Rightarrow> MessageType \<Rightarrow> 's RendezvousClient \<Rightarrow> 's \<Rightarrow>
   (string option \<times> 's) option" where
  "exchange_on io req_type req_body expected c s =
     (case bs_connect io (rc_host c) (rc_port c) s of
        None \<Rightarrow> None
      | Some (Inl e, s1) \<Rightarrow> Some (None, s1)
      | Some (Inr (Some e), s1) \<Rightarrow> Some (None, s1)
      | Some (Inr None, s1) \<Rightarrow>
     (case write_message io req_type req_body s1 of
        None \<Rightarrow> None
      | Some (Inl e, s2) \<Rightarrow> Some (None, s2)
      | Some (Inr _, s2) \<Rightarrow>
     (case read_message io s2 of
        None \<Rightarrow> None
      | Some (Inl e, s3) \<Rightarrow> Some (None, s3)
      | Some (Inr (type, body), s3) \<Rightarrow>
          if type \<noteq> expected then Some (None, s3) else Some (Some body, s3))))"

definition exchange ::
  "'s IBlockingStream \<Rightarrow> ('s RendezvousClient \<Rightarrow> 's RendezvousClient) \<Rightarrow> 's result \<Rightarrow>
   MessageType \<Rightarrow> string \<Rightarrow> MessageType \<Rightarrow> 's RendezvousClient \<Rightarrow>
   (string option \<times> 's RendezvousClient) option" where
  "exchange io env create req_type req_body expected c =
     (if rc_cancelled c then Some (None, c)
      else
        case create of
          Inl e \<Rightarrow> Some (None, c)
        | Inr s \<Rightarrow>
            let c1 = env (c\<lparr>rc_active := Some s\<rparr>) in
            if rc_cancelled c1 then Some (None, c1\<lparr>rc_active := None\<rparr>)
            else
              (case exchange_on io req_type req_body expected c1 (case rc_active c1 of Some s' \<Rightarrow> s' | None \<Rightarrow> s) of
                 None \<Rightarrow> None
               | Some (r, s') \<Rightarrow> Some (r, c1\<lparr>rc_active := None\<rparr>)))"

definition register_body :: "'j Json \<Rightarrow> string \<Rightarrow> string \<Rightarrow> string \<Rightarrow> int \<Rightarrow> string" where
  "register_body J role name vn_host vn_port =
     json_dump J (json_object J [(''role'', JStr role), (''name'', JStr name),
       (''vn_host'', JStr vn_host), (''vn_port'', JInt vn_port)])"

definition unregister_body :: "'j Json \<Rightarrow> string \<Rightarrow> string \<Rightarrow> string" where
  "unregister_body J role name = json_dump J (json_object J [(''role'', JStr role), (''name'', JStr name)])"

definition discover_body :: "'j Json \<Rightarrow> string \<Rightarrow> string" where
  "discover_body J role = json_dump J (json_object J [(''role'', JStr role)])"

definition accepted :: "'j Json \<Rightarrow> string option \<Rightarrow> bool" where
  "accepted J resp =
     (case resp of
        None \<Rightarrow> False
      | Some t \<Rightarrow> (case json_parse J t of
                    None \<Rightarrow> False
                  | Some j \<Rightarrow> (case bool_value J j ''ok'' of Some b \<Rightarrow> b | None \<Rightarrow> False)))"

definition register_endpoint ::
  "'s IBlockingStream \<Rightarrow> ('s RendezvousClient \<Rightarrow> 's RendezvousClient) \<Rightarrow> 's result \<Rightarrow> 'j Json \<Rightarrow>
   string \<Rightarrow> string \<Rightarrow> string \<Rightarrow> int \<Rightarrow> 's RendezvousClient \<Rightarrow> (bool \<times> 's RendezvousClient) option" where
  "register_endpoint io env create J role name vn_host vn_port c =
     (case exchange io env create RegisterRequest (register_body J role name vn_host vn_port) RegisterResponse c of
        None \<Rightarrow> None | Some (r, c') \<Rightarrow> Some (accepted J r, c'))"

definition unregister_endpoint ::
  "'s IBlockingStream \<Rightarrow> ('s RendezvousClient \<Rightarrow> 's RendezvousClient) \<Rightarrow> 's result \<Rightarrow> 'j Json \<Rightarrow>
   string \<Rightarrow> string \<Rightarrow> 's RendezvousClient \<Rightarrow> (bool \<times> 's RendezvousClient) option" where
  "unregister_endpoint io env create J role name c =
     (case exchange io env create UnregisterRequest (unregister_body J role name) UnregisterResponse c of
        None \<Rightarrow> None | Some (r, c') \<Rightarrow> Some (accepted J r, c'))"

definition discover_endpoint ::
  "'s IBlockingStream \<Rightarrow> ('s RendezvousClient \<Rightarrow> 's RendezvousClient) \<Rightarrow> 's result \<Rightarrow> 'j Json \<Rightarrow>
   string \<Rightarrow> 's RendezvousClient \<Rightarrow> ('j option \<times> 's RendezvousClient) option" where
  "discover_endpoint io env create J role c =
     (case exchange io env create DiscoverRequest (discover_body J role) DiscoverResponse c of
        None \<Rightarrow> None
      | Some (None, c') \<Rightarrow> Some (None, c')
      | Some (Some t, c') \<Rightarrow> Some (json_parse J t, c'))"

subsection \<open>Frames are read back as they were written\<close>

definition rv_frame :: "MessageType \<Rightarrow> string \<Rightarrow> bytes" where
  "rv_frame type body =
     le_bytes 4 (word_of_nat (1 + length body) :: u32) @ [type_byte type] @ string_bytes body"

definition known_type :: "MessageType \<Rightarrow> bool" where
  "known_type t \<longleftrightarrow> message_type (type_byte t) = t"

lemma type_byte_message_type [simp]: "type_byte (message_type b) = b"
  by (simp add: type_byte_def message_type_def)

lemma known_types [simp]:
  "known_type RegisterRequest" "known_type RegisterResponse" "known_type UnregisterRequest"
  "known_type UnregisterResponse" "known_type DiscoverRequest" "known_type DiscoverResponse"
  "known_type ReportSnapshot" "known_type ReportAck"
  by (simp_all add: known_type_def type_byte_def message_type_def)

lemma string_bytes_inverse [simp]: "bytes_string (string_bytes s) = s"
proof -
  have "char_of (unat (word_of_nat (of_char c) :: byte)) = c" for c
    by (simp add: unsigned_of_nat take_bit_eq_mod)
  then show ?thesis by (simp add: string_bytes_def bytes_string_def comp_def)
qed

lemma bytes_string_inverse [simp]: "string_bytes (bytes_string bs) = bs"
proof -
  have "word_of_nat (of_char (char_of (unat b) :: char)) = b" for b :: byte
    using unsigned_less [of b, where 'a = nat] by simp
  then show ?thesis by (simp add: string_bytes_def bytes_string_def comp_def)
qed

lemma length_string_bytes [simp]: "length (string_bytes s) = length s" "length (bytes_string b) = length b"
  by (simp_all add: string_bytes_def bytes_string_def)

context worker_stream
begin

lemma read_exact_spec:
  "read_exact io n acc s = Some (r, s') \<Longrightarrow>
     tx s' = tx s \<and> (\<exists>got. rx s = got @ rx s' \<and> (\<forall>bs. r = Inr bs \<longrightarrow> bs = acc @ got \<and> length got = n))"
proof (induction n arbitrary: acc s rule: less_induct)
  case (less n)
  show ?case
  proof (cases "n = 0")
    case True
    then have "read_exact io n acc s = Some (Inr acc, s)" by (subst read_exact.simps) simp
    then show ?thesis using less.prems True by auto
  next
    case False
    then obtain bs e s1 where r: "bs_read io s n = Some (bs, e, s1)"
      using less.prems by (subst (asm) read_exact.simps) (auto split: option.splits)
    note o = rdb_order [OF r]
    show ?thesis
    proof (cases "e = None \<and> bs \<noteq> []")
      case go: True
      then have l: "length bs = n" using rdb_full [of s n bs s1] r by simp
      have "read_exact io (n - length bs) (acc @ bs) s1 = Some (r, s')"
        using less.prems False go \<open>bs_read io s n = Some (bs, e, s1)\<close> by (subst (asm) read_exact.simps) simp
      from less.IH [OF _ this] False l o show ?thesis by auto
    next
      case stop: False
      then have "s' = s1 \<and> (\<exists>x. r = Inl x)"
        using less.prems False \<open>bs_read io s n = Some (bs, e, s1)\<close>
        by (subst (asm) read_exact.simps) (auto split: option.splits if_splits)
      then show ?thesis using o by auto
    qed
  qed
qed

lemma write_exact_spec:
  "write_exact io buf off s = Some (r, s') \<Longrightarrow> off \<le> length buf \<Longrightarrow>
     rx s' = rx s \<and> (r = Inr () \<longrightarrow> tx s' = tx s @ drop off buf)"
proof (induction "length buf - off" arbitrary: off s rule: less_induct)
  case less
  show ?case
  proof (cases "off < length buf")
    case False
    then have "write_exact io buf off s = Some (Inr (), s)" by (subst write_exact.simps) simp
    then show ?thesis using less.prems False by simp
  next
    case True
    then obtain bw e s1 where w: "bs_write io s (drop off buf) = Some (bw, e, s1)"
      using less.prems by (subst (asm) write_exact.simps) (auto split: option.splits)
    note o = wrb_order [OF w]
    show ?thesis
    proof (cases "e = None \<and> bw \<noteq> 0")
      case go: True
      then have bw: "bw = length buf - off" using wrb_full [of s "drop off buf" bw s1] w by simp
      have "write_exact io buf (off + bw) s1 = Some (r, s')"
        using less.prems True go w by (subst (asm) write_exact.simps) simp
      from less.hyps [OF _ this] bw go True o show ?thesis by simp
    next
      case stop: False
      then have "s' = s1 \<and> (\<exists>x. r = Inl x)" using less.prems True w
        by (subst (asm) write_exact.simps) (auto split: option.splits if_splits)
      then show ?thesis using o by auto
    qed
  qed
qed

lemma write_message_spec:
  assumes "write_message io ty body s = Some (Inr (), s')"
  shows "tx s' = tx s @ rv_frame ty body \<and> rx s' = rx s"
proof -
  obtain s1 s2 where w: "write_exact io (le_bytes 4 (word_of_nat (1 + length body) :: u32)) 0 s = Some (Inr (), s1)"
      "write_exact io [type_byte ty] 0 s1 = Some (Inr (), s2)"
      "if body \<noteq> [] then write_exact io (string_bytes body) 0 s2 = Some (Inr (), s') else s' = s2"
    using assms by (auto simp: write_message_def Let_def split: option.splits sum.splits if_splits)
  note f = write_exact_spec [OF w(1)] write_exact_spec [OF w(2)]
  show ?thesis
  proof (cases "body = []")
    case True
    then show ?thesis using f w(3) by (simp add: rv_frame_def string_bytes_def)
  next
    case False
    then have "write_exact io (string_bytes body) 0 s2 = Some (Inr (), s')" using w(3) by simp
    from write_exact_spec [OF this] f show ?thesis by (simp add: rv_frame_def)
  qed
qed

lemma read_message_known: "read_message io s = Some (Inr (ty, body), s') \<Longrightarrow> known_type ty"
  by (auto simp: read_message_def Let_def known_type_def split: option.splits sum.splits if_splits)

lemma read_message_spec:
  assumes "read_message io s = Some (Inr (ty, body), s')"
  shows "rx s = rv_frame ty body @ rx s' \<and> tx s' = tx s \<and> length body < 2 ^ 16"
proof -
  obtain lb s1 tb s2 where r: "read_exact io kFrameHeaderSize [] s = Some (Inr lb, s1)"
      "read_exact io 1 [] s1 = Some (Inr tb, s2)" "ty = message_type (hd tb)"
    and len: "(le_word lb :: u32) \<noteq> 0" "(le_word lb :: u32) \<le> kMaxFramePayload"
    and b: "if (le_word lb :: u32) - 1 > 0
        then \<exists>bs. read_exact io (unat ((le_word lb :: u32) - 1)) [] s2 = Some (Inr bs, s') \<and> body = bytes_string bs
        else body = [] \<and> s' = s2"
    using assms by (auto simp: read_message_def Let_def not_less split: option.splits sum.splits if_splits)
  have f1: "length lb = 4" "rx s = lb @ rx s1" "tx s1 = tx s"
    using read_exact_spec [OF r(1)] by (auto simp: kFrameHeaderSize_def)
  have f2: "length tb = 1" "rx s1 = tb @ rx s2" "tx s2 = tx s1"
    using read_exact_spec [OF r(2)] by auto
  let ?n = "unat ((le_word lb :: u32) - 1)"
  have f3: "length body = ?n" "rx s2 = string_bytes body @ rx s'" "tx s' = tx s2"
  proof -
    have "length body = ?n \<and> rx s2 = string_bytes body @ rx s' \<and> tx s' = tx s2"
    proof (cases "(le_word lb :: u32) - 1 > 0")
      case True
      then obtain bs where "read_exact io ?n [] s2 = Some (Inr bs, s')" "body = bytes_string bs"
        using b by auto
      then show ?thesis using read_exact_spec [of ?n "[]" s2 "Inr bs" s'] by auto
    next
      case False
      then show ?thesis using b by (auto simp: string_bytes_def word_gt_0)
    qed
    then show "length body = ?n" "rx s2 = string_bytes body @ rx s'" "tx s' = tx s2" by auto
  qed
  have u: "1 \<le> (le_word lb :: u32)" "1 \<le> unat (le_word lb :: u32)"
    using len(1) unat_eq_0 [of "le_word lb :: u32"] by (auto simp: word_le_nat_alt)
  have n: "?n = unat (le_word lb :: u32) - 1" using unat_sub [OF u(1)] by simp
  have "word_of_nat (1 + length body) = (le_word lb :: u32)" using f3(1) n u by simp
  then have "le_bytes 4 (word_of_nat (1 + length body) :: u32) = lb"
    using le_bytes_le_word [of lb 4, where 'a = 32] f1(1) by simp
  moreover have "tb = [type_byte ty]" using f2(1) r(3) by (cases tb) auto
  moreover have "length body < 2 ^ 16"
    using len(2) f3(1) n by (simp add: word_le_nat_alt kMaxFramePayload_def)
  ultimately show ?thesis using f1 f2 f3 by (simp add: rv_frame_def)
qed

end

lemma unat_frame_length:
  "length body < 2 ^ 16 \<Longrightarrow> unat (word_of_nat (1 + length body) :: u32) = 1 + length body"
  by (simp add: unat_of_nat unsigned_of_nat take_bit_nat_eq_self del: of_nat_Suc of_nat_add)

lemma rv_frame_split:
  assumes "rv_frame t b @ r = rv_frame t' b' @ r'" "length b < 2 ^ 16" "length b' < 2 ^ 16"
    "known_type t" "known_type t'"
  shows "t = t' \<and> b = b' \<and> r = r'"
proof -
  have "le_bytes 4 (word_of_nat (1 + length b) :: u32) = le_bytes 4 (word_of_nat (1 + length b') :: u32)"
    using assms(1) by (simp add: rv_frame_def)
  then have "(le_word (le_bytes 4 (word_of_nat (1 + length b) :: u32)) :: u32)
      = le_word (le_bytes 4 (word_of_nat (1 + length b') :: u32))" by (rule arg_cong)
  then have "(word_of_nat (1 + length b) :: u32) = word_of_nat (1 + length b')" by simp
  then have "length b = length b'"
    using unat_frame_length [OF assms(2)] unat_frame_length [OF assms(3)] by simp
  then have "type_byte t = type_byte t'" "string_bytes b = string_bytes b'" "r = r'"
    using assms(1) by (auto simp: rv_frame_def)
  then show ?thesis using assms(4,5) string_bytes_inverse unfolding known_type_def by metis
qed

text \<open>
  C20. Rendezvous frames are read back as they were written. A message with a body of less
  than 64 KB that \<open>write_message\<close> has written without an exception is, on the peer's
  stream, returned by \<open>read_message\<close> with the same type and body whenever that returns a
  message, and exactly its bytes are consumed.
\<close>

theorem rendezvous_frame_roundtrip:
  assumes "worker_stream io rx tx" "write_message io ty body s = Some (Inr (), s')"
    "length body < 2 ^ 16" "known_type ty"
    and "worker_stream io2 rx2 tx2" "rx2 t = drop (length (tx s)) (tx s') @ rest"
    "read_message io2 t = Some (Inr (ty', body'), t')"
  shows "ty' = ty \<and> body' = body \<and> rx2 t' = rest \<and> tx2 t' = tx2 t"
proof -
  have "rx2 t = rv_frame ty body @ rest"
    using worker_stream.write_message_spec [OF assms(1,2)] assms(6) by simp
  moreover note r = worker_stream.read_message_spec [OF assms(5,7)]
  ultimately have "rv_frame ty' body' @ rx2 t' = rv_frame ty body @ rest" by simp
  moreover have "known_type ty'" using worker_stream.read_message_known [OF assms(5,7)] .
  ultimately show ?thesis using rv_frame_split [of ty' body' "rx2 t'" ty body rest] r assms(3,4) by blast
qed

lemma mem_sel [simp]:
  "bs_read mem_io s n = Some (mem_read s n)" "bs_write mem_io s b = Some (length b, None, fst s, snd s @ b)"
  by (simp_all add: mem_io_def)

lemma mem_read_exact:
  assumes "n \<le> length i"
  shows "read_exact mem_io n acc (i, out) = Some (Inr (acc @ take n i), (drop n i, out))"
proof -
  have z: "read_exact mem_io 0 acc' s = Some (Inr acc', s)" for acc' s by (subst read_exact.simps) simp
  show ?thesis using assms by (subst read_exact.simps) (auto simp: mem_read_def z)
qed

lemma mem_write_exact:
  "write_exact mem_io buf 0 (i, out) = Some (Inr (), (i, out @ buf))"
proof -
  have z: "write_exact mem_io buf (length buf) s = Some (Inr (), s)" for s by (subst write_exact.simps) simp
  show ?thesis by (subst write_exact.simps) (auto simp: z)
qed

lemma mem_write_message:
  "length body < 2 ^ 16 \<Longrightarrow> write_message mem_io ty body (i, out) = Some (Inr (), (i, out @ rv_frame ty body))"
  using unat_frame_length [of body]
  by (simp add: write_message_def Let_def word_less_nat_alt kMaxFramePayload_def mem_write_exact rv_frame_def
      string_bytes_def)

lemma mem_read_message:
  assumes "length body < 2 ^ 16" "known_type ty"
  shows "read_message mem_io (rv_frame ty body @ rest, out) = Some (Inr (ty, body), (rest, out))"
proof -
  let ?w = "word_of_nat (1 + length body) :: u32"
  have w: "unat ?w = 1 + length body" by (rule unat_frame_length [OF assms(1)])
  have u: "unat (?w - 1) = length body" using w unat_sub [of 1 ?w] by (simp add: word_le_nat_alt)
  have c: "\<not> ?w < 1" "\<not> ?w > kMaxFramePayload"
    using w assms(1) by (simp_all add: word_less_nat_alt kMaxFramePayload_def del: of_nat_add of_nat_Suc)
  have z: "(?w - 1 > 0) \<longleftrightarrow> body \<noteq> []" using u by (auto simp: word_less_nat_alt)
  have l: "(le_word (take 4 (rv_frame ty body @ rest)) :: u32) = ?w"
    by (simp add: rv_frame_def del: of_nat_add of_nat_Suc)
  have d: "drop 4 (rv_frame ty body @ rest) = type_byte ty # string_bytes body @ rest"
    by (simp add: rv_frame_def)
  have n: "4 \<le> length (rv_frame ty body @ rest)" by (simp add: rv_frame_def)
  show ?thesis using assms(2) c z u
    unfolding read_message_def kFrameHeaderSize_def mem_read_exact [OF n] d option.case sum.case prod.case Let_def append_Nil l
    by (auto simp: mem_read_exact known_type_def string_bytes_def [of "[]"] simp del: of_nat_add of_nat_Suc)
qed

theorem rendezvous_frame_roundtrip_witness:
  "\<exists>s' t'. write_message mem_io DiscoverRequest ''x'' ([], []) = Some (Inr (), s')
     \<and> read_message mem_io (snd s', []) = Some (Inr (DiscoverRequest, ''x''), t') \<and> fst t' = []"
proof -
  have w: "write_message mem_io DiscoverRequest ''x'' ([], []) = Some (Inr (), ([], rv_frame DiscoverRequest ''x''))"
    using mem_write_message [of "''x''" DiscoverRequest "[]" "[]"] by simp
  have r: "read_message mem_io (rv_frame DiscoverRequest ''x'', []) = Some (Inr (DiscoverRequest, ''x''), ([], []))"
    using mem_read_message [of "''x''" DiscoverRequest "[]" "[]"] by simp
  show ?thesis
    using w r rendezvous_frame_roundtrip [OF mem.worker_stream_axioms w _ _ mem.worker_stream_axioms _ r, of "[]"]
    by simp
qed

subsection \<open>What the program relies on in the JSON library\<close>

fun same_kind :: "jfield \<Rightarrow> jfield \<Rightarrow> bool" where
  "same_kind (JStr _) (JStr _) = True"
| "same_kind (JInt _) (JInt _) = True"
| "same_kind (JBool _) (JBool _) = True"
| "same_kind _ _ = False"

locale json_lib =
  fixes J :: "'j Json"
  assumes parse_dump: "json_parse J (json_dump J j) = Some j"
    and value_object: "distinct (map fst fs) \<Longrightarrow> json_value J (json_object J fs) k d =
      (case map_of fs k of None \<Rightarrow> Some d | Some v \<Rightarrow> if same_kind v d then Some v else None)"
    and parse_ok: "json_parse J ok_text = Some (json_object J [(''ok'', JBool True)])"
    and parse_not_found: "json_parse J not_found_text = Some (json_object J [(''found'', JBool False)])"
begin

lemma ok_accepted: "accepted J (Some ok_text)"
  by (simp add: accepted_def parse_ok bool_value_def value_object)

lemma register_stores:
  "handle_register J now (register_body J role name host port) rs =
     (ok_text, rs\<lparr>rs_endpoint := Some \<lparr>ep_role = role, ep_name = name, ep_host = host, ep_port = port, ep_last_seen = now\<rparr>\<rparr>)"
  by (simp add: handle_register_def register_body_def parse_dump str_value_def int_value_def value_object)

lemma unregister_removes:
  "rs_endpoint rs = Some ep \<Longrightarrow>
     handle_unregister J (unregister_body J (ep_role ep) (ep_name ep)) rs = (ok_text, rs\<lparr>rs_endpoint := None\<rparr>)"
  by (simp add: handle_unregister_def unregister_body_def parse_dump str_value_def value_object)

lemma discover_finds:
  assumes "rs_endpoint rs = Some ep"
  shows "\<exists>j. json_parse J (handle_discover J now (discover_body J (ep_role ep)) rs) = Some j
    \<and> bool_value J j ''found'' = Some True \<and> str_value J j ''vn_host'' = Some (ep_host ep)
    \<and> int_value J j ''vn_port'' = Some (ep_port ep)
    \<and> bool_value J j ''stale'' = Some (now - ep_last_seen ep > rs_ttl_seconds rs * 1000000000)"
  using assms
  by (simp add: handle_discover_def discover_body_def parse_dump str_value_def int_value_def bool_value_def
      value_object Let_def)

lemma discover_missing:
  assumes "\<And>ep. rs_endpoint rs = Some ep \<Longrightarrow> ep_role ep \<noteq> role"
  shows "\<exists>j. json_parse J (handle_discover J now (discover_body J role) rs) = Some j
    \<and> bool_value J j ''found'' = Some False"
  using assms
  by (cases "rs_endpoint rs") (simp_all add: handle_discover_def discover_body_def parse_dump str_value_def
      bool_value_def value_object parse_not_found)

end

text \<open>
  C21. Discovery returns what was registered. After a dispatcher has registered an endpoint,
  a discovery of its role is answered with exactly this host and port, marked stale exactly
  when more than the time to live has passed since the registration; a later snapshot report
  under the same role and name makes it fresh again. After it has unregistered, and for
  every other role, the answer is that none is found.
\<close>

theorem discover_returns_registered:
  assumes "json_lib J"
    "dispatch_message J t0 RegisterRequest (register_body J role name host port) rs = (resp, rs1)"
    "on_snapshot t1 role name snap rs1 = rs2"
    "dispatch_message J t2 UnregisterRequest (unregister_body J role name) rs2 = (resp3, rs3)"
  shows "accepted J (Some resp) \<and> accepted J (Some resp3)
    \<and> (\<forall>now. \<exists>j. json_parse J (fst (dispatch_message J now DiscoverRequest (discover_body J role) rs1)) = Some j
        \<and> bool_value J j ''found'' = Some True \<and> str_value J j ''vn_host'' = Some host
        \<and> int_value J j ''vn_port'' = Some port
        \<and> bool_value J j ''stale'' = Some (now - t0 > rs_ttl_seconds rs * 1000000000))
    \<and> (\<forall>now. \<exists>j. json_parse J (fst (dispatch_message J now DiscoverRequest (discover_body J role) rs2)) = Some j
        \<and> bool_value J j ''found'' = Some True \<and> str_value J j ''vn_host'' = Some host
        \<and> int_value J j ''vn_port'' = Some port
        \<and> bool_value J j ''stale'' = Some (now - t1 > rs_ttl_seconds rs * 1000000000))
    \<and> (\<forall>now. \<exists>j. json_parse J (fst (dispatch_message J now DiscoverRequest (discover_body J role) rs3)) = Some j
        \<and> bool_value J j ''found'' = Some False)
    \<and> (\<forall>now r. r \<noteq> role \<longrightarrow> (\<exists>j. json_parse J (fst (dispatch_message J now DiscoverRequest (discover_body J r) rs1)) = Some j
        \<and> bool_value J j ''found'' = Some False))"
proof -
  let ?ep = "\<lparr>ep_role = role, ep_name = name, ep_host = host, ep_port = port, ep_last_seen = t0\<rparr>"
  have rs1: "resp = ok_text" "rs_endpoint rs1 = Some ?ep" "rs_ttl_seconds rs1 = rs_ttl_seconds rs"
    using assms(2) by (auto simp: dispatch_message_def json_lib.register_stores [OF assms(1)])
  have rs2: "rs_endpoint rs2 = Some (?ep\<lparr>ep_last_seen := t1\<rparr>)" "rs_ttl_seconds rs2 = rs_ttl_seconds rs"
    using assms(3) rs1 by (auto simp: on_snapshot_def Let_def)
  have rs3: "resp3 = ok_text" "rs_endpoint rs3 = None"
    using assms(4) json_lib.unregister_removes [OF assms(1) rs2(1)] by (auto simp: dispatch_message_def)
  note d = json_lib.discover_finds [OF assms(1)] json_lib.discover_missing [OF assms(1)]
  show ?thesis
    using d(1) [OF rs1(2)] d(1) [OF rs2(1)] d(2) [of rs3] d(2) [of rs1] rs1 rs2 rs3
      json_lib.ok_accepted [OF assms(1)]
    by (simp add: dispatch_message_def)
qed

text \<open>
  A JSON library for the witness: objects are their member lists, and the text of an object
  is a self-delimiting encoding behind a marker; the literals are read as they stand.
\<close>

definition enc_str :: "string \<Rightarrow> string" where
  "enc_str s = concat (map (\<lambda>c. [CHR ''.'', c]) s) @ '';''"

fun dec_str :: "string \<Rightarrow> (string \<times> string) option" where
  "dec_str (x # c # r) =
     (if x = CHR ''.'' then (case dec_str r of Some (s, r') \<Rightarrow> Some (c # s, r') | None \<Rightarrow> None)
      else if x = CHR '';'' then Some ([], c # r) else None)"
| "dec_str [x] = (if x = CHR '';'' then Some ([], []) else None)"
| "dec_str [] = None"

lemma dec_enc_str [simp]: "dec_str (enc_str s @ r) = Some (s, r)"
  by (induction s) (cases r; simp add: enc_str_def)+

definition enc_int :: "int \<Rightarrow> string" where
  "enc_int i = enc_str ((if i < 0 then ''-'' else []) @ replicate (nat \<bar>i\<bar>) CHR ''1'')"

definition dec_int :: "string \<Rightarrow> int" where
  "dec_int s = (if s \<noteq> [] \<and> hd s = CHR ''-'' then - int (length (tl s)) else int (length s))"

lemma dec_int_text [simp]: "dec_int ((if i < 0 then ''-'' else []) @ replicate (nat \<bar>i\<bar>) CHR ''1'') = i"
  by (cases "nat \<bar>i\<bar>") (auto simp: dec_int_def)

lemma dec_int_ones [simp]: "dec_int (replicate n CHR ''1'') = int n"
  by (cases n) (auto simp: dec_int_def)

fun enc_field :: "jfield \<Rightarrow> string" where
  "enc_field (JStr s) = ''s'' @ enc_str s"
| "enc_field (JInt i) = ''i'' @ enc_int i"
| "enc_field (JBool b) = (if b then ''t'' else ''f'')"

definition dec_field :: "string \<Rightarrow> (jfield \<times> string) option" where
  "dec_field r =
     (case r of
        [] \<Rightarrow> None
      | c # r' \<Rightarrow>
          if c = CHR ''s'' then map_option (\<lambda>(s, q). (JStr s, q)) (dec_str r')
          else if c = CHR ''i'' then map_option (\<lambda>(s, q). (JInt (dec_int s), q)) (dec_str r')
          else if c = CHR ''t'' then Some (JBool True, r') else Some (JBool False, r'))"

lemma dec_enc_field [simp]: "dec_field (enc_field f @ r) = Some (f, r)"
  by (cases f) (auto simp: dec_field_def enc_int_def)

fun dec_object :: "nat \<Rightarrow> string \<Rightarrow> (string \<times> jfield) list option" where
  "dec_object 0 r = (if r = [] then Some [] else None)"
| "dec_object (Suc n) r =
     (case dec_str r of
        None \<Rightarrow> None
      | Some (k, r1) \<Rightarrow>
          (case dec_field r1 of
             None \<Rightarrow> None
           | Some (f, r2) \<Rightarrow> map_option (\<lambda>fs. (k, f) # fs) (dec_object n r2)))"

definition demo_dump :: "(string \<times> jfield) list \<Rightarrow> string" where
  "demo_dump fs = ''#'' @ enc_int (int (length fs)) @ concat (map (\<lambda>(k, f). enc_str k @ enc_field f) fs)"

definition demo_parse :: "string \<Rightarrow> (string \<times> jfield) list option" where
  "demo_parse t =
     (if t = ok_text then Some [(''ok'', JBool True)]
      else if t = not_found_text then Some [(''found'', JBool False)]
      else if t \<noteq> [] \<and> hd t = CHR ''#'' then
        (case dec_str (tl t) of None \<Rightarrow> None | Some (n, r) \<Rightarrow> dec_object (nat (dec_int n)) r)
      else None)"

lemma dec_object_enc:
  "dec_object (length fs) (concat (map (\<lambda>(k, f). enc_str k @ enc_field f) fs)) = Some fs"
  by (induction fs) auto

definition demo_json :: "(string \<times> jfield) list Json" where
  "demo_json = \<lparr>json_parse = demo_parse, json_dump = demo_dump, json_object = (\<lambda>fs. fs),
     json_value = (\<lambda>fs k d. case map_of fs k of None \<Rightarrow> Some d | Some v \<Rightarrow> if same_kind v d then Some v else None),
     json_contains_string = (\<lambda>fs k. case map_of fs k of Some (JStr s) \<Rightarrow> Some s | _ \<Rightarrow> None)\<rparr>"

interpretation demo_json: json_lib demo_json
proof unfold_locales
  show "json_parse demo_json (json_dump demo_json j) = Some j" for j
    by (simp add: demo_json_def demo_parse_def demo_dump_def ok_text_def not_found_text_def enc_int_def
        dec_object_enc)
qed (simp_all add: demo_json_def demo_parse_def ok_text_def not_found_text_def)

definition demo_server :: RendezvousServer where
  "demo_server = \<lparr>rs_endpoint = None, rs_snapshot = [], rs_ttl_seconds = 30\<rparr>"

theorem discover_returns_registered_witness:
  "\<exists>j. json_parse demo_json (fst (dispatch_message demo_json 5 DiscoverRequest (discover_body demo_json ''dispatcher'')
      (snd (dispatch_message demo_json 0 RegisterRequest
        (register_body demo_json ''dispatcher'' ''default'' ''10.1.2.3'' 4000) demo_server)))) = Some j
    \<and> str_value demo_json j ''vn_host'' = Some ''10.1.2.3'' \<and> bool_value demo_json j ''stale'' = Some False"
proof -
  obtain resp rs1 where r: "dispatch_message demo_json 0 RegisterRequest
      (register_body demo_json ''dispatcher'' ''default'' ''10.1.2.3'' 4000) demo_server = (resp, rs1)" by force
  obtain resp3 rs3 where u: "dispatch_message demo_json 2 UnregisterRequest
      (unregister_body demo_json ''dispatcher'' ''default'') (on_snapshot 1 ''dispatcher'' ''default'' [] rs1) = (resp3, rs3)"
    by force
  from discover_returns_registered [OF demo_json.json_lib_axioms r refl u, THEN conjunct2, THEN conjunct2,
      THEN conjunct1, THEN spec [of _ 5]] r
  show ?thesis by (auto simp: demo_server_def)
qed

text \<open>
  Cancelling a rendezvous client is final. Once \<open>cancel\<close> was called, no registration,
  unregistration or discovery through this client can succeed again, whatever the network
  does and whatever other threads do: each returns failure at once and the client stays
  cancelled.
\<close>

theorem cancelled_client_fails:
  assumes "rc_cancelled c"
  shows "register_endpoint io env create J role name host port c = Some (False, c)
    \<and> unregister_endpoint io env create J role name c = Some (False, c)
    \<and> discover_endpoint io env create J role c = Some (None, c) \<and> rc_cancelled (client_cancel io c)"
  using assms
  by (simp add: register_endpoint_def unregister_endpoint_def discover_endpoint_def exchange_def accepted_def
      client_cancel_def)

theorem cancelled_client_fails_witness:
  "unregister_endpoint mem_io (\<lambda>c. c) (Inr ([], [])) demo_json ''dispatcher'' ''default''
     (client_cancel mem_io \<lparr>rc_host = ''h'', rc_port = 1, rc_cancelled = False, rc_active = None\<rparr>)
   = Some (False, \<lparr>rc_host = ''h'', rc_port = 1, rc_cancelled = True, rc_active = None\<rparr>)"
  using cancelled_client_fails
    [of "\<lparr>rc_host = ''h'', rc_port = 1, rc_cancelled = True, rc_active = None\<rparr>" mem_io "\<lambda>c. c" "Inr ([], [])"
      demo_json "''dispatcher''" "''default''"]
  by (simp add: client_cancel_def)

end
