(* ===== verification/WorkerSess.thy ===== *)
theory WorkerSess
  imports Rendezvous
begin

section \<open>The worker session\<close>

text \<open>
  \<open>WorkerSession\<close> (worker/session/): the control loop \<open>start()\<close> and the requests of the user
  interface, which runs in another thread. The control thread's position is \<open>ws_pc\<close>; one
  step runs it from one look at a shared flag, or one return of a blocking call, to the next.
  The requests may come between any two steps. Calls that block (\<open>connect\<close>, \<open>run_loop\<close>,
  \<open>discover_endpoint\<close>) return at some later step with an arbitrary outcome the called code
  allows: \<open>run_loop\<close> returns true only when a pause was requested (see \<open>runtime_loop\<close>),
  \<open>connect\<close> returns true only with an open socket, and a cancelled rendezvous client never
  returns an endpoint (\<open>cancelled_client_fails\<close>). Sleeps are steps that change nothing;
  delays are in seconds. Log lines are not modelled.
\<close>

subsection \<open>State\<close>

datatype DiscoveryResult = Disabled | Updated | Unchanged | Cancelled

text \<open>Where discovery is called from: before the loop, or after a failed run.\<close>

datatype disc_site = AtStart | AfterError

datatype wpc =
    WStart | WDiscover disc_site | WDiscLoop disc_site nat | WAdopt disc_site string int | WTop | WConnect | WMaybeRun | WPreRun
  | WRun | WRunFailed | WCheckDisconnect | WRelease | WDone

record rv_config =
  rv_enabled :: bool
  rv_host :: "string option"
  rv_port :: "int option"

record 's WorkerSession =
  ws_host :: string
  ws_port :: int
  ws_runtime :: "'s Runtime"
  ws_start_requested :: bool
  ws_disconnect_requested :: bool
  ws_shutdown_requested :: bool
  ws_status :: string
  ws_client :: "'s RendezvousClient option"
  ws_reconnect_delay :: nat
  ws_pc :: wpc

definition kMaxReconnectDelay :: nat where
  "kMaxReconnectDelay = 5"

definition kMaxBackoff :: nat where
  "kMaxBackoff = 5"

definition new_session :: "string \<Rightarrow> int \<Rightarrow> 's WorkerSession" where
  "new_session host port = \<lparr>ws_host = host, ws_port = port, ws_runtime = new_runtime host port,
     ws_start_requested = True, ws_disconnect_requested = False, ws_shutdown_requested = False,
     ws_status = ''Disconnected'', ws_client = None, ws_reconnect_delay = 1, ws_pc = WStart\<rparr>"

subsection \<open>Requests of the user interface\<close>

definition start_runtime :: "'s WorkerSession \<Rightarrow> 's WorkerSession" where
  "start_runtime ws = ws\<lparr>ws_start_requested := True\<rparr>"

definition pause_runtime :: "'s WorkerSession \<Rightarrow> 's WorkerSession" where
  "pause_runtime ws = ws\<lparr>ws_runtime := runtime_pause (ws_runtime ws)\<rparr>"

definition disconnect_runtime :: "'s IBlockingStream \<Rightarrow> 's WorkerSession \<Rightarrow> 's WorkerSession" where
  "disconnect_runtime io ws =
     ws\<lparr>ws_disconnect_requested := True, ws_client := map_option (client_cancel io) (ws_client ws),
        ws_runtime := runtime_disconnect io (ws_runtime ws)\<rparr>"

definition session_shutdown :: "'s IBlockingStream \<Rightarrow> 's WorkerSession \<Rightarrow> 's WorkerSession" where
  "session_shutdown io ws =
     ws\<lparr>ws_shutdown_requested := True, ws_disconnect_requested := True,
        ws_client := map_option (client_cancel io) (ws_client ws),
        ws_runtime := runtime_shutdown io (ws_runtime ws)\<rparr>"

subsection \<open>Pieces of the control loop\<close>

text \<open>The configuration check at the beginning of \<open>start()\<close>.\<close>

definition session_configure :: "rv_config \<Rightarrow> 's WorkerSession \<Rightarrow> 's WorkerSession" where
  "session_configure cfg ws =
     (if rv_enabled cfg then
        (case (rv_host cfg, rv_port cfg) of
           (Some h, Some p) \<Rightarrow>
             if h = [] then ws\<lparr>ws_status := ''Error'', ws_shutdown_requested := True\<rparr>
             else ws\<lparr>ws_client := Some \<lparr>rc_host = h, rc_port = p, rc_cancelled = False, rc_active = None\<rparr>\<rparr>
         | _ \<Rightarrow> ws\<lparr>ws_status := ''Error'', ws_shutdown_requested := True\<rparr>)
      else ws)"

text \<open>
  What \<open>try_discover_dispatcher\<close> does with a JSON answer: \<open>Some\<close> the endpoint when one was
  found that is not stale and is complete. A throwing \<open>value\<close> is excluded here.
\<close>

definition usable_endpoint :: "'j Json \<Rightarrow> 'j \<Rightarrow> (string \<times> int) option" where
  "usable_endpoint J result =
     (case (bool_value J result ''found'', bool_value J result ''stale'', str_value J result ''vn_host'',
            int_value J result ''vn_port'') of
        (Some found, Some stale, Some h, Some p) \<Rightarrow>
          if \<not> found then None else if stale then None else if h = [] \<or> p = 0 then None else Some (h, p)
      | _ \<Rightarrow> None)"

definition adopt_endpoint :: "string \<Rightarrow> int \<Rightarrow> 's WorkerSession \<Rightarrow> DiscoveryResult \<times> 's WorkerSession" where
  "adopt_endpoint h p ws =
     (if h \<noteq> ws_host ws \<or> p \<noteq> ws_port ws
      then (Updated, ws\<lparr>ws_host := h, ws_port := p, ws_runtime := new_runtime h p\<rparr>)
      else (Unchanged, ws))"

text \<open>What the callers of discovery do with its result; both then go on at the loop's head.\<close>

definition after_discovery :: "disc_site \<Rightarrow> DiscoveryResult \<Rightarrow> 's WorkerSession \<Rightarrow> 's WorkerSession" where
  "after_discovery site r ws =
     (let ws1 =
        (if r = Cancelled then
           (if ws_disconnect_requested ws \<and> \<not> ws_shutdown_requested ws
            then ws\<lparr>ws_disconnect_requested := False, ws_start_requested := False, ws_status := ''Disconnected''\<rparr>
            else ws)
         else if site = AfterError then
           (let ws' = ws\<lparr>ws_start_requested := True\<rparr> in
            if r = Disabled
            then ws'\<lparr>ws_reconnect_delay := min (ws_reconnect_delay ws' * 2) kMaxReconnectDelay\<rparr> else ws')
         else ws)
      in ws1\<lparr>ws_pc := WTop\<rparr>)"

definition connected :: "'s IBlockingStream \<Rightarrow> 's WorkerSession \<Rightarrow> bool" where
  "connected io ws = runtime_is_connected io (ws_runtime ws)"

definition can_resolve :: "'s WorkerSession \<Rightarrow> bool" where
  "can_resolve ws = (case ws_client ws of None \<Rightarrow> False | Some c \<Rightarrow> \<not> rc_cancelled c)"

subsection \<open>Steps\<close>

text \<open>
  \<open>Work\<close> is progress inside \<open>run_loop\<close>, \<open>Found\<close> the return of a discovery with a usable
  endpoint, \<open>Ctl\<close> every other step of the control thread.
\<close>

datatype wlabel = Ctl | Work | Found | UiStart | UiPause | UiDisconnect | UiShutdown

inductive ctl_step ::
  "'s IBlockingStream \<Rightarrow> 'j Json \<Rightarrow> rv_config \<Rightarrow> wlabel \<Rightarrow> 's WorkerSession \<Rightarrow> 's WorkerSession \<Rightarrow> bool"
  for io :: "'s IBlockingStream" and J :: "'j Json" and cfg :: rv_config where
  ui_start: "ctl_step io J cfg UiStart ws (start_runtime ws)"
| ui_pause: "ctl_step io J cfg UiPause ws (pause_runtime ws)"
| ui_disconnect: "ctl_step io J cfg UiDisconnect ws (disconnect_runtime io ws)"
| ui_shutdown: "ctl_step io J cfg UiShutdown ws (session_shutdown io ws)"
| configure: "ws_pc ws = WStart \<Longrightarrow>
    ctl_step io J cfg Ctl ws ((session_configure cfg ws)\<lparr>ws_pc := WDiscover AtStart\<rparr>)"
| disabled: "ws_pc ws = WDiscover site \<Longrightarrow> ws_client ws = None \<Longrightarrow>
    ctl_step io J cfg Ctl ws (after_discovery site Disabled ws)"
| discovering: "ws_pc ws = WDiscover site \<Longrightarrow> ws_client ws \<noteq> None \<Longrightarrow>
    ctl_step io J cfg Ctl ws (ws\<lparr>ws_status := ''Discovering'', ws_pc := WDiscLoop site 1\<rparr>)"
| cancelled: "ws_pc ws = WDiscLoop site b \<Longrightarrow> ws_shutdown_requested ws \<or> ws_disconnect_requested ws \<Longrightarrow>
    ctl_step io J cfg Ctl ws (after_discovery site Cancelled ws)"
| resolved: "ws_pc ws = WDiscLoop site b \<Longrightarrow> can_resolve ws \<Longrightarrow> usable_endpoint J result = Some (h, p) \<Longrightarrow>
    ctl_step io J cfg Found ws (ws\<lparr>ws_pc := WAdopt site h p\<rparr>)"
| adopt: "ws_pc ws = WAdopt site h p \<Longrightarrow> adopt_endpoint h p ws = (r, ws') \<Longrightarrow>
    ctl_step io J cfg Ctl ws (after_discovery site r ws')"
| unresolved: "ws_pc ws = WDiscLoop site b \<Longrightarrow>
    \<not> ws_shutdown_requested ws \<Longrightarrow> \<not> ws_disconnect_requested ws \<Longrightarrow>
    ctl_step io J cfg Ctl ws (ws\<lparr>ws_pc := WDiscLoop site (min (b * 2) kMaxBackoff)\<rparr>)"
| leave: "ws_pc ws = WTop \<Longrightarrow> ws_shutdown_requested ws \<Longrightarrow> ctl_step io J cfg Ctl ws (ws\<lparr>ws_pc := WRelease\<rparr>)"
| connecting: "ws_pc ws = WTop \<Longrightarrow> \<not> ws_shutdown_requested ws \<Longrightarrow> ws_start_requested ws \<Longrightarrow> \<not> connected io ws \<Longrightarrow>
    ctl_step io J cfg Ctl ws (ws\<lparr>ws_status := ''Connecting'', ws_pc := WConnect\<rparr>)"
| no_connect: "ws_pc ws = WTop \<Longrightarrow> \<not> ws_shutdown_requested ws \<Longrightarrow> \<not> ws_start_requested ws \<or> connected io ws \<Longrightarrow>
    ctl_step io J cfg Ctl ws (ws\<lparr>ws_pc := WMaybeRun\<rparr>)"
| connect_failed: "ws_pc ws = WConnect \<Longrightarrow>
    ctl_step io J cfg Ctl ws (ws\<lparr>ws_runtime := (ws_runtime ws)\<lparr>rt_socket := sock\<rparr>,
      ws_pc := (if ws_shutdown_requested ws then WRelease else WTop)\<rparr>)"
| connect_ok: "ws_pc ws = WConnect \<Longrightarrow> bs_is_open io s \<Longrightarrow>
    ctl_step io J cfg Ctl ws (ws\<lparr>ws_runtime := (ws_runtime ws)\<lparr>rt_socket := Some s\<rparr>, ws_reconnect_delay := 1,
      ws_status := ''Connected'', ws_pc := WMaybeRun\<rparr>)"
| run: "ws_pc ws = WMaybeRun \<Longrightarrow> ws_start_requested ws \<Longrightarrow> connected io ws \<Longrightarrow>
    ctl_step io J cfg Ctl ws (ws\<lparr>ws_start_requested := False, ws_status := ''Running'', ws_pc := WPreRun\<rparr>)"
| no_run: "ws_pc ws = WMaybeRun \<Longrightarrow> \<not> ws_start_requested ws \<or> \<not> connected io ws \<Longrightarrow>
    ctl_step io J cfg Ctl ws (ws\<lparr>ws_pc := WCheckDisconnect\<rparr>)"
| run_begins: "ws_pc ws = WPreRun \<Longrightarrow> rt_socket (ws_runtime ws) \<noteq> None \<Longrightarrow>
    ctl_step io J cfg Ctl ws (ws\<lparr>ws_runtime := (ws_runtime ws)\<lparr>rt_pause_requested := False,
      rt_disconnect_requested := False\<rparr>, ws_pc := WRun\<rparr>)"
| run_no_socket: "ws_pc ws = WPreRun \<Longrightarrow> rt_socket (ws_runtime ws) = None \<Longrightarrow>
    ctl_step io J cfg Ctl ws (ws\<lparr>ws_pc := WRunFailed\<rparr>)"
| run_works: "ws_pc ws = WRun \<Longrightarrow>
    ctl_step io J cfg Work ws (ws\<lparr>ws_runtime := (ws_runtime ws)\<lparr>rt_socket := sock, rt_tasks_completed := n,
      rt_bytes_sent := m, rt_bytes_received := k\<rparr>\<rparr>)"
| run_paused: "ws_pc ws = WRun \<Longrightarrow> rt_pause_requested (ws_runtime ws) \<Longrightarrow>
    ctl_step io J cfg Ctl ws (ws\<lparr>ws_runtime := (ws_runtime ws)\<lparr>rt_pause_requested := False\<rparr>,
      ws_reconnect_delay := 1, ws_status := ''Paused'', ws_pc := WCheckDisconnect\<rparr>)"
| run_failed: "ws_pc ws = WRun \<Longrightarrow> ctl_step io J cfg Ctl ws (ws\<lparr>ws_pc := WRunFailed\<rparr>)"
| user_disconnect: "ws_pc ws = WRunFailed \<Longrightarrow> was_disconnect_requested (ws_runtime ws) \<Longrightarrow>
    ctl_step io J cfg Ctl ws (ws\<lparr>ws_disconnect_requested := False, ws_start_requested := False,
      ws_reconnect_delay := 1, ws_status := ''Disconnected'', ws_pc := WTop\<rparr>)"
| io_error: "ws_pc ws = WRunFailed \<Longrightarrow> \<not> was_disconnect_requested (ws_runtime ws) \<Longrightarrow>
    ctl_step io J cfg Ctl ws (ws\<lparr>ws_runtime := runtime_disconnect io (ws_runtime ws),
      ws_status := ''Disconnected'', ws_pc := WDiscover AfterError\<rparr>)"
| disconnect: "ws_pc ws = WCheckDisconnect \<Longrightarrow> ws_disconnect_requested ws \<Longrightarrow>
    ctl_step io J cfg Ctl ws (ws\<lparr>ws_runtime := runtime_disconnect io (ws_runtime ws),
      ws_disconnect_requested := False, ws_start_requested := False, ws_status := ''Disconnected'', ws_pc := WTop\<rparr>)"
| idle: "ws_pc ws = WCheckDisconnect \<Longrightarrow> \<not> ws_disconnect_requested ws \<Longrightarrow>
    ctl_step io J cfg Ctl ws (ws\<lparr>ws_pc := WTop\<rparr>)"
| release: "ws_pc ws = WRelease \<Longrightarrow>
    ctl_step io J cfg Ctl ws (ws\<lparr>ws_runtime := runtime_release (ws_runtime ws),
      ws_status := (if ws_status ws = ''Error'' then ''Error'' else ''Stopped''), ws_pc := WDone\<rparr>)"

inductive ctl_run ::
  "'s IBlockingStream \<Rightarrow> 'j Json \<Rightarrow> rv_config \<Rightarrow> wlabel list \<Rightarrow> 's WorkerSession \<Rightarrow> 's WorkerSession \<Rightarrow> bool"
  for io :: "'s IBlockingStream" and J :: "'j Json" and cfg :: rv_config where
  ctl_run_nil: "ctl_run io J cfg [] ws ws"
| ctl_run_cons: "ctl_step io J cfg l ws ws1 \<Longrightarrow> ctl_run io J cfg ls ws1 ws' \<Longrightarrow> ctl_run io J cfg (l # ls) ws ws'"

inductive_cases ctl_step_cases: "ctl_step io J cfg l ws ws'"

inductive_simps ctl_run_Nil [simp]: "ctl_run io J cfg [] ws ws'"

lemmas wui_defs = start_runtime_def pause_runtime_def disconnect_runtime_def session_shutdown_def

lemmas wrt_defs = runtime_pause_def runtime_disconnect_def runtime_shutdown_def runtime_release_def new_runtime_def
  was_disconnect_requested_def

lemmas wdisc_defs = after_discovery_def adopt_endpoint_def Let_def

lemma ctl_run_append: "ctl_run io J cfg ls ws ws1 \<Longrightarrow> ctl_run io J cfg ls' ws1 ws' \<Longrightarrow> ctl_run io J cfg (ls @ ls') ws ws'"
  by (induction rule: ctl_run.induct) (auto intro: ctl_run.intros)

lemma ctl_run_invariant:
  assumes "ctl_run io J cfg ls ws ws'" "P ws" "set ls \<subseteq> S"
    and "\<And>l ws ws'. ctl_step io J cfg l ws ws' \<Longrightarrow> l \<in> S \<Longrightarrow> P ws \<Longrightarrow> P ws'"
  shows "P ws'"
  using assms(1-3) by (induction rule: ctl_run.induct) (auto dest: assms(4))

subsection \<open>The state stays well formed\<close>

definition legal_status :: "string set" where
  "legal_status = {''Disconnected'', ''Discovering'', ''Connecting'', ''Connected'', ''Running'', ''Paused'',
     ''Error'', ''Stopped''}"

definition legal_delays :: "nat set" where
  "legal_delays = {1, 2, 4, 5}"

fun backoff_of :: "wpc \<Rightarrow> nat" where
  "backoff_of (WDiscLoop site b) = b"
| "backoff_of _ = 1"

definition ws_ok :: "'s WorkerSession \<Rightarrow> bool" where
  "ws_ok ws \<longleftrightarrow> ws_status ws \<in> legal_status \<and> ws_reconnect_delay ws \<in> legal_delays
     \<and> backoff_of (ws_pc ws) \<in> legal_delays
     \<and> rt_host (ws_runtime ws) = ws_host ws \<and> rt_port (ws_runtime ws) = ws_port ws
     \<and> (ws_pc ws = WRelease \<longrightarrow> ws_shutdown_requested ws)
     \<and> (ws_pc ws = WDone \<longrightarrow> ws_shutdown_requested ws \<and> rt_socket (ws_runtime ws) = None
          \<and> ws_status ws \<in> {''Stopped'', ''Error''})"

lemma delay_doubles: "d \<in> legal_delays \<Longrightarrow> min (d * 2) 5 \<in> legal_delays"
  by (auto simp: legal_delays_def)

lemma delay_one: "Suc 0 \<in> legal_delays"
  by (simp add: legal_delays_def)

lemma legal_statuses:
  "''Disconnected'' \<in> legal_status" "''Discovering'' \<in> legal_status" "''Connecting'' \<in> legal_status"
  "''Connected'' \<in> legal_status" "''Running'' \<in> legal_status" "''Paused'' \<in> legal_status"
  "''Error'' \<in> legal_status" "''Stopped'' \<in> legal_status"
  by (simp_all add: legal_status_def)

lemma ws_ok_step: "ctl_step io J cfg l ws ws' \<Longrightarrow> ws_ok ws \<Longrightarrow> ws_ok ws'"
  by (erule ctl_step_cases)
    (auto simp: ws_ok_def wui_defs wrt_defs wdisc_defs session_configure_def kMaxReconnectDelay_def kMaxBackoff_def
      delay_doubles legal_statuses delay_one split: if_splits option.splits prod.splits)

lemma ws_ok_new: "ws_ok (new_session host port)"
  by (simp add: ws_ok_def new_session_def legal_statuses delay_one new_runtime_def)

text \<open>
  C16. The worker session's state stays well formed. Whatever the user requests and whatever
  the network does, the status shown is one of the documented texts, the pause before a
  reconnection and the pause between two discoveries are 1, 2, 4 or 5 seconds, the runtime's
  target is the session's current endpoint, and when the control thread has ended, the
  socket is released and the status is Stopped or Error.
\<close>

theorem worker_session_well_formed:
  assumes "ctl_run io J cfg ls (new_session host port) ws"
  shows "ws_status ws \<in> legal_status \<and> ws_reconnect_delay ws \<in> {1, 2, 4, 5}
    \<and> (\<forall>site b. ws_pc ws = WDiscLoop site b \<longrightarrow> b \<in> {1, 2, 4, 5})
    \<and> rt_host (ws_runtime ws) = ws_host ws \<and> rt_port (ws_runtime ws) = ws_port ws
    \<and> (ws_pc ws = WDone \<longrightarrow> ws_shutdown_requested ws \<and> rt_socket (ws_runtime ws) = None
         \<and> ws_status ws \<in> {''Stopped'', ''Error''})"
proof -
  have "ws_ok ws"
    using assms ws_ok_new by (rule ctl_run_invariant [where P = ws_ok and S = UNIV]) (auto intro: ws_ok_step)
  then show ?thesis by (auto simp: ws_ok_def legal_delays_def)
qed

subsection \<open>Shutdown ends the control thread\<close>

text \<open>How many steps away from the end the control thread is once a shutdown was requested.\<close>

fun wrank :: "wpc \<Rightarrow> nat" where
  "wrank WDone = 0"
| "wrank WRelease = 1"
| "wrank WTop = 2"
| "wrank WCheckDisconnect = 3"
| "wrank (WAdopt site h p) = 3"
| "wrank (WDiscLoop site b) = 4"
| "wrank (WDiscover site) = 5"
| "wrank WRunFailed = 6"
| "wrank WRun = 7"
| "wrank WPreRun = 8"
| "wrank WMaybeRun = 9"
| "wrank WConnect = 10"
| "wrank WStart = 11"

lemma shutdown_stays: "ctl_step io J cfg l ws ws' \<Longrightarrow> ws_shutdown_requested ws \<Longrightarrow> ws_shutdown_requested ws'"
  by (erule ctl_step_cases)
    (auto simp: wui_defs wdisc_defs session_configure_def split: if_splits option.splits prod.splits)

lemma shutdown_rank:
  "ctl_step io J cfg l ws ws' \<Longrightarrow> ws_shutdown_requested ws \<Longrightarrow>
     wrank (ws_pc ws') + (if l \<in> {Ctl, Found} then 1 else 0) \<le> wrank (ws_pc ws)"
  by (erule ctl_step_cases)
    (auto simp: wui_defs wdisc_defs session_configure_def split: if_splits option.splits prod.splits)

lemma wrank_le: "wrank pc \<le> 11"
  by (cases pc) auto

lemma control_thread_steps: "ws_pc ws \<noteq> WDone \<Longrightarrow> \<exists>ws'. ctl_step io J cfg Ctl ws ws'"
proof (cases "ws_pc ws")
  case (WAdopt site h p)
  obtain r ws' where "adopt_endpoint h p ws = (r, ws')" by force
  then show ?thesis using WAdopt adopt by metis
qed (blast intro: configure disabled discovering cancelled unresolved leave connecting no_connect connect_failed
    run no_run run_begins run_no_socket run_failed user_disconnect io_error disconnect idle release)+

lemma shutdown_bound:
  "ctl_run io J cfg ls ws ws' \<Longrightarrow> ws_shutdown_requested ws \<Longrightarrow>
     ws_shutdown_requested ws' \<and> length (filter (\<lambda>l. l \<in> {Ctl, Found}) ls) + wrank (ws_pc ws') \<le> wrank (ws_pc ws)"
proof (induction rule: ctl_run.induct)
  case (ctl_run_cons l ws ws1 ls ws')
  then show ?case using shutdown_stays [OF ctl_run_cons.hyps(1)] shutdown_rank [OF ctl_run_cons.hyps(1)] by auto
qed simp


subsection \<open>A disconnection requested while tasks are served\<close>

fun disconnecting :: "'s WorkerSession \<Rightarrow> bool" where
  "disconnecting ws =
     (case ws_pc ws of
        WRun \<Rightarrow> was_disconnect_requested (ws_runtime ws) \<and> ws_disconnect_requested ws
      | WRunFailed \<Rightarrow> was_disconnect_requested (ws_runtime ws)
      | WCheckDisconnect \<Rightarrow> ws_disconnect_requested ws \<or> \<not> ws_start_requested ws
      | WTop \<Rightarrow> \<not> ws_start_requested ws
      | WMaybeRun \<Rightarrow> \<not> ws_start_requested ws
      | WRelease \<Rightarrow> True
      | WDone \<Rightarrow> True
      | _ \<Rightarrow> False)"

lemma disconnecting_step:
  "ctl_step io J cfg l ws ws' \<Longrightarrow> l \<noteq> UiStart \<Longrightarrow> disconnecting ws \<Longrightarrow> disconnecting ws'"
  by (erule ctl_step_cases) (auto simp: wui_defs wrt_defs split: wpc.splits)

text \<open>
  A disconnection requested while the worker serves tasks is honoured. From then on,
  until the user requests a start again, the session neither connects nor serves tasks any
  more once it has left the running loop: it becomes idle, or ends if it is shut down.
\<close>

theorem disconnect_while_running_honoured:
  assumes "ws_pc ws = WRun" "ctl_run io J cfg ls (disconnect_runtime io ws) ws'" "UiStart \<notin> set ls"
  shows "ws_pc ws' \<in> {WRun, WRunFailed, WCheckDisconnect, WTop, WMaybeRun, WRelease, WDone}
    \<and> (ws_pc ws' \<in> {WTop, WMaybeRun} \<longrightarrow> \<not> ws_start_requested ws')
    \<and> (ws_pc ws' = WRunFailed \<longrightarrow> was_disconnect_requested (ws_runtime ws'))
    \<and> (ws_pc ws' = WMaybeRun \<longrightarrow> (\<forall>l ws''. ctl_step io J cfg l ws' ws'' \<longrightarrow> ws_pc ws'' \<noteq> WPreRun))"
proof -
  have "disconnecting (disconnect_runtime io ws)"
    using assms(1) by (simp add: disconnect_runtime_def wrt_defs)
  with assms(2) have "disconnecting ws'"
    by (rule ctl_run_invariant [where P = disconnecting and S = "- {UiStart}"])
      (use assms(3) disconnecting_step in auto)
  then show ?thesis by (auto split: wpc.splits elim!: ctl_step_cases simp: wui_defs)
qed


subsection \<open>Two requests that go wrong\<close>

text \<open>
  What the control thread can do next, one consequence of \<open>ctl_step\<close> per position on the paths
  below, in the form in which a path is run.
\<close>

lemma serve:
  assumes "ws_pc ws = WTop" "\<not> ws_shutdown_requested ws" "ws_start_requested ws" "\<not> connected io ws" "bs_is_open io s"
  obtains ws' where "ctl_run io J cfg [Ctl, Ctl, Ctl] ws ws'" "ws_pc ws' = WPreRun" "ws_status ws' = ''Running''"
    "ws_disconnect_requested ws' = ws_disconnect_requested ws" "\<not> ws_shutdown_requested ws'"
    "ws_client ws' = ws_client ws" "rt_socket (ws_runtime ws') = Some s"
    "rt_host (ws_runtime ws') = rt_host (ws_runtime ws)"
proof -
  let ?w1 = "ws\<lparr>ws_status := ''Connecting'', ws_pc := WConnect\<rparr>"
  let ?w2 = "?w1\<lparr>ws_runtime := (ws_runtime ?w1)\<lparr>rt_socket := Some s\<rparr>, ws_reconnect_delay := 1,
      ws_status := ''Connected'', ws_pc := WMaybeRun\<rparr>"
  have 1: "ctl_step io J cfg Ctl ws ?w1" using assms connecting by blast
  have 2: "ctl_step io J cfg Ctl ?w1 ?w2" using assms(5) by (intro connect_ok) simp_all
  have 3: "ctl_step io J cfg Ctl ?w2
      (?w2\<lparr>ws_start_requested := False, ws_status := ''Running'', ws_pc := WPreRun\<rparr>)"
    using assms by (intro run) (simp_all add: connected_def runtime_is_connected_def)
  show thesis
    by (rule that [OF ctl_run_cons [OF 1 ctl_run_cons [OF 2 ctl_run_cons [OF 3 ctl_run_nil]]]]) (simp_all add: assms(2))
qed

lemma lose_connection:
  assumes "ws_pc ws = WPreRun" "rt_socket (ws_runtime ws) = Some s"
  obtains ws' where "ctl_run io J cfg [Ctl, Ctl, Ctl] ws ws'" "ws_pc ws' = WDiscover AfterError"
    "ws_disconnect_requested ws' = ws_disconnect_requested ws" "ws_shutdown_requested ws' = ws_shutdown_requested ws"
    "ws_client ws' = ws_client ws" "rt_socket (ws_runtime ws') = Some (bs_close io s)"
proof -
  let ?w1 = "ws\<lparr>ws_runtime := (ws_runtime ws)\<lparr>rt_pause_requested := False, rt_disconnect_requested := False\<rparr>, ws_pc := WRun\<rparr>"
  let ?w2 = "?w1\<lparr>ws_pc := WRunFailed\<rparr>"
  have 1: "ctl_step io J cfg Ctl ws ?w1" using assms by (intro run_begins) simp_all
  have 2: "ctl_step io J cfg Ctl ?w1 ?w2" by (intro run_failed) simp
  have 3: "ctl_step io J cfg Ctl ?w2 (?w2\<lparr>ws_runtime := runtime_disconnect io (ws_runtime ?w2),
      ws_status := ''Disconnected'', ws_pc := WDiscover AfterError\<rparr>)"
    by (intro io_error) (simp_all add: was_disconnect_requested_def)
  show thesis
    by (rule that [OF ctl_run_cons [OF 1 ctl_run_cons [OF 2 ctl_run_cons [OF 3 ctl_run_nil]]]])
      (simp_all add: assms(2) runtime_disconnect_def)
qed

text \<open>
  A disconnection can be lost. In direct mode, a disconnection requested after the
  session has announced the start of the runtime and before the runtime's loop has cleared
  its flags is taken for a lost connection: without any new start request the session
  reconnects and serves tasks again, while the disconnection is still pending.
\<close>

theorem disconnect_request_lost:
  assumes "\<not> rv_enabled cfg" "bs_is_open io s" "\<And>s. \<not> bs_is_open io (bs_close io s)"
  shows "\<exists>ws ws'. ctl_run io J cfg (replicate 5 Ctl) (new_session host port) ws
    \<and> ctl_run io J cfg (replicate 8 Ctl) (disconnect_runtime io ws) ws'
    \<and> ws_pc ws' = WRun \<and> ws_status ws' = ''Running'' \<and> ws_disconnect_requested ws'"
proof -
  let ?n = "new_session host port"
  let ?a = "after_discovery AtStart Disabled (?n\<lparr>ws_pc := WDiscover AtStart\<rparr>)"
  have c: "ctl_run io J cfg [Ctl, Ctl] ?n ?a"
    using assms(1) configure [of ?n io J cfg] disabled [of "?n\<lparr>ws_pc := WDiscover AtStart\<rparr>" AtStart io J cfg]
    by (auto simp: session_configure_def new_session_def intro!: ctl_run_cons)
  have a: "ws_pc ?a = WTop" "\<not> ws_shutdown_requested ?a" "ws_start_requested ?a" "\<not> connected io ?a" "ws_client ?a = None"
    by (simp_all add: after_discovery_def Let_def new_session_def new_runtime_def connected_def runtime_is_connected_def)
  obtain w where w: "ctl_run io J cfg [Ctl, Ctl, Ctl] ?a w" "ws_pc w = WPreRun" "\<not> ws_shutdown_requested w"
    "ws_client w = None" "rt_socket (ws_runtime w) = Some s"
    using serve [OF a(1-4) assms(2)] a(5) by metis
  let ?d = "disconnect_runtime io w"
  have d: "ws_pc ?d = WPreRun" "rt_socket (ws_runtime ?d) = Some (bs_close io s)" "ws_disconnect_requested ?d"
    "\<not> ws_shutdown_requested ?d" "ws_client ?d = None"
    using w by (simp_all add: disconnect_runtime_def runtime_disconnect_def)
  obtain v where v: "ctl_run io J cfg [Ctl, Ctl, Ctl] ?d v" "ws_pc v = WDiscover AfterError" "ws_disconnect_requested v"
    "\<not> ws_shutdown_requested v" "ws_client v = None" "rt_socket (ws_runtime v) = Some (bs_close io (bs_close io s))"
    using lose_connection [OF d(1,2)] d(3-5) by metis
  let ?b = "after_discovery AfterError Disabled v"
  have b: "ws_pc ?b = WTop" "\<not> ws_shutdown_requested ?b" "ws_start_requested ?b" "\<not> connected io ?b"
    "ws_disconnect_requested ?b"
    using v assms(3) by (simp_all add: after_discovery_def Let_def connected_def runtime_is_connected_def)
  obtain u where u: "ctl_run io J cfg [Ctl, Ctl, Ctl] ?b u" "ws_pc u = WPreRun" "ws_status u = ''Running''"
    "ws_disconnect_requested u" "rt_socket (ws_runtime u) = Some s"
    using serve [OF b(1-4) assms(2)] b(5) by metis
  have "ctl_step io J cfg Ctl v ?b" using v by (intro disabled)
  from ctl_run_append [OF v(1) ctl_run_cons [OF this ctl_run_append [OF u(1) ctl_run_cons [OF run_begins ctl_run_nil]]]] u
  obtain x where "ctl_run io J cfg (replicate 8 Ctl) ?d x" "ws_pc x = WRun" "ws_status x = ''Running''"
    "ws_disconnect_requested x"
    by (fastforce simp: eval_nat_numeral)
  moreover have "ctl_run io J cfg (replicate 5 Ctl) ?n w"
    using ctl_run_append [OF c w(1)] by (simp add: eval_nat_numeral)
  ultimately show ?thesis by blast
qed

text \<open>A stream that is open until it is closed.\<close>

definition door_io :: "(bytes \<times> bytes) IBlockingStream" where
  "door_io = mem_io\<lparr>bs_is_open := \<lambda>s. fst s \<noteq> [], bs_close := \<lambda>s. ([], snd s)\<rparr>"

definition direct_config :: rv_config where
  "direct_config = \<lparr>rv_enabled = False, rv_host = None, rv_port = None\<rparr>"

theorem disconnect_request_lost_witness:
  "\<exists>ws ws'. ctl_run door_io demo_json direct_config (replicate 5 Ctl) (new_session ''h'' 1) ws
    \<and> ctl_run door_io demo_json direct_config (replicate 8 Ctl) (disconnect_runtime door_io ws) ws'
    \<and> ws_pc ws' = WRun \<and> ws_status ws' = ''Running'' \<and> ws_disconnect_requested ws'"
  by (rule disconnect_request_lost [of _ _ "([1], [])"]) (simp_all add: door_io_def direct_config_def)

text \<open>Waiting in the discovery loop with a client that was cancelled and no pending request.\<close>

definition stuck_discovering :: "'s WorkerSession \<Rightarrow> bool" where
  "stuck_discovering ws \<longleftrightarrow> (\<exists>b. ws_pc ws = WDiscLoop AfterError b) \<and> ws_status ws = ''Discovering''
     \<and> \<not> can_resolve ws \<and> \<not> ws_disconnect_requested ws \<and> \<not> ws_shutdown_requested ws"

lemma stuck_discovering_step:
  assumes "ctl_step io J cfg l ws ws'" "stuck_discovering ws" "l \<notin> {UiDisconnect, UiShutdown}"
  shows "stuck_discovering ws' \<and> l \<noteq> Found"
  using assms by (auto elim!: ctl_step_cases simp: stuck_discovering_def wui_defs can_resolve_def)

lemma stuck_discovering_run:
  "ctl_run io J cfg ls ws ws' \<Longrightarrow> stuck_discovering ws \<Longrightarrow> set ls \<inter> {UiDisconnect, UiShutdown} = {} \<Longrightarrow>
     stuck_discovering ws' \<and> Found \<notin> set ls"
  by (induction rule: ctl_run.induct) (use stuck_discovering_step in fastforce)+

text \<open>
  A disconnection during discovery disables the discovery for good. With the rendezvous
  enabled, when the user disconnects during the first discovery and then starts again, the
  session connects to the configured endpoint, which no discovery has returned; and after
  the connection is lost, it stays in the discovery loop with a cancelled client for ever,
  unless the user disconnects or ends the session.
\<close>

theorem disconnect_disables_discovery:
  fixes io :: "'s IBlockingStream"
  assumes "rv_enabled cfg" "rv_host cfg = Some h" "h \<noteq> []" "rv_port cfg = Some p" "bs_is_open io s"
  shows "\<exists>ls ws ls' ws'. ctl_run io J cfg ls (new_session host port) ws \<and> Found \<notin> set ls
    \<and> ws_pc ws = WPreRun \<and> rt_socket (ws_runtime ws) = Some s \<and> rt_host (ws_runtime ws) = host
    \<and> ctl_run io J cfg ls' ws ws' \<and> set ls' = {Ctl}
    \<and> (\<forall>ls'' ws''. ctl_run io J cfg ls'' ws' ws'' \<and> set ls'' \<inter> {UiDisconnect, UiShutdown} = {} \<longrightarrow>
          (\<exists>b. ws_pc ws'' = WDiscLoop AfterError b) \<and> Found \<notin> set ls'' \<and> ws_status ws'' = ''Discovering'')"
proof -
  let ?n = "new_session host port"
  define c where "c = \<lparr>rc_host = h, rc_port = p, rc_cancelled = False, rc_active = (None :: 's option)\<rparr>"
  let ?w1 = "?n\<lparr>ws_client := Some c, ws_pc := WDiscover AtStart\<rparr>"
  let ?w2 = "?w1\<lparr>ws_status := ''Discovering'', ws_pc := WDiscLoop AtStart 1\<rparr>"
  let ?w3 = "disconnect_runtime io ?w2"
  let ?w4 = "start_runtime (after_discovery AtStart Cancelled ?w3)"
  have "ctl_step io J cfg Ctl ?n ?w1"
    using configure [of ?n io J cfg] assms by (simp add: session_configure_def new_session_def c_def)
  moreover have "ctl_step io J cfg Ctl ?w1 ?w2" by (rule discovering) simp_all
  moreover have "ctl_step io J cfg UiDisconnect ?w2 ?w3" by (rule ui_disconnect)
  moreover have "ctl_step io J cfg Ctl ?w3 (after_discovery AtStart Cancelled ?w3)"
    by (rule cancelled [of _ AtStart 1]) (simp_all add: disconnect_runtime_def)
  ultimately have 1: "ctl_run io J cfg [Ctl, Ctl, UiDisconnect, Ctl, UiStart] ?n ?w4"
    by (meson ctl_run_cons ctl_run_nil ui_start)
  have 4: "ws_pc ?w4 = WTop" "\<not> ws_shutdown_requested ?w4" "ws_start_requested ?w4" "\<not> connected io ?w4"
    "ws_client ?w4 = Some (client_cancel io c)" "\<not> ws_disconnect_requested ?w4"
    by (simp_all add: wui_defs wdisc_defs new_session_def wrt_defs connected_def runtime_is_connected_def)
  obtain w where w: "ctl_run io J cfg [Ctl, Ctl, Ctl] ?w4 w" "ws_pc w = WPreRun" "\<not> ws_disconnect_requested w"
    "\<not> ws_shutdown_requested w" "ws_client w = Some (client_cancel io c)" "rt_socket (ws_runtime w) = Some s"
    "rt_host (ws_runtime w) = rt_host (ws_runtime ?w4)"
    using serve [OF 4(1-4) assms(5)] 4(5,6) by metis
  obtain v where v: "ctl_run io J cfg [Ctl, Ctl, Ctl] w v" "ws_pc v = WDiscover AfterError" "\<not> ws_disconnect_requested v"
    "\<not> ws_shutdown_requested v" "ws_client v = Some (client_cancel io c)"
    using lose_connection [OF w(2,6)] w(3-5) by metis
  obtain x where x: "ctl_run io J cfg [Ctl, Ctl, Ctl, Ctl] w x" "stuck_discovering x"
    using ctl_run_append [OF v(1) ctl_run_cons [OF discovering ctl_run_nil]] v
    by (force simp: stuck_discovering_def can_resolve_def client_cancel_def)
  have h: "rt_host (ws_runtime ?w4) = host"
    by (simp add: wui_defs wdisc_defs new_session_def wrt_defs)
  have "\<forall>ls'' ws''. ctl_run io J cfg ls'' x ws'' \<and> set ls'' \<inter> {UiDisconnect, UiShutdown} = {} \<longrightarrow>
          (\<exists>b. ws_pc ws'' = WDiscLoop AfterError b) \<and> Found \<notin> set ls'' \<and> ws_status ws'' = ''Discovering''"
    using stuck_discovering_run [OF _ x(2)] unfolding stuck_discovering_def by meson
  moreover have "ctl_run io J cfg ([Ctl, Ctl, UiDisconnect, Ctl, UiStart] @ [Ctl, Ctl, Ctl]) ?n w"
    by (rule ctl_run_append [OF 1 w(1)])
  moreover have "Found \<notin> set ([Ctl, Ctl, UiDisconnect, Ctl, UiStart] @ [Ctl, Ctl, Ctl])" "set [Ctl, Ctl, Ctl, Ctl] = {Ctl}"
    by simp_all
  ultimately show ?thesis using w(2,6,7) x(1) h by metis
qed

definition rv_demo_config :: rv_config where
  "rv_demo_config = \<lparr>rv_enabled = True, rv_host = Some ''10.0.0.9'', rv_port = Some 8088\<rparr>"

theorem disconnect_disables_discovery_witness:
  "\<exists>ls ws. ctl_run door_io demo_json rv_demo_config ls (new_session ''h'' 1) ws \<and> Found \<notin> set ls
    \<and> ws_pc ws = WPreRun \<and> rt_host (ws_runtime ws) = ''h''"
  using disconnect_disables_discovery [of rv_demo_config "''10.0.0.9''" 8088 door_io "([1], [])" demo_json "''h''" 1]
  by (simp add: rv_demo_config_def door_io_def) blast

text \<open>A run for the remaining witnesses: a worker in direct mode that serves tasks.\<close>

definition serving :: "(bytes \<times> bytes) WorkerSession" where
  "serving = (new_session ''h'' 1)\<lparr>ws_runtime := (new_runtime ''h'' 1)\<lparr>rt_socket := Some ([1], [])\<rparr>,
     ws_start_requested := False, ws_status := ''Running'', ws_pc := WRun\<rparr>"

lemma serving_run: "ctl_run door_io demo_json direct_config [Ctl, Ctl, Ctl, Ctl, Ctl, Ctl] (new_session ''h'' 1) serving"
proof -
  let ?n = "new_session ''h'' 1 :: (bytes \<times> bytes) WorkerSession"
  let ?a = "?n\<lparr>ws_pc := WTop\<rparr>"
  let ?b = "?n\<lparr>ws_status := ''Connecting'', ws_pc := WConnect\<rparr>"
  let ?r = "(new_runtime ''h'' 1)\<lparr>rt_socket := Some ([1], [])\<rparr> :: (bytes \<times> bytes) Runtime"
  let ?c = "?n\<lparr>ws_runtime := ?r, ws_status := ''Connected'', ws_pc := WMaybeRun\<rparr>"
  let ?d = "?n\<lparr>ws_runtime := ?r, ws_start_requested := False, ws_status := ''Running'', ws_pc := WPreRun\<rparr>"
  note D = new_session_def new_runtime_def door_io_def direct_config_def session_configure_def after_discovery_def Let_def
    connected_def runtime_is_connected_def serving_def
  have 1: "ctl_step door_io demo_json direct_config Ctl ?n (?n\<lparr>ws_pc := WDiscover AtStart\<rparr>)"
    using configure [of ?n door_io demo_json direct_config] by (simp add: D)
  have 2: "ctl_step door_io demo_json direct_config Ctl (?n\<lparr>ws_pc := WDiscover AtStart\<rparr>) ?a"
    using disabled [of "?n\<lparr>ws_pc := WDiscover AtStart\<rparr>" AtStart door_io demo_json direct_config] by (simp add: D)
  have 3: "ctl_step door_io demo_json direct_config Ctl ?a ?b"
    using connecting [of ?a door_io demo_json direct_config] by (simp add: D)
  have 4: "ctl_step door_io demo_json direct_config Ctl ?b ?c"
    using connect_ok [of ?b door_io "([1], [])" demo_json direct_config] by (simp add: D)
  have 5: "ctl_step door_io demo_json direct_config Ctl ?c ?d"
    using run [of ?c door_io demo_json direct_config] by (simp add: D)
  have 6: "ctl_step door_io demo_json direct_config Ctl ?d serving"
    using run_begins [of ?d door_io demo_json direct_config] by (simp add: D)
  show ?thesis
    by (rule ctl_run_cons [OF 1 ctl_run_cons [OF 2 ctl_run_cons [OF 3 ctl_run_cons [OF 4 ctl_run_cons [OF 5 ctl_run_cons [OF 6 ctl_run_nil]]]]]])
qed

theorem worker_session_well_formed_witness:
  "ws_status serving \<in> legal_status \<and> rt_host (ws_runtime serving) = ''h''"
  using worker_session_well_formed [OF serving_run] by (simp add: serving_def new_session_def new_runtime_def)


theorem disconnect_while_running_honoured_witness:
  "\<exists>ws'. ctl_run door_io demo_json direct_config [Ctl] (disconnect_runtime door_io serving) ws'
    \<and> ws_pc ws' = WRunFailed \<and> was_disconnect_requested (ws_runtime ws')"
proof -
  have r: "ctl_run door_io demo_json direct_config [Ctl] (disconnect_runtime door_io serving)
      ((disconnect_runtime door_io serving)\<lparr>ws_pc := WRunFailed\<rparr>)"
    by (rule ctl_run_cons [OF run_failed ctl_run_nil]) (simp add: disconnect_runtime_def serving_def)
  have "ws_pc serving = WRun" by (simp add: serving_def)
  from r disconnect_while_running_honoured [OF this r] show ?thesis by fastforce
qed

end
