(* ===== verification/DispServer.thy ===== *)
theory DispServer
  imports Teardown
begin

section \<open>The transport server of the dispatcher\<close>

text \<open>
  \<open>AsyncTransportServer\<close> (dispatcher/transport/): the accept loop, the throttled maintenance,
  start and stop, over the dispatcher state of \<open>SessionMgr\<close>. A client connection is
  addressed by the number of the session created for it; it is open until that session
  closes its socket. What the listening socket does (\<open>start_listening\<close>, \<open>blocking_accept\<close>;
  modelled in \<open>ZtSocket\<close>) comes as a parameter or with the event. Times are nanoseconds of
  the steady clock. Statistics output and log lines are not modelled.

  The running server refines the dispatcher: what its operations do to the sessions and the
  queue is always a sequence of dispatcher events (\<open>dstep\<close>).
\<close>

record Server =
  sv_disp :: Dispatcher
  sv_running :: bool
  sv_io_threads :: nat
  sv_io_guard :: bool
  sv_listening :: bool
  sv_endpoint :: "string \<times> int"
  sv_last_maintenance :: int
  sv_connections :: "nat list"

definition server_new :: Server where
  "server_new = \<lparr>sv_disp = init_dispatcher\<lparr>rq_running := False\<rparr>, sv_running = False, sv_io_threads = 0,
     sv_io_guard = False, sv_listening = False, sv_endpoint = ([], 0), sv_last_maintenance = 0,
     sv_connections = []\<rparr>"

definition io_threads_of :: "int option \<Rightarrow> nat" where
  "io_threads_of opt = (case opt of Some n \<Rightarrow> if n > 0 then nat n else 1 | None \<Rightarrow> 1)"

definition server_start ::
  "event \<Rightarrow> int option \<Rightarrow> (string \<Rightarrow> int \<Rightarrow> int \<Rightarrow> bool) \<Rightarrow> string \<Rightarrow> int \<Rightarrow> int \<Rightarrow> Server \<Rightarrow> bool \<times> Server" where
  "server_start ev io_threads listen host port backlog sv =
     (if sv_running sv then (True, sv)
      else
        let sv1 = sv\<lparr>sv_running := True, sv_io_threads := io_threads_of io_threads, sv_io_guard := True,
                     sv_disp := (sv_disp sv)\<lparr>rq_running := True\<rparr>\<rparr> in
        if \<not> listen host port backlog
        then (False, sv1\<lparr>sv_running := False, sv_io_guard := False, sv_io_threads := 0\<rparr>)
        else (True, sv1\<lparr>sv_listening := True, sv_endpoint := (host, port), sv_last_maintenance := ev_steady ev\<rparr>))"

definition server_start_configured ::
  "event \<Rightarrow> int option \<Rightarrow> (string \<Rightarrow> int \<Rightarrow> int \<Rightarrow> bool) \<Rightarrow> string option \<Rightarrow> int option \<Rightarrow> int \<Rightarrow> Server \<Rightarrow> bool \<times> Server" where
  "server_start_configured ev io_threads listen host port backlog sv =
     server_start ev io_threads listen (case host of Some h \<Rightarrow> h | None \<Rightarrow> ''0.0.0.0'')
       (case port of Some p \<Rightarrow> p | None \<Rightarrow> 8080) backlog sv"

subsection \<open>Maintenance\<close>

definition maintenance_interval :: int where
  "maintenance_interval = 1000 * 1000000"

definition connection_open :: "Dispatcher \<Rightarrow> nat \<Rightarrow> bool" where
  "connection_open d k = (case get_s k d of Some s \<Rightarrow> is_open s | None \<Rightarrow> False)"

definition cleanup_closed_connections :: "Server \<Rightarrow> Server" where
  "cleanup_closed_connections sv =
     sv\<lparr>sv_connections := filter (connection_open (sv_disp sv)) (sv_connections sv)\<rparr>"

definition maybe_run_maintenance ::
  "event \<Rightarrow> (nat \<Rightarrow> bool \<times> errc option) \<Rightarrow> Server \<Rightarrow> Server" where
  "maybe_run_maintenance ev alive sv =
     (if ev_steady ev - sv_last_maintenance sv \<ge> maintenance_interval then
        (cleanup_closed_connections
           (sv\<lparr>sv_disp := snd (cleanup_completed_sessions ev alive (sv_disp sv))\<rparr>))
           \<lparr>sv_last_maintenance := ev_steady ev\<rparr>
      else sv)"

subsection \<open>Accepting and submitting\<close>

datatype accepted_client = NoClient "errc option" | Client string

text \<open>
  One turn of the accept loop after \<open>blocking_accept\<close> returned; the flag says whether the
  loop goes on. A client accepted while the server stops is closed at once.
\<close>

definition accept_turn ::
  "event \<Rightarrow> (nat \<Rightarrow> bool \<times> errc option) \<Rightarrow> accepted_client \<Rightarrow> Server \<Rightarrow> bool \<times> Server" where
  "accept_turn ev alive client sv =
     (case client of
        NoClient e \<Rightarrow> (sv_running sv, sv)
      | Client ep \<Rightarrow>
          if \<not> sv_running sv then (False, sv)
          else
            let sv1 = sv\<lparr>sv_connections := sv_connections sv @ [unat (d_next_id (sv_disp sv))]\<rparr>;
                sv2 = sv1\<lparr>sv_disp := snd (create_session ev (Some ep) (sv_disp sv1))\<rparr>
            in (True, maybe_run_maintenance ev alive sv2))"

definition server_enqueue_tasks ::
  "event \<Rightarrow> (nat \<Rightarrow> bool \<times> errc option) \<Rightarrow> TaskMessage list \<Rightarrow> Server \<Rightarrow> Server" where
  "server_enqueue_tasks ev alive ms sv =
     maybe_run_maintenance ev alive (sv\<lparr>sv_disp := enqueue_tasks ev ms (sv_disp sv)\<rparr>)"

definition run_maintenance_if_due ::
  "event \<Rightarrow> (nat \<Rightarrow> bool \<times> errc option) \<Rightarrow> Server \<Rightarrow> Server" where
  "run_maintenance_if_due ev alive sv = maybe_run_maintenance ev alive sv"

definition server_task_queue_size :: "Server \<Rightarrow> nat" where
  "server_task_queue_size sv = get_task_queue_size (sv_disp sv)"

definition server_active_session_count :: "Server \<Rightarrow> nat" where
  "server_active_session_count sv = get_active_session_count (sv_disp sv)"

subsection \<open>Stopping\<close>

text \<open>
  The response executor has resumed every accepted handle when its \<open>stop\<close> returns
  (\<open>response_context_stop_drains\<close>).
\<close>

definition response_context_stop :: "Dispatcher \<Rightarrow> Dispatcher" where
  "response_context_stop d = d\<lparr>rq_running := False, rq_pending := []\<rparr>"

definition server_stop :: "event \<Rightarrow> (nat \<Rightarrow> bool \<times> errc option) \<Rightarrow> Server \<Rightarrow> Server" where
  "server_stop ev alive sv =
     (let sv1 = sv\<lparr>sv_running := False, sv_listening := False, sv_io_guard := False, sv_io_threads := 0\<rparr>;
          d1 = response_context_stop (sv_disp sv1);
          d2 = terminate_all_sessions ev d1;
          d3 = queue_shutdown (session_resume ev) d2;
          sv2 = cleanup_closed_connections (sv1\<lparr>sv_disp := d3\<rparr>)
      in sv2\<lparr>sv_disp := snd (cleanup_completed_sessions ev alive (sv_disp sv2))\<rparr>)"

subsection \<open>The running server\<close>

text \<open>
  Socket results and submissions of generators reach the sessions without the server. A new
  session needs an identifier that is not in use.
\<close>

inductive sv_step :: "Server \<Rightarrow> Server \<Rightarrow> bool" where
  sv_accept: "get_s (unat (d_next_id (sv_disp sv))) (sv_disp sv) = None \<Longrightarrow>
    sv_step sv (snd (accept_turn ev alive client sv))"
| sv_enqueue: "sv_step sv (server_enqueue_tasks ev alive ms sv)"
| sv_maintenance: "sv_step sv (run_maintenance_if_due ev alive sv)"
| sv_io: "sv_step sv (sv\<lparr>sv_disp := session_io ev r sid (sv_disp sv)\<rparr>)"
| sv_submit: "sv_step sv (sv\<lparr>sv_disp := submit_task ev m (sv_disp sv)\<rparr>)"

definition sv_reachable :: "Server \<Rightarrow> bool" where
  "sv_reachable sv \<longleftrightarrow>
     (\<exists>ev threads listen host port backlog sv0.
        server_start ev threads listen host port backlog server_new = (True, sv0) \<and> sv_step\<^sup>*\<^sup>* sv0 sv)"

lemma started_server:
  "server_start ev threads listen host port backlog server_new = (True, sv0) \<Longrightarrow> sv_disp sv0 = init_dispatcher"
  by (auto simp: server_start_def server_new_def init_dispatcher_def Let_def split: if_splits)

lemma maintenance_refines: "dstep\<^sup>*\<^sup>* (sv_disp sv) (sv_disp (maybe_run_maintenance ev alive sv))"
  by (auto simp: maybe_run_maintenance_def cleanup_closed_connections_def intro: dstep.cleanup)

lemma sv_step_refines: "sv_step sv sv' \<Longrightarrow> dstep\<^sup>*\<^sup>* (sv_disp sv) (sv_disp sv')"
proof (induction rule: sv_step.induct)
  case (sv_accept sv ev alive client)
  show ?case
  proof (cases client)
    case (Client ep)
    let ?sv = "sv\<lparr>sv_connections := sv_connections sv @ [unat (d_next_id (sv_disp sv))],
      sv_disp := snd (create_session ev (Some ep) (sv_disp sv))\<rparr>"
    have "dstep (sv_disp sv) (sv_disp ?sv)" using dstep.create [OF sv_accept] by simp
    from converse_rtranclp_into_rtranclp [OF this maintenance_refines] Client show ?thesis
      by (simp add: accept_turn_def)
  qed (simp add: accept_turn_def)
next
  case (sv_enqueue sv ev alive ms)
  let ?sv = "sv\<lparr>sv_disp := enqueue_tasks ev ms (sv_disp sv)\<rparr>"
  have "dstep (sv_disp sv) (sv_disp ?sv)" using dstep.enqueue by simp
  from converse_rtranclp_into_rtranclp [OF this maintenance_refines] show ?case
    by (simp add: server_enqueue_tasks_def)
next
  case (sv_io sv ev r sid)
  then show ?case using dstep.io by auto
next
  case (sv_submit sv ev m)
  then show ?case using dstep.submit by auto
qed (simp add: run_maintenance_if_due_def maintenance_refines)

lemma sv_reachable_dreachable: "sv_reachable sv \<Longrightarrow> dreachable (sv_disp sv)"
proof -
  assume "sv_reachable sv"
  then obtain sv0 where sv0: "sv_disp sv0 = init_dispatcher" "sv_step\<^sup>*\<^sup>* sv0 sv"
    unfolding sv_reachable_def using started_server by blast
  from sv0(2) have "dstep\<^sup>*\<^sup>* (sv_disp sv0) (sv_disp sv)"
    by (induction rule: rtranclp_induct) (auto dest: sv_step_refines intro: rtranclp_trans)
  then show ?thesis by (simp add: dreachable_def sv0(1))
qed

lemma maintenance_spacing:
  "sv_last_maintenance (maybe_run_maintenance ev alive sv) = sv_last_maintenance sv
   \<or> sv_last_maintenance (maybe_run_maintenance ev alive sv) \<ge> sv_last_maintenance sv + maintenance_interval"
  by (simp add: maybe_run_maintenance_def)

lemma sv_step_spacing:
  "sv_step sv sv' \<Longrightarrow> sv_last_maintenance sv' = sv_last_maintenance sv
     \<or> sv_last_maintenance sv' \<ge> sv_last_maintenance sv + maintenance_interval"
proof (induction rule: sv_step.induct)
  case (sv_accept sv ev alive client)
  show ?case
  proof (cases client)
    case (Client ep)
    then show ?thesis
      using maintenance_spacing [of ev alive "sv\<lparr>sv_connections := sv_connections sv @ [unat (d_next_id (sv_disp sv))],
        sv_disp := snd (create_session ev (Some ep) (sv_disp sv))\<rparr>"]
      by (simp add: accept_turn_def)
  qed (simp add: accept_turn_def)
next
  case (sv_enqueue sv ev alive ms)
  then show ?case
    using maintenance_spacing [of ev alive "sv\<lparr>sv_disp := enqueue_tasks ev ms (sv_disp sv)\<rparr>"]
    by (simp add: server_enqueue_tasks_def)
qed (use maintenance_spacing in \<open>simp_all add: run_maintenance_if_due_def\<close>)


subsection \<open>What is left when the server has stopped\<close>

lemma response_stop_sel [simp]:
  "tq_tasks (response_context_stop d) = tq_tasks d" "tq_waiting (response_context_stop d) = tq_waiting d"
  "tq_result (response_context_stop d) = tq_result d" "d_sessions (response_context_stop d) = d_sessions d"
  "d_completed (response_context_stop d) = d_completed d" "d_submitted (response_context_stop d) = d_submitted d"
  "d_dropped (response_context_stop d) = d_dropped d" "tq_cancelled (response_context_stop d) = tq_cancelled d"
  "rq_running (response_context_stop d) = False" "get_s k (response_context_stop d) = get_s k d"
  by (simp_all add: response_context_stop_def get_s_def)

lemma sound_response_stop:
  assumes "sound d"
  shows "sound (response_context_stop d)"
proof -
  have d: "disp_inv d" "conserved d" using assms unfolding sound_def by blast+
  have "disp_inv (response_context_stop d)"
    by (rule disp_inv_cong [OF d(1)]) (use d(1) in \<open>simp_all add: disp_inv_with_def\<close>)
  moreover have "conserved (response_context_stop d)"
    using d(2) unfolding conserved_def work_def response_stop_sel .
  ultimately show ?thesis unfolding sound_def by blast
qed

lemma rq_running_request [simp]: "rq_running (fold (request_termination ev) ks d) = rq_running d"
  by (induction ks arbitrary: d)
    (simp_all add: request_termination_def put_s_def cancel_def split: option.splits)

lemma shutdown_loop_cancelled:
  "\<forall>w \<in> set ws. is_cancelled q (w_token w) \<Longrightarrow> shutdown_loop r ws q = q"
  by (induction ws) auto

lemma marked_fields:
  "marked k p (d\<lparr>tq_shut := b, tq_waiting := ws\<rparr>) = marked k p d" "marked k p (response_context_stop d) = marked k p d"
  by (simp_all add: marked_def get_s_def)

lemma waiters_cancelled:
  assumes "sound d" "\<forall>k \<in> set (session_ids d). \<exists>p. marked k p d" "w \<in> set (tq_waiting d)"
  shows "is_cancelled d (w_token w)"
proof -
  have "w_token w = Some (w_handle w)" "\<exists>s. get_s (w_handle w) d = Some s"
    using assms(1,3) by (auto simp: sound_def disp_inv_with_def waiter_ok_def)
  moreover from this(2) have "w_handle w \<in> set (session_ids d)"
    using dom_get [of "w_handle w" d] by (auto simp: session_ids_def)
  ultimately show ?thesis using assms(2) by (auto simp: marked_def is_cancelled_def)
qed

text \<open>The queue's shutdown resumes nobody: every token was cancelled just before.\<close>

lemma shutdown_after_termination:
  assumes "sound d" "\<forall>k \<in> set (session_ids d). \<exists>p. marked k p d"
  shows "queue_shutdown r d = (if tq_shut d then d else d\<lparr>tq_shut := True, tq_waiting := []\<rparr>)"
proof -
  have "shutdown_loop r (tq_waiting d) (d\<lparr>tq_shut := True, tq_waiting := []\<rparr>) = d\<lparr>tq_shut := True, tq_waiting := []\<rparr>"
    using waiters_cancelled [OF assms] by (intro shutdown_loop_cancelled) (simp add: is_cancelled_def cong: option.case_cong)
  then show ?thesis by (simp add: queue_shutdown_def swap_waiters_def)
qed

lemma cleanup_drops_cancelled:
  assumes "sound d" "\<forall>k \<in> set (session_ids d). \<exists>p. marked k p d"
  shows "tq_waiting (snd (cleanup_completed_sessions ev alive d)) = [] \<and>
    tq_shut (snd (cleanup_completed_sessions ev alive d)) = tq_shut d \<and>
    rq_running (snd (cleanup_completed_sessions ev alive d)) = rq_running d"
proof -
  have p: "probe_all ev alive d = d" unfolding probe_all_def
    using assms(2) by (intro fold_unchanged) (auto simp: probe_connection_liveness_def marked_def)
  have t: "fold (teardown ev) (session_ids d) d = d"
    using assms(2) by (intro fold_unchanged)
      (auto simp: teardown_def awaiting_teardown_def marked_def is_awaiting_teardown_def)
  show ?thesis using waiters_cancelled [OF assms]
    by (simp add: cleanup_completed_sessions_def p t Let_def drain_cancelled_def split: prod.splits)
qed

text \<open>
  Stopping the server leaves the waiting sessions behind. When \<open>stop\<close> returns, the
  server and its executors are stopped, the queue is shut with no waiter enrolled, and no
  task was lost. But every session that waited for a task when \<open>stop\<close> was called is still in
  the session table, suspended on the queue with no waiter entry: its coroutine did not
  reach its final suspension point, although the shutdown sequence exists to achieve this.
\<close>

theorem server_stop_strands_waiters:
  assumes "sv_reachable sv" "server_stop ev alive sv = sv'"
  shows "\<not> sv_running sv' \<and> \<not> rq_running (sv_disp sv') \<and> tq_shut (sv_disp sv') \<and> tq_waiting (sv_disp sv') = []
    \<and> conserved (sv_disp sv')
    \<and> (\<forall>w \<in> set (tq_waiting (sv_disp sv)). \<exists>s. get_s (w_handle w) (sv_disp sv') = Some s
         \<and> s_pc s = PQueue \<and> \<not> is_completed s \<and> \<not> is_awaiting_teardown s)"
proof -
  define d1 where "d1 = response_context_stop (sv_disp sv)"
  define d2 where "d2 = terminate_all_sessions ev d1"
  define d3 where "d3 = queue_shutdown (session_resume ev) d2"
  have d': "sv_disp sv' = snd (cleanup_completed_sessions ev alive d3)" "\<not> sv_running sv'"
    using assms(2) by (auto simp: server_stop_def Let_def d1_def d2_def d3_def cleanup_closed_connections_def)
  have 1: "sound d1" unfolding d1_def
    by (intro sound_response_stop dreachable_sound sv_reachable_dreachable assms(1))
  have 2: "sound d2" "\<forall>k \<in> set (session_ids d2). \<exists>p. marked k p d2"
    unfolding d2_def using terminate_all_sound [OF 1] terminate_all_eq(2) by auto
  have eq: "d3 = (if tq_shut d2 then d2 else d2\<lparr>tq_shut := True, tq_waiting := []\<rparr>)"
    unfolding d3_def by (rule shutdown_after_termination [OF 2])
  have 3: "sound d3" unfolding d3_def by (rule queue_shutdown_sound [OF 2(1)])
  have m3: "\<forall>k \<in> set (session_ids d3). \<exists>p. marked k p d3"
    using 2(2) by (simp add: eq marked_fields session_ids_def)
  have o: "orphaned (w_handle w) (sv_disp sv')" if w: "w \<in> set (tq_waiting (sv_disp sv))" for w
  proof -
    have "w \<in> set (tq_waiting d1)" using w by (simp add: d1_def response_context_stop_def)
    then have "\<exists>s. get_s (w_handle w) d1 = Some s \<and> s_pc s = PQueue"
      using 1 by (auto simp: sound_def disp_inv_with_def waiter_ok_def)
    moreover have "w_handle w \<in> set (session_ids d1)"
      using calculation dom_get [of "w_handle w" d1] by (auto simp: session_ids_def)
    ultimately have "marked (w_handle w) PQueue d2"
      unfolding d2_def terminate_all_eq(1) by (rule fold_request_marks)
    then have "\<exists>s. get_s (w_handle w) d3 = Some s \<and> s_pc s = PQueue"
      by (auto simp: eq marked_def get_s_def)
    from cleanup_orphans [OF 3 m3 this] show ?thesis by (simp add: d')
  qed
  have "rq_running d3 = False" by (simp add: eq d2_def terminate_all_eq(1) d1_def)
  moreover have "tq_shut d3" by (simp add: eq)
  moreover have "sound (sv_disp sv')" unfolding d' by (rule cleanup_sound [OF 3])
  ultimately show ?thesis using d' o cleanup_drops_cancelled [OF 3 m3, of ev alive]
    by (force simp: orphaned_def is_completed_def is_done_def is_awaiting_teardown_def sound_def)
qed

subsection \<open>A server with one idle worker\<close>

definition demo_server0 :: Server where
  "demo_server0 = snd (server_start demo_ev None (\<lambda>_ _ _. True) ''0.0.0.0'' 8080 128 server_new)"

definition demo_server1 :: Server where
  "demo_server1 = snd (accept_turn demo_ev (\<lambda>_. (True, None)) (Client ''10.0.0.2:9'') demo_server0)"

definition demo_server2 :: Server where
  "demo_server2 = demo_server1\<lparr>sv_disp := session_io demo_ev (IoOk demo_greeting) 1 (sv_disp demo_server1)\<rparr>"

lemma demo_servers:
  "sv_reachable demo_server1" "sv_step demo_server1 demo_server2" "sv_reachable demo_server2"
  "sv_disp demo_server2 = demo_waiting"
proof -
  have s: "server_start demo_ev None (\<lambda>_ _ _. True) ''0.0.0.0'' 8080 128 server_new = (True, demo_server0)"
    by (simp add: demo_server0_def server_start_def server_new_def)
  have "sv_step demo_server0 demo_server1"
    unfolding demo_server1_def by (rule sv_accept) (simp add: started_server [OF s] init_dispatcher_def get_s_def)
  then show 1: "sv_reachable demo_server1" using s unfolding sv_reachable_def by blast
  show 2: "sv_step demo_server1 demo_server2" unfolding demo_server2_def by (rule sv_io)
  show "sv_reachable demo_server2"
    using 1 2 unfolding sv_reachable_def by (meson rtranclp.rtrancl_into_rtrancl)
  have "sv_disp demo_server1 = snd (create_session demo_ev (Some ''10.0.0.2:9'') init_dispatcher)"
    using started_server [OF s]
    by (simp add: demo_server1_def accept_turn_def maybe_run_maintenance_def demo_server0_def server_start_def
        server_new_def maintenance_interval_def Let_def)
  then show "sv_disp demo_server2 = demo_waiting" by (simp add: demo_server2_def demo_waiting_def)
qed


theorem server_stop_strands_waiters_witness:
  "\<exists>s. get_s 1 (sv_disp (server_stop demo_ev (\<lambda>_. (True, None)) demo_server2)) = Some s \<and> s_pc s = PQueue
    \<and> \<not> is_completed s"
  using server_stop_strands_waiters [OF demo_servers(3) refl, of demo_ev "\<lambda>_. (True, None)"]
  by (simp add: demo_servers(4) demo_values(1)) blast

end
