(* ===== verification/Monitoring.thy ===== *)
theory Monitoring
  imports DispServer Rendezvous
begin

section \<open>Monitoring of the dispatcher\<close>

text \<open>
  dispatcher/monitoring/: \<open>SnapshotReporter\<close> (a persistent connection to the rendezvous
  service), \<open>MonitoringSnapshotBuilder\<close>, \<open>MonitoringService\<close> with its snapshot cache and
  routes, \<open>HttpRequestHandler\<close>, and the routes of services/rendezvous/RendezvousHttpHandler.
  The HTTP server and the JSON rendering of a snapshot (\<open>render\<close>) are third-party code.
\<close>

subsection \<open>The snapshot reporter\<close>

record 's SnapshotReporter =
  sr_host :: string
  sr_port :: int
  sr_cancelled :: bool
  sr_socket :: "'s option"

definition reporter_cancel :: "'s SnapshotReporter \<Rightarrow> 's SnapshotReporter" where
  "reporter_cancel r = r\<lparr>sr_cancelled := True, sr_socket := None\<rparr>"

text \<open>Send the frame and read the acknowledgement.\<close>

definition report_on :: "'s IBlockingStream \<Rightarrow> string \<Rightarrow> 's \<Rightarrow> (bool \<times> 's) option" where
  "report_on io snapshot s =
     (case write_message io ReportSnapshot snapshot s of
        None \<Rightarrow> None
      | Some (Inl e, s1) \<Rightarrow> Some (False, s1)
      | Some (Inr _, s1) \<Rightarrow>
          (case read_message io s1 of
             None \<Rightarrow> None
           | Some (Inl e, s2) \<Rightarrow> Some (False, s2)
           | Some (Inr (type, body), s2) \<Rightarrow> Some (type = ReportAck, s2)))"

definition report_send ::
  "'s IBlockingStream \<Rightarrow> string \<Rightarrow> 's \<Rightarrow> 's SnapshotReporter \<Rightarrow> (bool \<times> 's SnapshotReporter) option" where
  "report_send io snapshot s r =
     (case report_on io snapshot s of
        None \<Rightarrow> None
      | Some (True, s') \<Rightarrow> Some (True, r\<lparr>sr_socket := Some s'\<rparr>)
      | Some (False, s') \<Rightarrow> Some (False, r\<lparr>sr_socket := None\<rparr>))"

text \<open>
  \<open>env\<close> is what the cancelling thread has done before the new socket is published; what it
  does later reaches the socket and is part of the stream.
\<close>

definition report ::
  "'s IBlockingStream \<Rightarrow> ('s SnapshotReporter \<Rightarrow> 's SnapshotReporter) \<Rightarrow> 's result \<Rightarrow> string \<Rightarrow>
   's SnapshotReporter \<Rightarrow> (bool \<times> 's SnapshotReporter) option" where
  "report io env create snapshot r =
     (if sr_cancelled r then Some (False, r)
      else
        case sr_socket r of
          Some s \<Rightarrow> report_send io snapshot s r
        | None \<Rightarrow>
            (case create of
               Inl e \<Rightarrow> Some (False, r)
             | Inr s \<Rightarrow>
                 let r1 = env r in
                 if sr_cancelled r1 then Some (False, r1)
                 else
                   (case bs_connect io (sr_host r1) (sr_port r1) s of
                      None \<Rightarrow> None
                    | Some (Inl e, s1) \<Rightarrow> Some (False, r1\<lparr>sr_socket := None\<rparr>)
                    | Some (Inr (Some e), s1) \<Rightarrow> Some (False, r1\<lparr>sr_socket := None\<rparr>)
                    | Some (Inr None, s1) \<Rightarrow> report_send io snapshot s1 (r1\<lparr>sr_socket := Some s1\<rparr>))))"

subsection \<open>Snapshots\<close>

definition hex_digit :: "nat \<Rightarrow> char" where
  "hex_digit d = ''0123456789abcdef'' ! d"

fun hex_digits :: "nat \<Rightarrow> string" where
  "hex_digits n = (if n < 16 then [hex_digit n] else hex_digits (n div 16) @ [hex_digit (n mod 16)])"

declare hex_digits.simps [simp del]

text \<open>\<open>std::hex\<close> with \<open>setw(16)\<close> and \<open>setfill('0')\<close>.\<close>

definition format_node_id_hex :: "u64 \<Rightarrow> string" where
  "format_node_id_hex w =
     (let t = hex_digits (unat w) in replicate (16 - length t) CHR ''0'' @ t)"

definition session_state_text :: "SessionState \<Rightarrow> string" where
  "session_state_text st = (case st of
       INITIALIZING \<Rightarrow> ''initializing'' | WAITING_FOR_TASK \<Rightarrow> ''waiting_for_task''
     | PROCESSING_TASK \<Rightarrow> ''processing_task'' | ACTIVE \<Rightarrow> ''active'' | COMPLETING \<Rightarrow> ''completing''
     | TERMINATED \<Rightarrow> ''terminated'' | ERROR_STATE \<Rightarrow> ''error_state'')"

record DispatcherMonitoringSnapshot =
  ms_schema_version :: string
  ms_generator_id :: string
  ms_dispatcher_node_id :: string
  ms_listen_host :: string
  ms_listen_port :: int
  ms_uptime_seconds :: u64
  ms_timestamp_ms :: int
  ms_generator_status :: string
  ms_worker_count :: nat
  ms_task_queue_size :: nat
  ms_workers_waiting :: nat
  ms_workers :: "WorkerMonitoringSnapshot list"
  ms_recent_disconnects :: "RecentDisconnectSnapshot list"

text \<open>
  \<open>live\<close> gives the remote endpoint of a session's socket, \<open>node\<close> the node identifier of the
  listening socket, if there is one; \<open>uptime\<close> and \<open>status\<close> are the two providers.
\<close>

definition build_snapshot ::
  "event \<Rightarrow> (nat \<Rightarrow> bool \<times> errc option) \<Rightarrow> (nat \<Rightarrow> string) \<Rightarrow> int \<Rightarrow> string option \<Rightarrow> int option \<Rightarrow>
   u64 option \<Rightarrow> u64 option \<Rightarrow> string option \<Rightarrow> Server \<Rightarrow> DispatcherMonitoringSnapshot \<times> Server" where
  "build_snapshot ev alive live window host port node uptime status sv =
     (let sv1 = run_maintenance_if_due ev alive sv;
          ws = get_worker_monitoring_snapshot (ev_wall ev) window live (sv_disp sv1);
          nid = format_node_id_hex (case node of Some n \<Rightarrow> n | None \<Rightarrow> 0)
      in (\<lparr>ms_schema_version = ''v1'', ms_generator_id = ''zt-'' @ nid, ms_dispatcher_node_id = nid,
           ms_listen_host = (case host of Some h \<Rightarrow> h | None \<Rightarrow> ''0.0.0.0''),
           ms_listen_port = (case port of Some p \<Rightarrow> p | None \<Rightarrow> 8080),
           ms_uptime_seconds = (case uptime of Some u \<Rightarrow> u | None \<Rightarrow> 0),
           ms_timestamp_ms = to_epoch_ms (ev_wall ev),
           ms_generator_status = (case status of Some t \<Rightarrow> t | None \<Rightarrow> ''unknown''),
           ms_worker_count = length ws, ms_task_queue_size = server_task_queue_size sv1,
           ms_workers_waiting = length (filter (\<lambda>w. wm_state w = WAITING_FOR_TASK) ws),
           ms_workers = ws, ms_recent_disconnects = d_recent (sv_disp sv1)\<rparr>, sv1))"

subsection \<open>The service\<close>

record MonitoringService =
  mo_running :: bool
  mo_host :: string
  mo_port :: int
  mo_interval_ms :: int
  mo_has_reporter :: bool
  mo_cache :: "string option"

definition new_monitoring :: MonitoringService where
  "new_monitoring = \<lparr>mo_running = False, mo_host = [], mo_port = 0, mo_interval_ms = 1000,
     mo_has_reporter = False, mo_cache = None\<rparr>"

text \<open>\<open>bind\<close> is \<open>bind_to_port\<close> of the HTTP server.\<close>

definition monitoring_start ::
  "(string \<Rightarrow> int \<Rightarrow> bool) \<Rightarrow> string option \<Rightarrow> int option \<Rightarrow> int option \<Rightarrow> MonitoringService \<Rightarrow>
   bool \<times> MonitoringService" where
  "monitoring_start bind host port interval mo =
     (if mo_running mo then (True, mo)
      else
        let mo1 = mo\<lparr>mo_host := (case host of Some h \<Rightarrow> h | None \<Rightarrow> ''127.0.0.1''),
                     mo_port := (case port of Some p \<Rightarrow> p | None \<Rightarrow> 9090),
                     mo_interval_ms := (case interval of Some i \<Rightarrow> i | None \<Rightarrow> 1000)\<rparr> in
        if \<not> bind (mo_host mo1) (mo_port mo1) then (False, mo1) else (True, mo1\<lparr>mo_running := True\<rparr>))"

definition monitoring_stop :: "MonitoringService \<Rightarrow> MonitoringService" where
  "monitoring_stop mo = mo\<lparr>mo_running := False\<rparr>"

definition set_snapshot_reporter :: "bool \<Rightarrow> MonitoringService \<Rightarrow> MonitoringService" where
  "set_snapshot_reporter present mo = mo\<lparr>mo_has_reporter := present\<rparr>"

definition report_interval :: "MonitoringService \<Rightarrow> int" where
  "report_interval mo = (if mo_interval_ms mo > 0 then mo_interval_ms mo else 1000)"

text \<open>The text of the snapshot just built is the argument \<open>body\<close>.\<close>

definition build_and_cache_snapshot :: "string \<Rightarrow> MonitoringService \<Rightarrow> string \<times> MonitoringService" where
  "build_and_cache_snapshot body mo = (body, mo\<lparr>mo_cache := Some body\<rparr>)"

definition get_or_build_cached_snapshot :: "string \<Rightarrow> MonitoringService \<Rightarrow> string \<times> MonitoringService" where
  "get_or_build_cached_snapshot body mo =
     (case mo_cache mo of Some t \<Rightarrow> (t, mo) | None \<Rightarrow> build_and_cache_snapshot body mo)"

text \<open>
  One turn of the reporter thread: \<open>built\<close> is the snapshot's text, or an exception of its
  construction; \<open>stopped\<close> says that the service was stopped during the wait. The flag says
  whether the loop goes on.
\<close>

definition report_turn ::
  "'s IBlockingStream \<Rightarrow> ('s SnapshotReporter \<Rightarrow> 's SnapshotReporter) \<Rightarrow> 's result \<Rightarrow> string result \<Rightarrow> bool \<Rightarrow>
   MonitoringService \<Rightarrow> 's SnapshotReporter \<Rightarrow> (bool \<times> MonitoringService \<times> 's SnapshotReporter) option" where
  "report_turn io env create built stopped mo r =
     (if \<not> mo_running mo then Some (False, mo, r)
      else
        let mo1 = (case built of Inr p \<Rightarrow> snd (build_and_cache_snapshot p mo) | Inl e \<Rightarrow> mo) in
        if stopped then Some (False, mo1\<lparr>mo_running := False\<rparr>, r)
        else
          (case built of
             Inl e \<Rightarrow> Some (True, mo1, r)
           | Inr p \<Rightarrow>
               if mo_has_reporter mo1
               then map_option (\<lambda>(ok, r'). (True, mo1, r')) (report io env create p r)
               else Some (True, mo1, r)))"

record HttpResponse =
  hr_status :: int
  hr_content_type :: string
  hr_no_store :: bool
  hr_body :: string

definition newline :: string where
  "newline = [CHR 0x0A]"

text \<open>The handlers; a path without a handler, and without a mounted file, goes to the error handler with status 404.\<close>

definition monitoring_route :: "string \<Rightarrow> string \<Rightarrow> MonitoringService \<Rightarrow> HttpResponse \<times> MonitoringService" where
  "monitoring_route path body mo =
     (if path = ''/healthz'' then
        (\<lparr>hr_status = 200, hr_content_type = ''text/plain; charset=utf-8'', hr_no_store = False, hr_body = ''ok'' @ newline\<rparr>, mo)
      else if path = ''/api/monitor'' \<or> path = ''/api/monitor/'' then
        (case get_or_build_cached_snapshot body mo of
           (t, mo') \<Rightarrow> (\<lparr>hr_status = 200, hr_content_type = ''application/json'', hr_no_store = True, hr_body = t\<rparr>, mo'))
      else
        (\<lparr>hr_status = 404, hr_content_type = ''text/plain; charset=utf-8'', hr_no_store = False,
          hr_body = ''not found'' @ newline\<rparr>, mo))"

definition no_snapshot_text :: string where
  "no_snapshot_text = ''{'' @ [CHR 0x22] @ ''error'' @ [CHR 0x22] @ '':'' @ [CHR 0x22] @ ''no snapshot available''
     @ [CHR 0x22] @ ''}''"

definition rendezvous_route :: "string \<Rightarrow> RendezvousServer \<Rightarrow> HttpResponse" where
  "rendezvous_route path rs =
     (if path = ''/healthz'' then
        \<lparr>hr_status = 200, hr_content_type = ''text/plain; charset=utf-8'', hr_no_store = False, hr_body = ''ok'' @ newline\<rparr>
      else if path = ''/api/monitor'' \<or> path = ''/api/monitor/'' then
        if rs_snapshot rs = [] then
          \<lparr>hr_status = 503, hr_content_type = ''application/json'', hr_no_store = False, hr_body = no_snapshot_text\<rparr>
        else \<lparr>hr_status = 200, hr_content_type = ''application/json'', hr_no_store = True, hr_body = rs_snapshot rs\<rparr>
      else
        \<lparr>hr_status = 404, hr_content_type = ''text/plain; charset=utf-8'', hr_no_store = False,
         hr_body = ''not found'' @ newline\<rparr>)"

subsection \<open>Reading a request line\<close>

record HttpRequestLine =
  rl_method :: string
  rl_path :: string
  rl_version :: string

fun before_crlf :: "string \<Rightarrow> string option" where
  "before_crlf (a # b # r) =
     (if a = CHR 0x0D \<and> b = CHR 0x0A then Some [] else map_option ((#) a) (before_crlf (b # r)))"
| "before_crlf _ = None"

text \<open>\<open>stream >> token\<close>: skip white space, read up to the next; it fails on an empty token.\<close>

definition next_token :: "string \<Rightarrow> (string \<times> string) option" where
  "next_token l =
     (let l' = dropWhile is_space l; t = takeWhile (\<lambda>c. \<not> is_space c) l' in
      if t = [] then None else Some (t, dropWhile (\<lambda>c. \<not> is_space c) l'))"

definition parse_request_line :: "string \<Rightarrow> HttpRequestLine option" where
  "parse_request_line raw =
     (case before_crlf raw of
        None \<Rightarrow> None
      | Some line \<Rightarrow>
          (case next_token line of None \<Rightarrow> None | Some (m, l1) \<Rightarrow>
          (case next_token l1 of None \<Rightarrow> None | Some (p, l2) \<Rightarrow>
          (case next_token l2 of None \<Rightarrow> None | Some (v, l3) \<Rightarrow>
             if take 5 v \<noteq> ''HTTP/'' then None
             else Some \<lparr>rl_method = m, rl_path = p, rl_version = v\<rparr>))))"

definition int_to_string :: "int \<Rightarrow> string" where
  "int_to_string i = (if i < 0 then ''-'' @ to_string (nat (- i)) else to_string (nat i))"

definition reason_phrase :: "int \<Rightarrow> string" where
  "reason_phrase c =
     (if c = 200 then ''OK'' else if c = 400 then ''Bad Request'' else if c = 404 then ''Not Found''
      else if c = 405 then ''Method Not Allowed'' else if c = 500 then ''Internal Server Error''
      else ''Error'')"

definition crlf :: string where
  "crlf = [CHR 0x0D, CHR 0x0A]"

definition make_json_response :: "int \<Rightarrow> string \<Rightarrow> string" where
  "make_json_response status body =
     ''HTTP/1.1 '' @ int_to_string status @ '' '' @ reason_phrase status @ crlf
     @ ''Content-Type: application/json'' @ crlf @ ''Cache-Control: no-store'' @ crlf
     @ ''Connection: close'' @ crlf @ ''Content-Length: '' @ to_string (length body) @ crlf @ crlf @ body"

definition make_text_response :: "int \<Rightarrow> string \<Rightarrow> string" where
  "make_text_response status body =
     ''HTTP/1.1 '' @ int_to_string status @ '' '' @ reason_phrase status @ crlf
     @ ''Content-Type: text/plain; charset=utf-8'' @ crlf
     @ ''Connection: close'' @ crlf @ ''Content-Length: '' @ to_string (length body) @ crlf @ crlf @ body"

lemma before_crlf_line:
  "CHR 0x0D \<notin> set l \<Longrightarrow> before_crlf (l @ crlf @ rest) = Some l"
proof (induction l)
  case (Cons a l)
  then show ?case by (cases "l @ crlf @ rest") (auto simp: crlf_def)
qed (simp add: crlf_def)

lemma next_token_word:
  "t \<noteq> [] \<Longrightarrow> \<forall>c \<in> set t. \<not> is_space c \<Longrightarrow> (r = [] \<or> is_space (hd r)) \<Longrightarrow>
     next_token (t @ r) = Some (t, r)"
  by (cases t; cases r) (auto simp: next_token_def Let_def)

lemma next_token_space: "next_token (CHR '' '' # l) = next_token l"
  by (simp add: next_token_def is_space_def)

text \<open>The request line of a well-formed request is read back.\<close>

lemma parse_request_line_roundtrip:
  assumes "\<And>t. t \<in> {m, p, v} \<Longrightarrow> t \<noteq> [] \<and> (\<forall>c \<in> set t. \<not> is_space c)" "take 5 v = ''HTTP/''"
  shows "parse_request_line (m @ '' '' @ p @ '' '' @ v @ crlf @ rest)
    = Some \<lparr>rl_method = m, rl_path = p, rl_version = v\<rparr>"
proof -
  have "is_space CHR 0x0D" by (simp add: is_space_def)
  then have "CHR 0x0D \<notin> set (m @ '' '' @ p @ '' '' @ v)" using assms(1) by auto
  from before_crlf_line [OF this, of rest]
  have l: "before_crlf (m @ '' '' @ p @ '' '' @ v @ crlf @ rest) = Some (m @ '' '' @ p @ '' '' @ v)" by simp
  have sp: "is_space CHR '' ''" by (simp add: is_space_def)
  have w: "t \<noteq> [] \<and> (\<forall>c \<in> set t. \<not> is_space c)" if "t \<in> {m, p, v}" for t using assms(1) that .
  have t: "next_token (m @ '' '' @ p @ '' '' @ v) = Some (m, '' '' @ p @ '' '' @ v)"
    "next_token (p @ '' '' @ v) = Some (p, '' '' @ v)" "next_token v = Some (v, [])"
    using w [of m] w [of p] w [of v] sp next_token_word [of m "'' '' @ p @ '' '' @ v"]
      next_token_word [of p "'' '' @ v"] next_token_word [of v "[]"] by simp_all
  show ?thesis unfolding parse_request_line_def l
    using assms(2) t by (simp add: next_token_space)
qed

subsection \<open>What a report delivers\<close>

context worker_stream
begin

lemma report_on_ok:
  assumes "report_on io snapshot s = Some (True, s')"
  shows "tx s' = tx s @ rv_frame ReportSnapshot snapshot \<and> (\<exists>ack. rx s = rv_frame ReportAck ack @ rx s' \<and> length ack < 2 ^ 16)"
proof -
  obtain s1 body where w: "write_message io ReportSnapshot snapshot s = Some (Inr (), s1)"
    "read_message io s1 = Some (Inr (ReportAck, body), s')"
    using assms by (auto simp: report_on_def split: option.splits sum.splits prod.splits)
  show ?thesis using write_message_spec [OF w(1)] read_message_spec [OF w(2)] by metis
qed

lemma report_send_ok:
  assumes "report_send io snapshot s r = Some (True, r')"
  shows "\<exists>s'. sr_socket r' = Some s' \<and> tx s' = tx s @ rv_frame ReportSnapshot snapshot
    \<and> (\<exists>ack. rx s = rv_frame ReportAck ack @ rx s' \<and> length ack < 2 ^ 16)"
  using assms report_on_ok by (auto simp: report_send_def split: option.splits prod.splits bool.splits)

end

lemma report_send_oversized:
  assumes "2 ^ 16 \<le> length snapshot" "length snapshot < 2 ^ 32 - 1"
  shows "report_send io snapshot s r = Some (False, r\<lparr>sr_socket := None\<rparr>)"
proof -
  have "unat (word_of_nat (1 + length snapshot) :: u32) = 1 + length snapshot"
    using assms(2) by (simp add: unat_of_nat unsigned_of_nat take_bit_nat_eq_self del: of_nat_Suc of_nat_add)
  then have "(word_of_nat (1 + length snapshot) :: u32) > kMaxFramePayload"
    using assms(1) by (simp add: word_less_nat_alt kMaxFramePayload_def del: of_nat_Suc of_nat_add)
  then show ?thesis by (simp add: report_send_def report_on_def write_message_def del: of_nat_Suc of_nat_add)
qed

definition fresh_connection ::
  "'s IBlockingStream \<Rightarrow> ('s SnapshotReporter \<Rightarrow> 's SnapshotReporter) \<Rightarrow> 's result \<Rightarrow> 's SnapshotReporter \<Rightarrow> 's \<Rightarrow> bool" where
  "fresh_connection io env create r s \<longleftrightarrow> sr_socket r = None \<and>
     (\<exists>s0. create = Inr s0 \<and> bs_connect io (sr_host (env r)) (sr_port (env r)) s0 = Some (Inr None, s))"

lemma report_sends:
  assumes "report io env create snapshot r = Some (ok, r')" "\<not> sr_cancelled r"
  shows "\<not> ok \<and> sr_socket r = None
    \<or> (\<exists>s r1. report_send io snapshot s r1 = Some (ok, r') \<and> (sr_socket r = Some s \<or> fresh_connection io env create r s))"
  using assms
  by (auto simp: report_def fresh_connection_def Let_def split: option.splits sum.splits if_splits)

text \<open>
  A successful report has delivered exactly the snapshot: on the open connection, or on
  one just established, it has written one frame with the snapshot and consumed one
  acknowledgement, and the connection is kept for the next report. A cancelled reporter
  sends nothing. A snapshot of 64 KB or more is never delivered, and the attempt closes the
  connection.
\<close>

theorem report_delivers_snapshot:
  assumes "worker_stream io rx tx" "report io env create snapshot r = Some (ok, r')"
  shows "(ok \<longrightarrow> (\<exists>s s' ack. (sr_socket r = Some s \<or> fresh_connection io env create r s) \<and> sr_socket r' = Some s'
          \<and> tx s' = tx s @ rv_frame ReportSnapshot snapshot \<and> rx s = rv_frame ReportAck ack @ rx s'))
    \<and> (sr_cancelled r \<longrightarrow> \<not> ok \<and> r' = r)
    \<and> (2 ^ 16 \<le> length snapshot \<and> length snapshot < 2 ^ 32 - 1 \<longrightarrow>
         \<not> ok \<and> (sr_socket r \<noteq> None \<and> \<not> sr_cancelled r \<longrightarrow> sr_socket r' = None))"
proof (cases "sr_cancelled r")
  case True
  then have "\<not> ok" "r' = r" using assms(2) by (auto simp: report_def)
  then show ?thesis using True by simp
next
  case False
  consider "\<not> ok" "sr_socket r = None"
    | s r1 where "report_send io snapshot s r1 = Some (ok, r')" "sr_socket r = Some s \<or> fresh_connection io env create r s"
    using report_sends [OF assms(2) False] by metis
  then show ?thesis
  proof cases
    case (2 s r1)
    note send = 2(1) and open_or_new = 2(2)
    have big: "\<not> ok \<and> sr_socket r' = None" if "2 ^ 16 \<le> length snapshot" "length snapshot < 2 ^ 32 - 1"
      using report_send_oversized [OF that, of io s r1] send by simp
    have good: "\<exists>s'. sr_socket r' = Some s' \<and> tx s' = tx s @ rv_frame ReportSnapshot snapshot
        \<and> (\<exists>ack. rx s = rv_frame ReportAck ack @ rx s')" if ok
      using worker_stream.report_send_ok [OF assms(1), of snapshot s r1 r'] send that by auto
    show ?thesis using False big open_or_new good by blast
  qed (use False in auto)
qed

lemma report_mem:
  assumes "\<not> sr_cancelled r" "sr_socket r = Some (rv_frame ReportAck ok_text @ i, out)" "length p < 2 ^ 16"
  shows "report mem_io env create p r = Some (True, r\<lparr>sr_socket := Some (i, out @ rv_frame ReportSnapshot p)\<rparr>)"
  using assms mem_write_message [of p ReportSnapshot "rv_frame ReportAck ok_text @ i" out]
    mem_read_message [of ok_text ReportAck i "out @ rv_frame ReportSnapshot p"]
  by (simp add: report_def report_send_def report_on_def ok_text_def)

theorem report_delivers_snapshot_witness:
  "\<exists>s'. report mem_io (\<lambda>r. r) (Inl runtime_error) ''snap''
      \<lparr>sr_host = ''h'', sr_port = 1, sr_cancelled = False, sr_socket = Some (rv_frame ReportAck ok_text, [])\<rparr>
      = Some (True, \<lparr>sr_host = ''h'', sr_port = 1, sr_cancelled = False, sr_socket = Some s'\<rparr>)
    \<and> snd s' = rv_frame ReportSnapshot ''snap''"
proof -
  let ?r = "\<lparr>sr_host = ''h'', sr_port = 1, sr_cancelled = False, sr_socket = Some (rv_frame ReportAck ok_text, [])\<rparr>"
  have "report mem_io (\<lambda>r. r) (Inl runtime_error) ''snap'' ?r
      = Some (True, ?r\<lparr>sr_socket := Some ([], rv_frame ReportSnapshot ''snap'')\<rparr>)"
    using report_mem [of ?r "[]" "[]" "''snap''"] by simp
  from this report_delivers_snapshot [OF mem.worker_stream_axioms this] show ?thesis by auto
qed

subsection \<open>Node identifiers are printed faithfully\<close>

definition hex_value :: "string \<Rightarrow> nat" where
  "hex_value = foldl (\<lambda>n c. 16 * n + (if 97 \<le> (of_char c :: nat) then of_char c - 87 else of_char c - 48)) 0"

lemma hex_digit_value:
  "d < 16 \<Longrightarrow> (if 97 \<le> (of_char (hex_digit d) :: nat) then of_char (hex_digit d) - 87 else of_char (hex_digit d) - 48) = d"
proof -
  have "\<forall>d \<in> set [0..<16]. (if 97 \<le> (of_char (hex_digit d) :: nat) then of_char (hex_digit d) - 87
      else of_char (hex_digit d) - 48) = d"
    by code_simp
  then show "d < 16 \<Longrightarrow> ?thesis" by auto
qed

lemma hex_value_digits: "hex_value (hex_digits n) = n"
proof (induction n rule: hex_digits.induct)
  case (1 n)
  show ?case
  proof (cases "n < 16")
    case True
    then show ?thesis using hex_digit_value [of n] by (simp add: hex_digits.simps [of n] hex_value_def)
  next
    case False
    then show ?thesis using 1 hex_digit_value [of "n mod 16"]
      by (simp add: hex_digits.simps [of n] hex_value_def)
  qed
qed

lemma hex_value_zeros: "hex_value (replicate k CHR ''0'' @ t) = hex_value t"
  by (induction k) (simp_all add: hex_value_def)

lemma length_hex_digits: "0 < k \<Longrightarrow> n < 16 ^ k \<Longrightarrow> length (hex_digits n) \<le> k"
proof (induction n arbitrary: k rule: hex_digits.induct)
  case (1 n)
  show ?case
  proof (cases "n < 16")
    case False
    then obtain j where j: "k = Suc j" "0 < j" using 1(2,3) by (cases k) (auto, cases "k - 1", auto)
    have "n div 16 < 16 ^ j" using 1(3) j by (simp add: less_mult_imp_div_less mult.commute)
    then show ?thesis using 1(1) [OF False j(2)] False j by (simp add: hex_digits.simps [of n])
  qed (use 1 in \<open>simp add: hex_digits.simps [of n]\<close>)
qed

text \<open>
  Node identifiers are printed faithfully: the text has exactly sixteen hexadecimal
  digits whose value is the identifier, so different nodes have different texts.
\<close>

theorem node_id_hex_faithful:
  "length (format_node_id_hex w) = 16 \<and> hex_value (format_node_id_hex w) = unat w
   \<and> (format_node_id_hex v = format_node_id_hex w \<longleftrightarrow> v = w)"
proof -
  have l: "length (hex_digits (unat u)) \<le> 16" for u :: u64
    using unsigned_less [of u, where 'a = nat] by (intro length_hex_digits) simp_all
  have h: "hex_value (format_node_id_hex u) = unat u" for u
    by (simp add: format_node_id_hex_def Let_def hex_value_zeros hex_value_digits)
  have "v = w" if "format_node_id_hex v = format_node_id_hex w"
    using h [of v] h [of w] that by (metis unsigned_word_eqI)
  moreover have "length (format_node_id_hex w) = 16" using l [of w] by (simp add: format_node_id_hex_def Let_def)
  ultimately show ?thesis using h [of w] by blast
qed

end
