(* ===== verification/DispApp.thy ===== *)
theory DispApp
  imports Monitoring
begin

section \<open>The dispatcher application\<close>

text \<open>
  \<open>DispatcherApp\<close> (dispatcher/DispatcherApp.cpp): start-up, the registration thread, the
  shutdown sequence and the life cycle state. Option parsing, the monitoring service's HTTP
  binding and the listening socket's address are inputs of \<open>app_start\<close>. The static shutdown
  flag is a member of the record. The rendezvous client is shared between the registration
  thread and \<open>stop\<close>.
\<close>

datatype LifecycleState = Starting | Running | NoTasks | NoWorkers | Stopping | Stopped | Error

datatype ParseResult = ParseOk | ParseHelp | ParseVersion | ParseError

record 's DispatcherApp =
  app_server :: "Server option"
  app_monitoring :: "MonitoringService option"
  app_client :: "'s RendezvousClient option"
  app_reporter :: "'s SnapshotReporter option"
  app_registering :: "(string \<times> int) option"
  app_registered :: bool
  app_start_time :: int
  app_state :: LifecycleState
  app_shutdown :: bool

definition new_app :: "'s DispatcherApp" where
  "new_app = \<lparr>app_server = None, app_monitoring = None, app_client = None, app_reporter = None,
     app_registering = None, app_registered = False, app_start_time = 0, app_state = Stopped,
     app_shutdown = False\<rparr>"

definition signal_handler :: "int \<Rightarrow> 's DispatcherApp \<Rightarrow> 's DispatcherApp" where
  "signal_handler signum app = app\<lparr>app_shutdown := True\<rparr>"

definition request_shutdown :: "'s DispatcherApp \<Rightarrow> 's DispatcherApp" where
  "request_shutdown app = app\<lparr>app_shutdown := True\<rparr>"

subsection \<open>Start\<close>

text \<open>\<open>std::stoi\<close>: optional white space and sign, then at least one digit; the value must fit an \<open>int\<close>.\<close>

definition is_digit :: "char \<Rightarrow> bool" where
  "is_digit c \<longleftrightarrow> 48 \<le> (of_char c :: nat) \<and> (of_char c :: nat) \<le> 57"

definition digits_value :: "string \<Rightarrow> int" where
  "digits_value = foldl (\<lambda>n c. 10 * n + (of_char c - 48)) 0"

definition stoi :: "string \<Rightarrow> int result" where
  "stoi t =
     (let t1 = dropWhile is_space t;
          neg = (t1 \<noteq> [] \<and> hd t1 = CHR ''-'');
          t2 = (if t1 \<noteq> [] \<and> hd t1 \<in> {CHR ''-'', CHR ''+''} then tl t1 else t1);
          ds = takeWhile is_digit t2;
          v = (if neg then - digits_value ds else digits_value ds)
      in if ds = [] then Inl invalid_argument_error
         else if v < - (2 ^ 31) \<or> 2 ^ 31 \<le> v then Inl length_error else Inr v)"

text \<open>The last colon separates the address from the port (\<open>rfind\<close>); none: both stay empty.\<close>

definition split_endpoint :: "string \<Rightarrow> (string \<times> int) result" where
  "split_endpoint ep =
     (let r = rev ep; p = takeWhile (\<lambda>c. c \<noteq> CHR '':'') r; q = dropWhile (\<lambda>c. c \<noteq> CHR '':'') r in
      if q = [] then Inr ([], 0)
      else case stoi (rev p) of Inl e \<Rightarrow> Inl e | Inr n \<Rightarrow> Inr (rev (tl q), n))"

record app_options =
  ao_monitoring :: "bool option"
  ao_rv_enabled :: "bool option"
  ao_rv_host :: "string option"
  ao_rv_port :: "int option"
  ao_rv_snapshot_port :: "int option"

definition or_default :: "'a option \<Rightarrow> 'a \<Rightarrow> 'a" where
  "or_default v d = (case v of Some x \<Rightarrow> x | None \<Rightarrow> d)"

text \<open>
  \<open>start_server\<close> is \<open>server_start_configured\<close> with its options, \<open>start_monitoring\<close> is
  \<open>monitoring_start\<close>; \<open>local_ep\<close> is the endpoint of the listening socket, if there is one.
\<close>

definition app_start_monitoring ::
  "(MonitoringService \<Rightarrow> bool \<times> MonitoringService) \<Rightarrow> app_options \<Rightarrow> 's DispatcherApp \<Rightarrow> 's DispatcherApp" where
  "app_start_monitoring start_monitoring opts app =
     (if or_default (ao_monitoring opts) True then
        (case start_monitoring new_monitoring of
           (True, mo) \<Rightarrow> app\<lparr>app_monitoring := Some mo\<rparr>
         | (False, mo) \<Rightarrow> app\<lparr>app_monitoring := None\<rparr>)
      else app)"

definition app_start_rendezvous ::
  "string option \<Rightarrow> app_options \<Rightarrow> 's DispatcherApp \<Rightarrow> 's DispatcherApp result" where
  "app_start_rendezvous local_ep opts app =
     (if or_default (ao_rv_enabled opts) False then
        let h = or_default (ao_rv_host opts) [] in
        if h \<noteq> [] then
          let app1 = app\<lparr>app_client := Some \<lparr>rc_host = h, rc_port = or_default (ao_rv_port opts) 8088,
                             rc_cancelled = False, rc_active = None\<rparr>,
                         app_reporter := Some \<lparr>sr_host = h, sr_port = or_default (ao_rv_snapshot_port opts) 8089,
                             sr_cancelled = False, sr_socket = None\<rparr>,
                         app_monitoring := map_option (set_snapshot_reporter True) (app_monitoring app)\<rparr> in
          (case (case local_ep of None \<Rightarrow> Inr ([], 0) | Some ep \<Rightarrow> split_endpoint ep) of
             Inl e \<Rightarrow> Inl e
           | Inr (ip, p) \<Rightarrow> Inr (if ip \<noteq> [] then app1\<lparr>app_registering := Some (ip, p)\<rparr> else app1))
        else Inr app
      else Inr app)"

definition app_start ::
  "int \<Rightarrow> ParseResult \<Rightarrow> app_options \<Rightarrow> (Server \<Rightarrow> bool \<times> Server) \<Rightarrow>
   (MonitoringService \<Rightarrow> bool \<times> MonitoringService) \<Rightarrow> string option \<Rightarrow> 's DispatcherApp \<Rightarrow>
   int result \<times> 's DispatcherApp" where
  "app_start now parsed opts start_server start_monitoring local_ep app =
     (let app0 = app\<lparr>app_state := Starting, app_shutdown := False\<rparr> in
      if parsed = ParseHelp \<or> parsed = ParseVersion then (Inr 1, app0\<lparr>app_state := Stopped\<rparr>)
      else if parsed = ParseError then (Inr 2, app0\<lparr>app_state := Error\<rparr>)
      else
        let app1 = app0\<lparr>app_start_time := now\<rparr> in
        (case start_server server_new of
           (False, sv) \<Rightarrow> (Inr 3, app1\<lparr>app_server := Some sv, app_state := Error\<rparr>)
         | (True, sv) \<Rightarrow>
             let app2 = app_start_monitoring start_monitoring opts (app1\<lparr>app_server := Some sv\<rparr>) in
             (case app_start_rendezvous local_ep opts app2 of
                Inl e \<Rightarrow> (Inl e, app2)
              | Inr app3 \<Rightarrow> (Inr 0, app3\<lparr>app_state := Running\<rparr>))))"

subsection \<open>The registration thread\<close>

text \<open>
  One round of the loop for every element: whether a shutdown was requested when the loop
  condition was evaluated, what other threads do to the client during the attempt, what the
  socket factory returns, and whether a shutdown is seen during the sleep.
\<close>

record 's round_input =
  ri_shutdown :: bool
  ri_env :: "'s RendezvousClient \<Rightarrow> 's RendezvousClient"
  ri_create :: "'s result"
  ri_shutdown_asleep :: bool

definition max_registration_delay :: nat where
  "max_registration_delay = 10"

definition try_register ::
  "'s IBlockingStream \<Rightarrow> 'j Json \<Rightarrow> string \<Rightarrow> int \<Rightarrow> 's round_input \<Rightarrow> 's DispatcherApp \<Rightarrow>
   (bool \<times> 's DispatcherApp) option" where
  "try_register io J vn_ip listen_port inp app =
     (case app_client app of
        None \<Rightarrow> Some (False, app)
      | Some c \<Rightarrow>
          (case register_endpoint io (ri_env inp) (ri_create inp) J ''dispatcher'' ''default'' vn_ip listen_port c of
             None \<Rightarrow> None
           | Some (ok, c') \<Rightarrow> Some (ok, app\<lparr>app_client := Some c'\<rparr>)))"

text \<open>
  The result is the list of the sleeps and whether the loop has ended; it has not ended when
  the rounds are used up. \<open>None\<close>: an attempt does not return.
\<close>

fun registration_loop ::
  "'s IBlockingStream \<Rightarrow> 'j Json \<Rightarrow> string \<Rightarrow> int \<Rightarrow> nat \<Rightarrow> 's round_input list \<Rightarrow> 's DispatcherApp \<Rightarrow>
   (nat list \<times> bool \<times> 's DispatcherApp) option" where
  "registration_loop io J vn_ip listen_port delay [] app = Some ([], False, app)"
| "registration_loop io J vn_ip listen_port delay (inp # rest) app =
     (if ri_shutdown inp then Some ([], True, app)
      else
        (case try_register io J vn_ip listen_port inp app of
           None \<Rightarrow> None
         | Some (True, app1) \<Rightarrow> Some ([], True, app1\<lparr>app_registered := True\<rparr>)
         | Some (False, app1) \<Rightarrow>
             if ri_shutdown_asleep inp then Some ([delay], True, app1)
             else
               (case registration_loop io J vn_ip listen_port (min (delay * 2) max_registration_delay) rest app1 of
                  None \<Rightarrow> None
                | Some (ds, ended, app2) \<Rightarrow> Some (delay # ds, ended, app2))))"

subsection \<open>Stop\<close>

text \<open>
  The registration thread has been joined when the unregistration is tried. \<open>stop_server\<close> is
  \<open>server_stop\<close>. The first component is what \<open>unregister_endpoint\<close> returned, if it was
  called.
\<close>

definition app_stop ::
  "'s IBlockingStream \<Rightarrow> ('s RendezvousClient \<Rightarrow> 's RendezvousClient) \<Rightarrow> 's result \<Rightarrow> 'j Json \<Rightarrow>
   (Server \<Rightarrow> Server) \<Rightarrow> 's DispatcherApp \<Rightarrow> (bool option \<times> 's DispatcherApp) option" where
  "app_stop io env create J stop_server app =
     (let app1 = app\<lparr>app_state := Stopping, app_shutdown := True,
                     app_client := map_option (client_cancel io) (app_client app),
                     app_reporter := map_option reporter_cancel (app_reporter app)\<rparr>;
          app2 = app1\<lparr>app_monitoring := None, app_registering := None\<rparr>;
          finish = (\<lambda>app3. app3\<lparr>app_client := None, app_reporter := None,
                        app_server := map_option stop_server (app_server app3), app_state := Stopped\<rparr>)
      in case app_client app2 of
           Some c \<Rightarrow>
             if app_registered app2 then
               (case unregister_endpoint io env create J ''dispatcher'' ''default'' c of
                  None \<Rightarrow> None
                | Some (ok, c') \<Rightarrow> Some (Some ok, finish app2))
             else Some (None, finish app2)
         | None \<Rightarrow> Some (None, finish app2))"

subsection \<open>Queries\<close>

definition app_task_queue_size :: "'s DispatcherApp \<Rightarrow> nat" where
  "app_task_queue_size app = (case app_server app of Some sv \<Rightarrow> server_task_queue_size sv | None \<Rightarrow> 0)"

definition app_uptime_seconds :: "int \<Rightarrow> 's DispatcherApp \<Rightarrow> u64" where
  "app_uptime_seconds now app = word_of_int ((now - app_start_time app) sdiv 1000000000)"

definition lifecycle_state :: "'s DispatcherApp \<Rightarrow> LifecycleState" where
  "lifecycle_state app =
     (case app_server app of
        None \<Rightarrow> app_state app
      | Some sv \<Rightarrow>
          if app_state app \<noteq> Running then app_state app
          else if server_task_queue_size sv = 0 then NoTasks
          else if server_active_session_count sv = 0 then NoWorkers
          else Running)"

definition lifecycle_state_string :: "'s DispatcherApp \<Rightarrow> string" where
  "lifecycle_state_string app =
     (case lifecycle_state app of Starting \<Rightarrow> ''starting'' | Running \<Rightarrow> ''running'' | NoTasks \<Rightarrow> ''no_tasks''
      | NoWorkers \<Rightarrow> ''no_workers'' | Stopping \<Rightarrow> ''stopping'' | Stopped \<Rightarrow> ''stopped'' | Error \<Rightarrow> ''error'')"

subsection \<open>Registration\<close>

lemma delay_step: "min (min (2 ^ k) 10 * 2) max_registration_delay = min (2 ^ Suc k) (10 :: nat)"
  by (simp add: max_registration_delay_def min_def)

lemma registration_delays:
  "registration_loop io J ip p (min (2 ^ k) 10) rounds app = Some (ds, ended, app') \<Longrightarrow>
     (\<forall>i < length ds. ds ! i = min (2 ^ (k + i)) 10) \<and> length ds \<le> length rounds"
proof (induction rounds arbitrary: k app ds)
  case (Cons inp rest)
  show ?case
  proof (cases "\<exists>app1 ds'. try_register io J ip p inp app = Some (False, app1) \<and> \<not> ri_shutdown_asleep inp
      \<and> registration_loop io J ip p (min (2 ^ Suc k) 10) rest app1 = Some (ds', ended, app') \<and> ds = min (2 ^ k) 10 # ds'")
    case True
    then obtain app1 ds' where
      d: "registration_loop io J ip p (min (2 ^ Suc k) 10) rest app1 = Some (ds', ended, app')"
      "ds = min (2 ^ k) 10 # ds'"
      by blast
    show ?thesis using Cons.IH [OF d(1)] d(2) by (auto simp: nth_Cons' less_Suc_eq_0_disj)
  next
    case False
    then have "ds = [] \<or> ds = [min (2 ^ k) 10]" using Cons.prems
      by (auto simp: delay_step split: if_splits option.splits prod.splits bool.splits)
    then show ?thesis by auto
  qed
qed simp

lemma try_register_keeps:
  "try_register io J ip p inp app = Some (ok, app1) \<Longrightarrow> app_registered app1 = app_registered app
     \<and> (app_client app = None \<longrightarrow> \<not> ok \<and> app1 = app)"
  by (auto simp: try_register_def split: option.splits)

lemma try_register_cancelled:
  "app_client app = Some c \<Longrightarrow> rc_cancelled c \<Longrightarrow> try_register io J ip p inp app = Some (False, app)"
  by (cases app) (simp add: try_register_def register_endpoint_def exchange_def accepted_def)

lemma registration_ends:
  "registration_loop io J ip p delay rounds app = Some (ds, ended, app') \<Longrightarrow> \<not> app_registered app \<Longrightarrow>
     app_registered app' \<longrightarrow> ended"
proof (induction rounds arbitrary: delay app ds)
  case (Cons inp rest)
  then show ?case
    by (fastforce split: if_splits option.splits prod.splits bool.splits dest: try_register_keeps)
qed simp

lemma registration_cancelled:
  "app_client app = Some c \<Longrightarrow> rc_cancelled c \<Longrightarrow> registration_loop io J ip p delay rounds app = Some (ds, ended, app') \<Longrightarrow>
     app' = app"
proof (induction rounds arbitrary: delay ds)
  case (Cons inp rest)
  then show ?case
    by (auto simp: try_register_cancelled split: if_splits option.splits prod.splits)
qed simp

text \<open>
  The registration thread backs off. However the attempts fail, the thread sleeps 1, 2,
  4, 8 and then always 10 seconds between them; the dispatcher counts as registered only
  when an attempt was accepted, after which the thread has ended; with a cancelled client no
  attempt succeeds and nothing changes.
\<close>

theorem registration_backs_off:
  assumes "registration_loop io J vn_ip listen_port 1 rounds app = Some (ds, ended, app')" "\<not> app_registered app"
  shows "(\<forall>i < length ds. ds ! i = min (2 ^ i) 10) \<and> length ds \<le> length rounds
    \<and> (app_registered app' \<longrightarrow> ended)
    \<and> (\<forall>c. app_client app = Some c \<and> rc_cancelled c \<longrightarrow> app' = app)"
  using registration_delays [of io J vn_ip listen_port 0 rounds app ds ended app'] assms registration_ends [OF assms]
    registration_cancelled by auto

definition refused_round :: "'s round_input" where
  "refused_round = \<lparr>ri_shutdown = False, ri_env = (\<lambda>c. c), ri_create = Inl runtime_error, ri_shutdown_asleep = False\<rparr>"

definition demo_client :: "(bytes \<times> bytes) RendezvousClient" where
  "demo_client = \<lparr>rc_host = ''h'', rc_port = 8088, rc_cancelled = False, rc_active = None\<rparr>"

definition demo_app :: "(bytes \<times> bytes) DispatcherApp" where
  "demo_app = new_app\<lparr>app_client := Some demo_client, app_registering := Some (''10.1.2.3'', 8080), app_state := Running\<rparr>"

theorem registration_backs_off_witness:
  "\<exists>ds. registration_loop mem_io demo_json ''10.1.2.3'' 8080 1 (replicate 6 refused_round) demo_app = Some (ds, False, demo_app)
    \<and> ds = [1, 2, 4, 8, 10, 10] \<and> ds ! 3 = min (2 ^ 3) 10"
proof -
  have t: "try_register mem_io demo_json ''10.1.2.3'' 8080 refused_round demo_app = Some (False, demo_app)"
    by (simp add: try_register_def register_endpoint_def exchange_def accepted_def refused_round_def demo_app_def
        demo_client_def)
  have r: "registration_loop mem_io demo_json ''10.1.2.3'' 8080 1 (replicate 6 refused_round) demo_app
      = Some ([1, 2, 4, 8, 10, 10], False, demo_app)"
    using t by (simp add: eval_nat_numeral max_registration_delay_def) (simp add: refused_round_def)
  have "\<not> app_registered demo_app" by (simp add: demo_app_def new_app_def)
  from registration_backs_off [OF r this] r show ?thesis by (auto dest: spec [of _ 3])
qed

text \<open>
  A stopped dispatcher stays registered. \<open>stop\<close> cancels the rendezvous client before it
  uses the client to unregister, and cancelling is final: whatever the network does and
  whatever a new socket would do, the unregistration of a registered dispatcher fails
  without sending anything. The service goes on handing out the dead endpoint until its time
  to live has passed.
\<close>

theorem stop_never_unregisters:
  assumes "app_registered app" "app_client app = Some c"
  shows "\<exists>app'. (\<forall>env create. app_stop io env create J stop_server app = Some (Some False, app'))
    \<and> app_state app' = Stopped \<and> app_shutdown app' \<and> app_client app' = None
    \<and> app_server app' = map_option stop_server (app_server app)"
  using assms
  by (simp add: app_stop_def unregister_endpoint_def exchange_def client_cancel_def accepted_def)

theorem stop_never_unregisters_witness:
  "\<exists>app'. app_stop mem_io (\<lambda>c. c) (Inr ([], [])) demo_json (server_stop demo_ev (\<lambda>_. (True, None)))
      (demo_app\<lparr>app_registered := True\<rparr>) = Some (Some False, app') \<and> app_state app' = Stopped"
  using stop_never_unregisters [of "demo_app\<lparr>app_registered := True\<rparr>" demo_client mem_io demo_json
      "server_stop demo_ev (\<lambda>_. (True, None))"]
  by (auto simp: demo_app_def)

text \<open>What \<open>start\<close> reports: its exit code says which life cycle state was reached.\<close>

lemma app_start_codes:
  assumes "app_start now parsed opts start_server start_monitoring local_ep app = (Inr code, app')"
  shows "code \<in> {0, 1, 2, 3} \<and> (code = 0 \<longleftrightarrow> app_state app' = Running) \<and> (code = 1 \<longleftrightarrow> app_state app' = Stopped)
    \<and> (code \<in> {2, 3} \<longleftrightarrow> app_state app' = Error) \<and> (code = 0 \<longrightarrow> fst (start_server server_new) \<and> parsed = ParseOk)"
  using assms
  by (cases parsed) (auto simp: app_start_def Let_def split: prod.splits bool.splits sum.splits if_splits)

end
