(* ===== verification/Generators.thy ===== *)
theory Generators
  imports DispApp
begin

section \<open>Task generators\<close>

text \<open>
  generators/: the identifier counter, the test case iterator, the verification helper,
  \<open>TaskGenerator\<close> and the two programs built from it. The skill registry is an argument; a
  coroutine of \<open>process_single_task\<close> and the completion source it waits on share one number,
  drawn from a counter of coroutine frames.
\<close>

subsection \<open>Task identifiers\<close>

definition get_next_id :: "u32 \<Rightarrow> u32 \<times> u32" where
  "get_next_id counter =
     (let next = counter; counter1 = counter + 1 in
      if next = 0 then (counter1, counter1 + 1) else (next, counter1))"

text \<open>
  Several threads may draw identifiers. The atomic increments interleave: a thread that has
  drawn zero is in \<open>ti_retrying\<close> until its second increment. \<open>ti_fetches\<close> counts increments.
\<close>

record id_state =
  ti_counter :: u32
  ti_retrying :: "nat set"
  ti_issued :: "u32 list"
  ti_fetches :: nat

definition id_start :: id_state where
  "id_start = \<lparr>ti_counter = 1, ti_retrying = {}, ti_issued = [], ti_fetches = 0\<rparr>"

definition first_fetch :: "nat \<Rightarrow> id_state \<Rightarrow> id_state" where
  "first_fetch t s =
     (let s1 = s\<lparr>ti_counter := ti_counter s + 1, ti_fetches := Suc (ti_fetches s)\<rparr> in
      if ti_counter s = 0 then s1\<lparr>ti_retrying := insert t (ti_retrying s)\<rparr>
      else s1\<lparr>ti_issued := ti_issued s @ [ti_counter s]\<rparr>)"

definition second_fetch :: "nat \<Rightarrow> id_state \<Rightarrow> id_state" where
  "second_fetch t s =
     s\<lparr>ti_counter := ti_counter s + 1, ti_fetches := Suc (ti_fetches s),
       ti_retrying := ti_retrying s - {t}, ti_issued := ti_issued s @ [ti_counter s]\<rparr>"

inductive id_step :: "id_state \<Rightarrow> id_state \<Rightarrow> bool" where
  first: "t \<notin> ti_retrying s \<Longrightarrow> id_step s (first_fetch t s)"
| second: "t \<in> ti_retrying s \<Longrightarrow> id_step s (second_fetch t s)"

subsection \<open>Test cases\<close>

record TestTaskData =
  td_skill_id :: u32
  td_request :: "PayloadBuffer option"
  td_response :: "PayloadBuffer option"

record SkillTestIterator =
  it_entries :: "(u32 \<times> nat) list"
  it_cursor :: nat

definition iterator_new :: "SkillRegistry \<Rightarrow> SkillTestIterator" where
  "iterator_new reg =
     \<lparr>it_entries = concat (map (\<lambda>sid. map (\<lambda>ci. (sid, ci)) [0..<get_test_case_count sid reg]) (skill_ids reg)),
      it_cursor = 0\<rparr>"

definition test_data :: "SkillRegistry \<Rightarrow> u32 \<times> nat \<Rightarrow> TestTaskData option" where
  "test_data reg e =
     (case create_test_request_buffer (fst e) (snd e) reg of
        None \<Rightarrow> None
      | Some request \<Rightarrow>
          (case create_response_buffer (fst e) (pb_span request) reg of
             None \<Rightarrow> None
           | Some response \<Rightarrow>
               Some \<lparr>td_skill_id = fst e, td_request = Some request, td_response = Some response\<rparr>))"

fun next_loop :: "SkillRegistry \<Rightarrow> nat \<Rightarrow> SkillTestIterator \<Rightarrow> TestTaskData list \<times> SkillTestIterator" where
  "next_loop reg 0 it = ([], it)"
| "next_loop reg (Suc n) it =
     (let e = it_entries it ! it_cursor it;
          it1 = it\<lparr>it_cursor := (it_cursor it + 1) mod length (it_entries it)\<rparr>
      in case next_loop reg n it1 of
           (ds, it2) \<Rightarrow> ((case test_data reg e of Some d \<Rightarrow> d # ds | None \<Rightarrow> ds), it2))"

definition iterator_next :: "SkillRegistry \<Rightarrow> u32 \<Rightarrow> SkillTestIterator \<Rightarrow> TestTaskData list \<times> SkillTestIterator" where
  "iterator_next reg n it =
     (if it_entries it = [] \<or> n = 0 then ([], it) else next_loop reg (unat n) it)"

definition iterator_reset :: "SkillTestIterator \<Rightarrow> SkillTestIterator" where
  "iterator_reset it = it\<lparr>it_cursor := 0\<rparr>"

definition total_combinations :: "SkillTestIterator \<Rightarrow> nat" where
  "total_combinations it = length (it_entries it)"

subsection \<open>Verification\<close>

definition clone_request :: "bool \<Rightarrow> PayloadBuffer \<Rightarrow> PayloadBuffer option" where
  "clone_request enabled request = (if \<not> enabled then None else Some (pb_clone request))"

definition verification_verify :: "SkillRegistry \<Rightarrow> u32 \<Rightarrow> u32 \<Rightarrow> bytes \<Rightarrow> bytes \<Rightarrow> VerificationResult" where
  "verification_verify reg tid sid request response = verify_response sid request response reg"

subsection \<open>Dispatching tasks\<close>

record GeneratorTask =
  gt_frame :: nat
  gt_task_id :: u32
  gt_skill_id :: u32
  gt_copy :: "PayloadBuffer option"
  gt_finished :: bool

record TaskGenerator =
  tg_counter :: u32
  tg_stopped :: bool
  tg_has_app :: bool

definition new_generator :: TaskGenerator where
  "new_generator = \<lparr>tg_counter = 1, tg_stopped = False, tg_has_app = False\<rparr>"

definition set_app :: "bool \<Rightarrow> TaskGenerator \<Rightarrow> TaskGenerator" where
  "set_app present g = g\<lparr>tg_has_app := present\<rparr>"

definition generator_stop :: "TaskGenerator \<Rightarrow> TaskGenerator" where
  "generator_stop g = g\<lparr>tg_stopped := True\<rparr>"

text \<open>
  The coroutine from its creation to its suspension in \<open>co_await submit_task\<close>: as in
  \<open>submit_await_suspend\<close>, the completion source is connected and the message queued. An
  exception of the message's constructor is swallowed and ends the coroutine.
\<close>

definition connect_source :: "nat \<Rightarrow> Dispatcher \<Rightarrow> Dispatcher" where
  "connect_source a d =
     d\<lparr>rq_sources := (rq_sources d)(a := fresh_source\<lparr>cs_handle := Some a, cs_context := True\<rparr>)\<rparr>"

definition process_single_task ::
  "event \<Rightarrow> bool \<Rightarrow> nat \<Rightarrow> u32 \<Rightarrow> u32 \<Rightarrow> PayloadBuffer option \<Rightarrow> PayloadBuffer option \<Rightarrow> PayloadBuffer option \<Rightarrow>
   Dispatcher \<Rightarrow> GeneratorTask \<times> Dispatcher" where
  "process_single_task ev has_app a tid sid request response copy d =
     (let co = \<lparr>gt_frame = a, gt_task_id = tid, gt_skill_id = sid, gt_copy = copy, gt_finished = False\<rparr> in
      if \<not> has_app then (co\<lparr>gt_finished := True\<rparr>, d)
      else
        (case (if response \<noteq> None then TaskMessage_with_response (ev_steady ev) tid request response
               else TaskMessage_new (ev_steady ev) tid request) of
           Inl e \<Rightarrow> (co\<lparr>gt_finished := True\<rparr>, connect_source a d)
         | Inr m \<Rightarrow> (co, submit_task ev (set_completion_source a m) (connect_source a d))))"

text \<open>The rest of the coroutine, when the completion source \<open>c\<close> has been filled.\<close>

definition finish_single_task ::
  "SkillRegistry \<Rightarrow> TaskCompletionSource \<Rightarrow> GeneratorTask \<Rightarrow> VerificationResult option \<times> GeneratorTask" where
  "finish_single_task reg c co =
     ((if cs_success c then
         (case gt_copy co of
            Some b \<Rightarrow> Some (verification_verify reg (gt_task_id co) (gt_skill_id co) (pb_span b) (body_span c))
          | None \<Rightarrow> None)
       else None), co\<lparr>gt_finished := True\<rparr>)"

fun dispatch_loop ::
  "event \<Rightarrow> bool \<Rightarrow> nat \<Rightarrow> TestTaskData list \<Rightarrow> TaskGenerator \<Rightarrow> Dispatcher \<Rightarrow>
   GeneratorTask list \<times> TaskGenerator \<times> Dispatcher" where
  "dispatch_loop ev verify a [] g d = ([], g, d)"
| "dispatch_loop ev verify a (t # ts) g d =
     (if tg_stopped g then ([], g, d)
      else
        (case get_next_id (tg_counter g) of
           (tid, counter') \<Rightarrow>
             let copy = (case td_request t of Some b \<Rightarrow> clone_request verify b | None \<Rightarrow> None) in
             (case process_single_task ev (tg_has_app g) a tid (td_skill_id t) (td_request t) (td_response t) copy d of
                (co, d1) \<Rightarrow>
                  (case dispatch_loop ev verify (Suc a) ts (g\<lparr>tg_counter := counter'\<rparr>) d1 of
                     (cors, g', d') \<Rightarrow> (co # cors, g', d')))))"

definition dispatch_tasks ::
  "event \<Rightarrow> bool \<Rightarrow> nat \<Rightarrow> TestTaskData list \<Rightarrow> TaskGenerator \<Rightarrow> Dispatcher \<Rightarrow>
   GeneratorTask list \<times> TaskGenerator \<times> Dispatcher" where
  "dispatch_tasks ev verify a tasks g d =
     (if \<not> tg_has_app g \<or> tasks = [] then ([], g, d) else dispatch_loop ev verify a tasks g d)"

definition all_done :: "GeneratorTask list \<Rightarrow> bool" where
  "all_done cors = list_all gt_finished cors"

subsection \<open>The automatic generator\<close>

definition LOW_THRESHOLD :: nat where
  "LOW_THRESHOLD = 10"

definition REFILL_AMOUNT :: u32 where
  "REFILL_AMOUNT = 100"

text \<open>
  One turn of the polling loop while no shutdown is requested. \<open>next_frame\<close> is the number of
  the next coroutine frame.
\<close>

definition auto_refill_turn ::
  "event \<Rightarrow> SkillRegistry \<Rightarrow> bool \<Rightarrow> nat \<Rightarrow> GeneratorTask list \<Rightarrow> SkillTestIterator \<Rightarrow> TaskGenerator \<Rightarrow> Dispatcher \<Rightarrow>
   nat \<times> GeneratorTask list \<times> SkillTestIterator \<times> TaskGenerator \<times> Dispatcher" where
  "auto_refill_turn ev reg verify next_frame pending it g d =
     (let pending1 = filter (\<lambda>co. \<not> gt_finished co) pending in
      if get_task_queue_size d < LOW_THRESHOLD then
        (case iterator_next reg REFILL_AMOUNT it of
           (tasks, it') \<Rightarrow>
             (case dispatch_tasks ev verify next_frame tasks g d of
                (new, g', d') \<Rightarrow> (next_frame + length tasks, pending1 @ new, it', g', d')))
      else (next_frame, pending1, it, g, d))"

text \<open>
  Returning from \<open>run\<close> destroys the local vector of coroutines, and with it the frames of
  those still pending.
\<close>

definition auto_refill_return :: "GeneratorTask list \<Rightarrow> nat list \<Rightarrow> nat list" where
  "auto_refill_return pending destroyed =
     fold (\<lambda>co. generator_destroy (Some (gt_frame co))) pending destroyed"

subsection \<open>The interactive generator\<close>

text \<open>
  One prompt of the console loop while no shutdown is requested. \<open>input\<close> is the value read by
  \<open>std::cin >> task_count\<close>, \<open>None\<close> when the stream fails, for a line that is not a number
  and at the end of the input alike; \<open>clear\<close> and \<open>ignore\<close> then discard the line.
\<close>

datatype prompt_result = PromptAgain | PromptQuit | PromptWait "GeneratorTask list"

definition interactive_turn ::
  "event \<Rightarrow> SkillRegistry \<Rightarrow> bool \<Rightarrow> nat \<Rightarrow> int option \<Rightarrow> SkillTestIterator \<Rightarrow> TaskGenerator \<Rightarrow> Dispatcher \<Rightarrow>
   prompt_result \<times> nat \<times> SkillTestIterator \<times> TaskGenerator \<times> Dispatcher" where
  "interactive_turn ev reg verify next_frame input it g d =
     (case input of
        None \<Rightarrow> (PromptAgain, next_frame, it, g, d)
      | Some task_count \<Rightarrow>
          if task_count \<le> 0 then (PromptQuit, next_frame, it, g, d)
          else
            (case iterator_next reg (word_of_int task_count) it of
               (tasks, it') \<Rightarrow>
                 (case dispatch_tasks ev verify next_frame tasks g d of
                    (pending, g', d') \<Rightarrow> (PromptWait pending, next_frame + length tasks, it', g', d'))))"

text \<open>The poll after a batch: it ends when all coroutines are done or a shutdown is requested.\<close>

definition interactive_waits :: "GeneratorTask list \<Rightarrow> bool \<Rightarrow> bool" where
  "interactive_waits pending shutdown \<longleftrightarrow> \<not> all_done pending \<and> \<not> shutdown"

text \<open>The prompts on an input that holds \<open>inputs\<close> and then ends, up to the first batch.\<close>

fun interactive_prompts ::
  "event \<Rightarrow> SkillRegistry \<Rightarrow> bool \<Rightarrow> nat \<Rightarrow> nat \<Rightarrow> int option list \<Rightarrow> SkillTestIterator \<Rightarrow> TaskGenerator \<Rightarrow> Dispatcher \<Rightarrow>
   prompt_result option" where
  "interactive_prompts ev reg verify 0 n inputs it g d = None"
| "interactive_prompts ev reg verify (Suc fuel) n inputs it g d =
     (case interactive_turn ev reg verify n (case inputs of [] \<Rightarrow> None | i # _ \<Rightarrow> i) it g d of
        (PromptAgain, n', it', g', d') \<Rightarrow> interactive_prompts ev reg verify fuel n' (tl inputs) it' g' d'
      | (r, _) \<Rightarrow> Some r)"


subsection \<open>Identifiers\<close>

lemma get_next_id_nonzero: "fst (get_next_id c) \<noteq> 0"
  by (simp add: get_next_id_def Let_def)

definition ids_inv :: "id_state \<Rightarrow> bool" where
  "ids_inv s \<longleftrightarrow> ti_counter s = word_of_nat (Suc (ti_fetches s))
     \<and> (ti_fetches s < 2 ^ 32 \<longrightarrow> ti_retrying s = {} \<and> ti_issued s = map (\<lambda>k. word_of_nat (Suc k)) [0..<ti_fetches s])"

lemma unat_u32: "n < 2 ^ 32 \<Longrightarrow> unat (word_of_nat n :: u32) = n"
  by (simp add: unsigned_of_nat take_bit_nat_eq_self)

lemma word_of_Suc_nonzero: "Suc k < 2 ^ 32 \<Longrightarrow> (word_of_nat (Suc k) :: u32) \<noteq> 0"
  using unat_u32 [of "Suc k"] by (auto simp del: of_nat_Suc)

lemma ids_inv_step: "id_step s s' \<Longrightarrow> ids_inv s \<Longrightarrow> ids_inv s'"
proof (induction rule: id_step.induct)
  case (first t s)
  show ?case
  proof (cases "Suc (ti_fetches s) < 2 ^ 32")
    case True
    then have "ti_counter s \<noteq> 0" using first.prems word_of_Suc_nonzero [OF True] by (simp add: ids_inv_def)
    then show ?thesis using first.prems True by (auto simp: ids_inv_def first_fetch_def Let_def)
  next
    case False
    then show ?thesis using first.prems by (auto simp: ids_inv_def first_fetch_def Let_def)
  qed
next
  case (second t s)
  then show ?case by (auto simp: ids_inv_def second_fetch_def)
qed

lemma distinct_words:
  assumes "n < 2 ^ 32"
  shows "distinct (map (\<lambda>k. word_of_nat (Suc k) :: u32) [0..<n])"
proof -
  have "inj_on (\<lambda>k. word_of_nat (Suc k) :: u32) (set [0..<n])"
  proof (rule inj_onI)
    fix j k
    assume jk: "j \<in> set [0..<n]" "k \<in> set [0..<n]" "(word_of_nat (Suc j) :: u32) = word_of_nat (Suc k)"
    then have "unat (word_of_nat (Suc j) :: u32) = unat (word_of_nat (Suc k) :: u32)" by simp
    moreover have "Suc j < 2 ^ 32" "Suc k < 2 ^ 32" using jk(1,2) assms by simp_all
    ultimately have "Suc j = Suc k" using unat_u32 [of "Suc j"] unat_u32 [of "Suc k"] by (simp only:)
    then show "j = k" by simp
  qed
  then show ?thesis by (simp only: distinct_map distinct_upt)
qed

text \<open>
  Task identifiers are unique and never zero. However the threads that draw identifiers
  interleave, the identifiers issued by fewer than \<open>2 ^ 32\<close> increments of the counter are
  pairwise different, none is zero, and one was issued for every increment. Also after the
  counter has wrapped, a call of \<open>get_next_id\<close> that is not interrupted never returns zero.
\<close>

theorem task_ids_unique:
  assumes "id_step\<^sup>*\<^sup>* id_start s" "ti_fetches s < 2 ^ 32"
  shows "distinct (ti_issued s) \<and> 0 \<notin> set (ti_issued s) \<and> length (ti_issued s) = ti_fetches s
    \<and> ti_retrying s = {} \<and> fst (get_next_id c) \<noteq> 0"
proof -
  from assms(1) have "ids_inv s"
    by (induction rule: rtranclp_induct) (auto simp: ids_inv_step, simp add: ids_inv_def id_start_def)
  then have i: "ti_retrying s = {}" "ti_issued s = map (\<lambda>k. word_of_nat (Suc k)) [0..<ti_fetches s]"
    using assms(2) by (auto simp: ids_inv_def)
  have "0 \<notin> set (ti_issued s)" using assms(2) word_of_Suc_nonzero unfolding i(2) by fastforce
  then show ?thesis using i distinct_words [OF assms(2)] get_next_id_nonzero by simp
qed

theorem task_ids_unique_witness:
  "distinct (ti_issued (first_fetch 1 (first_fetch 0 id_start))) \<and> ti_issued (first_fetch 1 (first_fetch 0 id_start)) = [1, 2]"
proof -
  have "id_step id_start (first_fetch 0 id_start)" by (rule first) (simp add: id_start_def)
  moreover have "id_step (first_fetch 0 id_start) (first_fetch 1 (first_fetch 0 id_start))"
    by (rule first) (simp add: id_start_def first_fetch_def)
  ultimately have r: "id_step\<^sup>*\<^sup>* id_start (first_fetch 1 (first_fetch 0 id_start))" by auto
  have "ti_fetches (first_fetch 1 (first_fetch 0 id_start)) < 2 ^ 32"
    "ti_issued (first_fetch 1 (first_fetch 0 id_start)) = [1, 2]"
    by (simp_all add: id_start_def first_fetch_def)
  then show ?thesis using task_ids_unique [OF r] by blast
qed

subsection \<open>The iterator visits the test cases in turn\<close>

lemma next_loop_turns:
  "it_cursor it < length (it_entries it) \<Longrightarrow> (\<And>e. e \<in> set (it_entries it) \<Longrightarrow> test_data reg e = Some (f e)) \<Longrightarrow>
   next_loop reg n it = (map (\<lambda>i. f (it_entries it ! ((it_cursor it + i) mod length (it_entries it)))) [0..<n],
     it\<lparr>it_cursor := (it_cursor it + n) mod length (it_entries it)\<rparr>)"
proof (induction n arbitrary: it)
  case (Suc n)
  let ?l = "length (it_entries it)"
  let ?it = "it\<lparr>it_cursor := (it_cursor it + 1) mod ?l\<rparr>"
  have "it_cursor ?it < length (it_entries ?it)" using Suc.prems(1) by (simp add: length_greater_0_conv [symmetric] del: length_greater_0_conv)
  then have ih: "next_loop reg n ?it = (map (\<lambda>i. f (it_entries it ! (((it_cursor it + 1) mod ?l + i) mod ?l))) [0..<n],
      ?it\<lparr>it_cursor := ((it_cursor it + 1) mod ?l + n) mod ?l\<rparr>)"
    using Suc.IH [of ?it] Suc.prems(2) by simp
  have t: "test_data reg (it_entries it ! it_cursor it) = Some (f (it_entries it ! it_cursor it))"
    using Suc.prems by simp
  show ?case
    using Suc.prems(1) t ih
    by (simp add: Let_def map_upt_Suc mod_add_left_eq del: upt_Suc)
qed simp

text \<open>
  The test cases are visited in turn. When every registered test case yields its
  buffers, \<open>next\<close> returns exactly as many items as asked for, the one at position \<open>i\<close> for the
  combination \<open>i\<close> places after the cursor, cyclically; so in every \<open>total_combinations\<close>
  consecutive items each combination occurs exactly once, and the next call continues
  where this one stopped.
\<close>

theorem iterator_visits_in_turn:
  assumes "it_cursor it < total_combinations it" "n \<noteq> 0"
    "\<And>e. e \<in> set (it_entries it) \<Longrightarrow> test_data reg e = Some (f e)" "iterator_next reg n it = (ds, it')"
  shows "length ds = unat n
    \<and> (\<forall>i < unat n. ds ! i = f (it_entries it ! ((it_cursor it + i) mod total_combinations it)))
    \<and> it_entries it' = it_entries it \<and> it_cursor it' = (it_cursor it + unat n) mod total_combinations it"
proof -
  have "it_entries it \<noteq> []" using assms(1) by (auto simp: total_combinations_def)
  then have "next_loop reg (unat n) it = (ds, it')" using assms(2,4) by (simp add: iterator_next_def)
  then show ?thesis
    using next_loop_turns [of it reg f "unat n", OF _ assms(3)] assms(1) by (auto simp: total_combinations_def)
qed

lemma demo_test_data:
  assumes "e \<in> set [(kSkillId StringReversalSkill, 0), (kSkillId StringReversalSkill, 1)]"
  shows "test_data demo_registry e = Some
    \<lparr>td_skill_id = fst e, td_request = Some (RawPayload [72, 105] (kSkillId StringReversalSkill)),
     td_response = Some (RawPayload [0, 0, 0, 0, 0, 0] (kSkillId StringReversalSkill))\<rparr>"
proof -
  have "create_test_request_buffer (kSkillId StringReversalSkill) k demo_registry =
      Some (RawPayload [72, 105] (kSkillId StringReversalSkill))" if "k < 2" for k
    using that by (simp add: create_test_request_buffer_def demo_factory Skill_def skill_create_test_request_buffer_def)
      (simp add: StringReversalSkill_def kSkillId_def)
  then show ?thesis using assms demo_reversal(1) by (auto simp: test_data_def RawPayload_def)
qed

theorem iterator_visits_in_turn_witness:
  "length (fst (iterator_next demo_registry 3
      \<lparr>it_entries = [(kSkillId StringReversalSkill, 0), (kSkillId StringReversalSkill, 1)], it_cursor = 1\<rparr>)) = 3"
proof -
  let ?it = "\<lparr>it_entries = [(kSkillId StringReversalSkill, 0), (kSkillId StringReversalSkill, 1)], it_cursor = 1\<rparr>"
  obtain ds it' where n: "iterator_next demo_registry 3 ?it = (ds, it')" by force
  have "it_cursor ?it < total_combinations ?it" by (simp add: total_combinations_def)
  moreover have "test_data demo_registry e = Some
      \<lparr>td_skill_id = fst e, td_request = Some (RawPayload [72, 105] (kSkillId StringReversalSkill)),
       td_response = Some (RawPayload [0, 0, 0, 0, 0, 0] (kSkillId StringReversalSkill))\<rparr>"
    if "e \<in> set (it_entries ?it)" for e
    using that demo_test_data by simp
  ultimately have "length ds = unat (3 :: u32)" using iterator_visits_in_turn [OF _ _ _ n] by simp
  then show ?thesis using n by simp
qed

subsection \<open>A batch of tasks\<close>

text \<open>The identifier drawn \<open>i\<close> places after the counter: zero is left out.\<close>

definition nth_id :: "u32 \<Rightarrow> nat \<Rightarrow> u32" where
  "nth_id c i = word_of_nat (1 + ((if c = 0 then 0 else unat c - 1) + i) mod (2 ^ 32 - 1))"

lemma nth_id_0: "nth_id c 0 = fst (get_next_id c)"
proof (cases "c = 0")
  case False
  then have "0 < unat c" by (simp add: unat_gt_0)
  moreover have "unat c < 2 ^ 32" using unsigned_less [of c, where 'a = nat] by simp
  ultimately have "1 + (unat c - 1) mod (2 ^ 32 - 1) = unat c" by (subst mod_less) linarith+
  then show ?thesis using False by (simp add: nth_id_def get_next_id_def del: of_nat_add)
qed (simp add: nth_id_def get_next_id_def)

lemma nth_id_Suc: "nth_id c (Suc i) = nth_id (snd (get_next_id c)) i"
proof -
  let ?M = "2 ^ 32 - 1 :: nat"
  let ?v = "\<lambda>c :: u32. if c = 0 then 0 else unat c - 1"
  have "(?v (snd (get_next_id c)) + i) mod ?M = (?v c + Suc i) mod ?M"
  proof (cases "c = 0")
    case False
    then have c: "0 < unat c" by (simp add: unat_gt_0)
    show ?thesis
    proof (cases "c + 1 = 0")
      case True
      then have "c = - 1" by (simp add: add_eq_0_iff2)
      then have "unat c = ?M" by (simp add: unsigned_minus_1_eq_mask mask_eq_exp_minus_1)
      then have "?v c + Suc i = i + ?M" using False by simp
      then show ?thesis using True False by (simp only: get_next_id_def Let_def) (simp del: One_nat_def)
    next
      case no_wrap: False
      then have "unat (c + 1) = Suc (unat c)" using unatSuc [of c] no_wrap by (simp add: add.commute)
      then show ?thesis using False no_wrap c by (simp add: get_next_id_def)
    qed
  qed (simp add: get_next_id_def)
  then show ?thesis unfolding nth_id_def by simp
qed

lemma unat_nth_id: "unat (nth_id c i) = 1 + ((if c = 0 then 0 else unat c - 1) + i) mod (2 ^ 32 - 1)"
proof -
  have "((if c = 0 then 0 else unat c - 1) + i) mod (2 ^ 32 - 1) < (2 ^ 32 - 1 :: nat)" by (rule mod_less_divisor) simp
  then show ?thesis unfolding nth_id_def by (intro unat_u32) linarith
qed

lemma nth_id_nonzero: "nth_id c i \<noteq> 0"
  using unat_nth_id [of c i] by auto

lemma same_turn: "(v + i) mod m = (v + j) mod m \<Longrightarrow> i < m \<Longrightarrow> j < m \<Longrightarrow> i = (j :: nat)"
proof (induction i j rule: linorder_wlog)
  case (le i j)
  then have "m dvd (v + j) - (v + i)" by (subst mod_eq_dvd_iff_nat [symmetric]) simp_all
  then show ?case using le by (auto dest: dvd_imp_le)
qed simp

lemma distinct_nth_ids:
  assumes "n < 2 ^ 32"
  shows "distinct (map (nth_id c) [0..<n])"
proof -
  have "inj_on (nth_id c) {0..<n}"
  proof (rule inj_onI)
    fix i j
    assume ij: "i \<in> {0..<n}" "j \<in> {0..<n}" "nth_id c i = nth_id c j"
    define v where "v = (if c = 0 then 0 else unat c - 1)"
    have "(v + i) mod (2 ^ 32 - 1) = (v + j) mod (2 ^ 32 - 1)"
      using ij(3) unat_nth_id [of c i] unat_nth_id [of c j] by (simp only: v_def)
    then show "i = j" using ij(1,2) assms same_turn [of v i "2 ^ 32 - 1" j] by simp
  qed
  then show ?thesis by (simp add: distinct_map)
qed

lemma submit_history:
  assumes "sound d"
  shows "d_submitted (submit_task ev m d) = d_submitted d @ [m]"
proof (cases "tq_shut d")
  case True
  then show ?thesis by (simp add: submit_task_def offer_task_def add_task_def)
next
  case False
  let ?d = "d\<lparr>d_submitted := d_submitted d @ [m]\<rparr>"
  have d: "disp_inv d" using assms unfolding sound_def by blast
  have "disp_inv ?d" by (rule disp_inv_cong [OF d]) (use d in \<open>simp_all add: disp_inv_with_def\<close>)
  moreover have "\<not> tq_shut ?d" using False by simp
  ultimately obtain X where "frame X ?d (add_task (session_resume ev) m ?d)" using add_task_spec(3) by blast
  then have "d_submitted (add_task (session_resume ev) m ?d) = d_submitted ?d" by (simp only: frame_def)
  then show ?thesis using False by (simp add: submit_task_def offer_task_def)
qed

lemma connect_source_sel [simp]:
  "tq_tasks (connect_source a d) = tq_tasks d" "tq_waiting (connect_source a d) = tq_waiting d"
  "tq_result (connect_source a d) = tq_result d" "d_sessions (connect_source a d) = d_sessions d"
  "d_completed (connect_source a d) = d_completed d" "d_submitted (connect_source a d) = d_submitted d"
  "d_dropped (connect_source a d) = d_dropped d"
  by (simp_all add: connect_source_def)

lemma connect_source_sound: "sound d \<Longrightarrow> sound (connect_source a d)"
proof -
  assume "sound d"
  then have d: "disp_inv d" "conserved d" unfolding sound_def by blast+
  have "disp_inv (connect_source a d)"
    by (rule disp_inv_cong [OF d(1)]) (use d(1) in \<open>simp_all add: disp_inv_with_def\<close>)
  moreover have "conserved (connect_source a d)"
    using d(2) unfolding conserved_def work_def connect_source_sel .
  ultimately show ?thesis unfolding sound_def by blast
qed

definition good_request :: "TestTaskData \<Rightarrow> bool" where
  "good_request t \<longleftrightarrow> (\<exists>b. td_request t = Some b \<and> pb_size b \<le> uint32_max)"

text \<open>The message a task is submitted as.\<close>

definition task_message :: "int \<Rightarrow> nat \<Rightarrow> u32 \<Rightarrow> TestTaskData \<Rightarrow> TaskMessage" where
  "task_message now a tid t =
     \<lparr>tm_header = \<lparr>task_id = tid, body_size = word_of_nat (pb_size (the (td_request t))), skill_id = pb_skill_id (the (td_request t))\<rparr>,
      tm_payload_buffer = td_request t, tm_response_buffer = td_response t, tm_completion_source = Some a,
      tm_created_time = now\<rparr>"

lemma process_good:
  assumes "good_request t"
  shows "process_single_task ev True a tid sid (td_request t) (td_response t) copy d =
    (\<lparr>gt_frame = a, gt_task_id = tid, gt_skill_id = sid, gt_copy = copy, gt_finished = False\<rparr>,
     submit_task ev (task_message (ev_steady ev) a tid t) (connect_source a d))"
  using assms
  by (auto simp: process_single_task_def good_request_def TaskMessage_with_response_def TaskMessage_new_def
      validated_payload_size_def task_message_def set_completion_source_def Let_def)

lemma dispatch_loop_spec:
  assumes "list_all good_request ts" "tg_has_app g" "\<not> tg_stopped g" "sound d"
    "dispatch_loop ev verify a ts g d = (cors, g', d')"
  shows "map gt_task_id cors = map (nth_id (tg_counter g)) [0..<length ts]
    \<and> map gt_frame cors = [a..<a + length ts] \<and> list_all (\<lambda>co. \<not> gt_finished co) cors
    \<and> d_submitted d' = d_submitted d @
        map (\<lambda>i. task_message (ev_steady ev) (a + i) (nth_id (tg_counter g) i) (ts ! i)) [0..<length ts]
    \<and> sound d'"
  using assms
proof (induction ts arbitrary: a g d cors)
  case (Cons t ts)
  obtain tid c' where n: "get_next_id (tg_counter g) = (tid, c')" by force
  define copy where "copy = (case td_request t of Some b \<Rightarrow> clone_request verify b | None \<Rightarrow> None)"
  let ?d1 = "submit_task ev (task_message (ev_steady ev) a tid t) (connect_source a d)"
  have p: "process_single_task ev (tg_has_app g) a tid (td_skill_id t) (td_request t) (td_response t) copy d =
    (\<lparr>gt_frame = a, gt_task_id = tid, gt_skill_id = td_skill_id t, gt_copy = copy, gt_finished = False\<rparr>, ?d1)"
    using process_good [of t] Cons.prems(1,2) by simp
  obtain cors1 where r: "dispatch_loop ev verify (Suc a) ts (g\<lparr>tg_counter := c'\<rparr>) ?d1 = (cors1, g', d')"
    "cors = \<lparr>gt_frame = a, gt_task_id = tid, gt_skill_id = td_skill_id t, gt_copy = copy, gt_finished = False\<rparr> # cors1"
    using Cons.prems(3,5) n p by (auto simp: copy_def [symmetric] Let_def split: prod.splits)
  have s1: "sound ?d1" using Cons.prems(4) by (intro submit_sound connect_source_sound)
  have h1: "d_submitted ?d1 = d_submitted d @ [task_message (ev_steady ev) a tid t]"
    using submit_history [OF connect_source_sound [OF Cons.prems(4)]] by simp
  have ids: "nth_id (tg_counter g) 0 = tid" "\<And>i. nth_id (tg_counter g) (Suc i) = nth_id c' i"
    using nth_id_0 [of "tg_counter g"] nth_id_Suc [of "tg_counter g"] n by simp_all
  have u: "[0..<length (t # ts)] = 0 # map Suc [0..<length ts]" by (simp add: map_Suc_upt upt_conv_Cons del: upt_Suc)
  show ?case
    using Cons.IH [OF _ _ _ s1 r(1)] Cons.prems(1-3) r(2) h1 ids unfolding u
    by (simp add: upt_conv_Cons comp_def del: upt_Suc)
qed simp

text \<open>
  C18. A batch is submitted completely. For tasks with proper requests, \<open>dispatch_tasks\<close>
  starts one coroutine per task; the tasks get pairwise different identifiers other than
  zero, also when the counter wraps within the batch; exactly these tasks are submitted, in
  order, each carrying its request, the identifier of its coroutine and that coroutine's
  completion source; and they are all accounted for afterwards.
\<close>

theorem batch_submitted:
  assumes "dreachable d" "list_all good_request ts" "length ts < 2 ^ 32" "tg_has_app g" "\<not> tg_stopped g"
    "dispatch_tasks ev verify a ts g d = (cors, g', d')"
  shows "length cors = length ts \<and> distinct (map gt_task_id cors) \<and> 0 \<notin> set (map gt_task_id cors) \<and> conserved d'
    \<and> (\<exists>ms. d_submitted d' = d_submitted d @ ms \<and> length ms = length ts
        \<and> (\<forall>i < length ts. is_valid (ms ! i) \<and> task_id (tm_header (ms ! i)) = gt_task_id (cors ! i)
             \<and> tm_payload_buffer (ms ! i) = td_request (ts ! i)
             \<and> tm_completion_source (ms ! i) = Some (gt_frame (cors ! i))))"
proof -
  have "dispatch_loop ev verify a ts g d = (cors, g', d')"
    using assms(4,6) by (cases ts) (auto simp: dispatch_tasks_def)
  note s = dispatch_loop_spec [OF assms(2,4,5) dreachable_sound [OF assms(1)] this]
  let ?ms = "map (\<lambda>i. task_message (ev_steady ev) (a + i) (nth_id (tg_counter g) i) (ts ! i)) [0..<length ts]"
  have ids: "map gt_task_id cors = map (nth_id (tg_counter g)) [0..<length ts]"
    and frs: "map gt_frame cors = [a..<a + length ts]" using s by blast+
  have l: "length cors = length ts" using ids by (metis length_map diff_zero length_upt)
  have at: "gt_task_id (cors ! i) = nth_id (tg_counter g) i" "gt_frame (cors ! i) = a + i" if "i < length ts" for i
    using that l arg_cong [OF ids, of "\<lambda>x. x ! i"] arg_cong [OF frs, of "\<lambda>x. x ! i"] by simp_all
  have "\<forall>i < length ts. is_valid (?ms ! i) \<and> task_id (tm_header (?ms ! i)) = gt_task_id (cors ! i)
      \<and> tm_payload_buffer (?ms ! i) = td_request (ts ! i) \<and> tm_completion_source (?ms ! i) = Some (gt_frame (cors ! i))"
    using at nth_id_nonzero by (simp add: task_message_def is_valid_def)
  moreover have "distinct (map gt_task_id cors)" using distinct_nth_ids [OF assms(3)] ids by simp
  moreover have "0 \<notin> set (map gt_task_id cors)" using nth_id_nonzero unfolding ids by fastforce
  moreover have "length ?ms = length ts" by simp
  ultimately show ?thesis using s l unfolding sound_def by blast
qed

definition demo_tasks :: "TestTaskData list" where
  "demo_tasks = replicate 2 \<lparr>td_skill_id = kSkillId StringReversalSkill,
     td_request = Some (RawPayload [72, 105] (kSkillId StringReversalSkill)),
     td_response = Some (RawPayload [0, 0, 0, 0, 0, 0] (kSkillId StringReversalSkill))\<rparr>"

theorem batch_submitted_witness:
  "\<exists>cors g' d'. dispatch_tasks demo_ev True 5 demo_tasks (set_app True new_generator) demo_waiting = (cors, g', d')
    \<and> length cors = 2 \<and> distinct (map gt_task_id cors)"
proof -
  obtain cors g' d' where r: "dispatch_tasks demo_ev True 5 demo_tasks (set_app True new_generator) demo_waiting = (cors, g', d')"
    by (metis prod_cases3)
  have "list_all good_request demo_tasks" "length demo_tasks = 2"
    by (simp_all add: demo_tasks_def list_all_iff good_request_def pb_size_def RawPayload_def uint32_max_def)
  with batch_submitted [OF demo_reachable(1) _ _ _ _ r] r show ?thesis by (simp add: set_app_def new_generator_def)
qed

subsection \<open>Coroutines that are destroyed while their task is in flight\<close>

lemma rq_pending_fields [simp]:
  fixes d :: "'a Dispatcher_scheme"
  shows "rq_pending (put_s k s d) = rq_pending d" "rq_pending (set_result a m d) = rq_pending d"
  "rq_pending (session_got_task ev k s d) = rq_pending d" "rq_pending (session_resume ev h d) = rq_pending d"
proof -
  show p: "rq_pending (put_s k s d) = rq_pending d" for k s and d :: "'a Dispatcher_scheme" by (simp add: put_s_def)
  show "rq_pending (set_result a m d) = rq_pending d" by (simp add: set_result_def)
  show g: "rq_pending (session_got_task ev k s d) = rq_pending d" for k s and d :: "'a Dispatcher_scheme"
    by (simp add: session_got_task_def await_resume_eq p)
  show "rq_pending (session_resume ev h d) = rq_pending d"
    by (simp add: session_resume_def g split: option.splits)
qed

lemma rq_pending_loop [simp]: "rq_pending (session_loop ev k s d) = rq_pending d"
proof -
  define q where "q = (update_state (ev_wall ev) WAITING_FOR_TASK s)\<lparr>s_pc := PQueue\<rparr>"
  obtain rdy d' where r: "await_ready k (Some k) (put_s k q d) = (rdy, d')" by force
  have d': "rq_pending d' = rq_pending d"
    using r by (auto simp: await_ready_def try_get_task_immediately_def try_get_locked_def split: if_splits list.splits)
  have "rq_pending (await_suspend (session_resume ev) k k (Some k) d') = rq_pending d'"
    by (simp add: await_suspend_def await_suspend_locked_def resume_opt_def split: list.splits)
  then show ?thesis using r d'
    by (auto simp: session_loop_def q_def [symmetric] Let_def split: bool.splits)
qed

lemma destroyed_frames: "co \<in> set pending \<Longrightarrow> gt_frame co \<in> set (auto_refill_return pending destroyed)"
proof -
  have "set (auto_refill_return pending destroyed) = gt_frame ` set pending \<union> set destroyed" for pending destroyed
    unfolding auto_refill_return_def
    by (induction pending arbitrary: destroyed) (auto simp: generator_destroy_def)
  then show "co \<in> set pending \<Longrightarrow> ?thesis" by blast
qed

text \<open>
  A destroyed coroutine is resumed. When \<open>run\<close> of the automatic generator returns after a
  shutdown request, it destroys the coroutines that are still pending, while the server
  still runs: \<open>stop\<close> is called later. If the worker's response to the task of such a
  coroutine arrives in between, the session completes the task and hands the destroyed
  coroutine's handle to the response executor.
\<close>

theorem destroyed_coroutine_is_resumed:
  assumes "get_s sid d = Some s" "s_pc s = PReadHeader" "s_task s = Some m" "co \<in> set pending"
    "tm_completion_source m = Some (gt_frame co)" "cs_handle (rq_sources d (gt_frame co)) = Some (gt_frame co)"
    "cs_context (rq_sources d (gt_frame co))" "rq_running d"
    "header_of_bytes bs = Some rh" "task_id rh = task_id (tm_header m)" "skill_id rh = skill_id (tm_header m)"
    "body_size rh = 0"
  shows "gt_frame co \<in> set (auto_refill_return pending destroyed)
    \<and> gt_frame co \<in> set (rq_pending (session_io ev (IoOk bs) sid d))"
proof -
  let ?run = "s\<lparr>s_pc := PRunning, s_task := None\<rparr>"
  have "session_io ev (IoOk bs) sid d = session_response ev sid (add_bytes_received kHeaderSize ?run) m rh [] d"
    using assms by (simp add: session_io_def session_header_def Let_def)
  moreover have "rq_sources (put_s k t d) = rq_sources d" "rq_running (put_s k t d) = rq_running d" for k t
    by (simp_all add: put_s_def)
  ultimately have "gt_frame co \<in> set (rq_pending (session_io ev (IoOk bs) sid d))"
    using assms(5-8,11)
    by (simp add: session_response_def Let_def message_complete_def source_complete_def fill_source_def post_def)
  then show ?thesis using destroyed_frames [OF assms(4)] by blast
qed

definition demo_coroutine :: GeneratorTask where
  "demo_coroutine = \<lparr>gt_frame = 3, gt_task_id = 7, gt_skill_id = 9, gt_copy = None, gt_finished = False\<rparr>"

theorem destroyed_coroutine_is_resumed_witness:
  "3 \<in> set (auto_refill_return [demo_coroutine] []) \<and>
   3 \<in> set (rq_pending (session_io demo_ev (IoOk (header_to_bytes \<lparr>task_id = 7, body_size = 0, skill_id = 9\<rparr>)) 1
     (connect_source 3 demo_flight)))"
proof -
  obtain s where s: "get_s 1 demo_flight = Some s" "s_pc s = PReadHeader"
    using demo_values(2) by (cases "get_s 1 demo_flight") auto
  have "map_option s_task (get_s 1 demo_flight) = Some (Some demo_msg)" "rq_running demo_flight" by code_simp+
  then have t: "s_task s = Some demo_msg" "rq_running (connect_source 3 demo_flight)"
    using s(1) by (simp_all add: connect_source_def)
  have "get_s 1 (connect_source 3 demo_flight) = Some s" using s(1) by (simp add: get_s_def)
  from destroyed_coroutine_is_resumed [OF this s(2) t(1), of demo_coroutine "[demo_coroutine]"
      "header_to_bytes \<lparr>task_id = 7, body_size = 0, skill_id = 9\<rparr>" "\<lparr>task_id = 7, body_size = 0, skill_id = 9\<rparr>" "[]" demo_ev] t(2)
  show ?thesis by (simp add: demo_coroutine_def demo_msg_def connect_source_def)
qed

text \<open>
  At the end of its input the interactive generator does not leave: the failed read is taken
  for an invalid line, the prompt is repeated at once and fails again, for ever.
\<close>

lemma interactive_spins_at_end_of_input:
  "\<forall>i \<in> set inputs. i = None \<Longrightarrow> interactive_prompts ev reg verify fuel n inputs it g d = None"
  by (induction fuel arbitrary: inputs) (auto simp: interactive_turn_def split: list.splits)

end
