(* ===== verification/Shared.thy ===== *)
theory Shared
  imports Prelude
begin

section \<open>Shared queues and logger\<close>

text \<open>
  subprojects/shared: \<open>ThreadSafeQueue\<close>, \<open>NonBlockingThreadSafeQueue\<close> and the logger with its
  sinks. A thread that waits on the condition variable of the blocking queue is in
  \<open>tq_sleeping\<close>, and in \<open>tq_woken\<close> from the time it is woken until it has the mutex again and
  evaluates the predicate. Each member function is one critical section (\<open>pop\<close>: one up to
  the wait and one per wake-up); \<open>tq_step\<close> lets any number of threads interleave them.
  \<open>tq_pushed\<close> and \<open>tq_returned\<close> record what was pushed and what \<open>pop\<close> returned to whom.
\<close>

subsection \<open>The blocking queue\<close>

record 'a ThreadSafeQueue =
  tq_queue :: "'a list"
  tq_shutdown :: bool
  tq_sleeping :: "nat list"
  tq_woken :: "nat list"
  tq_pushed :: "'a list"
  tq_returned :: "(nat \<times> 'a option) list"

definition tq_new :: "'a ThreadSafeQueue" where
  "tq_new = \<lparr>tq_queue = [], tq_shutdown = False, tq_sleeping = [], tq_woken = [], tq_pushed = [], tq_returned = []\<rparr>"

text \<open>\<open>notify_one\<close> wakes some thread that waits, if there is one: \<open>i\<close> selects it.\<close>

definition notify_one :: "nat \<Rightarrow> 'a ThreadSafeQueue \<Rightarrow> 'a ThreadSafeQueue" where
  "notify_one i q =
     (if tq_sleeping q = [] then q
      else let t = tq_sleeping q ! (i mod length (tq_sleeping q)) in
           q\<lparr>tq_sleeping := remove1 t (tq_sleeping q), tq_woken := t # tq_woken q\<rparr>)"

definition notifyAll :: "'a ThreadSafeQueue \<Rightarrow> 'a ThreadSafeQueue" where
  "notifyAll q = q\<lparr>tq_sleeping := [], tq_woken := tq_sleeping q @ tq_woken q\<rparr>"

definition tq_push :: "'a \<Rightarrow> nat \<Rightarrow> 'a ThreadSafeQueue \<Rightarrow> 'a ThreadSafeQueue" where
  "tq_push value i q = notify_one i (q\<lparr>tq_queue := tq_queue q @ [value], tq_pushed := tq_pushed q @ [value]\<rparr>)"

definition tq_pop :: "nat \<Rightarrow> 'a ThreadSafeQueue \<Rightarrow> 'a ThreadSafeQueue" where
  "tq_pop t q =
     (if tq_shutdown q \<or> tq_queue q \<noteq> [] then
        (case tq_queue q of
           [] \<Rightarrow> q\<lparr>tq_returned := tq_returned q @ [(t, None)]\<rparr>
         | v # rest \<Rightarrow> q\<lparr>tq_queue := rest, tq_returned := tq_returned q @ [(t, Some v)]\<rparr>)
      else q\<lparr>tq_sleeping := t # tq_sleeping q\<rparr>)"

definition tq_empty :: "'a ThreadSafeQueue \<Rightarrow> bool" where
  "tq_empty q \<longleftrightarrow> tq_queue q = []"

definition tq_shut :: "'a ThreadSafeQueue \<Rightarrow> 'a ThreadSafeQueue" where
  "tq_shut q = notifyAll (q\<lparr>tq_shutdown := True\<rparr>)"

inductive tq_step :: "'a ThreadSafeQueue \<Rightarrow> 'a ThreadSafeQueue \<Rightarrow> bool" where
  push: "tq_step q (tq_push v i q)"
| pop: "t \<notin> set (tq_sleeping q) \<union> set (tq_woken q) \<Longrightarrow> tq_step q (tq_pop t q)"
| wake: "t \<in> set (tq_woken q) \<Longrightarrow> tq_step q (tq_pop t (q\<lparr>tq_woken := remove1 t (tq_woken q)\<rparr>))"
| spurious: "t \<in> set (tq_sleeping q) \<Longrightarrow>
    tq_step q (q\<lparr>tq_sleeping := remove1 t (tq_sleeping q), tq_woken := t # tq_woken q\<rparr>)"
| notify_all: "tq_step q (notifyAll q)"
| shut: "tq_step q (tq_shut q)"

inductive tq_reachable :: "'a ThreadSafeQueue \<Rightarrow> bool" where
  start: "tq_reachable tq_new"
| step: "tq_reachable q \<Longrightarrow> tq_step q q' \<Longrightarrow> tq_reachable q'"

text \<open>The values \<open>pop\<close> returned, in order.\<close>

definition popped :: "'a ThreadSafeQueue \<Rightarrow> 'a list" where
  "popped q = List.map_filter snd (tq_returned q)"

definition tq_inv :: "'a ThreadSafeQueue \<Rightarrow> bool" where
  "tq_inv q \<longleftrightarrow> tq_pushed q = popped q @ tq_queue q
     \<and> (tq_sleeping q \<noteq> [] \<longrightarrow> \<not> tq_shutdown q \<and> length (tq_queue q) \<le> length (tq_woken q))"

lemma popped_snoc: "List.map_filter snd (xs @ [(t, r)]) = List.map_filter snd xs @ (case r of Some v \<Rightarrow> [v] | None \<Rightarrow> [])"
  by (simp add: List.map_filter_def split: option.splits)

lemma notify_one_inv:
  assumes "tq_pushed q = popped q @ tq_queue q"
    "tq_sleeping q \<noteq> [] \<Longrightarrow> \<not> tq_shutdown q \<and> length (tq_queue q) \<le> Suc (length (tq_woken q))"
  shows "tq_inv (notify_one i q)"
  using assms by (auto simp: tq_inv_def notify_one_def popped_def Let_def)

lemma tq_pop_inv:
  assumes "tq_pushed q = popped q @ tq_queue q"
    "tq_sleeping q \<noteq> [] \<Longrightarrow> \<not> tq_shutdown q \<and> length (tq_queue q) \<le> Suc (length (tq_woken q))"
  shows "tq_inv (tq_pop t q)"
  using assms by (auto simp: tq_inv_def tq_pop_def popped_def popped_snoc split: list.splits)

lemma tq_step_inv: "tq_step q q' \<Longrightarrow> tq_inv q \<Longrightarrow> tq_inv q'"
proof (induction rule: tq_step.induct)
  case (push q v i)
  then show ?case unfolding tq_push_def
    by (intro notify_one_inv) (auto simp: tq_inv_def popped_def)
next
  case (pop t q)
  then show ?case by (intro tq_pop_inv) (auto simp: tq_inv_def)
next
  case (wake t q)
  then show ?case
    by (intro tq_pop_inv) (auto simp: tq_inv_def popped_def length_remove1)
next
  case (spurious t q)
  then show ?case by (auto simp: tq_inv_def popped_def)
qed (auto simp: tq_inv_def notifyAll_def tq_shut_def popped_def)

subsection \<open>The non-blocking queue\<close>

definition nb_push :: "'a \<Rightarrow> 'a list \<Rightarrow> 'a list" where
  "nb_push value q = q @ [value]"

definition tryPop :: "'a list \<Rightarrow> 'a option \<times> 'a list" where
  "tryPop q = (case q of [] \<Rightarrow> (None, []) | v # rest \<Rightarrow> (Some v, rest))"

definition nb_size :: "'a list \<Rightarrow> nat" where
  "nb_size q = length q"

definition nb_empty :: "'a list \<Rightarrow> bool" where
  "nb_empty q \<longleftrightarrow> q = []"

subsection \<open>Log levels\<close>

datatype LogLevel = Debug | Info | Warning | Error | Critical

primrec level_value :: "LogLevel \<Rightarrow> nat" where
  "level_value Debug = 0"
| "level_value Info = 1"
| "level_value Warning = 2"
| "level_value Error = 3"
| "level_value Critical = 4"

lemma level_value_inject: "level_value a = level_value b \<longleftrightarrow> a = b"
  by (cases a; cases b) auto

instantiation LogLevel :: linorder
begin

definition less_eq_LogLevel :: "LogLevel \<Rightarrow> LogLevel \<Rightarrow> bool" where
  "less_eq_LogLevel a b \<longleftrightarrow> level_value a \<le> level_value b"

definition less_LogLevel :: "LogLevel \<Rightarrow> LogLevel \<Rightarrow> bool" where
  "less_LogLevel a b \<longleftrightarrow> level_value a < level_value b"

instance
  by standard (auto simp: less_eq_LogLevel_def less_LogLevel_def level_value_inject)

end

definition level_text :: "LogLevel \<Rightarrow> string" where
  "level_text l = (case l of Debug \<Rightarrow> ''DEBUG'' | Info \<Rightarrow> ''INFO'' | Warning \<Rightarrow> ''WARNING''
     | Error \<Rightarrow> ''ERROR'' | Critical \<Rightarrow> ''CRITICAL'')"

definition log_line :: "LogLevel \<Rightarrow> string \<Rightarrow> string" where
  "log_line l msg = ''['' @ level_text l @ ''] '' @ msg"

subsection \<open>Sinks\<close>

record StdoutSink =
  so_min_level :: LogLevel
  so_output :: "string list"

definition stdout_log :: "LogLevel \<Rightarrow> string \<Rightarrow> StdoutSink \<Rightarrow> StdoutSink" where
  "stdout_log l msg s = (if l < so_min_level s then s else s\<lparr>so_output := so_output s @ [log_line l msg]\<rparr>)"

record VectorSink =
  vs_min_level :: LogLevel
  vs_lines :: "string list"
  vs_levels :: "LogLevel list"

definition vector_sink_new :: VectorSink where
  "vector_sink_new = \<lparr>vs_min_level = Info, vs_lines = [], vs_levels = []\<rparr>"

definition vector_log :: "LogLevel \<Rightarrow> string \<Rightarrow> VectorSink \<Rightarrow> VectorSink" where
  "vector_log l msg s =
     (if l < vs_min_level s then s
      else s\<lparr>vs_lines := vs_lines s @ [log_line l msg], vs_levels := vs_levels s @ [l]\<rparr>)"

text \<open>\<open>get_lines\<close> computes with \<open>size_t\<close>. \<open>None\<close> stands for a vector constructed from a
  reversed iterator range, which is undefined.\<close>

definition filtered_lines :: "LogLevel \<Rightarrow> VectorSink \<Rightarrow> string list" where
  "filtered_lines ml s = map fst (filter (\<lambda>(_, l). ml \<le> l) (zip (vs_lines s) (vs_levels s)))"

definition vector_get_lines :: "u64 \<Rightarrow> u64 \<Rightarrow> LogLevel \<Rightarrow> VectorSink \<Rightarrow> string list option" where
  "vector_get_lines start cnt ml s =
     (let filtered = filtered_lines ml s in
      if length filtered \<le> unat start then Some []
      else let fin = min (start + cnt) (of_nat (length filtered)) in
           if fin < start then None
           else Some (take (unat fin - unat start) (drop (unat start) filtered)))"

definition vector_size :: "VectorSink \<Rightarrow> nat" where
  "vector_size s = length (vs_lines s)"

datatype LogSink = Stdout StdoutSink | Vector VectorSink

primrec set_level :: "LogLevel \<Rightarrow> LogSink \<Rightarrow> LogSink" where
  "set_level l (Stdout s) = Stdout (s\<lparr>so_min_level := l\<rparr>)"
| "set_level l (Vector s) = Vector (s\<lparr>vs_min_level := l\<rparr>)"

primrec sink_log :: "LogLevel \<Rightarrow> string \<Rightarrow> LogSink \<Rightarrow> LogSink" where
  "sink_log l msg (Stdout s) = Stdout (stdout_log l msg s)"
| "sink_log l msg (Vector s) = Vector (vector_log l msg s)"

subsection \<open>The logger\<close>

record Logger =
  lg_name :: string
  lg_sinks :: "LogSink list"

definition add_sink :: "LogSink \<Rightarrow> Logger \<Rightarrow> Logger" where
  "add_sink s lg = lg\<lparr>lg_sinks := lg_sinks lg @ [s]\<rparr>"

definition logger_log :: "LogLevel \<Rightarrow> string \<Rightarrow> Logger \<Rightarrow> Logger" where
  "logger_log l msg lg = lg\<lparr>lg_sinks := map (sink_log l msg) (lg_sinks lg)\<rparr>"

text \<open>The first vector sink of the logger.\<close>

fun vector_sink :: "LogSink list \<Rightarrow> VectorSink option" where
  "vector_sink [] = None"
| "vector_sink (Vector s # _) = Some s"
| "vector_sink (Stdout _ # ss) = vector_sink ss"

text \<open>The \<open>int\<close> arguments are converted to \<open>size_t\<close>: a negative one is sign-extended.\<close>

definition to_size :: "32 word \<Rightarrow> u64" where
  "to_size i = word_of_int (sint i)"

definition logger_get_lines :: "32 word \<Rightarrow> 32 word \<Rightarrow> LogLevel \<Rightarrow> Logger \<Rightarrow> string list option" where
  "logger_get_lines start cnt ml lg =
     (case vector_sink (lg_sinks lg) of
        Some s \<Rightarrow> vector_get_lines (to_size start) (to_size cnt) ml s
      | None \<Rightarrow> Some [])"

definition get_number_of_lines :: "Logger \<Rightarrow> 32 word" where
  "get_number_of_lines lg =
     (case vector_sink (lg_sinks lg) of Some s \<Rightarrow> of_nat (vector_size s) | None \<Rightarrow> 0)"

subsection \<open>What is retrieved\<close>

text \<open>The messages of a history that pass the threshold of the sink and of the reader.\<close>

definition visible :: "LogLevel \<Rightarrow> LogLevel \<Rightarrow> (LogLevel \<times> string) list \<Rightarrow> string list" where
  "visible threshold ml msgs =
     map (\<lambda>(l, msg). log_line l msg) (filter (\<lambda>(l, _). threshold \<le> l \<and> ml \<le> l) msgs)"

definition log_all :: "(LogLevel \<times> string) list \<Rightarrow> Logger \<Rightarrow> Logger" where
  "log_all msgs lg = fold (\<lambda>(l, msg). logger_log l msg) msgs lg"

lemma vector_sink_map: "vector_sink (map (sink_log l msg) ss) = map_option (vector_log l msg) (vector_sink ss)"
  by (induction ss rule: vector_sink.induct) auto

lemma vector_sink_log_all:
  "vector_sink (lg_sinks (log_all msgs lg)) =
   map_option (fold (\<lambda>(l, msg). vector_log l msg) msgs) (vector_sink (lg_sinks lg))"
  by (induction msgs arbitrary: lg)
    (auto simp: log_all_def logger_log_def vector_sink_map option.map_comp comp_def option.map_id)

lemma vector_log_lines:
  "length (vs_lines s) = length (vs_levels s) \<Longrightarrow>
   filtered_lines ml (fold (\<lambda>(l, msg). vector_log l msg) msgs s) = filtered_lines ml s @ visible (vs_min_level s) ml msgs"
proof (induction msgs arbitrary: s)
  case Nil
  then show ?case by (simp add: visible_def)
next
  case (Cons m msgs)
  obtain l msg where m: "m = (l, msg)" by force
  have "length (vs_lines (vector_log l msg s)) = length (vs_levels (vector_log l msg s))"
    using Cons.prems by (simp add: vector_log_def)
  from Cons.IH [OF this] show ?case
    using m Cons.prems by (auto simp: vector_log_def filtered_lines_def visible_def)
qed

lemma to_size_nonneg: "0 \<le> sint i \<Longrightarrow> to_size i = of_nat (nat (sint i)) \<and> nat (sint i) < 2 ^ 31"
  using sint_lt [of i] by (simp add: to_size_def)

lemma vector_get_lines_slice:
  assumes "a < 2 ^ 31" "c < 2 ^ 31" "length (filtered_lines ml s) < 2 ^ 63"
  shows "vector_get_lines (of_nat a) (of_nat c) ml s = Some (take c (drop a (filtered_lines ml s)))"
proof -
  let ?n = "length (filtered_lines ml s)"
  have u: "unat (of_nat a :: u64) = a" "unat (of_nat ?n :: u64) = ?n" "unat (of_nat a + of_nat c :: u64) = a + c"
    using assms by (simp_all add: unat_of_nat flip: of_nat_add)
  have "unat (min (of_nat a + of_nat c) (of_nat ?n) :: u64) = min (a + c) ?n"
    using u by (simp add: min_def word_le_nat_alt)
  then show ?thesis using u
    by (auto simp: vector_get_lines_def Let_def word_less_nat_alt min_def)
qed

subsection \<open>Properties\<close>

text \<open>
  C14. The blocking queue is first-in first-out and loses no wake-up. Under every interleaving
  of pushes, pops, spurious wake-ups, \<open>notifyAll\<close> and \<open>shutdown\<close> by any number of threads,
  the pushed values are the returned ones followed by the queued ones, in order; while a
  thread sleeps in \<open>pop\<close> the queue is not shut down and every queued value has a woken thread
  of its own on the way to it, so nobody sleeps beside an unattended value.
\<close>

theorem tq_fifo_no_lost_wakeup:
  assumes "tq_reachable q"
  shows "tq_pushed q = popped q @ tq_queue q
    \<and> (tq_sleeping q \<noteq> [] \<longrightarrow> \<not> tq_shutdown q \<and> length (tq_queue q) \<le> length (tq_woken q))"
proof -
  have "tq_inv q" using assms
  proof (induction rule: tq_reachable.induct)
    case start
    show ?case by (simp add: tq_inv_def tq_new_def popped_def List.map_filter_def)
  qed (rule tq_step_inv)
  then show ?thesis by (simp add: tq_inv_def)
qed

theorem tq_fifo_no_lost_wakeup_witness:
  "tq_pushed (tq_push (7::nat) 0 (tq_pop 2 (tq_pop 1 tq_new))) =
     popped (tq_push 7 0 (tq_pop 2 (tq_pop 1 tq_new))) @ tq_queue (tq_push 7 0 (tq_pop 2 (tq_pop 1 tq_new)))
   \<and> tq_sleeping (tq_push (7::nat) 0 (tq_pop 2 (tq_pop 1 tq_new))) = [1]
   \<and> length (tq_queue (tq_push (7::nat) 0 (tq_pop 2 (tq_pop 1 tq_new)))) \<le> 1"
proof -
  let ?q1 = "tq_pop 1 (tq_new :: nat ThreadSafeQueue)" let ?q2 = "tq_pop 2 ?q1"
  have "tq_reachable ?q1" by (rule tq_reachable.step [OF tq_reachable.start], rule tq_step.pop) (simp add: tq_new_def)
  then have "tq_reachable ?q2"
    by (rule tq_reachable.step, intro tq_step.pop) (simp add: tq_new_def tq_pop_def)
  then have "tq_reachable (tq_push 7 0 ?q2)" by (rule tq_reachable.step, intro tq_step.push)
  from tq_fifo_no_lost_wakeup [OF this] show ?thesis
    by (simp add: tq_new_def tq_pop_def tq_push_def notify_one_def)
qed

text \<open>
  The log is read back as it was written. After any sequence of log calls on a logger that
  already holds a fresh vector sink, \<open>get_lines(start, count, min_level)\<close> with non-negative
  arguments returns exactly the \<open>count\<close> formatted messages from position \<open>start\<close> on among
  those that passed the threshold of the sink and \<open>min_level\<close>, in the order of the calls.
\<close>

theorem log_lines_retrieved:
  assumes "vector_sink (lg_sinks lg) = Some (vector_sink_new\<lparr>vs_min_level := threshold\<rparr>)"
    "0 \<le> sint start" "0 \<le> sint cnt" "length msgs < 2 ^ 63"
  shows "logger_get_lines start cnt ml (log_all msgs lg)
    = Some (take (nat (sint cnt)) (drop (nat (sint start)) (visible threshold ml msgs)))"
proof -
  let ?s = "fold (\<lambda>(l, msg). vector_log l msg) msgs (vector_sink_new\<lparr>vs_min_level := threshold\<rparr>)"
  have f: "filtered_lines ml ?s = visible threshold ml msgs"
    by (subst vector_log_lines) (simp_all add: vector_sink_new_def filtered_lines_def)
  have "length (visible threshold ml msgs) < 2 ^ 63"
    using assms(4) le_less_trans [OF length_filter_le] by (simp add: visible_def)
  then show ?thesis
    using vector_get_lines_slice [of "nat (sint start)" "nat (sint cnt)" ml ?s]
      to_size_nonneg [OF assms(2)] to_size_nonneg [OF assms(3)] f
    by (simp add: logger_get_lines_def vector_sink_log_all assms(1))
qed

theorem log_lines_retrieved_witness:
  "logger_get_lines 1 10 Info (log_all [(Info, ''a''), (Debug, ''b''), (Error, ''c'')]
     (add_sink (Vector vector_sink_new) \<lparr>lg_name = ''worker'', lg_sinks = []\<rparr>)) = Some [''[ERROR] c'']"
  using log_lines_retrieved [where lg = "add_sink (Vector vector_sink_new) \<lparr>lg_name = ''worker'', lg_sinks = []\<rparr>"
      and threshold = Info and start = 1 and cnt = 10 and ml = Info
      and msgs = "[(Info, ''a''), (Debug, ''b''), (Error, ''c'')]"]
  by (simp add: add_sink_def vector_sink_new_def visible_def less_eq_LogLevel_def log_line_def level_text_def)

text \<open>
  A sink is asked for its lines from position \<open>start\<close> with the default count \<open>SIZE_MAX\<close>:
  \<open>start + count\<close> wraps around, the end of the range lies before its beginning, and the
  vector is constructed from a reversed range. Only \<open>start = 0\<close> works with the default.
\<close>

lemma default_count_wraps:
  assumes "0 < start" "unat start < length (filtered_lines ml s)"
  shows "vector_get_lines start (- 1) ml s = None"
proof -
  have "start + - 1 < start" using assms(1) by (simp add: word_less_nat_alt unat_minus_one unat_gt_0)
  then show ?thesis using assms(2) by (simp add: vector_get_lines_def Let_def min_less_iff_disj)
qed

end
