(* ===== verification/WorkerUi.thy ===== *)
theory WorkerUi
  imports WorkerSess Shared
begin

section \<open>The terminal user interface of a worker\<close>

text \<open>
  \<open>WorkerUI\<close> (worker/ui/WorkerUI.hpp): the button row, the scrollable log and the refresher
  thread. FTXUI delivers the events and draws; what it delivers to which component is the
  choice of the step relation \<open>ui_step\<close>, in which other threads also write log lines and the
  runtime thread ends. \<open>button_boxes_\<close>, written by the layout, are the pairs of first and last
  column of each button. A press calls the worker service: it is the label of the step, in
  the vocabulary of \<open>WorkerSess\<close>. CPU and memory figures are in \<open>ProcUsage\<close>.
\<close>

subsection \<open>State and events\<close>

datatype ui_button = StartBtn | PauseBtn | DisconnectBtn | QuitBtn

definition buttons :: "ui_button list" where
  "buttons = [StartBtn, PauseBtn, DisconnectBtn, QuitBtn]"

datatype mouse_button = MLeft | MWheelUp | MWheelDown | MOther

datatype ui_event =
    MouseEvent int mouse_button bool | ArrowLeft | ArrowRight | ArrowUp | ArrowDown | Return
  | Character char | OtherEvent

record WorkerUI =
  ui_selected :: int
  ui_scroll :: int
  ui_scrolling :: bool
  ui_display :: "string list"
  ui_status :: string
  ui_bytes_sent :: string
  ui_bytes_received :: string
  ui_task_count :: int
  ui_exit_requested :: bool
  ui_runtime_completed :: bool

definition log_height :: int where
  "log_height = 10"

definition ui_new :: WorkerUI where
  "ui_new = \<lparr>ui_selected = 0, ui_scroll = 0, ui_scrolling = False, ui_display = [], ui_status = [],
     ui_bytes_sent = [], ui_bytes_received = [], ui_task_count = 0, ui_exit_requested = False,
     ui_runtime_completed = False\<rparr>"

subsection \<open>Buttons\<close>

definition press :: "ui_button \<Rightarrow> WorkerUI \<Rightarrow> wlabel \<times> WorkerUI" where
  "press b ui =
     (case b of
        StartBtn \<Rightarrow> (UiStart, ui)
      | PauseBtn \<Rightarrow> (UiPause, ui)
      | DisconnectBtn \<Rightarrow> (UiDisconnect, ui)
      | QuitBtn \<Rightarrow> (UiShutdown, ui\<lparr>ui_exit_requested := True\<rparr>))"

fun hovered_from :: "int \<Rightarrow> int \<Rightarrow> int \<Rightarrow> (int \<times> int) list \<Rightarrow> int" where
  "hovered_from mouse_x x i [] = -1"
| "hovered_from mouse_x x i ((x_min, x_max) # boxes) =
     (let btn_width = x_max - x_min + 1 in
      if x \<le> mouse_x \<and> mouse_x < x + btn_width then i
      else hovered_from mouse_x (x + btn_width) (i + 1) boxes)"

definition hovered :: "int \<Rightarrow> (int \<times> int) list \<Rightarrow> int" where
  "hovered mouse_x boxes = hovered_from mouse_x 0 0 boxes"

definition press_selected :: "WorkerUI \<Rightarrow> bool \<times> wlabel option \<times> WorkerUI" where
  "press_selected ui =
     (case press (buttons ! nat (ui_selected ui)) ui of (l, ui') \<Rightarrow> (True, Some l, ui'))"

definition controls_event ::
  "(int \<times> int) list \<Rightarrow> ui_event \<Rightarrow> WorkerUI \<Rightarrow> bool \<times> wlabel option \<times> WorkerUI" where
  "controls_event boxes ev ui =
     (case ev of
        MouseEvent x b pressed \<Rightarrow>
          (let h = hovered x boxes in
           if 0 \<le> h \<and> h < int (length buttons) then
             (let ui1 = ui\<lparr>ui_selected := h\<rparr> in
              if b = MLeft \<and> pressed then press_selected ui1 else (False, None, ui1))
           else (False, None, ui))
      | ArrowLeft \<Rightarrow> (True, None, if 0 < ui_selected ui then ui\<lparr>ui_selected := ui_selected ui - 1\<rparr> else ui)
      | ArrowRight \<Rightarrow>
          (True, None, if ui_selected ui < int (length buttons) - 1
                       then ui\<lparr>ui_selected := ui_selected ui + 1\<rparr> else ui)
      | Return \<Rightarrow> press_selected ui
      | Character c \<Rightarrow> if c = CHR '' '' then press_selected ui else (False, None, ui)
      | _ \<Rightarrow> (False, None, ui))"

subsection \<open>The log area\<close>

definition line_count :: "Logger option \<Rightarrow> int" where
  "line_count lg = (case lg of Some l \<Rightarrow> sint (get_number_of_lines l) | None \<Rightarrow> 0)"

definition scroll_to :: "int \<Rightarrow> WorkerUI \<Rightarrow> bool \<times> WorkerUI" where
  "scroll_to s ui = (True, ui\<lparr>ui_scroll := s, ui_scrolling := True\<rparr>)"

definition log_event :: "Logger option \<Rightarrow> ui_event \<Rightarrow> WorkerUI \<Rightarrow> bool \<times> WorkerUI" where
  "log_event lg ev ui =
     (let max_scroll = max 0 (line_count lg - log_height) in
      case ev of
        MouseEvent x b pressed \<Rightarrow>
          (case b of
             MWheelUp \<Rightarrow> scroll_to (max 0 (ui_scroll ui - 1)) ui
           | MWheelDown \<Rightarrow> scroll_to (min (ui_scroll ui + 1) max_scroll) ui
           | _ \<Rightarrow> (False, ui))
      | ArrowUp \<Rightarrow> scroll_to (max 0 (ui_scroll ui - 1)) ui
      | ArrowDown \<Rightarrow> scroll_to (min (ui_scroll ui + 1) max_scroll) ui
      | Character c \<Rightarrow> (True, ui\<lparr>ui_scrolling := False\<rparr>)
      | _ \<Rightarrow> (False, ui))"

subsection \<open>The refresher\<close>

definition refresher_continues :: "WorkerUI \<Rightarrow> bool" where
  "refresher_continues ui \<longleftrightarrow> \<not> ui_exit_requested ui \<or> \<not> ui_runtime_completed ui"

record worker_metrics =
  wm_task_count :: int
  wm_status :: string
  wm_sent :: string
  wm_received :: string

definition refresh_metrics :: "worker_metrics option \<Rightarrow> WorkerUI \<Rightarrow> WorkerUI" where
  "refresh_metrics worker ui =
     (case worker of
        None \<Rightarrow> ui
      | Some m \<Rightarrow> ui\<lparr>ui_task_count := wm_task_count m, ui_status := wm_status m,
                    ui_bytes_sent := wm_sent m, ui_bytes_received := wm_received m\<rparr>)"

text \<open>\<open>None\<close>: the sink is asked for a reversed range.\<close>

definition fetch_lines :: "Logger option \<Rightarrow> int \<Rightarrow> int \<Rightarrow> string list option" where
  "fetch_lines lg start n =
     (case lg of
        Some l \<Rightarrow> logger_get_lines (word_of_int start) (word_of_int n) Debug l
      | None \<Rightarrow> Some [])"

definition refresh_log :: "Logger option \<Rightarrow> WorkerUI \<Rightarrow> WorkerUI option" where
  "refresh_log lg ui =
     (let log_lines_count = line_count lg in
      if ui_scrolling ui
      then map_option (\<lambda>ls. ui\<lparr>ui_display := ls\<rparr>) (fetch_lines lg (ui_scroll ui) log_height)
      else
        let start = max 0 (log_lines_count - log_height);
            num_lines_to_show = min log_height (log_lines_count - start)
        in map_option (\<lambda>ls. ui\<lparr>ui_scroll := start, ui_display := ls\<rparr>)
             (fetch_lines lg start num_lines_to_show))"

definition refresh :: "worker_metrics option \<Rightarrow> Logger option \<Rightarrow> WorkerUI \<Rightarrow> WorkerUI option" where
  "refresh worker lg ui = refresh_log lg (refresh_metrics worker ui)"

subsection \<open>Histories\<close>

inductive ui_step :: "WorkerUI \<times> Logger \<Rightarrow> wlabel option \<Rightarrow> WorkerUI \<times> Logger \<Rightarrow> bool" where
  controls: "controls_event boxes ev ui = (b, l, ui') \<Longrightarrow> ui_step (ui, lg) l (ui', lg)"
| log: "log_event (Some lg) ev ui = (b, ui') \<Longrightarrow> ui_step (ui, lg) None (ui', lg)"
| refresh: "refresher_continues ui \<Longrightarrow> refresh worker (Some lg) ui = Some ui' \<Longrightarrow> ui_step (ui, lg) None (ui', lg)"
| line: "ui_step (ui, lg) None (ui, logger_log level msg lg)"
| runtime_ends: "ui_step (ui, lg) None (ui\<lparr>ui_runtime_completed := True\<rparr>, lg)"

inductive ui_reachable :: "Logger \<Rightarrow> WorkerUI \<times> Logger \<Rightarrow> bool" for lg where
  start: "ui_reachable lg (ui_new, lg)"
| step: "ui_reachable lg w \<Longrightarrow> ui_step w l w' \<Longrightarrow> ui_reachable lg w'"

subsection \<open>The log area shows a window of the log\<close>

definition log_lines :: "Logger \<Rightarrow> string list" where
  "log_lines lg = (case vector_sink (lg_sinks lg) of Some s \<Rightarrow> vs_lines s | None \<Rightarrow> [])"

definition has_log :: "Logger \<Rightarrow> bool" where
  "has_log lg \<longleftrightarrow> (\<exists>s. vector_sink (lg_sinks lg) = Some s \<and> length (vs_lines s) = length (vs_levels s))"

definition max_scroll :: "Logger \<Rightarrow> int" where
  "max_scroll lg = max 0 (int (length (log_lines lg)) - log_height)"

definition ui_inv :: "WorkerUI \<times> Logger \<Rightarrow> bool" where
  "ui_inv w \<longleftrightarrow> has_log (snd w) \<and> 0 \<le> ui_selected (fst w) \<and> ui_selected (fst w) < int (length buttons)
     \<and> 0 \<le> ui_scroll (fst w) \<and> ui_scroll (fst w) \<le> max_scroll (snd w)"

lemma sint_of_nat_small: "n < 2 ^ 31 \<Longrightarrow> sint (of_nat n :: 32 word) = int n"
  by (simp add: signed_of_nat signed_take_bit_int_eq_self)

lemma sint_of_int_small: "0 \<le> i \<Longrightarrow> i < 2 ^ 31 \<Longrightarrow> sint (word_of_int i :: 32 word) = i"
  using sint_of_nat_small [of "nat i"] by simp

lemma line_count_eq: "has_log lg \<Longrightarrow> length (log_lines lg) < 2 ^ 31 \<Longrightarrow> line_count (Some lg) = int (length (log_lines lg))"
  by (auto simp: has_log_def log_lines_def line_count_def get_number_of_lines_def vector_size_def sint_of_nat_small)

lemma filtered_all: "length (vs_lines s) = length (vs_levels s) \<Longrightarrow> filtered_lines Debug s = vs_lines s"
  by (simp add: filtered_lines_def less_eq_LogLevel_def)

lemma fetch_lines_slice:
  assumes "has_log lg" "length (log_lines lg) < 2 ^ 31" "0 \<le> a" "a < 2 ^ 31" "0 \<le> n" "n < 2 ^ 31"
  shows "fetch_lines (Some lg) a n = Some (take (nat n) (drop (nat a) (log_lines lg)))"
proof -
  obtain s where s: "vector_sink (lg_sinks lg) = Some s" "length (vs_lines s) = length (vs_levels s)"
    using assms(1) by (auto simp: has_log_def)
  have "to_size (word_of_int a) = of_nat (nat a)" "to_size (word_of_int n) = of_nat (nat n)"
    using assms by (simp_all add: to_size_def sint_of_int_small)
  moreover have "length (filtered_lines Debug s) < 2 ^ 63"
    using assms(2) s by (simp add: filtered_all log_lines_def)
  ultimately show ?thesis
    using vector_get_lines_slice [of "nat a" "nat n" Debug s] assms s
    by (simp add: fetch_lines_def logger_get_lines_def filtered_all log_lines_def)
qed

lemma log_lines_grow: "length (log_lines lg) \<le> length (log_lines (logger_log l msg lg))"
  by (auto simp: log_lines_def logger_log_def vector_sink_map vector_log_def split: option.splits)

lemma has_log_grow: "has_log lg \<Longrightarrow> has_log (logger_log l msg lg)"
  unfolding has_log_def logger_log_def
  by (clarsimp simp: vector_sink_map) (auto simp: vector_log_def)

lemma refresh_window:
  assumes "ui_inv (ui, lg)" "length (log_lines lg) < 2 ^ 31"
  shows "\<exists>ui'. refresh worker (Some lg) ui = Some ui' \<and> ui_inv (ui', lg)
    \<and> ui_display ui' = take (nat log_height) (drop (nat (ui_scroll ui')) (log_lines lg))
    \<and> ui_scroll ui' = (if ui_scrolling ui then ui_scroll ui else max_scroll lg)"
proof -
  let ?u = "refresh_metrics worker ui" and ?n = "int (length (log_lines lg))"
  have u: "ui_scrolling ?u = ui_scrolling ui" "ui_scroll ?u = ui_scroll ui" "ui_selected ?u = ui_selected ui"
    by (simp_all add: refresh_metrics_def split: option.splits)
  have h: "has_log lg" "0 \<le> ui_scroll ui" "ui_scroll ui \<le> max_scroll lg" using assms(1) by (simp_all add: ui_inv_def)
  have b: "0 \<le> max_scroll lg" "max_scroll lg < 2 ^ 31" using assms(2) by (simp_all add: max_scroll_def log_height_def)
  show ?thesis
  proof (cases "ui_scrolling ui")
    case True
    have "fetch_lines (Some lg) (ui_scroll ui) log_height = Some (take (nat log_height) (drop (nat (ui_scroll ui)) (log_lines lg)))"
      by (rule fetch_lines_slice) (use h b assms(2) in \<open>simp_all add: log_height_def\<close>)
    then show ?thesis using True u assms(1) by (simp add: refresh_def refresh_log_def Let_def ui_inv_def)
  next
    case False
    let ?m = "min log_height (?n - max_scroll lg)"
    have f: "fetch_lines (Some lg) (max_scroll lg) ?m = Some (take (nat ?m) (drop (nat (max_scroll lg)) (log_lines lg)))"
      by (rule fetch_lines_slice) (use h b assms(2) in \<open>simp_all add: log_height_def max_scroll_def\<close>)
    have "take (nat ?m) (drop (nat (max_scroll lg)) (log_lines lg)) = take (nat log_height) (drop (nat (max_scroll lg)) (log_lines lg))"
      by (simp add: max_scroll_def log_height_def min_def max_def)
    moreover have "max 0 (line_count (Some lg) - log_height) = max_scroll lg"
      using line_count_eq [OF h(1) assms(2)] by (simp add: max_scroll_def)
    ultimately show ?thesis using False u f b assms(1) line_count_eq [OF h(1) assms(2)]
      by (simp add: refresh_def refresh_log_def Let_def ui_inv_def)
  qed
qed

lemma press_keeps: "press b ui = (l, ui') \<Longrightarrow>
   ui_selected ui' = ui_selected ui \<and> ui_scroll ui' = ui_scroll ui \<and> ui_scrolling ui' = ui_scrolling ui"
  by (auto simp: press_def split: ui_button.splits)

lemma press_selected_keeps: "press_selected ui = (b, l, ui') \<Longrightarrow>
   ui_selected ui' = ui_selected ui \<and> ui_scroll ui' = ui_scroll ui"
  by (auto simp: press_selected_def split: prod.splits dest: press_keeps)

lemma controls_inv: "controls_event boxes ev ui = (b, l, ui') \<Longrightarrow> ui_inv (ui, lg) \<Longrightarrow> ui_inv (ui', lg)"
  by (auto simp: controls_event_def ui_inv_def Let_def split: ui_event.splits if_splits dest!: press_selected_keeps)

lemma log_event_inv:
  assumes "log_event (Some lg) ev ui = (b, ui')" "ui_inv (ui, lg)" "length (log_lines lg) < 2 ^ 31"
  shows "ui_inv (ui', lg)"
proof -
  have "max 0 (line_count (Some lg) - log_height) = max_scroll lg" "0 \<le> max_scroll lg"
    using line_count_eq assms(2,3) by (simp_all add: ui_inv_def max_scroll_def)
  then show ?thesis using assms(1,2)
    by (auto simp: log_event_def scroll_to_def Let_def ui_inv_def split: ui_event.splits mouse_button.splits)
qed

lemma ui_step_inv:
  assumes "ui_step w l w'" "ui_inv w" "length (log_lines (snd w')) < 2 ^ 31"
  shows "ui_inv w'"
  using assms
proof (induction rule: ui_step.induct)
  case (controls boxes ev ui b l ui' lg)
  then show ?case using controls_inv by blast
next
  case (log lg ev ui b ui')
  then show ?case using log_event_inv by simp
next
  case (refresh ui worker lg ui')
  then show ?case using refresh_window [of ui lg worker] by auto
next
  case (line ui lg level msg)
  then show ?case using log_lines_grow [of lg level msg] has_log_grow [of lg level msg]
    by (auto simp: ui_inv_def max_scroll_def)
qed (simp add: ui_inv_def)

lemma ui_step_lines: "ui_step w l w' \<Longrightarrow> length (log_lines (snd w)) \<le> length (log_lines (snd w'))"
  by (induction rule: ui_step.induct) (auto simp: log_lines_grow)

lemma ui_reachable_inv:
  assumes "ui_reachable lg w" "has_log lg" "length (log_lines (snd w)) < 2 ^ 31"
  shows "ui_inv w"
  using assms
proof (induction rule: ui_reachable.induct)
  case start
  then show ?case by (simp add: ui_inv_def ui_new_def buttons_def max_scroll_def)
next
  case (step w l w')
  then show ?case using ui_step_inv ui_step_lines le_less_trans by blast
qed

subsection \<open>Properties\<close>

text \<open>
  The log area always shows a full window of the log. After any sequence of key presses,
  mouse events, refreshes and log lines, as long as the log has fewer than \<open>2^31\<close> lines: the
  selected button exists, the scroll position lies between zero and the last full window,
  and the next refresh succeeds and shows the \<open>min 10 n\<close> lines from the scroll position on.
  Unless the user is scrolling these are the last lines of the log.
\<close>

theorem log_area_shows_window:
  assumes "ui_reachable lg0 (ui, lg)" "has_log lg0" "length (log_lines lg) < 2 ^ 31"
  shows "ui_selected ui \<in> {0..3} \<and> (\<exists>ui'. refresh worker (Some lg) ui = Some ui'
    \<and> ui_scroll ui' \<in> {0..max 0 (int (length (log_lines lg)) - 10)}
    \<and> ui_display ui' = take 10 (drop (nat (ui_scroll ui')) (log_lines lg))
    \<and> length (ui_display ui') = min 10 (length (log_lines lg))
    \<and> (\<not> ui_scrolling ui \<longrightarrow> ui_display ui' = drop (length (log_lines lg) - 10) (log_lines lg)))"
proof -
  have i: "ui_inv (ui, lg)" using ui_reachable_inv [OF assms(1,2)] assms(3) by simp
  obtain ui' where u: "refresh worker (Some lg) ui = Some ui'" "ui_inv (ui', lg)"
    "ui_display ui' = take (nat log_height) (drop (nat (ui_scroll ui')) (log_lines lg))"
    "ui_scroll ui' = (if ui_scrolling ui then ui_scroll ui else max_scroll lg)"
    using refresh_window [OF i assms(3)] by blast
  have b: "0 \<le> ui_scroll ui'" "ui_scroll ui' \<le> max 0 (int (length (log_lines lg)) - 10)"
    using u(2) by (auto simp: ui_inv_def max_scroll_def log_height_def)
  moreover have "length (ui_display ui') = min 10 (length (log_lines lg))"
    using u(3) b by (auto simp: log_height_def)
  moreover have "ui_display ui' = drop (length (log_lines lg) - 10) (log_lines lg)" if "\<not> ui_scrolling ui"
  proof -
    have "nat (ui_scroll ui') = length (log_lines lg) - 10"
      using u(4) that by (simp add: max_scroll_def log_height_def)
    then show ?thesis using u(3) by (simp add: log_height_def)
  qed
  moreover have "ui_selected ui \<in> {0..3}" using i by (simp add: ui_inv_def buttons_def)
  ultimately show ?thesis using u(1,3) by (auto simp: log_height_def)
qed

definition demo_logger :: Logger where
  "demo_logger = add_sink (Vector vector_sink_new) \<lparr>lg_name = ''worker'', lg_sinks = []\<rparr>"

theorem log_area_shows_window_witness:
  "\<exists>ui'. refresh None (Some (logger_log Info ''up'' demo_logger)) ui_new = Some ui'
    \<and> ui_display ui' = drop (length (log_lines (logger_log Info ''up'' demo_logger)) - 10)
         (log_lines (logger_log Info ''up'' demo_logger))"
proof -
  have r: "ui_reachable demo_logger (ui_new, logger_log Info ''up'' demo_logger)"
    by (rule ui_reachable.step [OF ui_reachable.start ui_step.line])
  have "has_log demo_logger" "length (log_lines (logger_log Info ''up'' demo_logger)) < 2 ^ 31"
    by (simp_all add: has_log_def demo_logger_def add_sink_def vector_sink_new_def log_lines_def logger_log_def
        vector_log_def less_LogLevel_def)
  from log_area_shows_window [OF r this, of None] show ?thesis by (auto simp: ui_new_def)
qed

text \<open>
  The hit test of a mouse click adds up the widths of the buttons from column zero, but the
  row is drawn inside a border, so the buttons begin at column one: a click on the last
  column of a button selects and presses the next one, on the Disconnect button Quit.
\<close>

lemma click_presses_next_button:
  assumes "boxes = [(1, a), (a + 1, b), (b + 1, c), (c + 1, d)]" "1 \<le> a" "a < b" "b < c" "c < d"
  shows "hovered a boxes = 1" "hovered b boxes = 2" "hovered c boxes = 3"
    "fst (snd (controls_event boxes (MouseEvent c MLeft True) ui)) = Some UiShutdown"
  using assms
  by (simp_all add: hovered_def controls_event_def press_selected_def press_def buttons_def)

end
