(* ===== verification/RvService.thy ===== *)
theory RvService
  imports Monitoring
begin

section \<open>The rendezvous service process\<close>

text \<open>
  The listeners of services/rendezvous/: start and stop of \<open>RendezvousServer\<close> and
  \<open>SnapshotListener\<close>, their accept loops and the connection loop of the snapshot relay. The
  message handlers are in \<open>Rendezvous\<close>, the HTTP routes in \<open>Monitoring\<close>. What the outside
  world does in one pass of an accept loop is an \<open>listen_turn\<close>: the values of the running
  flag at its two reads, what \<open>accept\<close> returned, and what the connection handler takes from
  its environment. A loop over a finite list of turns is the beginning of the real loop; the
  handler runs in the accept thread, so a handler that does not return (\<open>None\<close>) blocks it.
\<close>

subsection \<open>Accept loops\<close>

record ('c, 's) listen_turn =
  at_running :: bool
  at_result :: "('s option \<times> errc option) result"
  at_still_running :: bool
  at_context :: 'c

fun accept_loop ::
  "('s \<Rightarrow> 's) \<Rightarrow> ('c \<Rightarrow> RendezvousServer \<Rightarrow> 's \<Rightarrow> (unit result \<times> RendezvousServer \<times> 's) option) \<Rightarrow>
   ('c, 's) listen_turn list \<Rightarrow> RendezvousServer \<Rightarrow> (RendezvousServer \<times> 's list) option" where
  "accept_loop close handler [] rs = Some (rs, [])"
| "accept_loop close handler (t # ts) rs =
     (if \<not> at_running t then Some (rs, [])
      else case at_result t of
        Inl e \<Rightarrow> accept_loop close handler ts rs
      | Inr (None, ec) \<Rightarrow> accept_loop close handler ts rs
      | Inr (Some client, ec) \<Rightarrow>
          if \<not> at_still_running t then Some (rs, [close client])
          else
            (case handler (at_context t) rs client of
               None \<Rightarrow> None
             | Some (_, rs', client') \<Rightarrow>
                 map_option (\<lambda>(rs'', shut). (rs'', close client' # shut))
                   (accept_loop close handler ts rs')))"

text \<open>The context of a protocol connection is the clock reading of its handler.\<close>

definition vn_accept_loop ::
  "'s IBlockingStream \<Rightarrow> 'j Json \<Rightarrow> (int, 's) listen_turn list \<Rightarrow> RendezvousServer \<Rightarrow>
   (RendezvousServer \<times> 's list) option" where
  "vn_accept_loop io J = accept_loop (bs_close io) (handle_connection io J)"

text \<open>The connection loop of the snapshot relay, over the flag and the clock of each pass.\<close>

fun snapshot_connection ::
  "'s IBlockingStream \<Rightarrow> 'j Json \<Rightarrow> string \<times> string \<times> bool \<Rightarrow> (bool \<times> int) list \<Rightarrow> RendezvousServer \<Rightarrow> 's \<Rightarrow>
   (unit result \<times> RendezvousServer \<times> 's) option" where
  "snapshot_connection io J ident [] rs s = Some (Inr (), rs, s)"
| "snapshot_connection io J ident ((running, now) # turns) rs s =
     (if \<not> running then Some (Inr (), rs, s)
      else case snapshot_frame io J now ident rs s of
        None \<Rightarrow> None
      | Some (Inl e, ident', rs', s') \<Rightarrow> Some (Inl e, rs', s')
      | Some (Inr goes_on, ident', rs', s') \<Rightarrow>
          if goes_on then snapshot_connection io J ident' turns rs' s' else Some (Inr (), rs', s'))"

definition default_identity :: "string \<times> string \<times> bool" where
  "default_identity = (''dispatcher'', ''default'', False)"

definition snapshot_accept_loop ::
  "'s IBlockingStream \<Rightarrow> 'j Json \<Rightarrow> ((bool \<times> int) list, 's) listen_turn list \<Rightarrow> RendezvousServer \<Rightarrow>
   (RendezvousServer \<times> 's list) option" where
  "snapshot_accept_loop io J = accept_loop (bs_close io) (snapshot_connection io J default_identity)"

subsection \<open>Start and stop\<close>

text \<open>
  The threads are flags. \<open>listen\<close> is what \<open>start_listening\<close> of the fresh server socket
  returns or throws. An exception of the snapshot socket leaves \<open>start\<close> with the other
  listeners set up but no thread started.
\<close>

record SnapshotListener =
  sl_running :: bool
  sl_socket :: bool
  sl_thread :: bool

definition snapshot_listener_start :: "bool result \<Rightarrow> SnapshotListener \<Rightarrow> bool result \<times> SnapshotListener" where
  "snapshot_listener_start listen sl =
     (if sl_running sl then (Inr True, sl)
      else case listen of
        Inl e \<Rightarrow> (Inl e, sl)
      | Inr False \<Rightarrow> (Inr False, sl)
      | Inr True \<Rightarrow> (Inr True, sl\<lparr>sl_socket := True, sl_running := True, sl_thread := True\<rparr>))"

definition snapshot_listener_stop :: "SnapshotListener \<Rightarrow> SnapshotListener" where
  "snapshot_listener_stop sl =
     (if \<not> sl_running sl then sl else sl\<lparr>sl_running := False, sl_thread := False, sl_socket := False\<rparr>)"

record RvProcess =
  rp_running :: bool
  rp_vn_socket :: bool
  rp_vn_thread :: bool
  rp_http_thread :: bool
  rp_snapshot :: "SnapshotListener option"

definition rv_process_new :: RvProcess where
  "rv_process_new = \<lparr>rp_running = False, rp_vn_socket = False, rp_vn_thread = False,
     rp_http_thread = False, rp_snapshot = None\<rparr>"

definition service_start ::
  "bool result \<Rightarrow> bool \<Rightarrow> bool result \<Rightarrow> RvProcess \<Rightarrow> bool result \<times> RvProcess" where
  "service_start vn_listen http_bind snapshot_listen p =
     (if rp_running p then (Inr True, p)
      else case vn_listen of
        Inl e \<Rightarrow> (Inl e, p)
      | Inr False \<Rightarrow> (Inr False, p)
      | Inr True \<Rightarrow>
          let p1 = p\<lparr>rp_vn_socket := True\<rparr> in
          if \<not> http_bind then (Inr False, p1)
          else
            (case snapshot_listener_start snapshot_listen \<lparr>sl_running = False, sl_socket = False, sl_thread = False\<rparr> of
               (Inl e, sl) \<Rightarrow> (Inl e, p1\<lparr>rp_snapshot := Some sl\<rparr>)
             | (Inr ok, sl) \<Rightarrow>
                 (Inr True, p1\<lparr>rp_snapshot := (if ok then Some sl else None), rp_running := True,
                               rp_vn_thread := True, rp_http_thread := True\<rparr>)))"

text \<open>\<open>stop\<close> joins the threads; it returns when their loops have ended.\<close>

definition rv_stop :: "RvProcess \<Rightarrow> RvProcess" where
  "rv_stop p = p\<lparr>rp_running := False, rp_vn_thread := False, rp_vn_socket := False,
     rp_snapshot := None, rp_http_thread := False\<rparr>"

subsection \<open>What the loops do\<close>

text \<open>The connections an accept loop hands to its handler, with their contexts.\<close>

fun served :: "('c, 's) listen_turn list \<Rightarrow> ('c \<times> 's) list" where
  "served [] = []"
| "served (t # ts) =
     (if \<not> at_running t then []
      else case at_result t of
        Inr (Some client, ec) \<Rightarrow> if at_still_running t then (at_context t, client) # served ts else []
      | _ \<Rightarrow> served ts)"

definition request_effect :: "'s IBlockingStream \<Rightarrow> 'j Json \<Rightarrow> int \<times> 's \<Rightarrow> RendezvousServer \<Rightarrow> RendezvousServer" where
  "request_effect io J c rs =
     (case read_message io (snd c) of
        Some (Inr (type, body), _) \<Rightarrow> snd (dispatch_message J (fst c) type body rs)
      | _ \<Rightarrow> rs)"

lemma handle_connection_effect:
  "handle_connection io J now rs s = Some (r, rs', s') \<Longrightarrow> rs' = request_effect io J (now, s) rs"
  by (auto simp: handle_connection_def request_effect_def split: option.splits sum.splits prod.splits)

lemma accept_loop_effect:
  assumes "\<And>c rs s r rs' s'. handler c rs s = Some (r, rs', s') \<Longrightarrow> rs' = effect (c, s) rs"
    "accept_loop close handler ts rs = Some (rs', shut)"
  shows "rs' = fold effect (served ts) rs \<and> length (served ts) \<le> length shut"
  using assms(2)
proof (induction ts arbitrary: rs shut)
  case (Cons t ts)
  show ?case
  proof (cases "at_running t \<and> (\<exists>client ec. at_result t = Inr (Some client, ec)) \<and> at_still_running t")
    case True
    then obtain client ec r rs1 client' shut' where c: "at_result t = Inr (Some client, ec)"
      "handler (at_context t) rs client = Some (r, rs1, client')"
      "accept_loop close handler ts rs1 = Some (rs', shut')" "shut = close client' # shut'"
      using Cons.prems by (auto split: option.splits)
    from Cons.IH [OF c(3)] assms(1) [OF c(2)] True c show ?thesis by simp
  next
    case False
    then show ?thesis using Cons by (auto split: sum.splits option.splits if_splits)
  qed
qed simp

context worker_stream
begin

lemma read_message_tx:
  assumes "read_message io s = Some (r, s')" shows "tx s' = tx s"
  using assms read_exact_spec
  by (fastforce simp: read_message_def Let_def split: option.splits sum.splits if_splits)

lemma write_exact_extends:
  "write_exact io buf off s = Some (r, s') \<Longrightarrow> \<exists>more left. tx s' = tx s @ more \<and> drop off buf = more @ left"
proof (induction "length buf - off" arbitrary: off s rule: less_induct)
  case less
  show ?case
  proof (cases "off < length buf")
    case False
    then have "write_exact io buf off s = Some (Inr (), s)" by (subst write_exact.simps) simp
    then show ?thesis using less.prems by simp
  next
    case True
    then obtain bw e s1 where w: "bs_write io s (drop off buf) = Some (bw, e, s1)"
      using less.prems by (subst (asm) write_exact.simps) (auto split: option.splits)
    note o = wrb_order [OF w]
    show ?thesis
    proof (cases "e = None \<and> bw \<noteq> 0")
      case go: True
      have "write_exact io buf (off + bw) s1 = Some (r, s')"
        using less.prems True go w by (subst (asm) write_exact.simps) simp
      moreover have "length buf - (off + bw) < length buf - off" using True go by auto
      ultimately obtain more left where "tx s' = tx s1 @ more" "drop (off + bw) buf = more @ left"
        using less.hyps by blast
      then show ?thesis using o append_take_drop_id [of bw "drop off buf"]
        by (intro exI [of _ "take bw (drop off buf) @ more"] exI [of _ left]) (simp add: add.commute)
    next
      case stop: False
      then have "s' = s1" using less.prems True w
        by (subst (asm) write_exact.simps) (auto split: option.splits if_splits)
      then show ?thesis using o append_take_drop_id [of bw "drop off buf"] by metis
    qed
  qed
qed

text \<open>A write that fails has sent a beginning of the frame.\<close>

lemma write_message_extends:
  assumes "write_message io ty body s = Some (r, s')"
  shows "\<exists>more left. tx s' = tx s @ more \<and> rv_frame ty body = more @ left"
proof -
  let ?len = "le_bytes 4 (word_of_nat (1 + length body) :: u32)"
  consider "s' = s"
    | e where "write_exact io ?len 0 s = Some (Inl e, s')"
    | s1 e where "write_exact io ?len 0 s = Some (Inr (), s1)" "write_exact io [type_byte ty] 0 s1 = Some (Inl e, s')"
    | s1 s2 where "write_exact io ?len 0 s = Some (Inr (), s1)" "write_exact io [type_byte ty] 0 s1 = Some (Inr (), s2)"
      "write_exact io (string_bytes body) 0 s2 = Some (r, s') \<or> s' = s2"
    using assms by (auto simp: write_message_def Let_def split: option.splits sum.splits if_splits)
  then show ?thesis
  proof cases
    case 2
    then show ?thesis using write_exact_extends [OF 2] by (auto simp: rv_frame_def)
  next
    case 3
    then obtain more left where "tx s' = tx s1 @ more" "[type_byte ty] = more @ left"
      using write_exact_extends [OF 3(2)] by auto
    moreover have "rv_frame ty body = ?len @ [type_byte ty] @ string_bytes body" by (simp add: rv_frame_def)
    ultimately show ?thesis using write_exact_spec [OF 3(1)]
      by (intro exI [of _ "?len @ more"] exI [of _ "left @ string_bytes body"]) simp
  next
    case 4
    then have "\<exists>more left. tx s' = tx s2 @ more \<and> string_bytes body = more @ left"
      using write_exact_extends [of "string_bytes body" 0 s2 r s'] by auto
    then show ?thesis using write_exact_spec [OF 4(1)] write_exact_spec [OF 4(2)] by (auto simp: rv_frame_def)
  qed auto
qed

text \<open>One frame: an acknowledged snapshot, an unacknowledged one, or none.\<close>

lemma snapshot_frame_spec:
  assumes "snapshot_frame io J now ident rs s = Some (r, ident', rs', s')"
  shows "(\<exists>body ro na. rx s = rv_frame ReportSnapshot body @ rx s' \<and> length body < 2 ^ 16
            \<and> rs' = on_snapshot now ro na body rs
            \<and> tx s' = tx s @ rv_frame ReportAck ok_text \<and> r = Inr True)
    \<or> (\<exists>body ro na rest more left. rx s = rv_frame ReportSnapshot body @ rest \<and> length body < 2 ^ 16
            \<and> rs' = on_snapshot now ro na body rs
            \<and> tx s' = tx s @ more \<and> rv_frame ReportAck ok_text = more @ left \<and> (\<exists>e. r = Inl e))
    \<or> (rs' = rs \<and> tx s' = tx s \<and> r \<noteq> Inr True)"
proof -
  obtain q s1 where m: "read_message io s = Some (q, s1)"
    using assms by (auto simp: snapshot_frame_def split: option.splits)
  note t = read_message_tx [OF m]
  show ?thesis
  proof (cases "\<exists>body. q = Inr (ReportSnapshot, body)")
    case False
    then show ?thesis using assms m t
      by (auto simp: snapshot_frame_def split: sum.splits prod.splits if_splits)
  next
    case True
    then obtain body where q: "q = Inr (ReportSnapshot, body)" by blast
    have f: "rx s = rv_frame ReportSnapshot body @ rx s1" "length body < 2 ^ 16"
      using read_message_spec m q by blast+
    obtain ro na w where w: "write_message io ReportAck ok_text s1 = Some (w, s')"
      "rs' = on_snapshot now ro na body rs" "r = (case w of Inl e \<Rightarrow> Inl e | Inr _ \<Rightarrow> Inr True)"
      using assms m q
      by (auto simp: snapshot_frame_def Let_def split: option.splits sum.splits prod.splits)
    show ?thesis
    proof (cases w)
      case (Inl e)
      then show ?thesis using w f t write_message_extends [OF w(1)] by auto
    next
      case (Inr u)
      then have "write_message io ReportAck ok_text s1 = Some (Inr (), s')" using w(1) by (cases u) simp
      from write_message_spec [OF this] w f t Inr show ?thesis by auto
    qed
  qed
qed

end

text \<open>The registered endpoint without the time of its last sign of life.\<close>

definition registration :: "RendezvousServer \<Rightarrow> (string \<times> string \<times> string \<times> int) option" where
  "registration rs = map_option (\<lambda>e. (ep_role e, ep_name e, ep_host e, ep_port e)) (rs_endpoint rs)"

lemma on_snapshot_effect [simp]:
  "rs_snapshot (on_snapshot now ro na body rs) = body"
  "registration (on_snapshot now ro na body rs) = registration rs"
  by (auto simp: on_snapshot_def registration_def Let_def split: option.splits)

text \<open>
  However a connection of the snapshot listener ends (the peer closes it, sends another
  message or an invalid frame, an acknowledgement cannot be sent, or the service stops): the
  cached snapshot is the body of the last of the complete snapshot frames at the head of the
  peer's stream that were processed, or the one from before when there was none; every
  processed frame was acknowledged in order, except possibly the last; and the registration
  of the dispatcher has not changed.
\<close>

lemma snapshot_connection_relays:
  assumes "worker_stream io rx tx" "snapshot_connection io J ident turns rs s = Some (r, rs', s')"
  shows "\<exists>bodies rest acks more left.
      rx s = concat (map (rv_frame ReportSnapshot) bodies) @ rest \<and> (\<forall>b \<in> set bodies. length b < 2 ^ 16)
    \<and> rs_snapshot rs' = last (rs_snapshot rs # bodies)
    \<and> tx s' = tx s @ concat (replicate acks (rv_frame ReportAck ok_text)) @ more
    \<and> rv_frame ReportAck ok_text = more @ left
    \<and> (if more = [] then acks \<le> length bodies \<and> length bodies \<le> Suc acks else length bodies = Suc acks)
    \<and> (r = Inr () \<longrightarrow> acks = length bodies \<and> more = [])
    \<and> registration rs' = registration rs"
  using assms(2)
proof (induction turns arbitrary: ident rs s)
  case Nil
  show ?case
    by (rule exI [of _ "[]"], rule exI [of _ "rx s"], rule exI [of _ 0], rule exI [of _ "[]"],
        rule exI [of _ "rv_frame ReportAck ok_text"]) (use Nil in simp)
next
  case (Cons t turns)
  have none: ?case if "rs' = rs" "tx s' = tx s"
    by (rule exI [of _ "[]"], rule exI [of _ "rx s"], rule exI [of _ 0], rule exI [of _ "[]"],
        rule exI [of _ "rv_frame ReportAck ok_text"]) (use that in simp)
  obtain running now where t: "t = (running, now)" by force
  show ?case
  proof (cases running)
    case False
    then show ?thesis using Cons.prems t none by simp
  next
    case True
    then obtain q ident1 rs1 s1 where f: "snapshot_frame io J now ident rs s = Some (q, ident1, rs1, s1)"
      using Cons.prems t by (auto split: option.splits)
    from worker_stream.snapshot_frame_spec [OF assms(1) f]
    consider (ack) body ro na where "rx s = rv_frame ReportSnapshot body @ rx s1" "length body < 2 ^ 16"
        "rs1 = on_snapshot now ro na body rs" "tx s1 = tx s @ rv_frame ReportAck ok_text" "q = Inr True"
      | (lost) body ro na rest more left e where "rx s = rv_frame ReportSnapshot body @ rest" "length body < 2 ^ 16"
        "rs1 = on_snapshot now ro na body rs" "tx s1 = tx s @ more" "rv_frame ReportAck ok_text = more @ left" "q = Inl e"
      | (stop) "rs1 = rs" "tx s1 = tx s" "q \<noteq> Inr True" by blast
    then show ?thesis
    proof cases
      case ack
      then have "snapshot_connection io J ident1 turns rs1 s1 = Some (r, rs', s')"
        using Cons.prems t True f by simp
      from Cons.IH [OF this] obtain bodies rest acks more left where
        ih: "rx s1 = concat (map (rv_frame ReportSnapshot) bodies) @ rest" "\<forall>b \<in> set bodies. length b < 2 ^ 16"
          "rs_snapshot rs' = last (rs_snapshot rs1 # bodies)"
          "tx s' = tx s1 @ concat (replicate acks (rv_frame ReportAck ok_text)) @ more"
          "rv_frame ReportAck ok_text = more @ left"
          "if more = [] then acks \<le> length bodies \<and> length bodies \<le> Suc acks else length bodies = Suc acks"
          "r = Inr () \<longrightarrow> acks = length bodies \<and> more = []" "registration rs' = registration rs1" by blast
      show ?thesis
        by (intro exI [of _ "body # bodies"] exI [of _ rest] exI [of _ "Suc acks"] exI [of _ more] exI [of _ left])
          (use ih ack in simp)
    next
      case lost
      then have "rs' = rs1" "s' = s1" "r = Inl e" using Cons.prems t True f by simp_all
      then show ?thesis using lost
        by (intro exI [of _ "[body]"] exI [of _ rest] exI [of _ 0] exI [of _ more] exI [of _ left]) simp
    next
      case stop
      then show ?thesis using Cons.prems t True f none by (auto split: sum.splits if_splits)
    qed
  qed
qed

subsection \<open>From the reporter to the monitoring page\<close>

text \<open>
  Successive reports of one reporter, each with what the cancelling thread does during it and
  the socket the factory would return, up to the first one that fails.
\<close>

fun report_all ::
  "'s IBlockingStream \<Rightarrow> (string \<times> ('s SnapshotReporter \<Rightarrow> 's SnapshotReporter) \<times> 's result) list \<Rightarrow>
   's SnapshotReporter \<Rightarrow> (bool \<times> 's SnapshotReporter) option" where
  "report_all io [] r = Some (True, r)"
| "report_all io ((snapshot, env, create) # ps) r =
     (case report io env create snapshot r of
        None \<Rightarrow> None
      | Some (ok, r1) \<Rightarrow> if ok then report_all io ps r1 else Some (False, r1))"

definition snapshot_frames :: "string list \<Rightarrow> bytes" where
  "snapshot_frames ps = concat (map (rv_frame ReportSnapshot) ps)"

definition ack_frames :: "string list \<Rightarrow> bytes" where
  "ack_frames acks = concat (map (rv_frame ReportAck) acks)"

lemma frames_simps [simp]:
  "snapshot_frames [] = []" "snapshot_frames (p # ps) = rv_frame ReportSnapshot p @ snapshot_frames ps"
  "ack_frames [] = []" "ack_frames (a # acks) = rv_frame ReportAck a @ ack_frames acks"
  by (simp_all add: snapshot_frames_def ack_frames_def)

lemma rv_frame_nonempty [simp]: "rv_frame ty body \<noteq> []"
  by (simp add: rv_frame_def)

text \<open>Two streams of snapshot frames agree on the frames of the shorter one.\<close>

lemma snapshot_frames_split:
  assumes "snapshot_frames ps @ x = snapshot_frames qs @ y" "length ps \<le> length qs"
    "\<forall>p \<in> set ps. length p < 2 ^ 16" "\<forall>q \<in> set qs. length q < 2 ^ 16"
  shows "\<exists>newer. qs = ps @ newer \<and> x = snapshot_frames newer @ y"
  using assms
proof (induction ps arbitrary: qs)
  case (Cons p ps)
  then obtain q qs' where qs: "qs = q # qs'" by (cases qs) auto
  have "rv_frame ReportSnapshot p @ snapshot_frames ps @ x = rv_frame ReportSnapshot q @ snapshot_frames qs' @ y"
    using Cons.prems(1) qs by simp
  then have "p = q" "snapshot_frames ps @ x = snapshot_frames qs' @ y"
    using rv_frame_split [of ReportSnapshot p _ ReportSnapshot q] Cons.prems(3,4) qs by auto
  with Cons.IH [of qs'] Cons.prems qs show ?case by auto
qed simp

text \<open>Acknowledgements read from a stream of acknowledgements are not more than were sent.\<close>

lemma ack_frames_bound:
  assumes "concat (replicate n (rv_frame ReportAck ok_text)) @ part = ack_frames acks @ unread"
    "rv_frame ReportAck ok_text = part @ lost" "\<forall>a \<in> set acks. length a < 2 ^ 16"
  shows "length acks \<le> n + (if part = [] then 0 else 1)"
  using assms
proof (induction acks arbitrary: n)
  case (Cons a acks)
  have ok: "length ok_text < 2 ^ 16" by (simp add: ok_text_def)
  show ?case
  proof (cases n)
    case 0
    then have m: "part = rv_frame ReportAck a @ ack_frames acks @ unread" using Cons.prems(1) by simp
    then have "rv_frame ReportAck ok_text @ [] = rv_frame ReportAck a @ ack_frames acks @ unread @ lost"
      using Cons.prems(2) by simp
    then have "ack_frames acks = []"
      using rv_frame_split [of ReportAck ok_text "[]" ReportAck a] ok Cons.prems(3) by auto
    then show ?thesis using m 0 by (cases acks) auto
  next
    case (Suc k)
    then have "rv_frame ReportAck ok_text @ concat (replicate k (rv_frame ReportAck ok_text)) @ part
        = rv_frame ReportAck a @ ack_frames acks @ unread" using Cons.prems(1) by simp
    then have "concat (replicate k (rv_frame ReportAck ok_text)) @ part = ack_frames acks @ unread"
      using rv_frame_split [of ReportAck ok_text _ ReportAck a] ok Cons.prems(3) by auto
    from Cons.IH [OF this Cons.prems(2)] Cons.prems(3) Suc show ?thesis by simp
  qed
qed simp

lemma connection_unique:
  assumes "sr_socket r = Some s \<or> fresh_connection io env create r s"
    "sr_socket r = Some s' \<or> fresh_connection io env create r s'"
  shows "s' = s"
  using assms by (auto simp: fresh_connection_def)

context worker_stream
begin

lemma report_step:
  assumes "report io env create snapshot r = Some (True, r')" "length snapshot < 2 ^ 32 - 1"
    "sr_socket r = Some s \<or> fresh_connection io env create r s"
  shows "\<exists>s' ack. sr_socket r' = Some s' \<and> tx s' = tx s @ rv_frame ReportSnapshot snapshot
    \<and> rx s = rv_frame ReportAck ack @ rx s' \<and> length ack < 2 ^ 16 \<and> length snapshot < 2 ^ 16"
proof -
  have c: "\<not> sr_cancelled r" using assms(1) by (auto simp: report_def)
  obtain s1 r1 where send: "report_send io snapshot s1 r1 = Some (True, r')"
    "sr_socket r = Some s1 \<or> fresh_connection io env create r s1"
    using report_sends [OF assms(1) c] by blast
  have "s1 = s" by (rule connection_unique [OF assms(3) send(2)])
  moreover have "length snapshot < 2 ^ 16"
    using report_send_oversized [of snapshot io s1 r1] send(1) assms(2) by (cases "2 ^ 16 \<le> length snapshot") auto
  ultimately show ?thesis using report_send_ok [OF send(1)] by blast
qed

lemma report_all_open:
  assumes "report_all io ps r = Some (True, r')" "\<forall>p \<in> set ps. length (fst p) < 2 ^ 32 - 1" "sr_socket r = Some s"
  shows "\<exists>s' acks. sr_socket r' = Some s' \<and> tx s' = tx s @ snapshot_frames (map fst ps)
    \<and> rx s = ack_frames acks @ rx s' \<and> length acks = length ps
    \<and> (\<forall>a \<in> set acks. length a < 2 ^ 16) \<and> (\<forall>p \<in> set ps. length (fst p) < 2 ^ 16)"
  using assms
proof (induction ps arbitrary: r s)
  case (Cons p ps)
  obtain snapshot env create r1 where p: "p = (snapshot, env, create)" "report io env create snapshot r = Some (True, r1)"
    "report_all io ps r1 = Some (True, r')"
    using Cons.prems(1) by (cases p) (auto split: option.splits if_splits)
  obtain s1 ack where s1: "sr_socket r1 = Some s1" "tx s1 = tx s @ rv_frame ReportSnapshot snapshot"
    "rx s = rv_frame ReportAck ack @ rx s1" "length ack < 2 ^ 16" "length snapshot < 2 ^ 16"
    using report_step [OF p(2), of s] Cons.prems(2,3) p(1) by auto
  obtain s' acks where ih: "sr_socket r' = Some s'" "tx s' = tx s1 @ snapshot_frames (map fst ps)"
    "rx s1 = ack_frames acks @ rx s'" "length acks = length ps" "\<forall>a \<in> set acks. length a < 2 ^ 16"
    "\<forall>p \<in> set ps. length (fst p) < 2 ^ 16"
    using Cons.IH [OF p(3) _ s1(1)] Cons.prems(2) by auto
  show ?case by (intro exI [of _ s'] exI [of _ "ack # acks"]) (use ih s1 p(1) in simp)
qed simp

lemma report_all_delivers:
  assumes "report_all io ((snapshot, env, create) # ps) r = Some (True, r')"
    "\<forall>p \<in> set (snapshot # map fst ps). length p < 2 ^ 32 - 1"
    "sr_socket r = Some s \<or> fresh_connection io env create r s"
  shows "\<exists>s' acks. sr_socket r' = Some s' \<and> tx s' = tx s @ snapshot_frames (snapshot # map fst ps)
    \<and> rx s = ack_frames acks @ rx s' \<and> length acks = Suc (length ps)
    \<and> (\<forall>a \<in> set acks. length a < 2 ^ 16) \<and> (\<forall>p \<in> set (snapshot # map fst ps). length p < 2 ^ 16)"
proof -
  obtain r1 where r: "report io env create snapshot r = Some (True, r1)" "report_all io ps r1 = Some (True, r')"
    using assms(1) by (auto split: option.splits if_splits)
  obtain s1 ack where s1: "sr_socket r1 = Some s1" "tx s1 = tx s @ rv_frame ReportSnapshot snapshot"
    "rx s = rv_frame ReportAck ack @ rx s1" "length ack < 2 ^ 16" "length snapshot < 2 ^ 16"
    using report_step [OF r(1) _ assms(3)] assms(2) by auto
  obtain s' acks where s': "sr_socket r' = Some s'" "tx s' = tx s1 @ snapshot_frames (map fst ps)"
    "rx s1 = ack_frames acks @ rx s'" "length acks = length ps" "\<forall>a \<in> set acks. length a < 2 ^ 16"
    "\<forall>p \<in> set ps. length (fst p) < 2 ^ 16"
    using report_all_open [OF r(2) _ s1(1)] assms(2) by auto
  show ?thesis by (intro exI [of _ s'] exI [of _ "ack # acks"]) (use s' s1 in simp)
qed

end

subsection \<open>Properties\<close>

text \<open>
  C19. Reported snapshots are published. When a reporter has reported a series of snapshots
  with success over one connection, opened before or by the first report, and the snapshot
  listener serves the other end of it (it receives what the reporter sent, and the
  acknowledgements the reporter read are ones it sent), then however the listener's
  connection loop has ended, the rendezvous service holds the last reported snapshot, or one
  sent after it on the same connection: \<open>/api/monitor\<close> answers with it and status 200 unless
  it is empty; and the registration of the dispatcher has not changed. Nothing reported with
  success is lost or published out of order.
\<close>

theorem reported_snapshots_published:
  assumes "worker_stream io rx tx" "worker_stream io2 rx2 tx2"
    and "report_all io ((snapshot, env, create) # ps) r = Some (True, r')"
      "sr_socket r = Some s \<or> fresh_connection io env create r s" "sr_socket r' = Some s'"
      "\<forall>p \<in> set (snapshot # map fst ps). length p < 2 ^ 32 - 1"
    and "snapshot_connection io2 J ident turns rs t = Some (res, rs', t')"
    and "rx2 t = drop (length (tx s)) (tx s') @ later"
      "rx s = got @ rx s'" "drop (length (tx2 t)) (tx2 t') = got @ unread"
  shows "\<exists>newer rest. later = snapshot_frames newer @ rest
    \<and> rs_snapshot rs' = last (snapshot # map fst ps @ newer)
    \<and> (rs_snapshot rs' \<noteq> [] \<longrightarrow> rendezvous_route ''/api/monitor'' rs' =
         \<lparr>hr_status = 200, hr_content_type = ''application/json'', hr_no_store = True,
          hr_body = last (snapshot # map fst ps @ newer)\<rparr>)
    \<and> registration rs' = registration rs"
proof -
  let ?ps = "snapshot # map fst ps"
  obtain acks where d: "tx s' = tx s @ snapshot_frames ?ps" "rx s = ack_frames acks @ rx s'"
    "length acks = length ?ps" "\<forall>a \<in> set acks. length a < 2 ^ 16" "\<forall>p \<in> set ?ps. length p < 2 ^ 16"
    using worker_stream.report_all_delivers [OF assms(1,3,6,4)] assms(5) by auto
  obtain bodies rest n part lost where l: "rx2 t = snapshot_frames bodies @ rest" "\<forall>b \<in> set bodies. length b < 2 ^ 16"
      "rs_snapshot rs' = last (rs_snapshot rs # bodies)"
      "tx2 t' = tx2 t @ concat (replicate n (rv_frame ReportAck ok_text)) @ part"
      "rv_frame ReportAck ok_text = part @ lost"
      "if part = [] then n \<le> length bodies \<and> length bodies \<le> Suc n else length bodies = Suc n"
      "registration rs' = registration rs"
    using snapshot_connection_relays [OF assms(2,7)] unfolding snapshot_frames_def by blast
  have "got = ack_frames acks" using d(2) assms(9) by simp
  then have "concat (replicate n (rv_frame ReportAck ok_text)) @ part = ack_frames acks @ unread"
    using l(4) assms(10) by simp
  from ack_frames_bound [OF this l(5) d(4)] have "length ?ps \<le> length bodies"
    using d(3) l(6) by (auto split: if_splits)
  moreover have "snapshot_frames ?ps @ later = snapshot_frames bodies @ rest" using d(1) l(1) assms(8) by simp
  ultimately obtain newer where n: "bodies = ?ps @ newer" "later = snapshot_frames newer @ rest"
    using snapshot_frames_split d(5) l(2) by blast
  have last: "rs_snapshot rs' = last (snapshot # map fst ps @ newer)" using l(3) n(1) by simp
  then have "rs_snapshot rs' \<noteq> [] \<longrightarrow> rendezvous_route ''/api/monitor'' rs' =
      \<lparr>hr_status = 200, hr_content_type = ''application/json'', hr_no_store = True,
       hr_body = last (snapshot # map fst ps @ newer)\<rparr>"
    by (simp add: rendezvous_route_def)
  then show ?thesis using n(2) last l(7) by blast
qed

definition demo_service :: RendezvousServer where
  "demo_service = \<lparr>rs_endpoint = None, rs_snapshot = [], rs_ttl_seconds = 30\<rparr>"

definition demo_reporter :: "(bytes \<times> bytes) SnapshotReporter" where
  "demo_reporter = \<lparr>sr_host = ''h'', sr_port = 1, sr_cancelled = False,
     sr_socket = Some (ack_frames [ok_text, ok_text], [])\<rparr>"

lemma demo_report:
  "report_all mem_io [(''one'', id, Inl runtime_error), (''two'', id, Inl runtime_error)] demo_reporter
     = Some (True, demo_reporter\<lparr>sr_socket := Some ([], snapshot_frames [''one'', ''two''])\<rparr>)"
proof -
  let ?r1 = "demo_reporter\<lparr>sr_socket := Some (rv_frame ReportAck ok_text, rv_frame ReportSnapshot ''one'')\<rparr>"
  have "report mem_io id (Inl runtime_error) ''one'' demo_reporter = Some (True, ?r1)"
    using report_mem [of demo_reporter "rv_frame ReportAck ok_text" "[]" "''one''"] by (simp add: demo_reporter_def)
  moreover have "report mem_io id (Inl runtime_error) ''two'' ?r1
      = Some (True, demo_reporter\<lparr>sr_socket := Some ([], snapshot_frames [''one'', ''two''])\<rparr>)"
    using report_mem [of ?r1 "[]" "rv_frame ReportSnapshot ''one''" "''two''"] by (simp add: demo_reporter_def)
  ultimately show ?thesis by simp
qed

lemma demo_relay:
  "\<exists>rs'. snapshot_connection mem_io demo_json default_identity [(True, 5), (True, 6), (False, 7)] demo_service
     (snapshot_frames [''one'', ''two''], []) = Some (Inr (), rs', ([], ack_frames [ok_text, ok_text]))"
  using mem_read_message [of "''two''" ReportSnapshot "[]"]
  by (simp add: snapshot_frame_def mem_read_message mem_write_message ok_text_def Let_def default_identity_def
      split: option.splits) blast

theorem reported_snapshots_published_witness:
  "\<exists>rs'. report_all mem_io [(''one'', id, Inl runtime_error), (''two'', id, Inl runtime_error)] demo_reporter
       = Some (True, demo_reporter\<lparr>sr_socket := Some ([], snapshot_frames [''one'', ''two''])\<rparr>)
    \<and> snapshot_connection mem_io demo_json default_identity [(True, 5), (True, 6), (False, 7)] demo_service
       (snapshot_frames [''one'', ''two''], []) = Some (Inr (), rs', ([], ack_frames [ok_text, ok_text]))
    \<and> hr_status (rendezvous_route ''/api/monitor'' rs') = 200
    \<and> hr_body (rendezvous_route ''/api/monitor'' rs') = ''two''"
proof -
  let ?rest = "[(''two'', id :: (bytes \<times> bytes) SnapshotReporter \<Rightarrow> _, Inl runtime_error :: (bytes \<times> bytes) result)]"
  obtain rs' where c: "snapshot_connection mem_io demo_json default_identity [(True, 5), (True, 6), (False, 7)] demo_service
       (snapshot_frames [''one'', ''two''], []) = Some (Inr (), rs', ([], ack_frames [ok_text, ok_text]))"
    using demo_relay by blast
  have "\<exists>newer rest. [] = snapshot_frames newer @ rest
      \<and> rs_snapshot rs' = last (''one'' # map fst ?rest @ newer)
      \<and> (rs_snapshot rs' \<noteq> [] \<longrightarrow> rendezvous_route ''/api/monitor'' rs' =
           \<lparr>hr_status = 200, hr_content_type = ''application/json'', hr_no_store = True,
            hr_body = last (''one'' # map fst ?rest @ newer)\<rparr>)
      \<and> registration rs' = registration demo_service"
    by (rule reported_snapshots_published [OF mem.worker_stream_axioms mem.worker_stream_axioms demo_report _ _ _ c,
          where s = "(ack_frames [ok_text, ok_text], [])"
          and s' = "([], snapshot_frames [''one'', ''two''])" and got = "ack_frames [ok_text, ok_text]" and unread = "[]"])
      (simp_all add: demo_reporter_def)
  then obtain newer where "snapshot_frames newer = []"
    "rs_snapshot rs' = last (''one'' # ''two'' # newer)"
    "rs_snapshot rs' \<noteq> [] \<longrightarrow> rendezvous_route ''/api/monitor'' rs' =
       \<lparr>hr_status = 200, hr_content_type = ''application/json'', hr_no_store = True,
        hr_body = last (''one'' # ''two'' # newer)\<rparr>" by auto
  then have "newer = []" "rs_snapshot rs' = ''two''" "hr_status (rendezvous_route ''/api/monitor'' rs') = 200"
    "hr_body (rendezvous_route ''/api/monitor'' rs') = ''two''" by (cases newer; simp)+
  with c demo_report show ?thesis by blast
qed

text \<open>
  Requests take effect one after the other. Whatever connections come in, and however
  some of them fail, the registry of the rendezvous service after an accept loop is the
  initial one changed by the complete requests of the served connections in the order of
  their acceptance; a connection without a complete request changes nothing and does not
  stop the loop, and every served connection is closed.
\<close>

lemma requests_take_effect_in_order:
  assumes "vn_accept_loop io J turns rs = Some (rs', shut)"
  shows "rs' = fold (request_effect io J) (served turns) rs \<and> length (served turns) \<le> length shut"
  using assms accept_loop_effect [where handler = "handle_connection io J" and effect = "request_effect io J"]
    handle_connection_effect by (fastforce simp: vn_accept_loop_def)

text \<open>
  C40. A silent client blocks the rendezvous service. The accept thread serves a connection
  itself and without a time limit: when a client connects and sends nothing, every receive
  on its socket times out and is retried for ever, so the accept loop makes no further
  progress, whatever connections follow, and \<open>stop\<close>, which joins this thread without
  closing the client's socket, does not return.
\<close>

theorem silent_client_blocks_service:
  assumes "\<And>k n e. zts_recv api k (zs_fd z) n False e = (None, ZTS_EAGAIN, k)"
    "0 \<le> zs_fd z" "\<not> zs_shutdown z"
    "at_running t" "at_result t = Inr (Some z, ec)" "at_still_running t"
  shows "vn_accept_loop (zt_stream api (\<lambda>z. z) fuel) J (t # turns) rs = None"
proof -
  have r: "retry_errno ZTS_EAGAIN"
    by (simp add: retry_errno_def normalize_errno_def ZTS_EAGAIN_def EWOULDBLOCK_def ZTS_EINPROGRESS_def)
  have "read_loop api (\<lambda>z. z) f sz [] y = None"
    if "0 < sz" "zs_fd y = zs_fd z" "\<not> zs_shutdown y" for f sz y
    using that
  proof (induction f arbitrary: y)
    case (Suc f)
    then show ?case using assms(1,2) r by (simp add: net_def)
  qed simp
  then have "bs_read (zt_stream api (\<lambda>z. z) fuel) z kFrameHeaderSize = None"
    using assms(2,3) by (simp add: zt_stream_def zt_read_def kFrameHeaderSize_def)
  then have "read_message (zt_stream api (\<lambda>z. z) fuel) z = None"
    by (simp add: read_message_def read_exact.simps kFrameHeaderSize_def)
  then show ?thesis using assms(4-6) by (simp add: vn_accept_loop_def handle_connection_def)
qed

definition silent_turn :: "(int, vnet ZeroTierSocket) listen_turn" where
  "silent_turn = \<lparr>at_running = True,
     at_result = Inr (Some ((new_socket False (node_service_new None) vnet_start)\<lparr>zs_fd := 3\<rparr>), None),
     at_still_running = True, at_context = 0\<rparr>"

theorem silent_client_blocks_service_witness:
  "vn_accept_loop (zt_stream vnet_sockets (\<lambda>z. z) 1000) demo_json [silent_turn, silent_turn] demo_service = None"
  by (rule silent_client_blocks_service [where z = "(new_socket False (node_service_new None) vnet_start)\<lparr>zs_fd := 3\<rparr>"])
    (simp_all add: silent_turn_def vnet_sockets_def new_socket_def)

end
