(* ===== verification/NodeData.thy ===== *)
theory NodeData
  imports ZtNode
begin

section \<open>The node service of libzt: data\<close>

text \<open>
  The override of libzt's \<open>NodeService\<close> that the repository builds into the library
  (subprojects/libzt-wrapper/NodeService.hpp, .cpp): the settings, the joined networks with
  their taps, the connections of the TCP relay and the interface to the rest of libzt.
  The operations are in the theories \<open>NodeSvc\<close> and \<open>NodeRelay\<close>.

  The record \<open>NodeService\<close> holds the members of the class. A pointer that is only tested
  and dereferenced is a truth value, and the objects behind it (the ZeroTier core \<open>Node\<close>,
  the \<open>Phy\<close> sockets, the \<open>Binder\<close>, the event queue \<open>Events\<close>, the \<open>VirtualTap\<close>s, the
  file system) live in one component \<open>ns_env\<close> of type \<open>'k\<close>: none of them is part of the
  repository, and their calls are the fields of \<open>svc_api\<close>. A tap is identified by the
  network it was created for. The flag \<open>ns_fault\<close> is set when the code dereferences a null or
  dangling pointer or copies past the end of a buffer; it is never cleared.
\<close>

subsection \<open>Data\<close>

text \<open>A socket address: address bytes in network order and the port (or the number of
  netmask bits of an interface address).\<close>

datatype InetAddress = InetNil | InetV4 bytes u16 | InetV6 bytes u16

fun isV4 :: "InetAddress \<Rightarrow> bool" where
  "isV4 (InetV4 _ _) = True"
| "isV4 _ = False"

fun isV6 :: "InetAddress \<Rightarrow> bool" where
  "isV6 (InetV6 _ _) = True"
| "isV6 _ = False"

record ZT_VirtualNetworkRoute =
  route_target :: InetAddress
  route_via :: InetAddress
  route_flags :: u16
  route_metric :: u16

record ZT_VirtualNetworkConfig =
  cfg_nwid :: u64
  cfg_mac :: u64
  cfg_name :: string
  cfg_status :: int
  cfg_type :: int
  cfg_mtu :: nat
  cfg_dhcp :: int
  cfg_bridge :: int
  cfg_broadcastEnabled :: int
  cfg_portError :: int
  cfg_netconfRevision :: nat
  cfg_assignedAddresses :: "InetAddress list"
  cfg_routes :: "ZT_VirtualNetworkRoute list"
  cfg_multicastSubscriptions :: "(u64 \<times> u32) list"

record ZT_Peer =
  peer_address :: u64
  peer_paths :: "InetAddress list"

datatype ZT_VirtualNetworkConfigOperation =
    ZT_VIRTUAL_NETWORK_CONFIG_OPERATION_UP
  | ZT_VIRTUAL_NETWORK_CONFIG_OPERATION_CONFIG_UPDATE
  | ZT_VIRTUAL_NETWORK_CONFIG_OPERATION_DOWN
  | ZT_VIRTUAL_NETWORK_CONFIG_OPERATION_DESTROY

datatype ZT_Event =
    ZT_EVENT_UP | ZT_EVENT_OFFLINE | ZT_EVENT_ONLINE | ZT_EVENT_DOWN
  | ZT_EVENT_FATAL_ERROR_IDENTITY_COLLISION | ZT_EVENT_TRACE | ZT_EVENT_USER_MESSAGE | ZT_EVENT_REMOTE_TRACE

datatype ZT_StateObjectType =
    ZT_STATE_OBJECT_IDENTITY_PUBLIC | ZT_STATE_OBJECT_IDENTITY_SECRET | ZT_STATE_OBJECT_PLANET
  | ZT_STATE_OBJECT_MOON | ZT_STATE_OBJECT_PEER | ZT_STATE_OBJECT_NETWORK_CONFIG

datatype zts_event =
    ZTS_EVENT_NODE_UP | ZTS_EVENT_NODE_ONLINE | ZTS_EVENT_NODE_OFFLINE | ZTS_EVENT_NODE_DOWN
  | ZTS_EVENT_NODE_FATAL_ERROR
  | ZTS_EVENT_NETWORK_NOT_FOUND | ZTS_EVENT_NETWORK_CLIENT_TOO_OLD | ZTS_EVENT_NETWORK_REQ_CONFIG
  | ZTS_EVENT_NETWORK_ACCESS_DENIED | ZTS_EVENT_NETWORK_DOWN
  | ZTS_EVENT_NETWORK_UPDATE | ZTS_EVENT_NETWORK_READY_IP4 | ZTS_EVENT_NETWORK_READY_IP6 | ZTS_EVENT_NETWORK_OK
  | ZTS_EVENT_ADDR_ADDED_IP4 | ZTS_EVENT_ADDR_ADDED_IP6 | ZTS_EVENT_ADDR_REMOVED_IP4 | ZTS_EVENT_ADDR_REMOVED_IP6
  | ZTS_EVENT_STORE_IDENTITY_PUBLIC | ZTS_EVENT_STORE_IDENTITY_SECRET | ZTS_EVENT_STORE_PLANET
  | ZTS_EVENT_STORE_PEER | ZTS_EVENT_STORE_NETWORK
  | ZTS_EVENT_PEER_DIRECT | ZTS_EVENT_PEER_RELAY | ZTS_EVENT_PEER_UNREACHABLE
  | ZTS_EVENT_PEER_PATH_DISCOVERED | ZTS_EVENT_PEER_PATH_DEAD

datatype ReasonForTermination =
    ONE_STILL_RUNNING | ONE_NORMAL_TERMINATION | ONE_UNRECOVERABLE_ERROR | ONE_IDENTITY_COLLISION

text \<open>The error codes of ZeroTierSockets.h and the network states of the core.\<close>

definition ZTS_ERR_SERVICE :: int where "ZTS_ERR_SERVICE = -2"
definition ZTS_ERR_ARG :: int where "ZTS_ERR_ARG = -3"
definition ZTS_ERR_NO_RESULT :: int where "ZTS_ERR_NO_RESULT = -4"
definition ZTS_ERR_GENERAL :: int where "ZTS_ERR_GENERAL = -5"

lemmas zts_err_defs = ZTS_ERR_OK_def ZTS_ERR_SERVICE_def ZTS_ERR_ARG_def ZTS_ERR_NO_RESULT_def ZTS_ERR_GENERAL_def

definition ZTS_STORE_DATA_LEN :: nat where "ZTS_STORE_DATA_LEN = 4096"
definition ZT_IDENTITY_STRING_BUFFER_LENGTH :: nat where "ZT_IDENTITY_STRING_BUFFER_LENGTH = 384"
definition ZTS_MAX_NETWORK_SHORT_NAME_LENGTH :: nat where "ZTS_MAX_NETWORK_SHORT_NAME_LENGTH = 127"
definition ZTS_MAX_ASSIGNED_ADDRESSES :: nat where "ZTS_MAX_ASSIGNED_ADDRESSES = 16"

record VirtualTap =
  tap_net_id :: u64
  tap_networkStatus :: int

record NetworkSettings =
  allowManaged :: bool
  allowManagedWhitelist :: "InetAddress list"
  allowGlobal :: bool
  allowDefault :: bool

record NetworkState =
  tap :: "VirtualTap option"
  net_config :: ZT_VirtualNetworkConfig
  managedIps :: "InetAddress list"
  settings :: NetworkSettings

text \<open>The objects handed to the event queue.\<close>

record zts_net_info_t =
  ni_net_id :: u64
  ni_mac :: u64
  ni_name :: string
  ni_status :: int
  ni_type :: int
  ni_mtu :: nat
  ni_dhcp :: int
  ni_bridge :: int
  ni_broadcast_enabled :: int
  ni_port_error :: int
  ni_netconf_rev :: nat
  ni_assigned_addrs :: "InetAddress list"
  ni_routes :: "ZT_VirtualNetworkRoute list"
  ni_multicast_subs :: "(u64 \<times> u32) list"

datatype event_obj =
    NodeInfo u64 nat nat nat
  | NetInfo u64
  | NetDetails zts_net_info_t
  | AddrInfo u64 InetAddress
  | StoreData bytes
  | PeerInfo ZT_Peer

text \<open>The object a caller of \<open>sendEventToUser\<close> passes.\<close>

datatype event_src = SrcNone | SrcNet NetworkState | SrcAddr u64 InetAddress | SrcData bytes | SrcPeer ZT_Peer

datatype conn_type = TCP_UNCATEGORIZED_INCOMING | TCP_HTTP_INCOMING | TCP_HTTP_OUTGOING | TCP_TUNNEL_OUTGOING

record TcpConnection =
  tc_type :: conn_type
  tc_sock :: "nat option"
  tc_remoteAddr :: InetAddress
  tc_lastReceive :: u64
  readq :: bytes
  writeq :: bytes

text \<open>The service. \<open>ns_tcp_heap\<close> holds the connection objects by address,
  \<open>ns_tcpConnections\<close> the vector of pointers to them; \<open>ns_nuptrs\<close> are the pointers into
  \<open>_nets\<close> that the core keeps for its networks (\<open>*nuptr\<close> of the callbacks).\<close>

record 'k NodeService =
  ns_env :: 'k
  ns_fault :: bool
  ns_node :: bool
  ns_nodeId :: u64
  ns_primaryPort :: nat
  ns_secondaryPort :: nat
  ns_tertiaryPort :: nat
  ns_randomPortRangeStart :: nat
  ns_randomPortRangeEnd :: nat
  ns_peerCache :: "u64 \<rightharpoonup> nat"
  ns_v4Hints :: "u64 \<rightharpoonup> InetAddress list"
  ns_v6Hints :: "u64 \<rightharpoonup> InetAddress list"
  ns_v4Blacklists :: "u64 \<rightharpoonup> InetAddress list"
  ns_v6Blacklists :: "u64 \<rightharpoonup> InetAddress list"
  ns_globalV4Blacklist :: "InetAddress list"
  ns_globalV6Blacklist :: "InetAddress list"
  ns_interfacePrefixBlacklist :: "string list"
  ns_ports :: "nat \<times> nat \<times> nat"
  ns_lastDirectReceiveFromGlobal :: u64
  ns_fallbackRelayAddress :: InetAddress
  ns_allowTcpRelay :: bool
  ns_forceTcpRelay :: bool
  ns_lastSendToGlobalV4 :: u64
  ns_tcp_heap :: "nat \<rightharpoonup> TcpConnection"
  ns_tcpConnections :: "nat list"
  ns_tcpFallbackTunnel :: "nat option"
  ns_lastRestart :: u64
  ns_nextBackgroundTaskDeadline :: int
  ns_nets :: "(u64 \<times> NetworkState) list"
  ns_nuptrs :: "u64 \<Rightarrow> u64 option"
  ns_run :: bool
  ns_termReason :: ReasonForTermination
  ns_fatalErrorMessage :: string
  ns_allowPortMapping :: bool
  ns_allowSecondaryPort :: bool
  ns_allowNetworkCaching :: bool
  ns_allowPeerCaching :: bool
  ns_allowIdentityCaching :: bool
  ns_allowRootSetCaching :: bool
  ns_publicIdStr :: bytes
  ns_secretIdStr :: bytes
  ns_userDefinedWorld :: bool
  ns_rootsData :: bytes
  ns_rootsDataLen :: nat
  ns_nodeIsOnline :: bool
  ns_eventsEnabled :: bool
  ns_homePath :: string
  ns_events :: bool

text \<open>What the service calls: the file system (\<open>fopen\<close>, \<open>OSUtils\<close>), the event queue, the
  taps and lwIP, the physical sockets and the address functions.\<close>

record 'k svc_api =
  fs_read :: "string \<Rightarrow> 'k \<Rightarrow> bytes option"
  fs_write :: "string \<Rightarrow> bytes \<Rightarrow> 'k \<Rightarrow> bool \<times> 'k"
  fs_mkdir :: "string \<Rightarrow> 'k \<Rightarrow> bool \<times> 'k"
  fs_rm :: "string \<Rightarrow> 'k \<Rightarrow> 'k"
  fs_lockDownFile :: "string \<Rightarrow> 'k \<Rightarrow> 'k"
  fs_listDirectory :: "string \<Rightarrow> 'k \<Rightarrow> string list"
  fs_cleanDirectory :: "string \<Rightarrow> int \<Rightarrow> 'k \<Rightarrow> 'k"
  events_enqueue :: "zts_event \<Rightarrow> event_obj \<Rightarrow> int \<Rightarrow> 'k \<Rightarrow> bool \<times> 'k"
  events_enable :: "'k \<Rightarrow> 'k"
  events_disable :: "'k \<Rightarrow> 'k"
  tap_new :: "string \<Rightarrow> u64 \<Rightarrow> nat \<Rightarrow> u64 \<Rightarrow> 'k \<Rightarrow> int \<times> 'k"
  tap_delete :: "u64 \<Rightarrow> 'k \<Rightarrow> 'k"
  tap_setUserEventSystem :: "u64 \<Rightarrow> 'k \<Rightarrow> 'k"
  tap_setMtu :: "u64 \<Rightarrow> nat \<Rightarrow> 'k \<Rightarrow> 'k"
  tap_addIp :: "u64 \<Rightarrow> InetAddress \<Rightarrow> 'k \<Rightarrow> bool \<times> 'k"
  tap_removeIp :: "u64 \<Rightarrow> InetAddress \<Rightarrow> 'k \<Rightarrow> bool \<times> 'k"
  tap_ips :: "u64 \<Rightarrow> 'k \<Rightarrow> InetAddress list"
  tap_hasIpv4Addr :: "u64 \<Rightarrow> 'k \<Rightarrow> bool"
  tap_hasIpv6Addr :: "u64 \<Rightarrow> 'k \<Rightarrow> bool"
  tap_netif4_up :: "u64 \<Rightarrow> 'k \<Rightarrow> bool"
  tap_netif6_up :: "u64 \<Rightarrow> 'k \<Rightarrow> bool"
  tap_put :: "u64 \<Rightarrow> u64 \<Rightarrow> u64 \<Rightarrow> nat \<Rightarrow> bytes \<Rightarrow> 'k \<Rightarrow> 'k"
  lwip_is_up :: "'k \<Rightarrow> bool"
  phy_whack :: "'k \<Rightarrow> 'k"
  phy_udpBind4 :: "u16 \<Rightarrow> 'k \<Rightarrow> bool \<times> 'k"
  phy_udpBind6 :: "u16 \<Rightarrow> 'k \<Rightarrow> bool \<times> 'k"
  phy_streamSend :: "nat option \<Rightarrow> bytes \<Rightarrow> 'k \<Rightarrow> int \<times> 'k"
  phy_setNotifyWritable :: "nat option \<Rightarrow> bool \<Rightarrow> 'k \<Rightarrow> 'k"
  phy_tcpConnect :: "InetAddress \<Rightarrow> nat \<Rightarrow> 'k \<Rightarrow> 'k"
  phy_setIp4UdpTtl :: "nat \<Rightarrow> nat \<Rightarrow> 'k \<Rightarrow> 'k"
  phy_udpSend :: "nat \<Rightarrow> InetAddress \<Rightarrow> bytes \<Rightarrow> 'k \<Rightarrow> bool \<times> 'k"
  binder_isUdpSocketValid :: "nat \<Rightarrow> 'k \<Rightarrow> bool"
  binder_udpSendAll :: "InetAddress \<Rightarrow> bytes \<Rightarrow> nat \<Rightarrow> 'k \<Rightarrow> bool \<times> 'k"
  inet_less :: "InetAddress \<Rightarrow> InetAddress \<Rightarrow> bool"
  inet_fromString :: "string \<Rightarrow> InetAddress"
  inet_ntop :: "InetAddress \<Rightarrow> string"
  ipScope_global :: "InetAddress \<Rightarrow> bool"
  containsAddress :: "InetAddress \<Rightarrow> InetAddress \<Rightarrow> bool"
  ipsEqual :: "InetAddress \<Rightarrow> InetAddress \<Rightarrow> bool"
  native_ss_to_zts_ss :: "InetAddress \<Rightarrow> InetAddress"
  node_online :: "'k \<Rightarrow> bool"
  node_address :: "'k \<Rightarrow> u64"
  node_peers :: "'k \<Rightarrow> ZT_Peer list option"
  ZT_PING_CHECK_INTERVAL :: u64
  ZT_PATH_HEARTBEAT_PERIOD :: int
  ZT_BINDER_REFRESH_PERIOD :: int
  ZEROTIER_ONE_VERSION :: "nat \<times> nat \<times> nat"
  identity_fromString :: "bytes \<Rightarrow> bool"
  identity_locallyValidate :: "bytes \<Rightarrow> int"
  node_identity :: "'k \<Rightarrow> bytes"
  indeterminate_config :: ZT_VirtualNetworkConfig

end
