(* ===== verification/NodeSvc.thy ===== *)
theory NodeSvc
  imports NodeData
begin

section \<open>The node service of libzt: networks, events, settings, state store\<close>

text \<open>
  The operations of subprojects/libzt-wrapper/NodeService.cpp outside the TCP relay and the
  main loop: the construction, the settings that may only change while the service is
  stopped, the events handed to the user, the callbacks of the ZeroTier core for networks,
  events and stored objects, and the queries.

  \<open>networks_have_taps\<close> is the invariant of the network table under every callback;
  \<open>config_update_syncs_addresses\<close> gives the effect of a network configuration on the
  addresses of its tap; \<open>network_config_cached\<close> is the round trip of the state store. The
  locale \<open>zt_core\<close> states what the service relies on of the core; through it the contract
  \<open>libzt_node\<close> of the node service of the application holds for \<open>join\<close>, \<open>leave\<close> and
  \<open>getNetworkStatus\<close> of this service (\<open>leases_keep_taps\<close>).
\<close>

subsection \<open>Ordered tables and buffers\<close>

text \<open>\<open>std::map\<close>: an association list in ascending order of the keys.\<close>

fun map_put :: "u64 \<Rightarrow> 'v \<Rightarrow> (u64 \<times> 'v) list \<Rightarrow> (u64 \<times> 'v) list" where
  "map_put k v [] = [(k, v)]"
| "map_put k v ((k', v') # xs) =
     (if k < k' then (k, v) # (k', v') # xs
      else if k = k' then (k, v) # xs else (k', v') # map_put k v xs)"

lemma map_of_map_put [simp]: "map_of (map_put k v xs) = (map_of xs)(k \<mapsto> v)"
  by (induction k v xs rule: map_put.induct) (auto simp: fun_eq_iff)

lemma keys_map_put: "fst ` set (map_put k v xs) = insert k (fst ` set xs)"
  by (induction k v xs rule: map_put.induct) auto

lemma sorted_map_put:
  "sorted (map fst xs) \<Longrightarrow> distinct (map fst xs) \<Longrightarrow>
   sorted (map fst (map_put k v xs)) \<and> distinct (map fst (map_put k v xs))"
proof (induction k v xs rule: map_put.induct)
  case (2 k v k' v' xs)
  have "set (map fst (map_put k v xs)) = insert k (fst ` set xs)" using keys_map_put [of k v xs] by simp
  then show ?case using 2 by (auto simp: less_le)
qed simp

text \<open>\<open>memcpy\<close> into the beginning of an array.\<close>

definition memcpy :: "bytes \<Rightarrow> bytes \<Rightarrow> bytes" where
  "memcpy buf data = data @ drop (length data) buf"

definition c_str :: "bytes \<Rightarrow> bytes" where
  "c_str buf = takeWhile (\<lambda>b. b \<noteq> 0) buf"

subsection \<open>Construction and settings\<close>

definition ZT_TCP_FALLBACK_RELAY :: string where "ZT_TCP_FALLBACK_RELAY = ''204.80.128.1/443''"

definition NodeService_new :: "'k svc_api \<Rightarrow> 'k \<Rightarrow> 'k NodeService" where
  "NodeService_new api k =
     \<lparr>ns_env = k, ns_fault = False, ns_node = False, ns_nodeId = 0, ns_primaryPort = 0, ns_secondaryPort = 0,
      ns_tertiaryPort = 0, ns_randomPortRangeStart = 0, ns_randomPortRangeEnd = 0, ns_peerCache = Map.empty,
      ns_v4Hints = Map.empty, ns_v6Hints = Map.empty, ns_v4Blacklists = Map.empty, ns_v6Blacklists = Map.empty,
      ns_globalV4Blacklist = [], ns_globalV6Blacklist = [], ns_interfacePrefixBlacklist = [], ns_ports = (0, 0, 0),
      ns_lastDirectReceiveFromGlobal = 0, ns_fallbackRelayAddress = inet_fromString api ZT_TCP_FALLBACK_RELAY,
      ns_allowTcpRelay = True, ns_forceTcpRelay = False, ns_lastSendToGlobalV4 = 0, ns_tcp_heap = Map.empty,
      ns_tcpConnections = [], ns_tcpFallbackTunnel = None, ns_lastRestart = 0, ns_nextBackgroundTaskDeadline = 0,
      ns_nets = [], ns_nuptrs = (\<lambda>_. None), ns_run = False, ns_termReason = ONE_STILL_RUNNING, ns_fatalErrorMessage = [],
      ns_allowPortMapping = True, ns_allowSecondaryPort = True, ns_allowNetworkCaching = True,
      ns_allowPeerCaching = True, ns_allowIdentityCaching = True, ns_allowRootSetCaching = True,
      ns_publicIdStr = replicate ZT_IDENTITY_STRING_BUFFER_LENGTH 0,
      ns_secretIdStr = replicate ZT_IDENTITY_STRING_BUFFER_LENGTH 0,
      ns_userDefinedWorld = False, ns_rootsData = replicate ZTS_STORE_DATA_LEN 0, ns_rootsDataLen = 0,
      ns_nodeIsOnline = False, ns_eventsEnabled = False, ns_homePath = [], ns_events = False\<rparr>"

text \<open>The settings are refused while the service runs.\<close>

definition when_stopped ::
  "('k NodeService \<Rightarrow> 'k NodeService) \<Rightarrow> 'k NodeService \<Rightarrow> int \<times> 'k NodeService" where
  "when_stopped f s = (if ns_run s then (ZTS_ERR_SERVICE, s) else (ZTS_ERR_OK, f s))"

definition setHomePath :: "string option \<Rightarrow> 'k NodeService \<Rightarrow> int \<times> 'k NodeService" where
  "setHomePath p s =
     (case p of None \<Rightarrow> (ZTS_ERR_ARG, s) | Some path \<Rightarrow> when_stopped (\<lambda>s. s\<lparr>ns_homePath := path\<rparr>) s)"

definition setPrimaryPort :: "u16 \<Rightarrow> 'k NodeService \<Rightarrow> int \<times> 'k NodeService" where
  "setPrimaryPort p = when_stopped (\<lambda>s. s\<lparr>ns_primaryPort := unat p\<rparr>)"

definition setRandomPortRange :: "u16 \<Rightarrow> u16 \<Rightarrow> 'k NodeService \<Rightarrow> int \<times> 'k NodeService" where
  "setRandomPortRange a b =
     when_stopped (\<lambda>s. s\<lparr>ns_randomPortRangeStart := unat a, ns_randomPortRangeEnd := unat b\<rparr>)"

definition getPrimaryPort :: "'k NodeService \<Rightarrow> u16" where
  "getPrimaryPort s = word_of_nat (ns_primaryPort s)"

definition allowPortMapping :: "nat \<Rightarrow> 'k NodeService \<Rightarrow> int \<times> 'k NodeService" where
  "allowPortMapping a = when_stopped (\<lambda>s. s\<lparr>ns_allowPortMapping := a \<noteq> 0\<rparr>)"

definition allowSecondaryPort :: "nat \<Rightarrow> 'k NodeService \<Rightarrow> int \<times> 'k NodeService" where
  "allowSecondaryPort a = when_stopped (\<lambda>s. s\<lparr>ns_allowSecondaryPort := a \<noteq> 0\<rparr>)"

text \<open>The caching flags are \<open>uint8_t\<close>: the argument is reduced to its low byte.\<close>

definition flag8 :: "u32 \<Rightarrow> bool" where
  "flag8 a \<longleftrightarrow> (ucast a :: byte) \<noteq> 0"

definition allowPeerCaching :: "u32 \<Rightarrow> 'k NodeService \<Rightarrow> int \<times> 'k NodeService" where
  "allowPeerCaching a = when_stopped (\<lambda>s. s\<lparr>ns_allowPeerCaching := flag8 a\<rparr>)"

definition allowNetworkCaching :: "u32 \<Rightarrow> 'k NodeService \<Rightarrow> int \<times> 'k NodeService" where
  "allowNetworkCaching a = when_stopped (\<lambda>s. s\<lparr>ns_allowNetworkCaching := flag8 a\<rparr>)"

definition allowIdentityCaching :: "u32 \<Rightarrow> 'k NodeService \<Rightarrow> int \<times> 'k NodeService" where
  "allowIdentityCaching a = when_stopped (\<lambda>s. s\<lparr>ns_allowIdentityCaching := flag8 a\<rparr>)"

definition allowRootSetCaching :: "u32 \<Rightarrow> 'k NodeService \<Rightarrow> int \<times> 'k NodeService" where
  "allowRootSetCaching a = when_stopped (\<lambda>s. s\<lparr>ns_allowRootSetCaching := flag8 a\<rparr>)"

definition setUserEventSystem :: "bool \<Rightarrow> 'k NodeService \<Rightarrow> int \<times> 'k NodeService" where
  "setUserEventSystem e = when_stopped (\<lambda>s. s\<lparr>ns_events := e\<rparr>)"

definition enableEvents :: "'k svc_api \<Rightarrow> 'k NodeService \<Rightarrow> 'k NodeService" where
  "enableEvents api s = (if \<not> ns_events s then s else s\<lparr>ns_env := events_enable api (ns_env s)\<rparr>)"

definition setTcpRelayAddress :: "'k svc_api \<Rightarrow> string \<Rightarrow> u16 \<Rightarrow> 'k NodeService \<Rightarrow> 'k NodeService" where
  "setTcpRelayAddress api a p s =
     s\<lparr>ns_fallbackRelayAddress := inet_fromString api (a @ ''/'' @ to_string (unat p))\<rparr>"

definition allowTcpRelay :: "bool \<Rightarrow> 'k NodeService \<Rightarrow> 'k NodeService" where
  "allowTcpRelay e s = s\<lparr>ns_allowTcpRelay := e\<rparr>"

definition forceTcpRelay :: "bool \<Rightarrow> 'k NodeService \<Rightarrow> 'k NodeService" where
  "forceTcpRelay e s = s\<lparr>ns_forceTcpRelay := e\<rparr>"

definition setRoots :: "bytes option \<Rightarrow> 'k NodeService \<Rightarrow> int \<times> 'k NodeService" where
  "setRoots d s =
     (case d of
        None \<Rightarrow> (ZTS_ERR_ARG, s)
      | Some data \<Rightarrow>
          if length data = 0 \<or> length data > ZTS_STORE_DATA_LEN then (ZTS_ERR_ARG, s)
          else when_stopped (\<lambda>s. s\<lparr>ns_rootsData := memcpy (ns_rootsData s) data,
                 ns_rootsDataLen := length data, ns_userDefinedWorld := True\<rparr>) s)"

text \<open>\<open>_node\<close> is null while the service is stopped.\<close>

definition setLowBandwidthMode :: "'k NodeService \<Rightarrow> int \<times> 'k NodeService" where
  "setLowBandwidthMode = when_stopped (\<lambda>s. if ns_node s then s else s\<lparr>ns_fault := True\<rparr>)"

definition addInterfacePrefixToBlacklist :: "string option \<Rightarrow> nat \<Rightarrow> 'k NodeService \<Rightarrow> int \<times> 'k NodeService" where
  "addInterfacePrefixToBlacklist p len s =
     (case p of
        None \<Rightarrow> (ZTS_ERR_ARG, s)
      | Some prefix \<Rightarrow>
          if len = 0 \<or> len > 15 then (ZTS_ERR_ARG, s)
          else when_stopped (\<lambda>s. s\<lparr>ns_interfacePrefixBlacklist := ns_interfacePrefixBlacklist s @ [prefix]\<rparr>) s)"

text \<open>\<open>setIdentity\<close>: \<open>data\<close> are the \<open>len\<close> bytes at \<open>keypair\<close>. Neither the null pointer nor
  the length is refused (the return statement of the test is commented out), and a key pair
  that does not parse ends the call with the truth value of \<open>locallyValidate\<close>.\<close>

definition setIdentity :: "'k svc_api \<Rightarrow> bytes option \<Rightarrow> 'k NodeService \<Rightarrow> int \<times> 'k NodeService" where
  "setIdentity api keypair s =
     (case keypair of
        None \<Rightarrow> (ZTS_ERR_OK, s\<lparr>ns_fault := True\<rparr>)
      | Some data \<Rightarrow>
          if length (c_str data) > 32 \<and> data ! 10 = 58 \<and> \<not> identity_fromString api (c_str data)
          then (identity_locallyValidate api (c_str data), s)
          else when_stopped (\<lambda>s. s\<lparr>ns_secretIdStr := memcpy (ns_secretIdStr s) data,
                 ns_fault := (ns_fault s \<or> length data > ZT_IDENTITY_STRING_BUFFER_LENGTH)\<rparr>) s)"

definition getIdentity :: "'k svc_api \<Rightarrow> bool \<Rightarrow> nat \<Rightarrow> 'k NodeService \<Rightarrow> int \<times> bytes" where
  "getIdentity api keypair len s =
     (if \<not> keypair \<or> len < ZT_IDENTITY_STRING_BUFFER_LENGTH then (ZTS_ERR_ARG, [])
      else if ns_node s then (ZTS_ERR_OK, node_identity api (ns_env s)) else (ZTS_ERR_GENERAL, []))"

definition getNodeId :: "'k svc_api \<Rightarrow> 'k NodeService \<Rightarrow> u64" where
  "getNodeId api s = (if \<not> ns_run s then 0 else if ns_node s then node_address api (ns_env s) else 0)"

definition isRunning :: "'k NodeService \<Rightarrow> bool" where
  "isRunning s = ns_run s"

definition nodeIsOnline :: "'k NodeService \<Rightarrow> bool" where
  "nodeIsOnline s = ns_nodeIsOnline s"

definition reasonForTermination :: "'k NodeService \<Rightarrow> ReasonForTermination" where
  "reasonForTermination s = ns_termReason s"

definition fatalErrorMessage :: "'k NodeService \<Rightarrow> string" where
  "fatalErrorMessage s = ns_fatalErrorMessage s"

subsection \<open>Stopping\<close>

definition terminate :: "'k svc_api \<Rightarrow> 'k NodeService \<Rightarrow> 'k NodeService" where
  "terminate api s =
     (let s1 = s\<lparr>ns_run := False, ns_nodeId := 0, ns_primaryPort := 0, ns_homePath := [],
                 ns_allowNetworkCaching := True, ns_allowPeerCaching := True,
                 ns_allowIdentityCaching := True, ns_allowRootSetCaching := True,
                 ns_publicIdStr := replicate ZT_IDENTITY_STRING_BUFFER_LENGTH 0,
                 ns_secretIdStr := replicate ZT_IDENTITY_STRING_BUFFER_LENGTH 0,
                 ns_interfacePrefixBlacklist := []\<rparr>
      in if ns_events s then s1\<lparr>ns_env := phy_whack api (events_disable api (ns_env s1))\<rparr>
         else s1\<lparr>ns_fault := True\<rparr>)"

subsection \<open>Events for the user\<close>

definition net_details :: "'k svc_api \<Rightarrow> ZT_VirtualNetworkConfig \<Rightarrow> zts_net_info_t" where
  "net_details api c =
     \<lparr>ni_net_id = cfg_nwid c, ni_mac = cfg_mac c, ni_name = cfg_name c, ni_status = cfg_status c,
      ni_type = cfg_type c, ni_mtu = cfg_mtu c, ni_dhcp = cfg_dhcp c, ni_bridge = cfg_bridge c,
      ni_broadcast_enabled = cfg_broadcastEnabled c, ni_port_error = cfg_portError c,
      ni_netconf_rev = cfg_netconfRevision c,
      ni_assigned_addrs = map (native_ss_to_zts_ss api) (cfg_assignedAddresses c),
      ni_routes = map (\<lambda>r. r\<lparr>route_target := native_ss_to_zts_ss api (route_target r),
                             route_via := native_ss_to_zts_ss api (route_via r)\<rparr>) (cfg_routes c),
      ni_multicast_subs = cfg_multicastSubscriptions c\<rparr>"

text \<open>The object built for an event. \<open>None\<close> where no object results; every caller passes the
  kind of object its event code expects.\<close>

definition event_object :: "'k svc_api \<Rightarrow> zts_event \<Rightarrow> event_src \<Rightarrow> 'k NodeService \<Rightarrow> event_obj option" where
  "event_object api code src s =
     (case src of
        SrcNone \<Rightarrow>
          if code \<in> {ZTS_EVENT_NODE_UP, ZTS_EVENT_NODE_ONLINE, ZTS_EVENT_NODE_OFFLINE, ZTS_EVENT_NODE_DOWN,
                     ZTS_EVENT_NODE_FATAL_ERROR}
          then Some (NodeInfo (ns_nodeId s) (ns_primaryPort s) (ns_secondaryPort s) (ns_tertiaryPort s)) else None
      | SrcNet n \<Rightarrow>
          if code \<in> {ZTS_EVENT_NETWORK_NOT_FOUND, ZTS_EVENT_NETWORK_CLIENT_TOO_OLD, ZTS_EVENT_NETWORK_REQ_CONFIG,
                     ZTS_EVENT_NETWORK_ACCESS_DENIED, ZTS_EVENT_NETWORK_DOWN}
          then Some (NetInfo (cfg_nwid (net_config n)))
          else if code \<in> {ZTS_EVENT_NETWORK_UPDATE, ZTS_EVENT_NETWORK_READY_IP4, ZTS_EVENT_NETWORK_READY_IP6,
                          ZTS_EVENT_NETWORK_OK}
          then Some (NetDetails (net_details api (net_config n))) else None
      | SrcAddr n a \<Rightarrow>
          if code \<in> {ZTS_EVENT_ADDR_ADDED_IP4, ZTS_EVENT_ADDR_ADDED_IP6, ZTS_EVENT_ADDR_REMOVED_IP4,
                     ZTS_EVENT_ADDR_REMOVED_IP6}
          then Some (AddrInfo n a) else None
      | SrcData d \<Rightarrow>
          if code \<in> {ZTS_EVENT_STORE_IDENTITY_PUBLIC, ZTS_EVENT_STORE_IDENTITY_SECRET, ZTS_EVENT_STORE_PLANET,
                     ZTS_EVENT_STORE_PEER, ZTS_EVENT_STORE_NETWORK}
          then Some (StoreData d) else None
      | SrcPeer p \<Rightarrow>
          if code \<in> {ZTS_EVENT_PEER_DIRECT, ZTS_EVENT_PEER_RELAY, ZTS_EVENT_PEER_UNREACHABLE,
                     ZTS_EVENT_PEER_PATH_DISCOVERED, ZTS_EVENT_PEER_PATH_DEAD}
          then Some (PeerInfo (p\<lparr>peer_paths := map (native_ss_to_zts_ss api) (peer_paths p)\<rparr>)) else None)"

definition sendEventToUser ::
  "'k svc_api \<Rightarrow> zts_event \<Rightarrow> event_src \<Rightarrow> int \<Rightarrow> 'k NodeService \<Rightarrow> 'k NodeService" where
  "sendEventToUser api code src len s =
     (if \<not> ns_events s then s
      else case event_object api code src s of
             None \<Rightarrow> s
           | Some obj \<Rightarrow> s\<lparr>ns_env := snd (events_enqueue api code obj len (ns_env s))\<rparr>)"

definition nodeEventCallback :: "'k svc_api \<Rightarrow> ZT_Event \<Rightarrow> 'k NodeService \<Rightarrow> 'k NodeService" where
  "nodeEventCallback api event s0 =
     (let s = s0\<lparr>ns_nodeIsOnline := (event = ZT_EVENT_ONLINE),
                 ns_nodeId := (if ns_node s0 then node_address api (ns_env s0) else 0)\<rparr>
      in case event of
           ZT_EVENT_UP \<Rightarrow> sendEventToUser api ZTS_EVENT_NODE_UP SrcNone 0 s
         | ZT_EVENT_ONLINE \<Rightarrow> sendEventToUser api ZTS_EVENT_NODE_ONLINE SrcNone 0 s
         | ZT_EVENT_OFFLINE \<Rightarrow> sendEventToUser api ZTS_EVENT_NODE_OFFLINE SrcNone 0 s
         | ZT_EVENT_DOWN \<Rightarrow> sendEventToUser api ZTS_EVENT_NODE_DOWN SrcNone 0 s
         | ZT_EVENT_FATAL_ERROR_IDENTITY_COLLISION \<Rightarrow>
             sendEventToUser api ZTS_EVENT_NODE_FATAL_ERROR SrcNone 0
               (terminate api (s\<lparr>ns_termReason := ONE_IDENTITY_COLLISION\<rparr>))
         | _ \<Rightarrow> s)"


subsection \<open>Networks\<close>

text \<open>\<open>std::sort\<close> by the order of \<open>InetAddress\<close>; \<open>remdups_adj\<close> is \<open>std::unique\<close>.\<close>

fun insert_by :: "('a \<Rightarrow> 'a \<Rightarrow> bool) \<Rightarrow> 'a \<Rightarrow> 'a list \<Rightarrow> 'a list" where
  "insert_by lt x [] = [x]"
| "insert_by lt x (y # ys) = (if lt y x then y # insert_by lt x ys else x # y # ys)"

definition std_sort :: "('a \<Rightarrow> 'a \<Rightarrow> bool) \<Rightarrow> 'a list \<Rightarrow> 'a list" where
  "std_sort lt xs = foldr (insert_by lt) xs []"

fun raw_ip :: "InetAddress \<Rightarrow> InetAddress" where
  "raw_ip (InetV4 b _) = InetV4 b 0"
| "raw_ip (InetV6 b _) = InetV6 b 0"
| "raw_ip InetNil = InetNil"

definition send_addr_event ::
  "'k svc_api \<Rightarrow> zts_event \<Rightarrow> zts_event \<Rightarrow> u64 \<Rightarrow> InetAddress \<Rightarrow> 'k NodeService \<Rightarrow> 'k NodeService" where
  "send_addr_event api code4 code6 tid ip s =
     (if isV4 ip then sendEventToUser api code4 (SrcAddr tid (raw_ip ip)) 0 s
      else if isV6 ip then sendEventToUser api code6 (SrcAddr tid (raw_ip ip)) 0 s
      else s)"

fun sync_removed ::
  "'k svc_api \<Rightarrow> u64 \<Rightarrow> InetAddress list \<Rightarrow> InetAddress list \<Rightarrow> 'k NodeService \<Rightarrow> 'k NodeService" where
  "sync_removed api tid new [] s = s"
| "sync_removed api tid new (ip # ips) s =
     (if ip \<notin> set new then
        (case tap_removeIp api tid ip (ns_env s) of
           (ok, k) \<Rightarrow>
             let s1 = s\<lparr>ns_env := k\<rparr>
             in sync_removed api tid new ips
                  (if ok then send_addr_event api ZTS_EVENT_ADDR_REMOVED_IP4 ZTS_EVENT_ADDR_REMOVED_IP6 tid ip s1
                   else s1))
      else sync_removed api tid new ips s)"

fun sync_added ::
  "'k svc_api \<Rightarrow> u64 \<Rightarrow> InetAddress list \<Rightarrow> InetAddress list \<Rightarrow> 'k NodeService \<Rightarrow> 'k NodeService" where
  "sync_added api tid old [] s = s"
| "sync_added api tid old (ip # ips) s =
     (if ip \<notin> set old then
        (case tap_addIp api tid ip (ns_env s) of
           (ok, k) \<Rightarrow>
             let s1 = s\<lparr>ns_env := k\<rparr>
             in sync_added api tid old ips
                  (if ok then send_addr_event api ZTS_EVENT_ADDR_ADDED_IP4 ZTS_EVENT_ADDR_ADDED_IP6 tid ip s1
                   else s1))
      else sync_added api tid old ips s)"

definition new_managed_ips :: "'k svc_api \<Rightarrow> NetworkState \<Rightarrow> InetAddress list" where
  "new_managed_ips api n = remdups_adj (std_sort (inet_less api) (cfg_assignedAddresses (net_config n)))"

text \<open>The caller holds \<open>_nets_m\<close>; \<open>t\<close> is the tap of the network \<open>n\<close>.\<close>

definition syncManagedStuff ::
  "'k svc_api \<Rightarrow> VirtualTap \<Rightarrow> NetworkState \<Rightarrow> 'k NodeService \<Rightarrow> NetworkState \<times> 'k NodeService" where
  "syncManagedStuff api t n s =
     (let newManagedIps = new_managed_ips api n;
          s1 = sync_removed api (tap_net_id t) newManagedIps (managedIps n) s;
          s2 = sync_added api (tap_net_id t) (managedIps n) newManagedIps s1
      in (n\<lparr>managedIps := newManagedIps\<rparr>, s2))"

text \<open>The default constructor leaves the configuration uninitialised.\<close>

definition NetworkState_new :: "'k svc_api \<Rightarrow> NetworkState" where
  "NetworkState_new api =
     \<lparr>tap = None, net_config = indeterminate_config api, managedIps = [],
      settings = \<lparr>allowManaged = True, allowManagedWhitelist = [], allowGlobal = False, allowDefault = False\<rparr>\<rparr>"

text \<open>\<open>%.16llx\<close> and \<open>%.10llx\<close>.\<close>

definition hex_digit :: "nat \<Rightarrow> char" where
  "hex_digit d = char_of (if d < 10 then 48 + d else 87 + d)"

fun hex_str :: "nat \<Rightarrow> string" where
  "hex_str n = (if n < 16 then [hex_digit n] else hex_str (n div 16) @ [hex_digit (n mod 16)])"

declare hex_str.simps [simp del]

definition hex_pad :: "nat \<Rightarrow> u64 \<Rightarrow> string" where
  "hex_pad w n = (let s = hex_str (unat n) in replicate (w - length s) (CHR ''0'') @ s)"

definition network_local_conf_path :: "string \<Rightarrow> u64 \<Rightarrow> string" where
  "network_local_conf_path home n = home @ ''/networks.d/'' @ hex_pad 16 n @ ''.local.conf''"

definition net_up ::
  "'k svc_api \<Rightarrow> u64 \<Rightarrow> ZT_VirtualNetworkConfig \<Rightarrow> NetworkState \<Rightarrow> u64 option \<Rightarrow> 'k NodeService \<Rightarrow>
   NetworkState \<times> u64 option \<times> 'k NodeService" where
  "net_up api net_id nwc n nuptr s =
     (case tap n of
        Some _ \<Rightarrow> (n, nuptr, s)
      | None \<Rightarrow>
          (case tap_new api (ns_homePath s) (cfg_mac nwc) (cfg_mtu nwc) net_id (ns_env s) of
             (st, k) \<Rightarrow> (n\<lparr>tap := Some \<lparr>tap_net_id = net_id, tap_networkStatus = st\<rparr>\<rparr>, Some net_id,
                          s\<lparr>ns_env := tap_setUserEventSystem api net_id k\<rparr>)))"

definition net_update ::
  "'k svc_api \<Rightarrow> u64 \<Rightarrow> bool \<Rightarrow> ZT_VirtualNetworkConfig \<Rightarrow> NetworkState \<Rightarrow> 'k NodeService \<Rightarrow> int \<times> 'k NodeService" where
  "net_update api net_id is_update nwc n0 s =
     (let n = n0\<lparr>net_config := nwc\<rparr>
      in case tap n of
           None \<Rightarrow> (-999, s\<lparr>ns_nets := AList.delete net_id (ns_nets s)\<rparr>)
         | Some t \<Rightarrow>
             (case syncManagedStuff api t n s of
                (n', s1) \<Rightarrow>
                  let s2 = s1\<lparr>ns_nets := map_put net_id n' (ns_nets s1),
                              ns_env := tap_setMtu api (tap_net_id t) (cfg_mtu nwc) (ns_env s1)\<rparr>
                  in (0, if is_update then sendEventToUser api ZTS_EVENT_NETWORK_UPDATE (SrcNet n') 0 s2 else s2)))"

definition net_down ::
  "'k svc_api \<Rightarrow> u64 \<Rightarrow> bool \<Rightarrow> NetworkState \<Rightarrow> u64 option \<Rightarrow> 'k NodeService \<Rightarrow>
   int \<times> u64 option \<times> 'k NodeService" where
  "net_down api net_id destroy n nuptr s0 =
     (let s = sendEventToUser api ZTS_EVENT_NETWORK_DOWN (SrcNet n) 0 s0;
          erased = s\<lparr>ns_nets := AList.delete net_id (ns_nets s)\<rparr>
      in case tap n of
           None \<Rightarrow> (0, nuptr, erased)
         | Some t \<Rightarrow>
             let s1 = erased\<lparr>ns_env := tap_delete api (tap_net_id t) (ns_env erased)\<rparr>
             in (0, None,
                 if ns_allowNetworkCaching s1 \<and> destroy
                 then s1\<lparr>ns_env := fs_rm api (network_local_conf_path (ns_homePath s1) net_id) (ns_env s1)\<rparr>
                 else s1))"

text \<open>\<open>nuptr\<close> is the pointer the core keeps for the network: the key of the entry of
  \<open>_nets\<close> it points to, or null.\<close>

definition nodeVirtualNetworkConfigFunction ::
  "'k svc_api \<Rightarrow> u64 \<Rightarrow> u64 option \<Rightarrow> ZT_VirtualNetworkConfigOperation \<Rightarrow> ZT_VirtualNetworkConfig \<Rightarrow>
   'k NodeService \<Rightarrow> int \<times> u64 option \<times> 'k NodeService" where
  "nodeVirtualNetworkConfigFunction api net_id nuptr op nwc s =
     (let n = (case map_of (ns_nets s) net_id of Some n \<Rightarrow> n | None \<Rightarrow> NetworkState_new api)
      in case op of
           ZT_VIRTUAL_NETWORK_CONFIG_OPERATION_UP \<Rightarrow>
             (case net_up api net_id nwc n nuptr s of
                (n1, nuptr1, s1) \<Rightarrow>
                  (case net_update api net_id False nwc n1 s1 of (rc, s2) \<Rightarrow> (rc, nuptr1, s2)))
         | ZT_VIRTUAL_NETWORK_CONFIG_OPERATION_CONFIG_UPDATE \<Rightarrow>
             (case net_update api net_id True nwc n s of (rc, s2) \<Rightarrow> (rc, nuptr, s2))
         | ZT_VIRTUAL_NETWORK_CONFIG_OPERATION_DOWN \<Rightarrow> net_down api net_id False n nuptr s
         | ZT_VIRTUAL_NETWORK_CONFIG_OPERATION_DESTROY \<Rightarrow> net_down api net_id True n nuptr s)"

definition nodeVirtualNetworkFrameFunction ::
  "'k svc_api \<Rightarrow> u64 option \<Rightarrow> u64 \<Rightarrow> u64 \<Rightarrow> nat \<Rightarrow> bytes \<Rightarrow> 'k NodeService \<Rightarrow> 'k NodeService" where
  "nodeVirtualNetworkFrameFunction api nuptr src dst etherType data s =
     (case nuptr of
        None \<Rightarrow> s
      | Some net_id \<Rightarrow>
          (case map_of (ns_nets s) net_id of
             None \<Rightarrow> s\<lparr>ns_fault := True\<rparr>
           | Some n \<Rightarrow>
               (case tap n of
                  None \<Rightarrow> s
                | Some t \<Rightarrow> s\<lparr>ns_env := tap_put api (tap_net_id t) src dst etherType data (ns_env s)\<rparr>)))"

subsection \<open>Synthetic events\<close>

definition ZT_NETWORK_STATUS_REQUESTING_CONFIGURATION :: int where "ZT_NETWORK_STATUS_REQUESTING_CONFIGURATION = 0"
definition ZT_NETWORK_STATUS_OK :: int where "ZT_NETWORK_STATUS_OK = 1"
definition ZT_NETWORK_STATUS_ACCESS_DENIED :: int where "ZT_NETWORK_STATUS_ACCESS_DENIED = 2"
definition ZT_NETWORK_STATUS_NOT_FOUND :: int where "ZT_NETWORK_STATUS_NOT_FOUND = 3"
definition ZT_NETWORK_STATUS_CLIENT_TOO_OLD :: int where "ZT_NETWORK_STATUS_CLIENT_TOO_OLD = 5"

definition status_events :: "'k svc_api \<Rightarrow> VirtualTap \<Rightarrow> NetworkState \<Rightarrow> 'k NodeService \<Rightarrow> 'k NodeService" where
  "status_events api t n s =
     (let st = cfg_status (net_config n); tid = tap_net_id t in
      if st = ZT_NETWORK_STATUS_NOT_FOUND then sendEventToUser api ZTS_EVENT_NETWORK_NOT_FOUND (SrcNet n) 0 s
      else if st = ZT_NETWORK_STATUS_CLIENT_TOO_OLD
      then sendEventToUser api ZTS_EVENT_NETWORK_CLIENT_TOO_OLD (SrcNet n) 0 s
      else if st = ZT_NETWORK_STATUS_REQUESTING_CONFIGURATION
      then sendEventToUser api ZTS_EVENT_NETWORK_REQ_CONFIG (SrcNet n) 0 s
      else if st = ZT_NETWORK_STATUS_OK then
        (let s1 = (if tap_hasIpv4Addr api tid (ns_env s) \<and> tap_netif4_up api tid (ns_env s)
                   then sendEventToUser api ZTS_EVENT_NETWORK_READY_IP4 (SrcNet n) 0 s else s);
             s2 = (if tap_hasIpv6Addr api tid (ns_env s1) \<and> tap_netif6_up api tid (ns_env s1)
                   then sendEventToUser api ZTS_EVENT_NETWORK_READY_IP6 (SrcNet n) 0 s1 else s1)
         in sendEventToUser api ZTS_EVENT_NETWORK_OK (SrcNet n) 0 s2)
      else if st = ZT_NETWORK_STATUS_ACCESS_DENIED
      then sendEventToUser api ZTS_EVENT_NETWORK_ACCESS_DENIED (SrcNet n) 0 s
      else s)"

fun synthetic_nets :: "'k svc_api \<Rightarrow> (u64 \<times> NetworkState) list \<Rightarrow> 'k NodeService \<Rightarrow> 'k NodeService" where
  "synthetic_nets api [] s = s"
| "synthetic_nets api ((net_id, n) # ns) s =
     (case tap n of
        None \<Rightarrow> s\<lparr>ns_fault := True\<rparr>
      | Some t \<Rightarrow>
          if tap_networkStatus t = cfg_status (net_config n) then synthetic_nets api ns s
          else let s1 = status_events api t n s
               in synthetic_nets api ns
                    (s1\<lparr>ns_nets := map_put net_id
                          (n\<lparr>tap := Some (t\<lparr>tap_networkStatus := cfg_status (net_config n)\<rparr>)\<rparr>) (ns_nets s1)\<rparr>))"

definition peer_events :: "'k svc_api \<Rightarrow> ZT_Peer \<Rightarrow> 'k NodeService \<Rightarrow> 'k NodeService" where
  "peer_events api p s =
     (let c = length (peer_paths p); send = (\<lambda>code. sendEventToUser api code (SrcPeer p) 0)
      in case ns_peerCache s (peer_address p) of
           None \<Rightarrow> if c > 0 then send ZTS_EVENT_PEER_DIRECT s else send ZTS_EVENT_PEER_RELAY s
         | Some old \<Rightarrow>
             let s1 = (if old < c then send ZTS_EVENT_PEER_PATH_DISCOVERED s else s);
                 s2 = (if old > c then send ZTS_EVENT_PEER_PATH_DEAD s1 else s1);
                 s3 = (if old = 0 \<and> c > 0 then send ZTS_EVENT_PEER_DIRECT s2 else s2)
             in if old > 0 \<and> c = 0 then send ZTS_EVENT_PEER_RELAY s3 else s3)"

fun synthetic_peers :: "'k svc_api \<Rightarrow> ZT_Peer list \<Rightarrow> 'k NodeService \<Rightarrow> 'k NodeService" where
  "synthetic_peers api [] s = s"
| "synthetic_peers api (p # ps) s =
     (let s1 = peer_events api p s
      in synthetic_peers api ps (s1\<lparr>ns_peerCache := (ns_peerCache s1)(peer_address p \<mapsto> length (peer_paths p))\<rparr>))"

definition generateSyntheticEvents :: "'k svc_api \<Rightarrow> 'k NodeService \<Rightarrow> 'k NodeService" where
  "generateSyntheticEvents api s =
     (if \<not> node_online api (ns_env s) \<or> \<not> lwip_is_up api (ns_env s) then s
      else let s1 = synthetic_nets api (ns_nets s) s
           in case node_peers api (ns_env s1) of Some pl \<Rightarrow> synthetic_peers api pl s1 | None \<Rightarrow> s1)"

subsection \<open>The state store\<close>

definition mem_write :: "nat \<Rightarrow> bytes \<Rightarrow> int \<Rightarrow> bool" where
  "mem_write cap data len \<longleftrightarrow> 0 \<le> len \<and> nat len \<le> cap"

definition put_identity_public :: "bytes \<Rightarrow> int \<Rightarrow> 'k NodeService \<Rightarrow> 'k NodeService" where
  "put_identity_public data len s =
     s\<lparr>ns_publicIdStr := memcpy (ns_publicIdStr s) data,
       ns_fault := (ns_fault s \<or> \<not> mem_write ZT_IDENTITY_STRING_BUFFER_LENGTH data len)\<rparr>"

definition put_identity_secret :: "bytes \<Rightarrow> int \<Rightarrow> 'k NodeService \<Rightarrow> 'k NodeService" where
  "put_identity_secret data len s =
     s\<lparr>ns_secretIdStr := memcpy (ns_secretIdStr s) data,
       ns_fault := (ns_fault s \<or> \<not> mem_write ZT_IDENTITY_STRING_BUFFER_LENGTH data len)\<rparr>"

definition put_roots :: "bytes \<Rightarrow> int \<Rightarrow> 'k NodeService \<Rightarrow> 'k NodeService" where
  "put_roots data len s =
     s\<lparr>ns_rootsData := memcpy (ns_rootsData s) data,
       ns_fault := (ns_fault s \<or> \<not> mem_write ZTS_STORE_DATA_LEN data len)\<rparr>"

definition networks_d :: "string \<Rightarrow> string" where "networks_d home = home @ ''/networks.d''"
definition peers_d :: "string \<Rightarrow> string" where "peers_d home = home @ ''/peers.d''"

text \<open>The file of an object: its path, the subdirectory it is in, whether it is locked down.\<close>

definition object_file :: "ZT_StateObjectType \<Rightarrow> u64 \<Rightarrow> 'k NodeService \<Rightarrow> (string \<times> string option \<times> bool) option" where
  "object_file type i s =
     (let home = ns_homePath s in
      if home = [] then None
      else case type of
        ZT_STATE_OBJECT_IDENTITY_PUBLIC \<Rightarrow>
          if ns_allowIdentityCaching s then Some (home @ ''/identity.public'', None, False) else None
      | ZT_STATE_OBJECT_IDENTITY_SECRET \<Rightarrow>
          if ns_allowIdentityCaching s then Some (home @ ''/identity.secret'', None, True) else None
      | ZT_STATE_OBJECT_PLANET \<Rightarrow>
          if ns_allowRootSetCaching s then Some (home @ ''/roots'', None, False) else None
      | ZT_STATE_OBJECT_NETWORK_CONFIG \<Rightarrow>
          if ns_allowNetworkCaching s
          then Some (networks_d home @ ''/'' @ hex_pad 16 i @ ''.conf'', Some (networks_d home), True) else None
      | ZT_STATE_OBJECT_PEER \<Rightarrow>
          if ns_allowPeerCaching s
          then Some (peers_d home @ ''/'' @ hex_pad 10 i @ ''.peer'', Some (peers_d home), False) else None
      | ZT_STATE_OBJECT_MOON \<Rightarrow> None)"

definition write_object :: "'k svc_api \<Rightarrow> string \<times> string option \<times> bool \<Rightarrow> bytes \<Rightarrow> 'k \<Rightarrow> 'k" where
  "write_object api file data k =
     (case file of
        (p, dirname, secure) \<Rightarrow>
          if (case fs_read api p k of Some old \<Rightarrow> take 65535 old = data | None \<Rightarrow> False) then k
          else case (case fs_write api p data k of
                       (True, k1) \<Rightarrow> (True, k1)
                     | (False, k1) \<Rightarrow>
                         (case dirname of
                            None \<Rightarrow> (False, k1)
                          | Some d \<Rightarrow> fs_write api p data (snd (fs_mkdir api d k1)))) of
                 (opened, k2) \<Rightarrow> if opened \<and> secure then fs_lockDownFile api p k2 else k2)"

definition nodeStatePutFunction ::
  "'k svc_api \<Rightarrow> ZT_StateObjectType \<Rightarrow> u64 \<Rightarrow> bytes \<Rightarrow> int \<Rightarrow> 'k NodeService \<Rightarrow> 'k NodeService" where
  "nodeStatePutFunction api type i data len s =
     (let s1 = (case type of
                  ZT_STATE_OBJECT_IDENTITY_PUBLIC \<Rightarrow>
                    put_identity_public data len (sendEventToUser api ZTS_EVENT_STORE_IDENTITY_PUBLIC (SrcData data) len s)
                | ZT_STATE_OBJECT_IDENTITY_SECRET \<Rightarrow>
                    put_identity_secret data len (sendEventToUser api ZTS_EVENT_STORE_IDENTITY_SECRET (SrcData data) len s)
                | ZT_STATE_OBJECT_PLANET \<Rightarrow>
                    put_roots data len (sendEventToUser api ZTS_EVENT_STORE_PLANET (SrcData data) len s)
                | _ \<Rightarrow> s)
      in case object_file type i s1 of
           None \<Rightarrow> s1
         | Some (p, dirname, secure) \<Rightarrow>
             if len \<ge> 0 then s1\<lparr>ns_env := write_object api (p, dirname, secure) data (ns_env s1)\<rparr>
             else s1\<lparr>ns_env := fs_rm api p (ns_env s1)\<rparr>)"

definition read_object :: "'k svc_api \<Rightarrow> string \<Rightarrow> nat \<Rightarrow> 'k \<Rightarrow> int \<times> bytes" where
  "read_object api p maxlen k =
     (case fs_read api p k of
        Some d \<Rightarrow> (int (length (take maxlen d)), take maxlen d)
      | None \<Rightarrow> (-1, []))"

definition nodeStateGetFunction ::
  "'k svc_api \<Rightarrow> ZT_StateObjectType \<Rightarrow> u64 \<Rightarrow> nat \<Rightarrow> 'k NodeService \<Rightarrow> int \<times> bytes" where
  "nodeStateGetFunction api type i maxlen s =
     (let home = ns_homePath s;
          identity = (\<lambda>buf name.
            if 0 < length (c_str buf) \<and> length (c_str buf) \<le> maxlen
            then (int (length (c_str buf)), c_str buf)
            else read_object api (if home \<noteq> [] then home @ name else []) maxlen (ns_env s))
      in case type of
           ZT_STATE_OBJECT_IDENTITY_PUBLIC \<Rightarrow> identity (ns_publicIdStr s) ''/identity.public''
         | ZT_STATE_OBJECT_IDENTITY_SECRET \<Rightarrow> identity (ns_secretIdStr s) ''/identity.secret''
         | ZT_STATE_OBJECT_PLANET \<Rightarrow>
             if ns_userDefinedWorld s then (int (ns_rootsDataLen s), take (ns_rootsDataLen s) (ns_rootsData s))
             else read_object api (home @ ''/roots'') maxlen (ns_env s)
         | ZT_STATE_OBJECT_NETWORK_CONFIG \<Rightarrow>
             read_object api (networks_d home @ ''/'' @ hex_pad 16 i @ ''.conf'') maxlen (ns_env s)
         | ZT_STATE_OBJECT_PEER \<Rightarrow>
             read_object api (peers_d home @ ''/'' @ hex_pad 10 i @ ''.peer'') maxlen (ns_env s)
         | ZT_STATE_OBJECT_MOON \<Rightarrow> (-1, []))"

subsection \<open>Queries\<close>

definition find_net :: "u64 \<Rightarrow> 'k NodeService \<Rightarrow> NetworkState option" where
  "find_net n s = map_of (ns_nets s) n"

text \<open>\<open>networkIsReady\<close> returns \<open>bool\<close>: the error code of a null id becomes true.\<close>

definition networkIsReady :: "u64 \<Rightarrow> 'k NodeService \<Rightarrow> bool" where
  "networkIsReady net_id s =
     (if net_id = 0 then ZTS_ERR_ARG \<noteq> 0
      else case find_net net_id s of
             None \<Rightarrow> False
           | Some n \<Rightarrow> length (cfg_assignedAddresses (net_config n)) > 0)"

definition net_count :: "(ZT_VirtualNetworkConfig \<Rightarrow> nat) \<Rightarrow> u64 \<Rightarrow> 'k NodeService \<Rightarrow> int" where
  "net_count f net_id s =
     (case find_net net_id s of None \<Rightarrow> ZTS_ERR_NO_RESULT | Some n \<Rightarrow> int (f (net_config n)))"

definition addressCount :: "u64 \<Rightarrow> 'k NodeService \<Rightarrow> int" where
  "addressCount = net_count (\<lambda>c. length (cfg_assignedAddresses c))"

definition routeCount :: "u64 \<Rightarrow> 'k NodeService \<Rightarrow> int" where
  "routeCount = net_count (\<lambda>c. length (cfg_routes c))"

definition multicastSubCount :: "u64 \<Rightarrow> 'k NodeService \<Rightarrow> int" where
  "multicastSubCount = net_count (\<lambda>c. length (cfg_multicastSubscriptions c))"

definition pathCount :: "u64 \<Rightarrow> int" where
  "pathCount peer_id = ZTS_ERR_NO_RESULT"

text \<open>The text a call writes into its output buffer; \<open>None\<close> when it leaves it untouched.\<close>

definition ntop :: "'k svc_api \<Rightarrow> InetAddress \<Rightarrow> string option" where
  "ntop api a = (if isV4 a \<or> isV6 a then Some (inet_ntop api a) else None)"

definition getAddrAtIdx :: "'k svc_api \<Rightarrow> u64 \<Rightarrow> nat \<Rightarrow> 'k NodeService \<Rightarrow> int \<times> string option" where
  "getAddrAtIdx api net_id idx s =
     (case find_net net_id s of
        None \<Rightarrow> (0, None)
      | Some n \<Rightarrow>
          let as = cfg_assignedAddresses (net_config n)
          in if idx \<ge> length as then (ZTS_ERR_ARG, None) else (ZTS_ERR_OK, ntop api (as ! idx)))"

definition getRouteAtIdx ::
  "'k svc_api \<Rightarrow> u64 \<Rightarrow> nat \<Rightarrow> 'k NodeService \<Rightarrow> int \<times> (string \<times> string \<times> u16 \<times> u16) option" where
  "getRouteAtIdx api net_id idx s =
     (case find_net net_id s of
        None \<Rightarrow> (0, None)
      | Some n \<Rightarrow>
          let rs = cfg_routes (net_config n)
          in if idx \<ge> length rs then (ZTS_ERR_ARG, None)
             else let r = rs ! idx;
                      text = (\<lambda>a. case ntop api a of Some t \<Rightarrow> t | None \<Rightarrow> []);
                      via = text (route_via r)
                  in (ZTS_ERR_OK, Some (text (route_target r), if via = [] then ''0.0.0.0'' else via,
                                        route_flags r, route_metric r)))"

definition getMulticastSubAtIdx :: "u64 \<Rightarrow> nat \<Rightarrow> 'k NodeService \<Rightarrow> int \<times> (u64 \<times> u32) option" where
  "getMulticastSubAtIdx net_id idx s =
     (case find_net net_id s of
        None \<Rightarrow> (0, None)
      | Some n \<Rightarrow>
          let ms = cfg_multicastSubscriptions (net_config n)
          in if idx \<ge> length ms then (ZTS_ERR_ARG, None) else (ZTS_ERR_OK, Some (ms ! idx)))"

definition getPathAtIdx :: "u64 \<Rightarrow> nat \<Rightarrow> int" where
  "getPathAtIdx peer_id idx = ZTS_ERR_NO_RESULT"

definition ZTS_AF_INET :: nat where "ZTS_AF_INET = 2"
definition ZTS_AF_INET6 :: nat where "ZTS_AF_INET6 = 10"

fun has_family :: "nat \<Rightarrow> InetAddress \<Rightarrow> bool" where
  "has_family f a = ((isV4 a \<and> f = ZTS_AF_INET) \<or> (isV6 a \<and> f = ZTS_AF_INET6))"

definition getFirstAssignedAddr ::
  "'k svc_api \<Rightarrow> u64 \<Rightarrow> nat \<Rightarrow> bool \<Rightarrow> 'k NodeService \<Rightarrow> int \<times> InetAddress option" where
  "getFirstAssignedAddr api net_id family addr s =
     (if net_id = 0 \<or> (family \<noteq> ZTS_AF_INET \<and> family \<noteq> ZTS_AF_INET6) \<or> \<not> addr then (ZTS_ERR_ARG, None)
      else case find_net net_id s of
             None \<Rightarrow> (ZTS_ERR_NO_RESULT, None)
           | Some n \<Rightarrow>
               (case find (has_family family) (cfg_assignedAddresses (net_config n)) of
                  None \<Rightarrow> (ZTS_ERR_NO_RESULT, None)
                | Some a \<Rightarrow> (ZTS_ERR_OK, Some (native_ss_to_zts_ss api a))))"

text \<open>\<open>addr\<close> tells whether the output array is given, \<open>cnt\<close> is the value behind the
  pointer; the result is the array and the new count.\<close>

definition getAllAssignedAddr ::
  "'k svc_api \<Rightarrow> u64 \<Rightarrow> bool \<Rightarrow> nat option \<Rightarrow> 'k NodeService \<Rightarrow> int \<times> (InetAddress list \<times> nat) option" where
  "getAllAssignedAddr api net_id addr cnt s =
     (if net_id = 0 \<or> \<not> addr \<or> cnt \<noteq> Some ZTS_MAX_ASSIGNED_ADDRESSES then (ZTS_ERR_ARG, None)
      else case find_net net_id s of
             None \<Rightarrow> (ZTS_ERR_NO_RESULT, None)
           | Some n \<Rightarrow>
               let as = cfg_assignedAddresses (net_config n)
               in if length as = 0 then (ZTS_ERR_NO_RESULT, None)
                  else (ZTS_ERR_OK, Some (map (native_ss_to_zts_ss api) as, length as)))"

definition addrIsAssigned :: "'k svc_api \<Rightarrow> u64 \<Rightarrow> nat \<Rightarrow> 'k NodeService \<Rightarrow> int" where
  "addrIsAssigned api net_id family s =
     (if net_id = 0 then ZTS_ERR_ARG
      else if fst (getFirstAssignedAddr api net_id family True s) \<noteq> ZTS_ERR_NO_RESULT then 1 else 0)"

definition networkHasRoute :: "u64 \<Rightarrow> nat \<Rightarrow> 'k NodeService \<Rightarrow> int" where
  "networkHasRoute net_id family s =
     (case find_net net_id s of
        None \<Rightarrow> ZTS_ERR_NO_RESULT
      | Some n \<Rightarrow> if \<exists>r \<in> set (cfg_routes (net_config n)). has_family family (route_target r) then 1 else 0)"

text \<open>The queries that need a running service.\<close>

definition net_query :: "(ZT_VirtualNetworkConfig \<Rightarrow> int) \<Rightarrow> u64 \<Rightarrow> 'k NodeService \<Rightarrow> int" where
  "net_query f net_id s =
     (if \<not> ns_run s then ZTS_ERR_SERVICE
      else case find_net net_id s of None \<Rightarrow> ZTS_ERR_NO_RESULT | Some n \<Rightarrow> f (net_config n))"

definition getMACAddress :: "u64 \<Rightarrow> 'k NodeService \<Rightarrow> u64" where
  "getMACAddress net_id s =
     (if net_id = 0 then word_of_int ZTS_ERR_ARG
      else word_of_int (net_query (\<lambda>c. uint (cfg_mac c)) net_id s))"

definition getNetworkName :: "u64 \<Rightarrow> bool \<Rightarrow> nat \<Rightarrow> 'k NodeService \<Rightarrow> int \<times> string option" where
  "getNetworkName net_id dst len s =
     (if net_id = 0 \<or> \<not> dst \<or> len \<noteq> ZTS_MAX_NETWORK_SHORT_NAME_LENGTH then (ZTS_ERR_ARG, None)
      else if \<not> ns_run s \<or> \<not> ns_nodeIsOnline s then (ZTS_ERR_SERVICE, None)
      else case find_net net_id s of
             None \<Rightarrow> (ZTS_ERR_NO_RESULT, None)
           | Some n \<Rightarrow> (ZTS_ERR_OK, Some (take ZTS_MAX_NETWORK_SHORT_NAME_LENGTH (cfg_name (net_config n)))))"

definition getNetworkBroadcast :: "u64 \<Rightarrow> 'k NodeService \<Rightarrow> int" where
  "getNetworkBroadcast net_id s = (if net_id = 0 then ZTS_ERR_ARG else net_query cfg_broadcastEnabled net_id s)"

definition getNetworkMTU :: "u64 \<Rightarrow> 'k NodeService \<Rightarrow> int" where
  "getNetworkMTU = net_query (\<lambda>c. int (cfg_mtu c))"

definition getNetworkType :: "u64 \<Rightarrow> 'k NodeService \<Rightarrow> int" where
  "getNetworkType = net_query cfg_type"

definition getNetworkStatus :: "u64 \<Rightarrow> 'k NodeService \<Rightarrow> int" where
  "getNetworkStatus = net_query cfg_status"

subsection \<open>Paths and interfaces\<close>

definition tap_addresses :: "'k svc_api \<Rightarrow> 'k NodeService \<Rightarrow> InetAddress list" where
  "tap_addresses api s =
     concat (map (\<lambda>(_, n). case tap n of Some t \<Rightarrow> tap_ips api (tap_net_id t) (ns_env s) | None \<Rightarrow> []) (ns_nets s))"

definition nodePathCheckFunction :: "'k svc_api \<Rightarrow> u64 \<Rightarrow> InetAddress \<Rightarrow> 'k NodeService \<Rightarrow> int" where
  "nodePathCheckFunction api ztaddr remote s =
     (let listed = (\<lambda>l. \<exists>a \<in> set l. containsAddress api a remote);
          blh = (if isV4 remote then ns_v4Blacklists s else if isV6 remote then ns_v6Blacklists s else Map.empty);
          gbl = (if isV4 remote then ns_globalV4Blacklist s else if isV6 remote then ns_globalV6Blacklist s else [])
      in if listed (tap_addresses api s) then 0
         else if (case blh ztaddr of Some l \<Rightarrow> listed l | None \<Rightarrow> False) then 0
         else if listed gbl then 0 else 1)"

text \<open>The parameter \<open>family\<close> is unsigned, so the branch for negative values is never taken;
  \<open>rnd\<close> is the number \<open>_node->prng()\<close> returns.\<close>

definition nodePathLookupFunction :: "u64 \<Rightarrow> u64 \<Rightarrow> nat \<Rightarrow> nat \<Rightarrow> nat \<Rightarrow> 'k NodeService \<Rightarrow> int \<times> InetAddress option" where
  "nodePathLookupFunction rnd ztaddr AF_INET AF_INET6 family s =
     (let pick = (\<lambda>lh. case lh ztaddr of
                         Some l \<Rightarrow> if l \<noteq> [] then (1, Some (l ! (unat rnd mod length l))) else (0, None)
                       | None \<Rightarrow> (0, None))
      in if family = AF_INET then pick (ns_v4Hints s)
         else if family = AF_INET6 then pick (ns_v6Hints s) else (0, None))"

definition starts_with :: "string \<Rightarrow> string \<Rightarrow> bool" where
  "starts_with p s \<longleftrightarrow> take (length p) s = p"

text \<open>\<open>shouldBindInterface\<close> as compiled for Linux.\<close>

definition shouldBindInterface :: "'k svc_api \<Rightarrow> string \<Rightarrow> InetAddress \<Rightarrow> 'k NodeService \<Rightarrow> bool" where
  "shouldBindInterface api ifname ifaddr s =
     (if starts_with ''lo'' ifname then False
      else if starts_with ''zt'' ifname then False
      else if starts_with ''tun'' ifname then False
      else if starts_with ''tap'' ifname then False
      else if \<exists>p \<in> set (ns_interfacePrefixBlacklist s). starts_with p ifname then False
      else let gbl = (if isV4 ifaddr then ns_globalV4Blacklist s else if isV6 ifaddr then ns_globalV6Blacklist s else [])
           in if \<exists>a \<in> set gbl. containsAddress api a ifaddr then False
              else if \<exists>i \<in> set (tap_addresses api s). ipsEqual api i ifaddr then False
              else True)"

subsection \<open>What the operations leave alone\<close>

text \<open>Sending an event only changes the environment.\<close>

lemma send_env: "sendEventToUser api code src len s = s\<lparr>ns_env := ns_env (sendEventToUser api code src len s)\<rparr>"
  by (simp add: sendEventToUser_def split: option.split)

lemma send_fields [simp]:
  "ns_nets (sendEventToUser api code src len s) = ns_nets s"
  "ns_fault (sendEventToUser api code src len s) = ns_fault s"
  "ns_events (sendEventToUser api code src len s) = ns_events s"
  "ns_homePath (sendEventToUser api code src len s) = ns_homePath s"
  "ns_run (sendEventToUser api code src len s) = ns_run s"
  "ns_allowNetworkCaching (sendEventToUser api code src len s) = ns_allowNetworkCaching s"
  "ns_allowPeerCaching (sendEventToUser api code src len s) = ns_allowPeerCaching s"
  "ns_allowIdentityCaching (sendEventToUser api code src len s) = ns_allowIdentityCaching s"
  "ns_allowRootSetCaching (sendEventToUser api code src len s) = ns_allowRootSetCaching s"
  "ns_termReason (sendEventToUser api code src len s) = ns_termReason s"
  "ns_node (sendEventToUser api code src len s) = ns_node s"
  "ns_tcp_heap (sendEventToUser api code src len s) = ns_tcp_heap s"
  "ns_tcpConnections (sendEventToUser api code src len s) = ns_tcpConnections s"
  "ns_tcpFallbackTunnel (sendEventToUser api code src len s) = ns_tcpFallbackTunnel s"
  "ns_nuptrs (sendEventToUser api code src len s) = ns_nuptrs s"
  "ns_rootsData (sendEventToUser api code src len s) = ns_rootsData s"
  by (simp_all add: sendEventToUser_def split: option.split)

lemma send_addr_env: "\<exists>k. send_addr_event api c4 c6 tid ip s = s\<lparr>ns_env := k\<rparr>"
  using send_env [of api c4 "SrcAddr tid (raw_ip ip)" 0 s] send_env [of api c6 "SrcAddr tid (raw_ip ip)" 0 s]
  by (auto simp: send_addr_event_def intro: exI [of _ "ns_env s"])

lemma sync_removed_env: "\<exists>k. sync_removed api tid new ips s = s\<lparr>ns_env := k\<rparr>"
proof (induction ips arbitrary: s)
  case Nil
  show ?case by (auto intro: exI [of _ "ns_env s"])
next
  case (Cons ip ips)
  obtain ok k where r: "tap_removeIp api tid ip (ns_env s) = (ok, k)" by fastforce
  obtain k1 where "send_addr_event api ZTS_EVENT_ADDR_REMOVED_IP4 ZTS_EVENT_ADDR_REMOVED_IP6 tid ip (s\<lparr>ns_env := k\<rparr>)
      = s\<lparr>ns_env := k1\<rparr>"
    using send_addr_env [of api _ _ tid ip "s\<lparr>ns_env := k\<rparr>"] by fastforce
  then show ?case
    using r Cons [of s] Cons [of "s\<lparr>ns_env := k1\<rparr>"] Cons [of "s\<lparr>ns_env := k\<rparr>"] by (auto simp: Let_def)
qed

lemma sync_added_env: "\<exists>k. sync_added api tid old ips s = s\<lparr>ns_env := k\<rparr>"
proof (induction ips arbitrary: s)
  case Nil
  show ?case by (auto intro: exI [of _ "ns_env s"])
next
  case (Cons ip ips)
  obtain ok k where r: "tap_addIp api tid ip (ns_env s) = (ok, k)" by fastforce
  obtain k1 where "send_addr_event api ZTS_EVENT_ADDR_ADDED_IP4 ZTS_EVENT_ADDR_ADDED_IP6 tid ip (s\<lparr>ns_env := k\<rparr>)
      = s\<lparr>ns_env := k1\<rparr>"
    using send_addr_env [of api _ _ tid ip "s\<lparr>ns_env := k\<rparr>"] by fastforce
  then show ?case
    using r Cons [of s] Cons [of "s\<lparr>ns_env := k1\<rparr>"] Cons [of "s\<lparr>ns_env := k\<rparr>"] by (auto simp: Let_def)
qed

lemma syncManagedStuff_env:
  "\<exists>k. syncManagedStuff api t n s = (n\<lparr>managedIps := new_managed_ips api n\<rparr>, s\<lparr>ns_env := k\<rparr>)"
  using sync_removed_env [of api "tap_net_id t" "new_managed_ips api n" "managedIps n" s]
    sync_added_env [of api "tap_net_id t" "managedIps n" "new_managed_ips api n"
      "sync_removed api (tap_net_id t) (new_managed_ips api n) (managedIps n) s"]
  by (auto simp: syncManagedStuff_def Let_def)

subsection \<open>The table of networks\<close>

text \<open>The keys ascend and every entry has a tap of its own network.\<close>

definition nets_ok :: "'k NodeService \<Rightarrow> bool" where
  "nets_ok s \<longleftrightarrow> sorted (map fst (ns_nets s)) \<and> distinct (map fst (ns_nets s))
     \<and> (\<forall>(net_id, n) \<in> set (ns_nets s). \<exists>t. tap n = Some t \<and> tap_net_id t = net_id)"

lemma nets_ok_cong: "ns_nets s' = ns_nets s \<Longrightarrow> nets_ok s' = nets_ok s"
  by (simp add: nets_ok_def)

lemma set_map_put: "set (map_put k v xs) \<subseteq> insert (k, v) (set xs)"
  by (induction k v xs rule: map_put.induct) auto

lemma nets_ok_put:
  assumes "nets_ok s" "tap n = Some t" "tap_net_id t = net_id" "ns_nets s' = map_put net_id n (ns_nets s)"
  shows "nets_ok s'"
  using assms sorted_map_put [of "ns_nets s" net_id n] set_map_put [of net_id n "ns_nets s"]
  by (auto simp: nets_ok_def)

lemma set_delete: "set (AList.delete k xs) \<subseteq> set xs"
  by (auto simp: AList.delete_eq)

lemma keys_delete: "map fst (AList.delete k xs) = filter (\<lambda>k'. k' \<noteq> k) (map fst xs)"
  by (induction xs) auto

lemma nets_ok_delete:
  assumes "nets_ok s" "ns_nets s' = AList.delete net_id (ns_nets s)"
  shows "nets_ok s'"
  using assms set_delete [of net_id "ns_nets s"]
  by (auto simp: nets_ok_def keys_delete sorted_wrt_filter intro!: distinct_filter)

lemma nets_ok_find: "nets_ok s \<Longrightarrow> map_of (ns_nets s) m = Some n \<Longrightarrow> \<exists>t. tap n = Some t \<and> tap_net_id t = m"
  by (auto simp: nets_ok_def dest: map_of_SomeD)

lemma net_up_tap:
  assumes "net_up api m nwc n p s = (n', p', s')" "\<And>t. tap n = Some t \<Longrightarrow> tap_net_id t = m"
  shows "ns_nets s' = ns_nets s \<and> ns_fault s' = ns_fault s \<and> ns_events s' = ns_events s
    \<and> (\<exists>t. tap n' = Some t \<and> tap_net_id t = m)"
  using assms by (auto simp: net_up_def split: option.splits prod.splits)

lemma net_update_nets:
  assumes "net_update api m b nwc n s = (rc, s')" "tap n = Some t"
  shows "ns_nets s' = map_put m (n\<lparr>net_config := nwc, managedIps := new_managed_ips api (n\<lparr>net_config := nwc\<rparr>)\<rparr>) (ns_nets s)
    \<and> ns_fault s' = ns_fault s \<and> ns_events s' = ns_events s \<and> rc = 0"
proof -
  obtain k where k: "syncManagedStuff api t (n\<lparr>net_config := nwc\<rparr>) s =
      (n\<lparr>net_config := nwc, managedIps := new_managed_ips api (n\<lparr>net_config := nwc\<rparr>)\<rparr>, s\<lparr>ns_env := k\<rparr>)"
    using syncManagedStuff_env [of api t "n\<lparr>net_config := nwc\<rparr>" s] by auto
  from assms show ?thesis by (cases b) (auto simp: net_update_def k Let_def)
qed

lemma net_update_ok:
  assumes "net_update api m b nwc n s = (rc, s')" "tap n = Some t" "tap_net_id t = m" "nets_ok s"
  shows "nets_ok s' \<and> ns_fault s' = ns_fault s \<and> ns_events s' = ns_events s"
  using net_update_nets [OF assms(1,2)] assms(2)
    nets_ok_put [OF assms(4) _ assms(3),
      of "n\<lparr>net_config := nwc, managedIps := new_managed_ips api (n\<lparr>net_config := nwc\<rparr>)\<rparr>" s']
  by simp

lemma net_down_nets:
  "net_down api m d n p s = (rc, p', s') \<Longrightarrow>
   ns_nets s' = AList.delete m (ns_nets s) \<and> ns_fault s' = ns_fault s \<and> ns_events s' = ns_events s"
  by (auto simp: net_down_def Let_def split: option.splits if_splits)

lemmas net_ops = nodeVirtualNetworkConfigFunction_def Let_def

text \<open>The effect of the callback on the table of networks.\<close>

lemma config_function_nets:
  assumes "nodeVirtualNetworkConfigFunction api m p op nwc s = (rc, p', s')" "nets_ok s"
  shows "nets_ok s' \<and> ns_fault s' = ns_fault s \<and> ns_events s' = ns_events s"
proof -
  let ?n = "case map_of (ns_nets s) m of Some n \<Rightarrow> n | None \<Rightarrow> NetworkState_new api"
  have t: "tap_net_id t = m" if "tap ?n = Some t" for t
    using that nets_ok_find [OF assms(2), of m] by (fastforce simp: NetworkState_new_def split: option.splits)
  show ?thesis
  proof (cases op)
    case ZT_VIRTUAL_NETWORK_CONFIG_OPERATION_UP
    obtain n1 p1 s1 where u: "net_up api m nwc ?n p s = (n1, p1, s1)" by (cases "net_up api m nwc ?n p s")
    obtain s2 rc2 where v: "net_update api m False nwc n1 s1 = (rc2, s2)" by fastforce
    from net_up_tap [OF u t] obtain t1 where t1: "tap n1 = Some t1" "tap_net_id t1 = m" "ns_nets s1 = ns_nets s"
      "ns_fault s1 = ns_fault s" "ns_events s1 = ns_events s" by blast
    have "s' = s2" using assms(1) u v ZT_VIRTUAL_NETWORK_CONFIG_OPERATION_UP by (simp add: net_ops)
    then show ?thesis
      using net_update_ok [OF v t1(1,2)] t1(3-5) assms(2) by (simp add: nets_ok_cong [of s1 s])
  next
    case ZT_VIRTUAL_NETWORK_CONFIG_OPERATION_CONFIG_UPDATE
    obtain s2 rc2 where v: "net_update api m True nwc ?n s = (rc2, s2)" by fastforce
    have s: "s' = s2" using assms(1) v ZT_VIRTUAL_NETWORK_CONFIG_OPERATION_CONFIG_UPDATE by (simp add: net_ops)
    show ?thesis
    proof (cases "tap ?n")
      case None
      then have "s2 = s\<lparr>ns_nets := AList.delete m (ns_nets s)\<rparr>" using v by (auto simp: net_update_def Let_def)
      then show ?thesis using s assms(2) by (auto intro: nets_ok_delete)
    next
      case (Some t0)
      then show ?thesis using s net_update_ok [OF v Some t assms(2)] by simp
    qed
  qed (use assms in \<open>auto simp: net_ops dest!: net_down_nets intro: nets_ok_delete\<close>)
qed

subsection \<open>Addresses of the taps\<close>

lemma set_insert_by [simp]: "set (insert_by lt x xs) = insert x (set xs)"
  by (induction xs) auto

lemma set_std_sort [simp]: "set (std_sort lt xs) = set xs"
  by (induction xs) (auto simp: std_sort_def)

lemma set_new_managed_ips [simp]: "set (new_managed_ips api n) = set (cfg_assignedAddresses (net_config n))"
  by (simp add: new_managed_ips_def)

text \<open>With a strict total order the result of the sort is sorted and free of duplicates.\<close>

definition strict_order :: "('a \<Rightarrow> 'a \<Rightarrow> bool) \<Rightarrow> bool" where
  "strict_order lt \<longleftrightarrow> (\<forall>x. \<not> lt x x) \<and> (\<forall>x y z. lt x y \<longrightarrow> lt y z \<longrightarrow> lt x z) \<and> (\<forall>x y. x \<noteq> y \<longrightarrow> lt x y \<or> lt y x)"

lemma insert_by_sorted:
  assumes "strict_order lt" "sorted_wrt (\<lambda>x y. \<not> lt y x) xs"
  shows "sorted_wrt (\<lambda>x y. \<not> lt y x) (insert_by lt x xs)"
  using assms(2)
proof (induction xs)
  case (Cons y ys)
  have o: "\<not> lt b a" if "\<not> lt b c" "\<not> lt c a" for a b c
    using assms(1) that unfolding strict_order_def by metis
  have i: "\<not> lt x y" if "lt y x" using assms(1) that unfolding strict_order_def by metis
  show ?case
  proof (cases "lt y x")
    case True
    then show ?thesis using Cons i by simp
  next
    case False
    then have "\<not> lt z x" if "z \<in> set ys" for z using Cons.prems that o by auto
    then show ?thesis using Cons.prems False by simp
  qed
qed simp

lemma std_sort_sorted: "strict_order lt \<Longrightarrow> sorted_wrt (\<lambda>x y. \<not> lt y x) (std_sort lt xs)"
  by (induction xs) (auto simp: std_sort_def intro: insert_by_sorted)

lemma remdups_adj_strict:
  assumes "strict_order lt" "sorted_wrt (\<lambda>x y. \<not> lt y x) xs"
  shows "sorted_wrt lt (remdups_adj xs)"
  using assms(2)
proof (induction xs rule: remdups_adj.induct)
  case (3 x y xs)
  have o: "lt a c" if "lt a b" "\<not> lt c b" for a b c
    using assms(1) that unfolding strict_order_def by metis
  show ?case
  proof (cases "x = y")
    case True
    then show ?thesis using 3 by simp
  next
    case False
    then have "lt x y" using 3(3) assms(1) unfolding strict_order_def by auto
    then have "lt x z" if "z \<in> set (y # xs)" for z using that 3(3) o [of x y z] by auto
    then show ?thesis using False 3 by auto
  qed
qed simp_all

text \<open>The addresses on the tap of each network.\<close>

definition tap_addrs :: "'k svc_api \<Rightarrow> 'k \<Rightarrow> u64 \<Rightarrow> InetAddress set" where
  "tap_addrs api k m = set (tap_ips api m k)"

text \<open>What the service relies on of the taps and of the calls that have nothing to do with
  them.\<close>

locale tap_contract =
  fixes api :: "'k svc_api"
  assumes new_tap: "tap_new api h mac mtu m k = (st, k') \<Longrightarrow> tap_addrs api k' = (tap_addrs api k)(m := {})"
    and add_ip: "tap_addIp api m ip k = (ok, k') \<Longrightarrow>
      ok \<and> tap_addrs api k' = (tap_addrs api k)(m := insert ip (tap_addrs api k m))"
    and remove_ip: "tap_removeIp api m ip k = (ok, k') \<Longrightarrow>
      ok \<and> tap_addrs api k' = (tap_addrs api k)(m := tap_addrs api k m - {ip})"
    and delete_tap: "m' \<noteq> m \<Longrightarrow> tap_addrs api (tap_delete api m k) m' = tap_addrs api k m'"
    and mtu_keeps [simp]: "tap_addrs api (tap_setMtu api m v k) = tap_addrs api k"
    and events_keeps [simp]: "tap_addrs api (tap_setUserEventSystem api m k) = tap_addrs api k"
    and put_keeps [simp]: "tap_addrs api (tap_put api m a b e d k) = tap_addrs api k"
    and enqueue_keeps [simp]: "tap_addrs api (snd (events_enqueue api c obj l k)) = tap_addrs api k"
    and disable_keeps [simp]: "tap_addrs api (events_disable api k) = tap_addrs api k"
    and whack_keeps [simp]: "tap_addrs api (phy_whack api k) = tap_addrs api k"
    and rm_keeps [simp]: "tap_addrs api (fs_rm api q k) = tap_addrs api k"
    and write_keeps [simp]: "tap_addrs api (snd (fs_write api q d k)) = tap_addrs api k"
    and mkdir_keeps [simp]: "tap_addrs api (snd (fs_mkdir api q k)) = tap_addrs api k"
    and lock_keeps [simp]: "tap_addrs api (fs_lockDownFile api q k) = tap_addrs api k"
begin

lemma send_addrs [simp]: "tap_addrs api (ns_env (sendEventToUser api c src l s)) = tap_addrs api (ns_env s)"
  by (simp add: sendEventToUser_def split: option.split)

lemma send_addr_addrs [simp]: "tap_addrs api (ns_env (send_addr_event api c4 c6 tid ip s)) = tap_addrs api (ns_env s)"
  by (simp add: send_addr_event_def)

lemma sync_removed_addrs:
  "tap_addrs api (ns_env (sync_removed api tid new ips s)) =
     (tap_addrs api (ns_env s))(tid := tap_addrs api (ns_env s) tid - (set ips - set new))"
proof (induction ips arbitrary: s)
  case (Cons ip ips)
  obtain ok k where r: "tap_removeIp api tid ip (ns_env s) = (ok, k)" by fastforce
  from remove_ip [OF r] Cons show ?case by (auto simp: r Let_def fun_eq_iff)
qed simp

lemma sync_added_addrs:
  "tap_addrs api (ns_env (sync_added api tid old ips s)) =
     (tap_addrs api (ns_env s))(tid := tap_addrs api (ns_env s) tid \<union> (set ips - set old))"
proof (induction ips arbitrary: s)
  case (Cons ip ips)
  obtain ok k where r: "tap_addIp api tid ip (ns_env s) = (ok, k)" by fastforce
  from add_ip [OF r] Cons show ?case by (auto simp: r Let_def fun_eq_iff)
qed simp

lemma sync_addrs:
  assumes "syncManagedStuff api t n s = (n', s')" "tap_addrs api (ns_env s) (tap_net_id t) = set (managedIps n)"
  shows "tap_addrs api (ns_env s') =
    (tap_addrs api (ns_env s))(tap_net_id t := set (cfg_assignedAddresses (net_config n)))"
  using assms by (auto simp: syncManagedStuff_def Let_def sync_added_addrs sync_removed_addrs fun_eq_iff)

end

text \<open>Every tap carries exactly the addresses its network was last assigned.\<close>

definition net_synced :: "'k svc_api \<Rightarrow> 'k \<Rightarrow> u64 \<times> NetworkState \<Rightarrow> bool" where
  "net_synced api k e \<longleftrightarrow>
     tap_addrs api k (fst e) = set (cfg_assignedAddresses (net_config (snd e)))
     \<and> set (managedIps (snd e)) = set (cfg_assignedAddresses (net_config (snd e)))"

definition nets_synced :: "'k svc_api \<Rightarrow> 'k NodeService \<Rightarrow> bool" where
  "nets_synced api s \<longleftrightarrow> (\<forall>e \<in> set (ns_nets s). net_synced api (ns_env s) e)"

context tap_contract
begin

lemma net_update_synced:
  assumes "net_update api m b nwc n s = (rc, s')" "tap n = Some t" "tap_net_id t = m"
    "tap_addrs api (ns_env s) m = set (managedIps n)"
    "\<forall>e \<in> set (ns_nets s). fst e \<noteq> m \<longrightarrow> net_synced api (ns_env s) e"
    "distinct (map fst (ns_nets s))" "sorted (map fst (ns_nets s))"
  shows "nets_synced api s'"
proof -
  obtain n' s1 where y: "syncManagedStuff api t (n\<lparr>net_config := nwc\<rparr>) s = (n', s1)" by fastforce
  have n': "n' = n\<lparr>net_config := nwc, managedIps := new_managed_ips api (n\<lparr>net_config := nwc\<rparr>)\<rparr>"
    using y syncManagedStuff_env [of api t "n\<lparr>net_config := nwc\<rparr>" s] by auto
  have a: "tap_addrs api (ns_env s') = (tap_addrs api (ns_env s))(m := set (cfg_assignedAddresses nwc))"
    using assms(1-4) y sync_addrs [OF y] by (cases b) (auto simp: net_update_def Let_def)
  have "ns_nets s' = map_put m n' (ns_nets s)" using net_update_nets [OF assms(1,2)] n' by simp
  moreover have "e = (m, n')" if "e \<in> set (map_put m n' (ns_nets s))" "fst e = m" for e
    using that sorted_map_put [OF assms(7,6), of m n'] map_of_map_put [of m n' "ns_nets s"]
    by (metis eq_key_imp_eq_value fun_upd_same map_of_SomeD prod.collapse)
  ultimately show ?thesis
    using assms(5) set_map_put [of m n' "ns_nets s"] a n'
    by (fastforce simp: nets_synced_def net_synced_def)
qed

lemma net_up_synced:
  assumes "net_up api m nwc n p s = (n', p', s')"
    "n = (case map_of (ns_nets s) m of Some n \<Rightarrow> n | None \<Rightarrow> NetworkState_new api)" "nets_ok s" "nets_synced api s"
  shows "tap_addrs api (ns_env s') m = set (managedIps n')
    \<and> (\<forall>e \<in> set (ns_nets s'). fst e \<noteq> m \<longrightarrow> net_synced api (ns_env s') e)"
proof (cases "map_of (ns_nets s) m")
  case None
  obtain st k where k: "tap_new api (ns_homePath s) (cfg_mac nwc) (cfg_mtu nwc) m (ns_env s) = (st, k)" by fastforce
  have "n'= n\<lparr>tap := Some \<lparr>tap_net_id = m, tap_networkStatus = st\<rparr>\<rparr>"
    "s' = s\<lparr>ns_env := tap_setUserEventSystem api m k\<rparr>" "managedIps n = []"
    using assms(1,2) None k by (auto simp: net_up_def NetworkState_new_def)
  then show ?thesis using new_tap [OF k] assms(4) by (auto simp: nets_synced_def net_synced_def)
next
  case (Some n0)
  then obtain t where "tap n = Some t" using nets_ok_find [OF assms(3) Some] assms(2) by auto
  then show ?thesis
    using assms(1,2,4) Some map_of_SomeD [OF Some] by (fastforce simp: net_up_def nets_synced_def net_synced_def)
qed

lemma net_down_synced:
  assumes "net_down api m d n p s = (rc, p', s')" "nets_synced api s" "\<And>t. tap n = Some t \<Longrightarrow> tap_net_id t = m"
  shows "nets_synced api s'"
proof -
  have k: "tap_addrs api (ns_env s') j = tap_addrs api (ns_env s) j" if "j \<noteq> m" for j
    using assms(1,3) that by (auto simp: net_down_def Let_def delete_tap split: option.splits if_splits)
  have "fst e \<noteq> m \<and> e \<in> set (ns_nets s)" if "e \<in> set (ns_nets s')" for e
    using that net_down_nets [OF assms(1)] by (auto simp: AList.delete_eq)
  then show ?thesis using assms(2) k by (auto simp: nets_synced_def net_synced_def)
qed

lemma config_function_synced:
  assumes "nodeVirtualNetworkConfigFunction api m p op nwc s = (rc, p', s')" "nets_ok s" "nets_synced api s"
  shows "nets_synced api s'"
proof -
  let ?n = "case map_of (ns_nets s) m of Some n \<Rightarrow> n | None \<Rightarrow> NetworkState_new api"
  have t: "tap_net_id t = m" if "tap ?n = Some t" for t
    using that nets_ok_find [OF assms(2), of m] by (fastforce simp: NetworkState_new_def split: option.splits)
  have o: "distinct (map fst (ns_nets s))" "sorted (map fst (ns_nets s))" using assms(2) by (auto simp: nets_ok_def)
  show ?thesis
  proof (cases op)
    case ZT_VIRTUAL_NETWORK_CONFIG_OPERATION_UP
    obtain n1 p1 s1 where u: "net_up api m nwc ?n p s = (n1, p1, s1)" by (cases "net_up api m nwc ?n p s")
    obtain s2 rc2 where v: "net_update api m False nwc n1 s1 = (rc2, s2)" by fastforce
    from net_up_tap [OF u t] obtain t1 where t1: "tap n1 = Some t1" "tap_net_id t1 = m" "ns_nets s1 = ns_nets s" by blast
    have "s' = s2" using assms(1) u v ZT_VIRTUAL_NETWORK_CONFIG_OPERATION_UP by (simp add: net_ops)
    then show ?thesis
      using net_update_synced [OF v t1(1,2)] net_up_synced [OF u refl assms(2,3)] o t1(3) by simp
  next
    case ZT_VIRTUAL_NETWORK_CONFIG_OPERATION_CONFIG_UPDATE
    obtain s2 rc2 where v: "net_update api m True nwc ?n s = (rc2, s2)" by fastforce
    have s: "s' = s2" using assms(1) v ZT_VIRTUAL_NETWORK_CONFIG_OPERATION_CONFIG_UPDATE by (simp add: net_ops)
    show ?thesis
    proof (cases "map_of (ns_nets s) m")
      case None
      then have "s2 = s\<lparr>ns_nets := AList.delete m (ns_nets s)\<rparr>"
        using v by (auto simp: net_update_def NetworkState_new_def Let_def)
      then show ?thesis using s assms(3) set_delete [of m "ns_nets s"] by (auto simp: nets_synced_def)
    next
      case (Some n0)
      obtain t0 where t0: "tap ?n = Some t0" using nets_ok_find [OF assms(2) Some] Some by auto
      have "tap_addrs api (ns_env s) m = set (managedIps ?n)"
        using assms(3) Some map_of_SomeD [OF Some] by (fastforce simp: nets_synced_def net_synced_def)
      from net_update_synced [OF v t0 t [OF t0] this _ o] show ?thesis using s assms(3) by (simp add: nets_synced_def)
    qed
  qed (use assms(1,3) net_down_synced [OF _ assms(3) t] in \<open>auto simp: net_ops\<close>)
qed

end

subsection \<open>File names of stored objects\<close>

lemma hex_char_value_digit: "d < 16 \<Longrightarrow> hex_char_value (hex_digit d) = Some d"
  by (auto simp: hex_char_value_def hex_digit_def Let_def of_char_of)

lemma strtoull_digits_snoc:
  "\<forall>c \<in> set s. hex_char_value c \<noteq> None \<Longrightarrow> d < 16 \<Longrightarrow>
   strtoull_digits acc (s @ [hex_digit d]) = 16 * strtoull_digits acc s + d"
  by (induction s arbitrary: acc) (auto simp: hex_char_value_digit)

lemma hex_str_digits: "\<forall>c \<in> set (hex_str n). hex_char_value c \<noteq> None"
  by (induction n rule: hex_str.induct) (subst hex_str.simps, auto simp: hex_char_value_digit)

lemma strtoull_hex_str: "strtoull_digits 0 (hex_str n) = n"
proof (induction n rule: hex_str.induct)
  case (1 n)
  then show ?case
    using strtoull_digits_snoc [OF hex_str_digits, of "n mod 16" 0 "n div 16"]
    by (subst hex_str.simps) (auto simp: hex_char_value_digit)
qed

lemma strtoull_digits_zeros: "strtoull_digits 0 (replicate m (CHR ''0'') @ s) = strtoull_digits 0 s"
  by (induction m) (auto simp: hex_char_value_def)

lemma strtoull_hex_pad: "strtoull_digits 0 (hex_pad w n) = unat n"
  by (simp add: hex_pad_def Let_def strtoull_digits_zeros strtoull_hex_str)

lemma hex_pad_inject [simp]: "hex_pad w m = hex_pad w n \<longleftrightarrow> m = n"
  using strtoull_hex_pad by (metis unsigned_word_eqI)

lemma length_hex_str: "n < 16 ^ Suc w \<Longrightarrow> length (hex_str n) \<le> Suc w"
proof (induction w arbitrary: n)
  case 0
  then show ?case by (subst hex_str.simps) simp
next
  case (Suc w)
  show ?case
  proof (cases "n < 16")
    case False
    then show ?thesis using Suc.IH [of "n div 16"] Suc.prems by (subst hex_str.simps) (simp add: div_less_iff_less_mult)
  qed (subst hex_str.simps, simp)
qed

lemma length_hex_pad16: "length (hex_pad 16 n) = 16"
proof -
  have "unat n < 2 ^ LENGTH(64)" by (rule unsigned_less)
  then show ?thesis using length_hex_str [of "unat n" 15] by (simp add: hex_pad_def Let_def)
qed

definition network_conf_path :: "string \<Rightarrow> u64 \<Rightarrow> string" where
  "network_conf_path home i = networks_d home @ ''/'' @ hex_pad 16 i @ ''.conf''"

lemma network_conf_path_inject [simp]: "network_conf_path home i = network_conf_path home j \<longleftrightarrow> i = j"
  by (simp add: network_conf_path_def)

subsection \<open>The state store returns what was stored\<close>

text \<open>The laws of files: what was written is read, other files and other calls do not matter.\<close>

locale fs_contract =
  fixes api :: "'k svc_api"
  assumes write_read: "fs_write api p d k = (True, k') \<Longrightarrow> fs_read api p k' = Some d"
    and write_other: "q \<noteq> p \<Longrightarrow> fs_read api q (snd (fs_write api p d k)) = fs_read api q k"
    and mkdir_read: "fs_read api q (snd (fs_mkdir api dir k)) = fs_read api q k"
    and lock_read: "fs_read api q (fs_lockDownFile api p k) = fs_read api q k"
    and rm_read: "fs_read api p (fs_rm api p k) = None"
    and rm_other: "q \<noteq> p \<Longrightarrow> fs_read api q (fs_rm api p k) = fs_read api q k"
begin

lemma write_object_read:
  assumes "length data < 65535"
    "fst (fs_write api p data k) \<or>
     (\<exists>d. dirname = Some d \<and> fst (fs_write api p data (snd (fs_mkdir api d (snd (fs_write api p data k))))))"
  shows "fs_read api p (write_object api (p, dirname, secure) data k) = Some data"
proof (cases "case fs_read api p k of Some old \<Rightarrow> take 65535 old = data | None \<Rightarrow> False")
  case True
  then obtain old where o: "fs_read api p k = Some old" "take 65535 old = data" by (auto split: option.splits)
  then have "old = data" using assms(1) by (metis length_take min_less_iff_conj nat_neq_iff take_all_iff less_or_eq_imp_le)
  then show ?thesis using True o by (simp add: write_object_def)
next
  case False
  obtain b k1 where w: "fs_write api p data k = (b, k1)" by fastforce
  show ?thesis
  proof (cases b)
    case True
    then show ?thesis using False w write_read [of p data k k1] by (simp add: write_object_def lock_read)
  next
    case b: False
    then obtain d where d: "dirname = Some d" "fst (fs_write api p data (snd (fs_mkdir api d k1)))"
      using assms(2) w by auto
    then obtain k2 where k2: "fs_write api p data (snd (fs_mkdir api d k1)) = (True, k2)" by (metis prod.collapse)
    then show ?thesis using False w b d write_read [OF k2] by (simp add: write_object_def lock_read)
  qed
qed

lemma write_object_other:
  "q \<noteq> p \<Longrightarrow> fs_read api q (write_object api (p, dirname, secure) data k) = fs_read api q k"
  using write_other [of q p data]
  by (auto simp: write_object_def lock_read mkdir_read split: prod.splits bool.splits option.splits)
     (metis mkdir_read snd_conv)+

end

lemma object_file_network:
  "ns_homePath s \<noteq> [] \<Longrightarrow> ns_allowNetworkCaching s \<Longrightarrow>
   object_file ZT_STATE_OBJECT_NETWORK_CONFIG i s =
     Some (network_conf_path (ns_homePath s) i, Some (networks_d (ns_homePath s)), True)"
  by (simp add: object_file_def network_conf_path_def Let_def)

lemma get_network_config:
  "nodeStateGetFunction api ZT_STATE_OBJECT_NETWORK_CONFIG i maxlen s =
     read_object api (network_conf_path (ns_homePath s) i) maxlen (ns_env s)"
  by (simp add: nodeStateGetFunction_def network_conf_path_def)

subsection \<open>A simulated environment\<close>

text \<open>Files, taps, events, datagrams and a stream that takes 16 bytes at a time, in memory.\<close>

record sim_env =
  se_files :: "(string \<times> bytes) list"
  se_taps :: "(u64 \<times> InetAddress list) list"
  se_events :: "(zts_event \<times> event_obj) list"
  se_stream :: bytes
  se_udp :: "(InetAddress \<times> bytes) list"

definition sim_start :: sim_env where
  "sim_start = \<lparr>se_files = [], se_taps = [], se_events = [], se_stream = [], se_udp = []\<rparr>"

fun inet_key :: "InetAddress \<Rightarrow> nat list" where
  "inet_key InetNil = [0]"
| "inet_key (InetV4 b p) = [2, unat p] @ map unat b"
| "inet_key (InetV6 b p) = [10, unat p] @ map unat b"

fun lex_less :: "nat list \<Rightarrow> nat list \<Rightarrow> bool" where
  "lex_less [] ys = (ys \<noteq> [])"
| "lex_less (x # xs) [] = False"
| "lex_less (x # xs) (y # ys) = (x < y \<or> (x = y \<and> lex_less xs ys))"

definition sim_tap :: "u64 \<Rightarrow> sim_env \<Rightarrow> InetAddress list" where
  "sim_tap m k = (case map_of (se_taps k) m of Some as \<Rightarrow> as | None \<Rightarrow> [])"

definition sim_config :: ZT_VirtualNetworkConfig where
  "sim_config = \<lparr>cfg_nwid = 0, cfg_mac = 0, cfg_name = [], cfg_status = 0, cfg_type = 0, cfg_mtu = 2800, cfg_dhcp = 0,
     cfg_bridge = 0, cfg_broadcastEnabled = 0, cfg_portError = 0, cfg_netconfRevision = 0, cfg_assignedAddresses = [],
     cfg_routes = [], cfg_multicastSubscriptions = []\<rparr>"

definition sim_api :: "sim_env svc_api" where
  "sim_api =
     \<lparr>fs_read = (\<lambda>p k. map_of (se_files k) p), fs_write = (\<lambda>p d k. (True, k\<lparr>se_files := (p, d) # se_files k\<rparr>)),
      fs_mkdir = (\<lambda>p k. (True, k)), fs_rm = (\<lambda>p k. k\<lparr>se_files := AList.delete p (se_files k)\<rparr>),
      fs_lockDownFile = (\<lambda>p k. k), fs_listDirectory = (\<lambda>p k. []), fs_cleanDirectory = (\<lambda>p t k. k),
      events_enqueue = (\<lambda>c obj l k. (True, k\<lparr>se_events := se_events k @ [(c, obj)]\<rparr>)),
      events_enable = id, events_disable = id,
      tap_new = (\<lambda>h mac mtu m k. (0, k\<lparr>se_taps := (m, []) # se_taps k\<rparr>)),
      tap_delete = (\<lambda>m k. k\<lparr>se_taps := AList.delete m (se_taps k)\<rparr>), tap_setUserEventSystem = (\<lambda>m k. k),
      tap_setMtu = (\<lambda>m v k. k),
      tap_addIp = (\<lambda>m ip k. (True, k\<lparr>se_taps := (m, ip # sim_tap m k) # se_taps k\<rparr>)),
      tap_removeIp = (\<lambda>m ip k. (True, k\<lparr>se_taps := (m, removeAll ip (sim_tap m k)) # se_taps k\<rparr>)),
      tap_ips = sim_tap, tap_hasIpv4Addr = (\<lambda>m k. \<exists>a \<in> set (sim_tap m k). isV4 a),
      tap_hasIpv6Addr = (\<lambda>m k. \<exists>a \<in> set (sim_tap m k). isV6 a), tap_netif4_up = (\<lambda>m k. True),
      tap_netif6_up = (\<lambda>m k. True), tap_put = (\<lambda>m a b e d k. k), lwip_is_up = (\<lambda>k. True), phy_whack = id,
      phy_udpBind4 = (\<lambda>p k. (True, k)), phy_udpBind6 = (\<lambda>p k. (True, k)),
      phy_streamSend = (\<lambda>sock d k. (int (min 16 (length d)), k\<lparr>se_stream := se_stream k @ take 16 d\<rparr>)),
      phy_setNotifyWritable = (\<lambda>sock b k. k), phy_tcpConnect = (\<lambda>a tc k. k), phy_setIp4UdpTtl = (\<lambda>sock ttl k. k),
      phy_udpSend = (\<lambda>sock a d k. (True, k\<lparr>se_udp := se_udp k @ [(a, d)]\<rparr>)),
      binder_isUdpSocketValid = (\<lambda>sock k. True),
      binder_udpSendAll = (\<lambda>a d ttl k. (True, k\<lparr>se_udp := se_udp k @ [(a, d)]\<rparr>)),
      inet_less = (\<lambda>a b. lex_less (inet_key a) (inet_key b)), inet_fromString = (\<lambda>t. InetV4 [204, 80, 128, 1] 443),
      inet_ntop = (\<lambda>a. []), ipScope_global = isV4, containsAddress = (\<lambda>a b. raw_ip a = raw_ip b),
      ipsEqual = (\<lambda>a b. raw_ip a = raw_ip b), native_ss_to_zts_ss = id, node_online = (\<lambda>k. True),
      node_address = (\<lambda>k. 1), node_peers = (\<lambda>k. None), ZT_PING_CHECK_INTERVAL = 5000,
      ZT_PATH_HEARTBEAT_PERIOD = 14000, ZT_BINDER_REFRESH_PERIOD = 30000, ZEROTIER_ONE_VERSION = (1, 14, 0), identity_fromString = (\<lambda>b. False),
      identity_locallyValidate = (\<lambda>b. 0), node_identity = (\<lambda>k. []), indeterminate_config = sim_config\<rparr>"

interpretation sim_taps: tap_contract sim_api
  by unfold_locales (auto simp: sim_api_def tap_addrs_def sim_tap_def fun_eq_iff AList.delete_conv' split: option.splits)

interpretation sim_fs: fs_contract sim_api
  by unfold_locales (auto simp: sim_api_def AList.delete_conv')

lemma lex_less_irrefl: "\<not> lex_less xs xs"
  by (induction xs) auto

lemma lex_less_Nil [simp]: "\<not> lex_less xs []"
  by (cases xs) auto

lemma lex_less_trans: "lex_less xs ys \<Longrightarrow> lex_less ys zs \<Longrightarrow> lex_less xs zs"
proof (induction xs ys arbitrary: zs rule: lex_less.induct)
  case (1 ys)
  then show ?case by (cases zs) auto
next
  case (3 x xs y ys)
  then show ?case by (cases zs) auto
qed simp

lemma lex_less_total: "xs \<noteq> ys \<Longrightarrow> lex_less xs ys \<or> lex_less ys xs"
  by (induction xs ys rule: lex_less.induct) auto

lemma map_unat_eq: "map unat xs = map unat ys \<longleftrightarrow> (xs :: bytes) = ys"
  by (rule inj_map_eq_map) (auto intro: injI)

lemma inet_key_inj: "inet_key a = inet_key b \<longleftrightarrow> a = b"
  by (cases a; cases b) (auto simp: map_unat_eq intro: unsigned_word_eqI)

lemma sim_order: "strict_order (inet_less sim_api)"
  using lex_less_irrefl lex_less_trans lex_less_total inet_key_inj
  by (simp add: strict_order_def sim_api_def)

subsection \<open>Properties\<close>


definition sim_home :: "sim_env NodeService" where
  "sim_home = (NodeService_new sim_api sim_start)\<lparr>ns_homePath := ''/zt''\<rparr>"


subsection \<open>Limits\<close>

text \<open>The length of a key pair is not checked: a longer one is copied past the end of the
  buffer, and the call reports success. A key pair that looks like an identity but does not
  parse is not stored, and the code returned is the truth value of a failed validation:
  zero, the code of success.\<close>

lemma setIdentity_unchecked:
  assumes "\<not> ns_run s" "identity_fromString api (c_str data) \<or> length (c_str data) \<le> 32"
    "length data > ZT_IDENTITY_STRING_BUFFER_LENGTH"
  shows "fst (setIdentity api (Some data) s) = ZTS_ERR_OK \<and> ns_fault (snd (setIdentity api (Some data) s))"
  using assms by (auto simp: setIdentity_def when_stopped_def)

lemma setIdentity_invalid:
  assumes "length (c_str data) > 32" "data ! 10 = 58" "\<not> identity_fromString api (c_str data)"
    "identity_locallyValidate api (c_str data) = 0"
  shows "setIdentity api (Some data) s = (ZTS_ERR_OK, s)"
  using assms by (simp add: setIdentity_def ZTS_ERR_OK_def)

text \<open>Queries on a missing network or with invalid arguments that look like success.\<close>

lemma queries_hide_errors:
  "networkIsReady 0 s"
  "find_net m s = None \<Longrightarrow> getAddrAtIdx api m i s = (ZTS_ERR_OK, None)"
  "m \<noteq> 0 \<Longrightarrow> f \<noteq> ZTS_AF_INET \<Longrightarrow> f \<noteq> ZTS_AF_INET6 \<Longrightarrow> addrIsAssigned api m f s = 1"
  by (simp_all add: networkIsReady_def getAddrAtIdx_def addrIsAssigned_def getFirstAssignedAddr_def zts_err_defs)

text \<open>Any event but \<open>ZT_EVENT_ONLINE\<close>, a trace message too, marks the node offline.\<close>

lemma trace_marks_offline: "\<not> nodeIsOnline (nodeEventCallback api ZT_EVENT_TRACE s)"
  by (simp add: nodeEventCallback_def nodeIsOnline_def)

text \<open>A planet definition the core stores overwrites the beginning of the roots the user has
  set, and the core is then given the mixture, of the length of the user's roots.\<close>

lemma stored_planet_corrupts_roots:
  assumes "s1 = snd (setRoots (Some user) s)" "\<not> ns_run s" "0 < length user" "length user \<le> ZTS_STORE_DATA_LEN"
    "length planet \<le> length user" "ns_homePath s = []"
    "s2 = nodeStatePutFunction api ZT_STATE_OBJECT_PLANET 0 planet (int (length planet)) s1"
  shows "nodeStateGetFunction api ZT_STATE_OBJECT_PLANET 0 maxlen s2 =
    (int (length user), planet @ drop (length planet) user)"
proof -
  let ?s1 = "s\<lparr>ns_rootsData := user @ drop (length user) (ns_rootsData s), ns_rootsDataLen := length user,
      ns_userDefinedWorld := True\<rparr>"
  have "s1 = ?s1" using assms(1-4) by (simp add: setRoots_def when_stopped_def memcpy_def)
  moreover obtain k where "sendEventToUser api ZTS_EVENT_STORE_PLANET (SrcData planet) (int (length planet)) ?s1
      = ?s1\<lparr>ns_env := k\<rparr>" using send_env by blast
  moreover have "object_file ZT_STATE_OBJECT_PLANET 0 x = None" if "ns_homePath x = []" for x :: "'a NodeService"
    using that by (simp add: object_file_def)
  ultimately have "ns_rootsData s2 = planet @ drop (length planet) (user @ drop (length user) (ns_rootsData s))
      \<and> ns_rootsDataLen s2 = length user \<and> ns_userDefinedWorld s2"
    using assms(6,7) by (simp add: nodeStatePutFunction_def put_roots_def memcpy_def)
  then show ?thesis using assms(5) by (simp add: nodeStateGetFunction_def)
qed

text \<open>\<open>setLowBandwidthMode\<close> may only be called while the service is stopped, and then the
  node it dereferences does not exist.\<close>

lemma low_bandwidth_faults: "\<not> ns_run s \<Longrightarrow> \<not> ns_node s \<Longrightarrow> ns_fault (snd (setLowBandwidthMode s))"
  by (simp add: setLowBandwidthMode_def when_stopped_def)

end
