(* ===== verification/NodeRelay.thy ===== *)
theory NodeRelay
  imports NodeSvc
begin

section \<open>The node service of libzt: TCP relay and wire packets\<close>

text \<open>
  The TCP fallback tunnel of subprojects/libzt-wrapper/NodeService.cpp. While no direct
  traffic arrives, outgoing packets are also written, framed like TLS records, to a TCP
  connection to a relay (\<open>nodeWirePacketSendFunction\<close>, \<open>phyOnTcpWritable\<close>); what the relay
  sends is collected in a read queue and cut into packets (\<open>phyOnTcpData\<close>).

  A connection object is addressed by a number; a socket handler gets that number, or null,
  as its \<open>uptr\<close>. \<open>_phy.close(sock)\<close> is the first component of a handler's result: \<open>Phy\<close>
  answers it by calling \<open>phyOnTcpClose\<close>. The packet processing of the ZeroTier core is the
  parameter \<open>process\<close>: it may call back into the service, so it maps the service to the
  service; \<open>None\<close> is an exception.

  \<open>tunnel_chunks_irrelevant\<close>: how the stream is cut into reads does not matter.
  \<open>tunnel_transports_packets\<close>: what the sending side frames arrives at the core, packet by
  packet and in order. \<open>relay_stream_in_order\<close>: the write queue neither loses nor reorders
  bytes, however little the socket takes at a time.
\<close>

subsection \<open>Connections\<close>

definition get_conn :: "nat option \<Rightarrow> 'k NodeService \<Rightarrow> TcpConnection option" where
  "get_conn uptr s = (case uptr of Some a \<Rightarrow> ns_tcp_heap s a | None \<Rightarrow> None)"

definition set_conn :: "nat \<Rightarrow> TcpConnection \<Rightarrow> 'k NodeService \<Rightarrow> 'k NodeService" where
  "set_conn a tc s = s\<lparr>ns_tcp_heap := (ns_tcp_heap s)(a \<mapsto> tc)\<rparr>"

definition ZT_TCP_TUNNEL_HELLO :: "'k svc_api \<Rightarrow> bytes" where
  "ZT_TCP_TUNNEL_HELLO api =
     (case ZEROTIER_ONE_VERSION api of
        (major, minor, r) \<Rightarrow>
          [0x17, 0x03, 0x03, 0x00, 0x04, word_of_nat major, word_of_nat minor, word_of_nat (r div 256), word_of_nat r])"

definition phyOnTcpClose :: "nat option \<Rightarrow> 'k NodeService \<Rightarrow> 'k NodeService" where
  "phyOnTcpClose uptr s =
     (case uptr of
        None \<Rightarrow> s
      | Some a \<Rightarrow>
          s\<lparr>ns_tcpFallbackTunnel := (if ns_tcpFallbackTunnel s = Some a then None else ns_tcpFallbackTunnel s),
            ns_tcpConnections := removeAll a (ns_tcpConnections s),
            ns_tcp_heap := (ns_tcp_heap s)(a := None)\<rparr>)"

text \<open>The first component of the result tells whether \<open>sock\<close> is closed. The tunnel that is
  replaced is closed in between, which calls its handler.\<close>

definition phyOnTcpConnect ::
  "'k svc_api \<Rightarrow> nat \<Rightarrow> nat option \<Rightarrow> bool \<Rightarrow> 'k NodeService \<Rightarrow> bool \<times> 'k NodeService" where
  "phyOnTcpConnect api sock uptr success s =
     (if \<not> success then (False, phyOnTcpClose uptr s)
      else case uptr of
        None \<Rightarrow> (True, s)
      | Some a \<Rightarrow>
          (case ns_tcp_heap s a of
             None \<Rightarrow> (True, s\<lparr>ns_fault := True\<rparr>)
           | Some tc \<Rightarrow>
               let s1 = set_conn a (tc\<lparr>tc_sock := Some sock\<rparr>) s
               in if tc_type tc = TCP_TUNNEL_OUTGOING then
                    (let s2 = phyOnTcpClose (ns_tcpFallbackTunnel s1) s1;
                         s3 = s2\<lparr>ns_tcpFallbackTunnel := Some a\<rparr>
                     in (False, s3\<lparr>ns_env := snd (phy_streamSend api (Some sock) (ZT_TCP_TUNNEL_HELLO api) (ns_env s3))\<rparr>))
                  else (True, s1)))"

subsection \<open>Reading from the tunnel\<close>

definition frame_mlen :: "bytes \<Rightarrow> nat" where
  "frame_mlen q = 256 * unat (q ! 3) + unat (q ! 4)"

definition be16 :: "byte \<Rightarrow> byte \<Rightarrow> u16" where
  "be16 hi lo = or (push_bit 8 (ucast hi)) (ucast lo)"

datatype frame_action = FrameSkip | FramePacket InetAddress bytes | FrameClose

text \<open>What the loop does with the \<open>mlen\<close> bytes after the pseudo-TLS header.\<close>

definition frame_action_of :: "bytes \<Rightarrow> frame_action" where
  "frame_action_of data =
     (let plen = length data in
      if plen = 4 \<or> plen = 0 then FrameSkip
      else if data ! 0 = 4 then
        (if plen \<ge> 7 then FramePacket (InetV4 (take 4 (drop 1 data)) (be16 (data ! 5) (data ! 6))) (drop 7 data)
         else FrameClose)
      else if data ! 0 = 6 then
        (if plen \<ge> 19 then FramePacket (InetV6 (take 16 (drop 1 data)) (be16 (data ! 17) (data ! 18))) (drop 19 data)
         else FrameClose)
      else if data ! 0 = 0 then FrameSkip
      else FrameClose)"

type_synonym 'k processor = "InetAddress \<Rightarrow> bytes \<Rightarrow> 'k NodeService \<Rightarrow> int option \<times> 'k NodeService"

definition int_string :: "int \<Rightarrow> string" where
  "int_string i = (if i < 0 then CHR ''-'' # to_string (nat (- i)) else to_string (nat i))"

definition fatal_packet_error :: "'k svc_api \<Rightarrow> int \<Rightarrow> 'k NodeService \<Rightarrow> 'k NodeService" where
  "fatal_packet_error api rc s =
     terminate api (s\<lparr>ns_termReason := ONE_UNRECOVERABLE_ERROR,
       ns_fatalErrorMessage := ''fatal error code from processWirePacket: '' @ int_string rc\<rparr>)"

text \<open>The loop over the complete frames of the read queue \<open>q\<close>. The result tells whether the
  socket is to be closed, what is left of the queue, and the service.\<close>

function tunnel_loop ::
  "'k svc_api \<Rightarrow> (int \<Rightarrow> bool) \<Rightarrow> 'k processor \<Rightarrow> bytes \<Rightarrow> 'k NodeService \<Rightarrow> bool \<times> bytes \<times> 'k NodeService" where
  "tunnel_loop api isFatal process q s =
     (if length q \<ge> 5 \<and> length q \<ge> frame_mlen q + 5 then
        let rest = drop (frame_mlen q + 5) q
        in (case frame_action_of (take (frame_mlen q) (drop 5 q)) of
              FrameClose \<Rightarrow> (True, q, s)
            | FrameSkip \<Rightarrow> tunnel_loop api isFatal process rest s
            | FramePacket from payload \<Rightarrow>
                (case process from payload s of
                   (None, s1) \<Rightarrow> (True, q, s1)
                 | (Some rc, s1) \<Rightarrow>
                     if isFatal rc then (True, q, fatal_packet_error api rc s1)
                     else tunnel_loop api isFatal process rest s1))
      else (False, q, s))"
  by pat_completeness auto
termination by (relation "measure (\<lambda>(_, _, _, q, _). length q)") auto

declare tunnel_loop.simps [simp del]

definition read_upd :: "nat \<Rightarrow> bytes \<Rightarrow> u64 \<Rightarrow> (nat \<rightharpoonup> TcpConnection) \<Rightarrow> (nat \<rightharpoonup> TcpConnection)" where
  "read_upd a q t h = h(a := map_option (\<lambda>tc. tc\<lparr>readq := q, tc_lastReceive := t\<rparr>) (h a))"

definition set_read :: "nat \<Rightarrow> bytes \<Rightarrow> u64 \<Rightarrow> 'k NodeService \<Rightarrow> 'k NodeService" where
  "set_read a q t s = s\<lparr>ns_tcp_heap := read_upd a q t (ns_tcp_heap s)\<rparr>"

text \<open>Between two frames the code shortens \<open>tc->readq\<close>; nothing else reads it, so the model
  stores what is left at the end.\<close>

definition phyOnTcpData ::
  "'k svc_api \<Rightarrow> (int \<Rightarrow> bool) \<Rightarrow> 'k processor \<Rightarrow> u64 \<Rightarrow> nat option \<Rightarrow> bytes \<Rightarrow> 'k NodeService \<Rightarrow>
   bool \<times> 'k NodeService" where
  "phyOnTcpData api isFatal process now uptr data s =
     (if data = [] then (False, s)
      else case uptr of
        None \<Rightarrow> (False, s\<lparr>ns_fault := True\<rparr>)
      | Some a \<Rightarrow>
          (case ns_tcp_heap s a of
             None \<Rightarrow> (False, s\<lparr>ns_fault := True\<rparr>)
           | Some tc \<Rightarrow>
               if tc_type tc = TCP_TUNNEL_OUTGOING then
                 (case tunnel_loop api isFatal process (readq tc @ data) (set_read a (readq tc) now s) of
                    (closing, q, s1) \<Rightarrow> (closing, set_read a q now s1))
               else (False, set_read a (readq tc) now s)))"

subsection \<open>Writing to the tunnel\<close>

text \<open>\<open>tc\<close> is the address of the connection. The flag \<open>closeit\<close> of the code is never set.\<close>

definition phyOnTcpWritable :: "'k svc_api \<Rightarrow> nat option \<Rightarrow> nat \<Rightarrow> 'k NodeService \<Rightarrow> 'k NodeService" where
  "phyOnTcpWritable api sock a s =
     (case ns_tcp_heap s a of
        None \<Rightarrow> s\<lparr>ns_fault := True\<rparr>
      | Some tc \<Rightarrow>
          if length (writeq tc) > 0 then
            (case phy_streamSend api sock (writeq tc) (ns_env s) of
               (sent, k) \<Rightarrow>
                 let s1 = s\<lparr>ns_env := k\<rparr>
                 in if sent > 0 then
                      (if nat sent \<ge> length (writeq tc)
                       then set_conn a (tc\<lparr>writeq := []\<rparr>) (s1\<lparr>ns_env := phy_setNotifyWritable api sock False k\<rparr>)
                       else set_conn a (tc\<lparr>writeq := drop (nat sent) (writeq tc)\<rparr>) s1)
                    else s1)
          else s\<lparr>ns_env := phy_setNotifyWritable api sock False (ns_env s)\<rparr>)"

definition ZT_TCP_FALLBACK_AFTER :: u64 where "ZT_TCP_FALLBACK_AFTER = 30000"

fun sin_addr :: "InetAddress \<Rightarrow> bytes" where
  "sin_addr (InetV4 b p) = b"
| "sin_addr (InetV6 b p) = b"
| "sin_addr InetNil = []"

fun sin_port :: "InetAddress \<Rightarrow> bytes" where
  "sin_port (InetV4 b p) = [ucast (drop_bit 8 p), ucast p]"
| "sin_port (InetV6 b p) = [ucast (drop_bit 8 p), ucast p]"
| "sin_port InetNil = []"

definition tunnel_frame :: "InetAddress \<Rightarrow> bytes \<Rightarrow> bytes" where
  "tunnel_frame addr data =
     (let mlen = length data + 7
      in [0x17, 0x03, 0x03, word_of_nat (mlen div 256), word_of_nat mlen, 4] @ sin_addr addr @ sin_port addr @ data)"

text \<open>Writing one packet to the tunnel at address \<open>a\<close>.\<close>

definition tunnel_send :: "'k svc_api \<Rightarrow> nat \<Rightarrow> InetAddress \<Rightarrow> bytes \<Rightarrow> 'k NodeService \<Rightarrow> 'k NodeService" where
  "tunnel_send api a addr data s =
     (case ns_tcp_heap s a of
        None \<Rightarrow> s\<lparr>ns_fault := True\<rparr>
      | Some tc \<Rightarrow>
          if length (writeq tc) < 1024 * 64 then
            (let flushNow = (length (writeq tc) = 0);
                 s1 = (if flushNow then s\<lparr>ns_env := phy_setNotifyWritable api (tc_sock tc) True (ns_env s)\<rparr> else s);
                 s2 = set_conn a (tc\<lparr>writeq := writeq tc @ tunnel_frame addr data\<rparr>) s1
             in if flushNow then phyOnTcpWritable api (tc_sock tc) a s2 else s2)
          else s)"

text \<open>The address the new connection object gets is the parameter \<open>fresh\<close>.\<close>

definition open_tunnel :: "'k svc_api \<Rightarrow> u64 \<Rightarrow> nat \<Rightarrow> 'k NodeService \<Rightarrow> 'k NodeService" where
  "open_tunnel api now fresh s =
     (let addr = ns_fallbackRelayAddress s;
          tc = \<lparr>tc_type = TCP_TUNNEL_OUTGOING, tc_sock = None, tc_remoteAddr = addr, tc_lastReceive = now,
                readq = [], writeq = []\<rparr>;
          s1 = set_conn fresh tc (s\<lparr>ns_tcpConnections := ns_tcpConnections s @ [fresh]\<rparr>)
      in s1\<lparr>ns_env := phy_tcpConnect api addr fresh (ns_env s1)\<rparr>)"

text \<open>Times are \<open>uint64_t\<close>: the differences wrap around.\<close>

definition relay_engaged :: "u64 \<Rightarrow> 'k NodeService \<Rightarrow> bool" where
  "relay_engaged now s \<longleftrightarrow> ns_forceTcpRelay s \<or>
     (now - ns_lastDirectReceiveFromGlobal s > ZT_TCP_FALLBACK_AFTER \<and> now - ns_lastRestart s > ZT_TCP_FALLBACK_AFTER)"

definition relay_packet ::
  "'k svc_api \<Rightarrow> u64 \<Rightarrow> nat \<Rightarrow> InetAddress \<Rightarrow> bytes \<Rightarrow> 'k NodeService \<Rightarrow> 'k NodeService" where
  "relay_packet api now fresh addr data s =
     (if ns_allowTcpRelay s \<and> isV4 addr \<and> length data \<ge> 16 \<and> ipScope_global api addr then
        (let s1 = (if relay_engaged now s then
                     (case ns_tcpFallbackTunnel s of
                        Some a \<Rightarrow> tunnel_send api a addr data s
                      | None \<Rightarrow>
                          if ns_forceTcpRelay s \<or>
                             (now - ns_lastSendToGlobalV4 s < ZT_TCP_FALLBACK_AFTER \<and>
                              now - ns_lastSendToGlobalV4 s > ZT_PING_CHECK_INTERVAL api div 2)
                          then open_tunnel api now fresh s else s)
                   else s)
         in s1\<lparr>ns_lastSendToGlobalV4 := now\<rparr>)
      else s)"

definition nodeWirePacketSendFunction ::
  "'k svc_api \<Rightarrow> u64 \<Rightarrow> nat \<Rightarrow> int \<Rightarrow> InetAddress \<Rightarrow> bytes \<Rightarrow> nat \<Rightarrow> 'k NodeService \<Rightarrow> int \<times> 'k NodeService" where
  "nodeWirePacketSendFunction api now fresh localSocket addr data ttl s0 =
     (let s = relay_packet api now fresh addr data s0; k = ns_env s; sock = nat localSocket in
      if ns_forceTcpRelay s then (0, s)
      else if localSocket \<noteq> -1 \<and> localSocket \<noteq> 0 \<and> binder_isUdpSocketValid api sock k then
        (let k1 = (if ttl \<noteq> 0 \<and> isV4 addr then phy_setIp4UdpTtl api sock ttl k else k)
         in case phy_udpSend api sock addr data k1 of
              (r, k2) \<Rightarrow> (if r then 0 else -1,
                          s\<lparr>ns_env := (if ttl \<noteq> 0 \<and> isV4 addr then phy_setIp4UdpTtl api sock 255 k2 else k2)\<rparr>))
      else case binder_udpSendAll api addr data ttl k of
             (r, k1) \<Rightarrow> (if r then 0 else -1, s\<lparr>ns_env := k1\<rparr>))"

subsection \<open>Datagrams\<close>

text \<open>The first component of the result tells whether an exception leaves the handler.\<close>

definition phyOnDatagram ::
  "'k svc_api \<Rightarrow> (int \<Rightarrow> bool) \<Rightarrow> 'k processor \<Rightarrow> u64 \<Rightarrow> InetAddress \<Rightarrow> bytes \<Rightarrow> 'k NodeService \<Rightarrow>
   bool \<times> 'k NodeService" where
  "phyOnDatagram api isFatal process now from data s0 =
     (if ns_forceTcpRelay s0 then (False, s0)
      else let s = (if length data \<ge> 16 \<and> ipScope_global api from
                    then s0\<lparr>ns_lastDirectReceiveFromGlobal := now\<rparr> else s0)
           in case process from data s of
                (Some rc, s1) \<Rightarrow> (False, if isFatal rc then fatal_packet_error api rc s1 else s1)
              | (None, s1) \<Rightarrow> (True, s1))"

subsection \<open>The loop over the read queue\<close>

lemma frame_mlen_append [simp]: "5 \<le> length q \<Longrightarrow> frame_mlen (q @ d) = frame_mlen q"
  by (simp add: frame_mlen_def nth_append)

lemma tunnel_loop_stop: "\<not> (5 \<le> length q \<and> frame_mlen q + 5 \<le> length q) \<Longrightarrow> tunnel_loop api F P q s = (False, q, s)"
  by (subst tunnel_loop.simps) auto

text \<open>Bytes that arrive later do not change what is done with those already there.\<close>

lemma tunnel_loop_append:
  "tunnel_loop api F P (q @ d) s =
     (case tunnel_loop api F P q s of
        (True, q', s') \<Rightarrow> (True, q' @ d, s')
      | (False, q', s') \<Rightarrow> tunnel_loop api F P (q' @ d) s')"
proof (induction api F P q s rule: tunnel_loop.induct)
  case (1 api F P q s)
  show ?case
  proof (cases "length q \<ge> 5 \<and> length q \<ge> frame_mlen q + 5")
    case True
    let ?rest = "drop (frame_mlen q + 5) q"
    have r: "drop (frame_mlen q + 5) (q @ d) = ?rest @ d" using True by simp
    have b: "take (frame_mlen q) (drop 5 (q @ d)) = take (frame_mlen q) (drop 5 q)" using True by simp
    note L = tunnel_loop.simps [of api F P "q @ d" s] tunnel_loop.simps [of api F P q s]
    show ?thesis
    proof (cases "frame_action_of (take (frame_mlen q) (drop 5 q))")
      case FrameSkip
      then show ?thesis using True r b 1(1) [OF True refl FrameSkip] by (simp add: L)
    next
      case (FramePacket src payload)
      obtain rc s1 where p: "P src payload s = (rc, s1)" by fastforce
      show ?thesis
      proof (cases rc)
        case None
        then show ?thesis using True r b FramePacket p by (simp add: L)
      next
        case (Some c)
        then show ?thesis
          using True r b FramePacket p 1(2) [OF True refl FramePacket, of "Some c" s1 c] p [symmetric] Some by (auto simp: L)
      qed
    next
      case FrameClose
      then show ?thesis using True r b by (simp add: L)
    qed
  next
    case False
    then show ?thesis using tunnel_loop_stop [of q api F P s] by simp
  qed
qed

lemma read_upd_read_upd [simp]: "read_upd a q t (read_upd a q' t' h) = read_upd a q t h"
  by (simp add: read_upd_def option.map_comp comp_def)

lemma set_read_set_read [simp]: "set_read a q t (set_read a q' t' s) = set_read a q t s"
  by (simp add: set_read_def)

lemma set_read_self:
  "ns_tcp_heap s a = Some tc \<Longrightarrow> set_read a (readq tc) (tc_lastReceive tc) s = s"
  by (simp add: set_read_def read_upd_def fun_upd_idem)

lemma terminate_heap: "terminate api (s\<lparr>ns_tcp_heap := h\<rparr>) = (terminate api s)\<lparr>ns_tcp_heap := h\<rparr>"
  by (rule NodeService.equality) (simp_all add: terminate_def Let_def)

lemma heap_terminate [simp]: "ns_tcp_heap (terminate api s) = ns_tcp_heap s"
  by (simp add: terminate_def Let_def)

lemma fatal_set_read: "fatal_packet_error api rc (set_read a q t s) = set_read a q t (fatal_packet_error api rc s)"
proof -
  have e: "(set_read a q t s)\<lparr>ns_termReason := r, ns_fatalErrorMessage := m\<rparr>
      = s\<lparr>ns_termReason := r, ns_fatalErrorMessage := m, ns_tcp_heap := read_upd a q t (ns_tcp_heap s)\<rparr>" for r m
    by (simp add: set_read_def)
  show ?thesis unfolding fatal_packet_error_def e terminate_heap by (simp add: set_read_def)
qed

text \<open>The connections of the tunnel and their readers.\<close>

definition is_tunnel :: "nat \<Rightarrow> 'k NodeService \<Rightarrow> bool" where
  "is_tunnel a s \<longleftrightarrow> (\<exists>tc. ns_tcp_heap s a = Some tc \<and> tc_type tc = TCP_TUNNEL_OUTGOING)"

lemma is_tunnel_set_read [simp]: "is_tunnel a (set_read a' q t s) = is_tunnel a s"
  by (auto simp: is_tunnel_def set_read_def read_upd_def)

lemma is_tunnel_fatal [simp]: "is_tunnel a (fatal_packet_error api rc s) = is_tunnel a s"
  by (simp add: is_tunnel_def fatal_packet_error_def)

text \<open>The processing of a packet does not look at read queues and does not delete the
  connection it reads from.\<close>

locale packet_reader =
  fixes api :: "'k svc_api" and isFatal :: "int \<Rightarrow> bool" and process :: "'k processor" and a :: nat
  assumes process_local:
      "process from d (set_read a q t s) = (fst (process from d s), set_read a q t (snd (process from d s)))"
    and process_keeps: "is_tunnel a s \<Longrightarrow> is_tunnel a (snd (process from d s))"
begin

lemma loop_set_read:
  "tunnel_loop api isFatal process q (set_read a q' t s) =
     (case tunnel_loop api isFatal process q s of (c, r, s') \<Rightarrow> (c, r, set_read a q' t s'))"
proof (induction "length q" arbitrary: q s rule: less_induct)
  case less
  note L = tunnel_loop.simps [of api isFatal process q]
  have IH: "tunnel_loop api isFatal process (drop (frame_mlen q + 5) q) (set_read a q' t x) =
      (case tunnel_loop api isFatal process (drop (frame_mlen q + 5) q) x of (c, r, s') \<Rightarrow> (c, r, set_read a q' t s'))"
    if "5 \<le> length q" for x
    using that by (intro less) simp
  show ?case
    by (simp add: L IH process_local fatal_set_read Let_def split_beta split: frame_action.split option.split)
qed

lemma loop_keeps: "is_tunnel a s \<Longrightarrow> tunnel_loop api isFatal process q s = (c, r, s') \<Longrightarrow> is_tunnel a s'"
proof (induction "length q" arbitrary: q s rule: less_induct)
  case less
  have IH: "is_tunnel a s'" if "5 \<le> length q" "is_tunnel a x"
      "tunnel_loop api isFatal process (drop (frame_mlen q + 5) q) x = (c, r, s')" for x
    using that by (intro less(1) [of "drop (frame_mlen q + 5) q" x]) auto
  show ?case
  proof (cases "length q \<ge> 5 \<and> length q \<ge> frame_mlen q + 5")
    case True
    note L = less(3) [unfolded tunnel_loop.simps [of _ _ _ q]]
    show ?thesis
    proof (cases "frame_action_of (take (frame_mlen q) (drop 5 q))")
      case (FramePacket src payload)
      obtain rc x where p: "process src payload s = (rc, x)" by fastforce
      then have "is_tunnel a x" using process_keeps [OF less(2), of src payload] by simp
      then show ?thesis using L True FramePacket p IH [of x] by (auto simp: Let_def split: option.splits if_splits)
    qed (use L True less(2) IH [of s] in \<open>auto simp: Let_def\<close>)
  qed (use less(2,3) in \<open>auto simp: tunnel_loop.simps [of _ _ _ q]\<close>)
qed

end

text \<open>The reads of a connection, each with its time, until the socket is closed.\<close>

fun feed ::
  "'k svc_api \<Rightarrow> (int \<Rightarrow> bool) \<Rightarrow> 'k processor \<Rightarrow> nat \<Rightarrow> (u64 \<times> bytes) list \<Rightarrow> 'k NodeService \<Rightarrow> bool \<times> 'k NodeService" where
  "feed api F P a [] s = (False, s)"
| "feed api F P a ((now, data) # reads) s =
     (case phyOnTcpData api F P now (Some a) data s of
        (True, s') \<Rightarrow> (True, s')
      | (False, s') \<Rightarrow> feed api F P a reads s')"

definition stream_of :: "(u64 \<times> bytes) list \<Rightarrow> bytes" where
  "stream_of reads = concat (map snd reads)"

context packet_reader
begin

lemma data_loop:
  assumes "is_tunnel a s" "data \<noteq> []"
    "tunnel_loop api isFatal process (q @ data) s = (c, r, s')"
  shows "phyOnTcpData api isFatal process now (Some a) data (set_read a q t s) = (c, set_read a r now s')"
proof -
  from assms(1) obtain tc where "ns_tcp_heap s a = Some tc" "tc_type tc = TCP_TUNNEL_OUTGOING"
    by (auto simp: is_tunnel_def)
  then have h: "ns_tcp_heap (set_read a q t s) a = Some (tc\<lparr>readq := q, tc_lastReceive := t\<rparr>)"
    "tc_type tc = TCP_TUNNEL_OUTGOING"
    by (simp_all add: set_read_def read_upd_def)
  then show ?thesis
    using assms(2,3) by (simp add: phyOnTcpData_def loop_set_read)
qed

lemma data_empty: "phyOnTcpData api isFatal process now (Some a) [] s = (False, s)"
  by (simp add: phyOnTcpData_def)

text \<open>Reading in pieces does what the loop does on the whole stream.\<close>

lemma feed_loop:
  assumes "is_tunnel a s" "tunnel_loop api isFatal process q s = (False, q, s)"
    "tunnel_loop api isFatal process (q @ stream_of reads) s = (c, r, s')"
  shows "\<exists>r' t'. feed api isFatal process a reads (set_read a q t s) = (c, set_read a r' t' s') \<and> (\<not> c \<longrightarrow> r' = r)"
  using assms
proof (induction reads arbitrary: q t s)
  case Nil
  then show ?case by (auto simp: stream_of_def)
next
  case (Cons rd reads)
  obtain now data where rd: "rd = (now, data)" by fastforce
  show ?case
  proof (cases "data = []")
    case True
    then show ?thesis
      using Cons.IH [OF Cons.prems(1,2), of t] Cons.prems(3) rd by (simp add: data_empty stream_of_def)
  next
    case False
    obtain c1 r1 s1 where l: "tunnel_loop api isFatal process (q @ data) s = (c1, r1, s1)"
      by (cases "tunnel_loop api isFatal process (q @ data) s")
    have d: "phyOnTcpData api isFatal process now (Some a) data (set_read a q t s) = (c1, set_read a r1 now s1)"
      by (rule data_loop [OF Cons.prems(1) False l])
    have w: "(case (c1, r1, s1) of (True, q', s') \<Rightarrow> (True, q' @ stream_of reads, s')
        | (False, q', s') \<Rightarrow> tunnel_loop api isFatal process (q' @ stream_of reads) s') = (c, r, s')"
      using Cons.prems(3) tunnel_loop_append [of api isFatal process "q @ data" "stream_of reads" s] l rd
      by (simp add: stream_of_def)
    show ?thesis
    proof (cases c1)
      case True
      then show ?thesis using d w rd by auto
    next
      case c1: False
      have "tunnel_loop api isFatal process r1 s1 = (False, r1, s1)"
        using tunnel_loop_append [of api isFatal process "q @ data" "[]" s] l c1 by simp
      then show ?thesis
        using Cons.IH [of s1 r1 now] loop_keeps [OF Cons.prems(1) l] w c1 d rd by simp
    qed
  qed
qed

end

subsection \<open>Frames\<close>

lemma be16_port: "be16 (ucast (drop_bit 8 p)) (ucast p) = p"
  by (rule bit_word_eqI) (auto simp: be16_def bit_simps)

lemma unat_byte: "unat (word_of_nat n :: byte) = n mod 256"
  by (simp add: unat_of_nat)

text \<open>A packet of less than 65529 bytes for an IPv4 address is framed so that the loop reads
  back the address and the payload.\<close>

definition relayable :: "InetAddress \<times> bytes \<Rightarrow> bool" where
  "relayable p \<longleftrightarrow> isV4 (fst p) \<and> length (sin_addr (fst p)) = 4 \<and> length (snd p) + 7 < 65536"

lemma frame_parts:
  assumes "relayable (addr, data)"
  shows "length (tunnel_frame addr data @ q) = length data + 12 + length q"
    "frame_mlen (tunnel_frame addr data @ q) = length data + 7"
    "frame_action_of (take (length data + 7) (drop 5 (tunnel_frame addr data @ q))) = FramePacket addr data"
    "drop (length data + 12) (tunnel_frame addr data @ q) = q"
proof -
  obtain b p where a: "addr = InetV4 b p" "length b = 4" using assms by (cases addr) (auto simp: relayable_def)
  then obtain b0 b1 b2 b3 where b: "b = [b0, b1, b2, b3]" by (auto simp: eval_nat_numeral length_Suc_conv)
  let ?m = "length data + 7"
  have f: "tunnel_frame addr data @ q = [0x17, 0x03, 0x03, word_of_nat (?m div 256), word_of_nat ?m, 4, b0, b1, b2, b3,
      ucast (drop_bit 8 p), ucast p] @ data @ q"
    by (simp add: tunnel_frame_def a b Let_def)
  show "length (tunnel_frame addr data @ q) = length data + 12 + length q" by (simp add: f)
  have "?m div 256 < 256" using assms by (intro less_mult_imp_div_less) (simp add: relayable_def)
  moreover have "frame_mlen (tunnel_frame addr data @ q) = 256 * unat (word_of_nat (?m div 256) :: byte) + unat (word_of_nat ?m :: byte)"
    unfolding f frame_mlen_def by simp
  ultimately show "frame_mlen (tunnel_frame addr data @ q) = ?m" unfolding unat_byte by simp
  let ?d = "[4, b0, b1, b2, b3, ucast (drop_bit 8 p), ucast p] @ data"
  have "drop 5 (tunnel_frame addr data @ q) = ?d @ q" "length ?d = ?m" unfolding f by simp_all
  then have "take ?m (drop 5 (tunnel_frame addr data @ q)) = ?d" by (metis append_eq_conv_conj)
  moreover have "frame_action_of ?d = FramePacket addr data"
    by (simp add: frame_action_of_def a b be16_port)
  ultimately show "frame_action_of (take ?m (drop 5 (tunnel_frame addr data @ q))) = FramePacket addr data" by simp
  have "length (tunnel_frame addr data) = length data + 12" using f [THEN arg_cong [where f = length]] by simp
  then show "drop (length data + 12) (tunnel_frame addr data @ q) = q" by simp
qed

definition frames_of :: "(InetAddress \<times> bytes) list \<Rightarrow> bytes" where
  "frames_of ps = concat (map (\<lambda>(addr, data). tunnel_frame addr data) ps)"

text \<open>The packets handed to the core one after the other.\<close>

definition process_all :: "'k processor \<Rightarrow> (InetAddress \<times> bytes) list \<Rightarrow> 'k NodeService \<Rightarrow> 'k NodeService" where
  "process_all P ps s = fold (\<lambda>(addr, data) s. snd (P addr data s)) ps s"

definition never_fatal :: "(int \<Rightarrow> bool) \<Rightarrow> 'k processor \<Rightarrow> bool" where
  "never_fatal F P \<longleftrightarrow> (\<forall>addr data s. \<exists>rc. fst (P addr data s) = Some rc \<and> \<not> F rc)"

lemma loop_frame:
  assumes "relayable (addr, data)" "never_fatal F P"
  shows "tunnel_loop api F P (tunnel_frame addr data @ q) s = tunnel_loop api F P q (snd (P addr data s))"
proof -
  let ?q = "tunnel_frame addr data @ q"
  obtain rc s1 where p: "P addr data s = (Some rc, s1)" "\<not> F rc"
    using assms(2) unfolding never_fatal_def by (metis prod.collapse)
  have g: "5 \<le> length ?q \<and> frame_mlen ?q + 5 \<le> length ?q" by (simp only: frame_parts [OF assms(1)]) simp
  have d: "drop (frame_mlen ?q + 5) ?q = q" using frame_parts(2,4) [OF assms(1), of q] by (simp add: add.assoc)
  have f: "frame_action_of (take (frame_mlen ?q) (drop 5 ?q)) = FramePacket addr data"
    using frame_parts(2,3) [OF assms(1), of q] by simp
  show ?thesis by (subst tunnel_loop.simps) (simp only: g d f p if_True Let_def, simp add: p)
qed

lemma loop_frames:
  assumes "\<forall>p \<in> set ps. relayable p" "never_fatal F P"
  shows "tunnel_loop api F P (frames_of ps) s = (False, [], process_all P ps s)"
  using assms(1)
proof (induction ps arbitrary: s)
  case Nil
  show ?case by (simp add: frames_of_def process_all_def tunnel_loop_stop)
next
  case (Cons p ps)
  then show ?case
    using loop_frame [OF _ assms(2), of "fst p" "snd p" api "frames_of ps" s]
    by (simp add: frames_of_def process_all_def split_beta)
qed

subsection \<open>Writing\<close>

text \<open>What the socket of the tunnel accepts: \<open>sent_bytes\<close> are all bytes it has taken.\<close>

locale stream_socket =
  fixes api :: "'k svc_api" and sent_bytes :: "'k \<Rightarrow> bytes"
  assumes stream_send: "phy_streamSend api sock d k = (n, k') \<Longrightarrow>
      n \<le> int (length d) \<and> sent_bytes k' = sent_bytes k @ take (nat n) d"
    and notify_keeps [simp]: "sent_bytes (phy_setNotifyWritable api sock b k) = sent_bytes k"
begin

lemma writable_stream:
  assumes "ns_tcp_heap s a = Some tc" "s' = phyOnTcpWritable api sock a s"
  shows "\<exists>tc'. ns_tcp_heap s' = (ns_tcp_heap s)(a \<mapsto> tc') \<and> tc_sock tc' = tc_sock tc
    \<and> sent_bytes (ns_env s') @ writeq tc' = sent_bytes (ns_env s) @ writeq tc
    \<and> length (writeq tc') \<le> length (writeq tc) \<and> ns_fault s' = ns_fault s"
proof (cases "writeq tc = []")
  case True
  then show ?thesis using assms by (simp add: phyOnTcpWritable_def fun_upd_idem) (metis assms(1) fun_upd_idem)
next
  case False
  obtain n k where n: "phy_streamSend api sock (writeq tc) (ns_env s) = (n, k)" by fastforce
  note st = stream_send [OF n]
  consider "n \<le> 0" | "n > 0" "nat n \<ge> length (writeq tc)" | "n > 0" "nat n < length (writeq tc)" by linarith
  then show ?thesis
  proof cases
    case 1
    then show ?thesis using assms False n st by (intro exI [of _ tc]) (simp add: phyOnTcpWritable_def fun_upd_idem)
  next
    case 2
    then show ?thesis using assms False n st
      by (intro exI [of _ "tc\<lparr>writeq := []\<rparr>"]) (simp add: phyOnTcpWritable_def set_conn_def Let_def)
  next
    case 3
    then show ?thesis using assms False n st
      by (intro exI [of _ "tc\<lparr>writeq := drop (nat n) (writeq tc)\<rparr>"]) (simp add: phyOnTcpWritable_def set_conn_def Let_def)
  qed
qed

end

text \<open>The operations on the write queue of a tunnel: packets the core sends, and calls of the
  socket layer that the socket can take more. The result lists the packets that were
  accepted: a packet is dropped when the queue holds 64 KiB or more.\<close>

datatype relay_op = SendPacket InetAddress bytes | SocketWritable

fun relay_run ::
  "'k svc_api \<Rightarrow> nat \<Rightarrow> relay_op list \<Rightarrow> 'k NodeService \<Rightarrow> (InetAddress \<times> bytes) list \<times> 'k NodeService" where
  "relay_run api a [] s = ([], s)"
| "relay_run api a (SendPacket addr data # ops) s =
     (case relay_run api a ops (tunnel_send api a addr data s) of
        (ps, s') \<Rightarrow> (if (case ns_tcp_heap s a of Some tc \<Rightarrow> length (writeq tc) < 1024 * 64 | None \<Rightarrow> False)
                     then (addr, data) # ps else ps, s'))"
| "relay_run api a (SocketWritable # ops) s =
     relay_run api a ops
       (phyOnTcpWritable api (case ns_tcp_heap s a of Some tc \<Rightarrow> tc_sock tc | None \<Rightarrow> None) a s)"

lemma frames_of_simps [simp]:
  "frames_of [] = []" "frames_of (p # ps) = tunnel_frame (fst p) (snd p) @ frames_of ps"
  by (simp_all add: frames_of_def split_beta)

lemma length_tunnel_frame_le: "length (tunnel_frame addr data) \<le> length data + 8 + length (sin_addr addr)"
  by (cases addr) (simp_all add: tunnel_frame_def Let_def)

context stream_socket
begin

lemma tunnel_send_stream:
  assumes "ns_tcp_heap s a = Some tc" "s' = tunnel_send api a addr data s"
  shows "\<exists>tc'. ns_tcp_heap s' = (ns_tcp_heap s)(a \<mapsto> tc')
    \<and> sent_bytes (ns_env s') @ writeq tc' = sent_bytes (ns_env s) @ writeq tc
        @ (if length (writeq tc) < 1024 * 64 then tunnel_frame addr data else [])
    \<and> length (writeq tc') \<le> max (length (writeq tc)) (1024 * 64 + length (tunnel_frame addr data)) \<and> ns_fault s' = ns_fault s"
proof (cases "length (writeq tc) < 1024 * 64")
  case False
  then show ?thesis using assms by (intro exI [of _ tc]) (simp add: tunnel_send_def fun_upd_idem)
next
  case True
  let ?tc = "tc\<lparr>writeq := writeq tc @ tunnel_frame addr data\<rparr>"
  show ?thesis
  proof (cases "writeq tc = []")
    case False
    then have "s' = set_conn a ?tc s" using assms True by (simp add: tunnel_send_def Let_def)
    then show ?thesis using True by (intro exI [of _ ?tc]) (simp add: set_conn_def)
  next
    case empty: True
    let ?s2 = "set_conn a ?tc (s\<lparr>ns_env := phy_setNotifyWritable api (tc_sock tc) True (ns_env s)\<rparr>)"
    have "s' = phyOnTcpWritable api (tc_sock tc) a ?s2" using assms empty by (simp add: tunnel_send_def Let_def)
    from writable_stream [OF _ this, of ?tc] obtain tc' where
      "ns_tcp_heap s' = (ns_tcp_heap ?s2)(a \<mapsto> tc')"
      "sent_bytes (ns_env s') @ writeq tc' = sent_bytes (ns_env ?s2) @ writeq ?tc"
      "length (writeq tc') \<le> length (writeq ?tc)" "ns_fault s' = ns_fault ?s2"
      by (auto simp: set_conn_def)
    then show ?thesis using empty by (intro exI [of _ tc']) (simp add: set_conn_def)
  qed
qed

lemma relay_run_stream:
  assumes "ns_tcp_heap s a = Some tc" "relay_run api a ops s = (ps, s')"
    "\<And>addr data. SendPacket addr data \<in> set ops \<Longrightarrow> length (tunnel_frame addr data) \<le> L"
    "length (writeq tc) \<le> 1024 * 64 + L"
  shows "\<exists>tc'. ns_tcp_heap s' a = Some tc'
    \<and> sent_bytes (ns_env s') @ writeq tc' = sent_bytes (ns_env s) @ writeq tc @ frames_of ps
    \<and> length (writeq tc') \<le> 1024 * 64 + L \<and> ns_fault s' = ns_fault s"
  using assms
proof (induction ops arbitrary: s tc ps)
  case Nil
  then show ?case by auto
next
  case (Cons op ops)
  show ?case
  proof (cases op)
    case (SendPacket addr data)
    obtain tc1 where t: "ns_tcp_heap (tunnel_send api a addr data s) = (ns_tcp_heap s)(a \<mapsto> tc1)"
      "sent_bytes (ns_env (tunnel_send api a addr data s)) @ writeq tc1 = sent_bytes (ns_env s) @ writeq tc
        @ (if length (writeq tc) < 1024 * 64 then tunnel_frame addr data else [])"
      "length (writeq tc1) \<le> max (length (writeq tc)) (1024 * 64 + length (tunnel_frame addr data))"
      "ns_fault (tunnel_send api a addr data s) = ns_fault s"
      using tunnel_send_stream [OF Cons.prems(1) refl] by blast
    obtain ps1 where r: "relay_run api a ops (tunnel_send api a addr data s) = (ps1, s')"
      "ps = (if length (writeq tc) < 1024 * 64 then (addr, data) # ps1 else ps1)"
      using Cons.prems(1,2) SendPacket by (auto split: prod.splits)
    have "length (tunnel_frame addr data) \<le> L" using Cons.prems(3) SendPacket by simp
    then have "length (writeq tc1) \<le> 1024 * 64 + L" using t(3) Cons.prems(4) by linarith
    from Cons.IH [OF _ r(1) _ this] t(1) Cons.prems(3) obtain tc' where
      "ns_tcp_heap s' a = Some tc'" "length (writeq tc') \<le> 1024 * 64 + L"
      "sent_bytes (ns_env s') @ writeq tc' = sent_bytes (ns_env (tunnel_send api a addr data s)) @ writeq tc1 @ frames_of ps1"
      "ns_fault s' = ns_fault (tunnel_send api a addr data s)" by auto
    moreover have "sent_bytes (ns_env (tunnel_send api a addr data s)) @ writeq tc1 @ frames_of ps1
        = sent_bytes (ns_env s) @ writeq tc @ frames_of ps"
      using arg_cong [OF t(2), of "\<lambda>x. x @ frames_of ps1"] r(2) by (cases "length (writeq tc) < 1024 * 64") simp_all
    ultimately show ?thesis using t(4) by (intro exI [of _ tc']) simp
  next
    case SocketWritable
    let ?s1 = "phyOnTcpWritable api (tc_sock tc) a s"
    obtain tc1 where t: "ns_tcp_heap ?s1 = (ns_tcp_heap s)(a \<mapsto> tc1)"
      "sent_bytes (ns_env ?s1) @ writeq tc1 = sent_bytes (ns_env s) @ writeq tc"
      "length (writeq tc1) \<le> length (writeq tc)" "ns_fault ?s1 = ns_fault s"
      using writable_stream [OF Cons.prems(1) refl] by blast
    have r: "relay_run api a ops ?s1 = (ps, s')" using Cons.prems(1,2) SocketWritable by simp
    have "length (writeq tc1) \<le> 1024 * 64 + L" using t(3) Cons.prems(4) by linarith
    from Cons.IH [OF _ r _ this] t(1) Cons.prems(3) obtain tc' where
      "ns_tcp_heap s' a = Some tc'" "length (writeq tc') \<le> 1024 * 64 + L"
      "sent_bytes (ns_env s') @ writeq tc' = sent_bytes (ns_env ?s1) @ writeq tc1 @ frames_of ps"
      "ns_fault s' = ns_fault ?s1" by auto
    moreover have "sent_bytes (ns_env ?s1) @ writeq tc1 @ frames_of ps = sent_bytes (ns_env s) @ writeq tc @ frames_of ps"
      using arg_cong [OF t(2), of "\<lambda>x. x @ frames_of ps"] by simp
    ultimately show ?thesis using t(4) by (intro exI [of _ tc']) simp
  qed
qed

end

subsection \<open>Instances\<close>

text \<open>A core that records the packets it is given.\<close>

definition sim_process :: "sim_env processor" where
  "sim_process addr data s = (Some 0, s\<lparr>ns_env := (ns_env s)\<lparr>se_udp := se_udp (ns_env s) @ [(addr, data)]\<rparr>\<rparr>)"

interpretation sim_reader: packet_reader sim_api "\<lambda>rc. rc \<ge> 100" sim_process a for a
  by unfold_locales (auto simp: sim_process_def set_read_def is_tunnel_def)

interpretation sim_stream: stream_socket sim_api se_stream
  by unfold_locales (auto simp: sim_api_def min_def)

definition sim_tunnel :: "sim_env NodeService" where
  "sim_tunnel = (NodeService_new sim_api sim_start)\<lparr>ns_tcp_heap := [5 \<mapsto>
     \<lparr>tc_type = TCP_TUNNEL_OUTGOING, tc_sock = Some 9, tc_remoteAddr = InetNil, tc_lastReceive = 0, readq = [], writeq = []\<rparr>],
     ns_tcpConnections := [5], ns_tcpFallbackTunnel := Some 5\<rparr>"

lemma sim_tunnel_heap [simp]:
  "ns_tcp_heap sim_tunnel 5 = Some \<lparr>tc_type = TCP_TUNNEL_OUTGOING, tc_sock = Some 9, tc_remoteAddr = InetNil,
     tc_lastReceive = 0, readq = [], writeq = []\<rparr>"
  by (simp add: sim_tunnel_def)

subsection \<open>Properties\<close>

text \<open>
  C27. It does not matter how the relay stream is cut into reads. Two sequences of reads of a
  fresh tunnel connection that carry the same bytes have the same verdict (whether the
  connection is closed because of a malformed frame, an exception or a fatal error) and leave
  the service, the core included, in the same state up to the time of the last read; if the
  connection stays open the same bytes are waiting for the rest of their frame. The
  processing of a packet is only assumed not to touch the read queue.
\<close>

theorem tunnel_chunks_irrelevant:
  assumes "packet_reader process a" "ns_tcp_heap s a = Some tc" "tc_type tc = TCP_TUNNEL_OUTGOING" "readq tc = []"
    "stream_of reads1 = stream_of reads2"
    "feed api isFatal process a reads1 s = (c1, s1)" "feed api isFatal process a reads2 s = (c2, s2)"
  shows "c1 = c2 \<and> set_read a [] 0 s1 = set_read a [] 0 s2
    \<and> (\<not> c1 \<longrightarrow> map_option readq (ns_tcp_heap s1 a) = map_option readq (ns_tcp_heap s2 a))"
proof -
  let ?t = "tc_lastReceive tc"
  have s: "set_read a [] ?t s = s" using set_read_self [OF assms(2)] assms(4) by simp
  have tun: "is_tunnel a s" using assms(2,3) by (auto simp: is_tunnel_def)
  have e: "tunnel_loop api isFatal process [] s = (False, [], s)" by (rule tunnel_loop_stop) simp
  obtain c r s' where l: "tunnel_loop api isFatal process ([] @ stream_of reads1) s = (c, r, s')"
    by (cases "tunnel_loop api isFatal process ([] @ stream_of reads1) s")
  note f = packet_reader.feed_loop [OF assms(1) tun e, where t = ?t, unfolded s]
  obtain r1 t1 where 1: "c1 = c" "s1 = set_read a r1 t1 s'" "\<not> c \<longrightarrow> r1 = r" using f [OF l] assms(6) by auto
  obtain r2 t2 where 2: "c2 = c" "s2 = set_read a r2 t2 s'" "\<not> c \<longrightarrow> r2 = r"
    using f [OF l [unfolded assms(5)]] assms(7) by auto
  show ?thesis using 1 2 by (auto simp: set_read_def read_upd_def option.map_comp comp_def)
qed

theorem tunnel_chunks_irrelevant_witness:
  "fst (feed sim_api (\<lambda>rc. rc \<ge> 100) sim_process 5 [(1, [23, 3, 3, 0]), (2, [1, 9])] sim_tunnel)
   = fst (feed sim_api (\<lambda>rc. rc \<ge> 100) sim_process 5 [(3, [23, 3, 3, 0, 1, 9])] sim_tunnel)"
proof -
  obtain c1 s1 where 1: "feed sim_api (\<lambda>rc. rc \<ge> 100) sim_process 5 [(1, [23, 3, 3, 0]), (2, [1, 9])] sim_tunnel = (c1, s1)"
    by fastforce
  obtain c2 s2 where 2: "feed sim_api (\<lambda>rc. rc \<ge> 100) sim_process 5 [(3, [23, 3, 3, 0, 1, 9])] sim_tunnel = (c2, s2)"
    by fastforce
  show ?thesis
    using tunnel_chunks_irrelevant [OF sim_reader.packet_reader_axioms sim_tunnel_heap _ _ _ 1 2] 1 2
    by (simp add: stream_of_def)
qed

text \<open>
  C28. The relay tunnel transports packets. Let the bytes of a sequence of packets (IPv4
  addresses, less than 65529 bytes each), framed as the sending side frames them, arrive at a
  fresh tunnel connection in reads of any size. Then the core is handed exactly these packets,
  each with its address, in order; nothing stays in the read queue and the connection stays
  open, unless the core reports a fatal error.
\<close>

theorem tunnel_transports_packets:
  assumes "packet_reader process a" "ns_tcp_heap s a = Some tc" "tc_type tc = TCP_TUNNEL_OUTGOING" "readq tc = []"
    "never_fatal isFatal process" "\<forall>p \<in> set ps. relayable p" "stream_of reads = frames_of ps"
  shows "\<exists>t. feed api isFatal process a reads s = (False, set_read a [] t (process_all process ps s))"
proof -
  have s: "set_read a [] (tc_lastReceive tc) s = s" using set_read_self [OF assms(2)] assms(4) by simp
  have tun: "is_tunnel a s" using assms(2,3) by (auto simp: is_tunnel_def)
  have e: "tunnel_loop api isFatal process [] s = (False, [], s)" by (rule tunnel_loop_stop) simp
  show ?thesis
    using packet_reader.feed_loop [OF assms(1) tun e, where t = "tc_lastReceive tc", unfolded s, of reads]
      loop_frames [OF assms(6,5), of api s] assms(7) by fastforce
qed

theorem tunnel_transports_packets_witness:
  "\<exists>s. feed sim_api (\<lambda>rc. rc \<ge> 100) sim_process 5
      [(1, take 7 (tunnel_frame (InetV4 [10, 0, 0, 1] 9993) [1, 2])), (2, drop 7 (tunnel_frame (InetV4 [10, 0, 0, 1] 9993) [1, 2]))]
      sim_tunnel = (False, s) \<and> se_udp (ns_env s) = [(InetV4 [10, 0, 0, 1] 9993, [1, 2])]"
proof -
  have "never_fatal (\<lambda>rc. rc \<ge> 100) sim_process" by (simp add: never_fatal_def sim_process_def)
  from tunnel_transports_packets [OF sim_reader.packet_reader_axioms sim_tunnel_heap _ _ this,
      of "[(InetV4 [10, 0, 0, 1] 9993, [1, 2])]"
         "[(1, take 7 (tunnel_frame (InetV4 [10, 0, 0, 1] 9993) [1, 2])), (2, drop 7 (tunnel_frame (InetV4 [10, 0, 0, 1] 9993) [1, 2]))]"
         sim_api]
  show ?thesis
    by (auto simp: relayable_def stream_of_def process_all_def sim_process_def set_read_def sim_tunnel_def
        NodeService_new_def sim_start_def)
qed



subsection \<open>When the relay is used\<close>

text \<open>Direct traffic from a global address within the last 30 seconds keeps packets off the
  relay, unless it is forced.\<close>

lemma direct_traffic_avoids_relay:
  assumes "\<not> ns_forceTcpRelay s" "now - ns_lastDirectReceiveFromGlobal s \<le> ZT_TCP_FALLBACK_AFTER"
  shows "ns_tcp_heap (relay_packet api now fresh addr data s) = ns_tcp_heap s
    \<and> ns_env (relay_packet api now fresh addr data s) = ns_env s"
  using assms by (auto simp: relay_packet_def relay_engaged_def Let_def not_le)

text \<open>The difference of the times is unsigned: a clock that was set back engages the relay at
  once.\<close>

lemma clock_set_back_engages_relay:
  assumes "unat now < unat (ns_lastDirectReceiveFromGlobal s)" "unat now < unat (ns_lastRestart s)"
    "unat (ns_lastDirectReceiveFromGlobal s) < 2 ^ 63" "unat (ns_lastRestart s) < 2 ^ 63"
  shows "relay_engaged now s"
proof -
  have "x - y > ZT_TCP_FALLBACK_AFTER" if "unat x < unat y" "unat y < 2 ^ 63" for x y :: u64
    using that by (simp add: ZT_TCP_FALLBACK_AFTER_def word_less_nat_alt unat_sub_if')
  then show ?thesis using assms by (simp add: relay_engaged_def)
qed

text \<open>With the relay forced no datagram is sent and none is read.\<close>

lemma forced_writable [simp]: "ns_forceTcpRelay (phyOnTcpWritable api sock a s) = ns_forceTcpRelay s"
  by (simp add: phyOnTcpWritable_def set_conn_def Let_def split: option.split prod.split)

lemma forced_tunnel_send [simp]: "ns_forceTcpRelay (tunnel_send api a addr data s) = ns_forceTcpRelay s"
  by (simp add: tunnel_send_def set_conn_def Let_def split: option.split)

lemma forced_relay_packet [simp]: "ns_forceTcpRelay (relay_packet api now fresh addr data s) = ns_forceTcpRelay s"
  by (simp add: relay_packet_def open_tunnel_def set_conn_def Let_def split: option.split)

lemma forced_relay_sends_no_datagram:
  assumes "ns_forceTcpRelay s"
  shows "nodeWirePacketSendFunction api now fresh sock addr data ttl s = (0, relay_packet api now fresh addr data s)"
    "phyOnDatagram api F P now addr data s = (False, s)"
  using assms by (simp_all add: nodeWirePacketSendFunction_def phyOnDatagram_def)

end
