(* ===== verification/NodeCore.thy ===== *)
theory NodeCore
  imports NodeRelay
begin

section \<open>The node service of libzt: callbacks and joining\<close>

text \<open>
  How the ZeroTier core and the service of subprojects/libzt-wrapper/NodeService.cpp call each
  other.

  A call of the core (\<open>join\<close>, \<open>leave\<close>, \<open>processWirePacket\<close>, ...) may call the service back,
  any number of times, before it returns. The core is a parameter: a call is the list of
  callbacks it makes, as a function of the service it sees, and \<open>deliver\<close> runs them.
  \<open>callbacks_keep_service_safe\<close> is the invariant under every callback and socket handler:
  each network has its tap, the pointers held by the core and by the relay are valid, and no
  null or dangling pointer is ever dereferenced. \<open>leases_keep_taps\<close> composes this service
  with the node service of the application. \<open>tap_addresses_follow_configuration\<close> gives the
  effect of the network configurations on the addresses of the taps.
\<close>

subsection \<open>Callbacks\<close>

datatype 'k core_callback =
    CoreInternal "'k \<Rightarrow> 'k"
  | CbEvent ZT_Event
  | CbConfig u64 ZT_VirtualNetworkConfigOperation ZT_VirtualNetworkConfig
  | CbPut ZT_StateObjectType u64 bytes int
  | CbFrame u64 u64 u64 nat bytes
  | CbSend u64 nat int InetAddress bytes nat

text \<open>The static functions the core is given: each forwards to the member function, with the
  pointer the core keeps for the network. A step of the core itself only changes its own
  state.\<close>

definition SnodeVirtualNetworkConfigFunction ::
  "'k svc_api \<Rightarrow> u64 \<Rightarrow> ZT_VirtualNetworkConfigOperation \<Rightarrow> ZT_VirtualNetworkConfig \<Rightarrow> 'k NodeService \<Rightarrow> 'k NodeService" where
  "SnodeVirtualNetworkConfigFunction api m op nwc s =
     (case nodeVirtualNetworkConfigFunction api m (ns_nuptrs s m) op nwc s of
        (rc, p, s') \<Rightarrow> s'\<lparr>ns_nuptrs := (ns_nuptrs s')(m := p)\<rparr>)"

fun deliver :: "'k svc_api \<Rightarrow> 'k core_callback \<Rightarrow> 'k NodeService \<Rightarrow> 'k NodeService" where
  "deliver api (CoreInternal f) s = s\<lparr>ns_env := f (ns_env s)\<rparr>"
| "deliver api (CbEvent e) s = nodeEventCallback api e s"
| "deliver api (CbConfig m op nwc) s = SnodeVirtualNetworkConfigFunction api m op nwc s"
| "deliver api (CbPut ty i d l) s = nodeStatePutFunction api ty i d l s"
| "deliver api (CbFrame m src dst e d) s = nodeVirtualNetworkFrameFunction api (ns_nuptrs s m) src dst e d s"
| "deliver api (CbSend now fresh sock addr d ttl) s =
     snd (nodeWirePacketSendFunction api now fresh sock addr d ttl s)"

definition deliver_all :: "'k svc_api \<Rightarrow> 'k core_callback list \<Rightarrow> 'k NodeService \<Rightarrow> 'k NodeService" where
  "deliver_all api cbs s = fold (deliver api) cbs s"

type_synonym 'k core_call = "'k NodeService \<Rightarrow> 'k core_callback list"

text \<open>Joining and leaving. \<open>None\<close> is a call on the null pointer \<open>_node\<close>.\<close>

definition node_call :: "'k svc_api \<Rightarrow> 'k core_call \<Rightarrow> 'k NodeService \<Rightarrow> int option \<times> 'k NodeService" where
  "node_call api c s = (if ns_node s then (Some ZTS_ERR_OK, deliver_all api (c s) s) else (None, s\<lparr>ns_fault := True\<rparr>))"

definition svc_join :: "'k svc_api \<Rightarrow> (u64 \<Rightarrow> 'k core_call) \<Rightarrow> u64 \<Rightarrow> 'k NodeService \<Rightarrow> int option \<times> 'k NodeService" where
  "svc_join api core_join net_id s =
     (if net_id = 0 then (Some ZTS_ERR_ARG, s) else node_call api (core_join net_id) s)"

definition svc_leave :: "'k svc_api \<Rightarrow> (u64 \<Rightarrow> 'k core_call) \<Rightarrow> u64 \<Rightarrow> 'k NodeService \<Rightarrow> int option \<times> 'k NodeService" where
  "svc_leave api core_leave net_id s =
     (if net_id = 0 then (Some ZTS_ERR_ARG, s) else node_call api (core_leave net_id) s)"

text \<open>Moons: \<open>rc\<close> is what the core returns.\<close>

definition svc_orbit :: "'k svc_api \<Rightarrow> 'k core_call \<Rightarrow> int \<Rightarrow> u64 \<Rightarrow> u64 \<Rightarrow> 'k NodeService \<Rightarrow> int option \<times> 'k NodeService" where
  "svc_orbit api c rc moon_roots_id moon_seed s =
     (if moon_roots_id = 0 \<or> moon_seed = 0 then (Some ZTS_ERR_ARG, s)
      else if \<not> ns_run s then (Some ZTS_ERR_SERVICE, s)
      else case node_call api c s of (r, s') \<Rightarrow> (map_option (\<lambda>_. rc) r, s'))"

definition svc_deorbit :: "'k svc_api \<Rightarrow> 'k core_call \<Rightarrow> int \<Rightarrow> u64 \<Rightarrow> 'k NodeService \<Rightarrow> int option \<times> 'k NodeService" where
  "svc_deorbit api c rc moon_roots_id s =
     (if moon_roots_id = 0 then (Some ZTS_ERR_ARG, s)
      else if \<not> ns_run s then (Some ZTS_ERR_SERVICE, s)
      else case node_call api c s of (r, s') \<Rightarrow> (map_option (\<lambda>_. rc) r, s'))"

definition tapFrameHandler :: "'k svc_api \<Rightarrow> 'k core_call \<Rightarrow> 'k NodeService \<Rightarrow> 'k NodeService" where
  "tapFrameHandler api c s = snd (node_call api c s)"

text \<open>The processing of a packet by the core, for the handlers of the sockets.\<close>

type_synonym 'k packet_call = "InetAddress \<Rightarrow> bytes \<Rightarrow> 'k NodeService \<Rightarrow> int option \<times> 'k core_callback list"

definition processor :: "'k svc_api \<Rightarrow> 'k packet_call \<Rightarrow> 'k processor" where
  "processor api c addr data s = (fst (c addr data s), deliver_all api (snd (c addr data s)) s)"

subsection \<open>The invariant of the service\<close>

definition ptrs_ok :: "'k NodeService \<Rightarrow> bool" where
  "ptrs_ok s \<longleftrightarrow> (\<forall>m. ns_nuptrs s m = None \<or> ns_nuptrs s m = Some m \<and> m \<in> fst ` set (ns_nets s))
     \<and> (\<forall>a. ns_tcpFallbackTunnel s = Some a \<longrightarrow> ns_tcp_heap s a \<noteq> None)"

definition svc_inv :: "'k NodeService \<Rightarrow> bool" where
  "svc_inv s \<longleftrightarrow> nets_ok s \<and> ptrs_ok s \<and> ns_events s \<and> \<not> ns_fault s"

text \<open>What the core never does: store an identity or a planet larger than its buffer. A new
  connection object has an unused address.\<close>

fun cb_valid :: "'k core_callback \<Rightarrow> 'k NodeService \<Rightarrow> bool" where
  "cb_valid (CbPut ty i d l) s =
     (case ty of
        ZT_STATE_OBJECT_IDENTITY_PUBLIC \<Rightarrow> mem_write ZT_IDENTITY_STRING_BUFFER_LENGTH d l
      | ZT_STATE_OBJECT_IDENTITY_SECRET \<Rightarrow> mem_write ZT_IDENTITY_STRING_BUFFER_LENGTH d l
      | ZT_STATE_OBJECT_PLANET \<Rightarrow> mem_write ZTS_STORE_DATA_LEN d l
      | _ \<Rightarrow> True)"
| "cb_valid (CbSend now fresh sock addr d ttl) s = (ns_tcp_heap s fresh = None)"
| "cb_valid _ s = True"

fun cbs_valid :: "'k svc_api \<Rightarrow> 'k core_callback list \<Rightarrow> 'k NodeService \<Rightarrow> bool" where
  "cbs_valid api [] s = True"
| "cbs_valid api (cb # cbs) s = (cb_valid cb s \<and> cbs_valid api cbs (deliver api cb s))"

lemma svc_inv_cong:
  assumes "ns_nets s' = ns_nets s" "ns_nuptrs s' = ns_nuptrs s" "ns_tcpFallbackTunnel s' = ns_tcpFallbackTunnel s"
    "\<And>a. ns_tcp_heap s a \<noteq> None \<Longrightarrow> ns_tcp_heap s' a \<noteq> None" "ns_events s' = ns_events s" "ns_fault s' = ns_fault s" "svc_inv s"
  shows "svc_inv s'"
  using assms by (simp add: svc_inv_def nets_ok_def ptrs_ok_def)

lemma terminate_fields [simp]:
  "ns_nets (terminate api s) = ns_nets s" "ns_nuptrs (terminate api s) = ns_nuptrs s"
  "ns_tcpFallbackTunnel (terminate api s) = ns_tcpFallbackTunnel s" "ns_events (terminate api s) = ns_events s"
  "ns_fault (terminate api s) = (ns_fault s \<or> \<not> ns_events s)" "ns_termReason (terminate api s) = ns_termReason s"
  "\<not> ns_run (terminate api s)" "ns_node (terminate api s) = ns_node s"
  by (simp_all add: terminate_def Let_def)

lemma event_fields [simp]:
  "ns_nets (nodeEventCallback api e s) = ns_nets s" "ns_nuptrs (nodeEventCallback api e s) = ns_nuptrs s"
  "ns_tcpFallbackTunnel (nodeEventCallback api e s) = ns_tcpFallbackTunnel s"
  "ns_tcp_heap (nodeEventCallback api e s) = ns_tcp_heap s"
  "ns_events (nodeEventCallback api e s) = ns_events s" "ns_node (nodeEventCallback api e s) = ns_node s"
  by (cases e; simp add: nodeEventCallback_def Let_def)+

lemma event_fault: "ns_events s \<Longrightarrow> ns_fault (nodeEventCallback api e s) = ns_fault s"
  by (cases e) (simp_all add: nodeEventCallback_def Let_def)

lemma event_inv: "svc_inv s \<Longrightarrow> svc_inv (nodeEventCallback api e s)"
  by (rule svc_inv_cong [of _ s]) (simp_all add: event_fault svc_inv_def)

lemma put_fields [simp]:
  "ns_nets (nodeStatePutFunction api ty i d l s) = ns_nets s" "ns_nuptrs (nodeStatePutFunction api ty i d l s) = ns_nuptrs s"
  "ns_tcpFallbackTunnel (nodeStatePutFunction api ty i d l s) = ns_tcpFallbackTunnel s"
  "ns_tcp_heap (nodeStatePutFunction api ty i d l s) = ns_tcp_heap s"
  "ns_events (nodeStatePutFunction api ty i d l s) = ns_events s"
  by (cases ty; simp add: nodeStatePutFunction_def put_identity_public_def put_identity_secret_def put_roots_def Let_def
      split: option.split prod.split)+

lemma put_fault:
  "cb_valid (CbPut ty i d l) s \<Longrightarrow> ns_fault (nodeStatePutFunction api ty i d l s) = ns_fault s"
  by (cases ty) (simp_all add: nodeStatePutFunction_def put_identity_public_def put_identity_secret_def put_roots_def Let_def
      split: option.split prod.split)

lemma put_inv: "svc_inv s \<Longrightarrow> cb_valid (CbPut ty i d l) s \<Longrightarrow> svc_inv (nodeStatePutFunction api ty i d l s)"
  by (rule svc_inv_cong [of _ s]) (simp_all add: put_fault svc_inv_def del: cb_valid.simps)

text \<open>The pointer of the core for a network follows its entry in the table.\<close>

lemma keys_find: "m \<in> fst ` set xs \<longleftrightarrow> map_of xs m \<noteq> None"
  by (auto simp: map_of_eq_None_iff image_iff)

lemma env_only_fields:
  "ns_nuptrs (s\<lparr>ns_env := k\<rparr>) = ns_nuptrs s" "ns_tcp_heap (s\<lparr>ns_env := k\<rparr>) = ns_tcp_heap s"
  by simp_all

lemma net_update_rest:
  assumes "net_update api m b nwc n s = (rc, s')"
  shows "ns_nuptrs s' = ns_nuptrs s \<and> ns_tcp_heap s' = ns_tcp_heap s \<and> ns_tcpFallbackTunnel s' = ns_tcpFallbackTunnel s"
proof (cases "tap n")
  case None
  then show ?thesis using assms by (auto simp: net_update_def Let_def)
next
  case (Some t)
  obtain k where k: "syncManagedStuff api t (n\<lparr>net_config := nwc\<rparr>) s =
      (n\<lparr>net_config := nwc, managedIps := new_managed_ips api (n\<lparr>net_config := nwc\<rparr>)\<rparr>, s\<lparr>ns_env := k\<rparr>)"
    using syncManagedStuff_env [of api t "n\<lparr>net_config := nwc\<rparr>" s] by auto
  from assms Some show ?thesis by (cases b) (auto simp: net_update_def k Let_def)
qed

lemma net_down_rest:
  "net_down api m d n p s = (rc, p', s') \<Longrightarrow>
   ns_nuptrs s' = ns_nuptrs s \<and> ns_tcp_heap s' = ns_tcp_heap s \<and> ns_tcpFallbackTunnel s' = ns_tcpFallbackTunnel s
   \<and> p' = (if tap n = None then p else None) \<and> ns_nets s' = AList.delete m (ns_nets s)"
  by (auto simp: net_down_def Let_def split: option.splits if_splits)

lemma net_up_rest:
  "net_up api m nwc n p s = (n', p', s') \<Longrightarrow>
   ns_nuptrs s' = ns_nuptrs s \<and> ns_tcp_heap s' = ns_tcp_heap s \<and> ns_tcpFallbackTunnel s' = ns_tcpFallbackTunnel s
   \<and> p' = (if tap n = None then Some m else p)"
  by (auto simp: net_up_def split: option.splits prod.splits)

lemma config_rest:
  assumes "nodeVirtualNetworkConfigFunction api m p op nwc s = (rc, p', s')" "nets_ok s"
    "p = None \<or> p = Some m \<and> map_of (ns_nets s) m \<noteq> None"
  shows "ns_nuptrs s' = ns_nuptrs s \<and> ns_tcp_heap s' = ns_tcp_heap s \<and> ns_tcpFallbackTunnel s' = ns_tcpFallbackTunnel s
    \<and> (\<forall>j. j \<noteq> m \<longrightarrow> map_of (ns_nets s') j = map_of (ns_nets s) j)
    \<and> (p' = None \<or> p' = Some m \<and> map_of (ns_nets s') m \<noteq> None)"
proof -
  let ?n = "case map_of (ns_nets s) m of Some n \<Rightarrow> n | None \<Rightarrow> NetworkState_new api"
  have t: "tap_net_id t = m" if "tap ?n = Some t" for t
    using that nets_ok_find [OF assms(2), of m] by (fastforce simp: NetworkState_new_def split: option.splits)
  have tn: "tap ?n = None \<longleftrightarrow> map_of (ns_nets s) m = None"
    using nets_ok_find [OF assms(2), of m] by (fastforce simp: NetworkState_new_def split: option.splits)
  show ?thesis
  proof (cases op)
    case ZT_VIRTUAL_NETWORK_CONFIG_OPERATION_UP
    obtain n1 p1 s1 where u: "net_up api m nwc ?n p s = (n1, p1, s1)" by (cases "net_up api m nwc ?n p s")
    obtain s2 rc2 where v: "net_update api m False nwc n1 s1 = (rc2, s2)" by fastforce
    from net_up_tap [OF u t] obtain t1 where t1: "tap n1 = Some t1" "ns_nets s1 = ns_nets s" by blast
    have "s' = s2" "p' = p1" using assms(1) u v ZT_VIRTUAL_NETWORK_CONFIG_OPERATION_UP by (simp_all add: net_ops)
    then show ?thesis
      using net_update_nets [OF v t1(1)] net_update_rest [OF v] net_up_rest [OF u] t1(2) assms(3) by auto
  next
    case ZT_VIRTUAL_NETWORK_CONFIG_OPERATION_CONFIG_UPDATE
    obtain s2 rc2 where v: "net_update api m True nwc ?n s = (rc2, s2)" by fastforce
    have s: "s' = s2" "p' = p" using assms(1) v ZT_VIRTUAL_NETWORK_CONFIG_OPERATION_CONFIG_UPDATE by (simp_all add: net_ops)
    show ?thesis
    proof (cases "tap ?n")
      case None
      then have "s2 = s\<lparr>ns_nets := AList.delete m (ns_nets s)\<rparr>" "p = None"
        using v tn assms(3) by (auto simp: net_update_def Let_def)
      then show ?thesis using s by (simp add: AList.delete_conv')
    next
      case (Some t0)
      then show ?thesis using s net_update_nets [OF v Some] net_update_rest [OF v] assms(3) by auto
    qed
  qed (use assms(1,3) tn in \<open>auto simp: net_ops AList.delete_conv' dest!: net_down_rest\<close>)
qed

lemma config_inv: "svc_inv s \<Longrightarrow> svc_inv (SnodeVirtualNetworkConfigFunction api m op nwc s)"
proof -
  assume i: "svc_inv s"
  obtain rc p' s' where c: "nodeVirtualNetworkConfigFunction api m (ns_nuptrs s m) op nwc s = (rc, p', s')"
    by (cases "nodeVirtualNetworkConfigFunction api m (ns_nuptrs s m) op nwc s")
  have p: "ns_nuptrs s j = None \<or> ns_nuptrs s j = Some j \<and> map_of (ns_nets s) j \<noteq> None" for j
    using i by (auto simp: svc_inv_def ptrs_ok_def keys_find)
  have n: "nets_ok s' \<and> ns_fault s' = ns_fault s \<and> ns_events s' = ns_events s"
    using config_function_nets [OF c] i by (simp add: svc_inv_def)
  note r = config_rest [OF c _ p]
  have "ptrs_ok (s'\<lparr>ns_nuptrs := (ns_nuptrs s')(m := p')\<rparr>)"
    using r i p by (fastforce simp: svc_inv_def ptrs_ok_def keys_find)
  then show ?thesis
    using n i c by (simp add: SnodeVirtualNetworkConfigFunction_def svc_inv_def nets_ok_def)
qed

lemma frame_inv: "svc_inv s \<Longrightarrow> svc_inv (nodeVirtualNetworkFrameFunction api (ns_nuptrs s m) src dst e d s)"
proof (cases "ns_nuptrs s m")
  case (Some p)
  assume i: "svc_inv s"
  then obtain n where "map_of (ns_nets s) p = Some n"
    using Some by (auto simp: svc_inv_def ptrs_ok_def keys_find dest: spec [of _ m])
  then show ?thesis
    using i Some
    by (intro svc_inv_cong [OF _ _ _ _ _ _ i]) (auto simp: nodeVirtualNetworkFrameFunction_def split: option.split)
qed (simp add: nodeVirtualNetworkFrameFunction_def)

subsection \<open>Connections of the relay\<close>

text \<open>A service that differs only in its connections, environment and times.\<close>

definition conn_change :: "'k NodeService \<Rightarrow> 'k NodeService \<Rightarrow> bool" where
  "conn_change s s' \<longleftrightarrow> ns_nets s' = ns_nets s \<and> ns_nuptrs s' = ns_nuptrs s
     \<and> ns_tcpFallbackTunnel s' = ns_tcpFallbackTunnel s \<and> ns_events s' = ns_events s \<and> ns_fault s' = ns_fault s
     \<and> dom (ns_tcp_heap s) \<subseteq> dom (ns_tcp_heap s')"

lemma conn_change_inv: "conn_change s s' \<Longrightarrow> svc_inv s \<Longrightarrow> svc_inv s'"
  by (rule svc_inv_cong [of s' s]) (auto simp: conn_change_def)

lemma conn_change_refl [simp]: "conn_change s s"
  by (simp add: conn_change_def)

lemma conn_change_trans: "conn_change s s' \<Longrightarrow> conn_change s' s'' \<Longrightarrow> conn_change s s''"
  by (auto simp: conn_change_def)

lemma conn_change_env [simp]: "conn_change s (s\<lparr>ns_env := k\<rparr>)"
  by (simp add: conn_change_def)

lemma set_conn_change [simp]: "conn_change s (set_conn a tc s)"
  by (auto simp: conn_change_def set_conn_def)

lemma writable_change: "ns_tcp_heap s a \<noteq> None \<Longrightarrow> conn_change s (phyOnTcpWritable api sock a s)"
  by (auto simp: phyOnTcpWritable_def set_conn_def conn_change_def Let_def split: option.split prod.split)

lemma tunnel_send_change: "ns_tcp_heap s a \<noteq> None \<Longrightarrow> conn_change s (tunnel_send api a addr d s)"
proof -
  assume "ns_tcp_heap s a \<noteq> None"
  then obtain tc where tc: "ns_tcp_heap s a = Some tc" by blast
  have w: "conn_change s (phyOnTcpWritable api sock a x)" if "conn_change s x" "ns_tcp_heap x a \<noteq> None" for x sock
    using conn_change_trans [OF that(1) writable_change [OF that(2)]] .
  have e: "conn_change s (set_conn a tc' (s\<lparr>ns_env := k\<rparr>))" for tc' k
    by (rule conn_change_trans [OF conn_change_env set_conn_change])
  have h: "ns_tcp_heap (set_conn a tc' x) a \<noteq> None" for tc' and x :: "'a NodeService" by (simp add: set_conn_def)
  show ?thesis by (simp add: tunnel_send_def Let_def tc) (intro impI conjI w e h set_conn_change)
qed

lemma relay_packet_inv:
  assumes "svc_inv s" "ns_tcp_heap s fresh = None"
  shows "svc_inv (relay_packet api now fresh addr d s)"
proof -
  have t: "svc_inv (tunnel_send api a addr d s)" if "ns_tcpFallbackTunnel s = Some a" for a
    using that assms(1) by (intro conn_change_inv [OF tunnel_send_change]) (auto simp: svc_inv_def ptrs_ok_def)
  have o: "svc_inv (open_tunnel api now fresh s)"
    by (rule conn_change_inv [OF _ assms(1)]) (auto simp: conn_change_def open_tunnel_def set_conn_def Let_def)
  have l: "svc_inv (x\<lparr>ns_lastSendToGlobalV4 := now\<rparr>) = svc_inv x" for x :: "'a NodeService"
    by (simp add: svc_inv_def nets_ok_def ptrs_ok_def)
  show ?thesis using assms(1) t o by (auto simp: relay_packet_def l Let_def split: option.split)
qed

lemma send_inv:
  assumes "svc_inv s" "ns_tcp_heap s fresh = None"
  shows "svc_inv (snd (nodeWirePacketSendFunction api now fresh sock addr d ttl s))"
proof -
  have "conn_change (relay_packet api now fresh addr d s) (snd (nodeWirePacketSendFunction api now fresh sock addr d ttl s))"
    by (simp add: nodeWirePacketSendFunction_def Let_def split: prod.split)
  then show ?thesis by (rule conn_change_inv) (rule relay_packet_inv [OF assms])
qed

lemma deliver_inv: "svc_inv s \<Longrightarrow> cb_valid cb s \<Longrightarrow> svc_inv (deliver api cb s)"
proof (cases cb)
  case (CoreInternal f)
  assume "svc_inv s"
  then show ?thesis using CoreInternal conn_change_inv [OF conn_change_env] by simp
qed (auto intro: event_inv config_inv frame_inv send_inv put_inv)

lemma deliver_all_inv: "svc_inv s \<Longrightarrow> cbs_valid api cbs s \<Longrightarrow> svc_inv (deliver_all api cbs s)"
  by (induction cbs arbitrary: s) (auto simp: deliver_all_def intro: deliver_inv)

subsection \<open>Handlers\<close>

definition call_valid :: "'k svc_api \<Rightarrow> 'k packet_call \<Rightarrow> bool" where
  "call_valid api c \<longleftrightarrow> (\<forall>addr d s. svc_inv s \<longrightarrow> cbs_valid api (snd (c addr d s)) s)"

lemma processor_inv: "call_valid api c \<Longrightarrow> svc_inv s \<Longrightarrow> svc_inv (snd (processor api c addr d s))"
  by (simp add: processor_def call_valid_def deliver_all_inv)

lemma fatal_inv: "svc_inv s \<Longrightarrow> svc_inv (fatal_packet_error api rc s)"
  by (rule svc_inv_cong [of _ s]) (simp_all add: fatal_packet_error_def svc_inv_def)

lemma tunnel_loop_inv:
  assumes "call_valid api c" "svc_inv s" "tunnel_loop api F (processor api c) q s = (b, r, s')"
  shows "svc_inv s'"
  using assms(2,3)
proof (induction "length q" arbitrary: q s rule: less_induct)
  case less
  have IH: "svc_inv s'" if "5 \<le> length q" "svc_inv x"
      "tunnel_loop api F (processor api c) (drop (frame_mlen q + 5) q) x = (b, r, s')" for x
    using that by (intro less(1) [of "drop (frame_mlen q + 5) q" x]) auto
  show ?case
  proof (cases "length q \<ge> 5 \<and> length q \<ge> frame_mlen q + 5")
    case True
    note L = less(3) [unfolded tunnel_loop.simps [of _ _ _ q]]
    show ?thesis
    proof (cases "frame_action_of (take (frame_mlen q) (drop 5 q))")
      case (FramePacket src payload)
      obtain rc x where p: "processor api c src payload s = (rc, x)" by fastforce
      then have "svc_inv x" using processor_inv [OF assms(1) less(2), of src payload] by simp
      then show ?thesis using L True FramePacket p IH [of x] fatal_inv [of x]
        by (auto simp: Let_def split: option.splits if_splits)
    qed (use L True less(2) IH [of s] in \<open>auto simp: Let_def\<close>)
  qed (use less(2,3) tunnel_loop_stop [of q api F "processor api c" s] in auto)
qed

lemma set_read_change [simp]: "conn_change s (set_read a q t s)"
  by (auto simp: conn_change_def set_read_def read_upd_def)

lemma data_inv:
  assumes "call_valid api c" "svc_inv s" "ns_tcp_heap s a \<noteq> None"
  shows "svc_inv (snd (phyOnTcpData api F (processor api c) now (Some a) d s))"
proof -
  have r: "svc_inv (set_read a q t x)" if "svc_inv x" for q t and x :: "'a NodeService"
    using that conn_change_inv [OF set_read_change] by blast
  have "svc_inv s'" if "tunnel_loop api F (processor api c) q (set_read a r t s) = (b, q', s')" for q r t b q' s'
    using tunnel_loop_inv [OF assms(1) r [OF assms(2)] that] .
  then show ?thesis using assms(2,3) r by (auto simp: phyOnTcpData_def split: option.split prod.split)
qed

lemma datagram_inv:
  assumes "call_valid api c" "svc_inv s"
  shows "svc_inv (snd (phyOnDatagram api F (processor api c) now src d s))"
proof -
  have "conn_change s (s\<lparr>ns_lastDirectReceiveFromGlobal := now\<rparr>)" by (simp add: conn_change_def)
  then have l: "svc_inv (if b then s\<lparr>ns_lastDirectReceiveFromGlobal := now\<rparr> else s)" for b
    using assms(2) conn_change_inv by auto
  let ?x = "if length d \<ge> 16 \<and> ipScope_global api src then s\<lparr>ns_lastDirectReceiveFromGlobal := now\<rparr> else s"
  obtain r y where p: "processor api c src d ?x = (r, y)" by fastforce
  have "svc_inv y" using processor_inv [OF assms(1) l, of src d "length d \<ge> 16 \<and> ipScope_global api src"] p by simp
  then show ?thesis
    using assms(2) fatal_inv [of y] by (simp add: phyOnDatagram_def Let_def p split: option.split)
qed

lemma close_inv: "svc_inv s \<Longrightarrow> svc_inv (phyOnTcpClose uptr s)"
  by (auto simp: svc_inv_def nets_ok_def ptrs_ok_def phyOnTcpClose_def split: option.split)

lemma connect_inv:
  assumes "svc_inv s" "ns_tcp_heap s a \<noteq> None" "ns_tcpFallbackTunnel s \<noteq> Some a"
  shows "svc_inv (snd (phyOnTcpConnect api sock (Some a) success s))"
proof -
  obtain tc where tc: "ns_tcp_heap s a = Some tc" using assms(2) by blast
  let ?s1 = "set_conn a (tc\<lparr>tc_sock := Some sock\<rparr>) s"
  have s1: "svc_inv ?s1" using conn_change_inv [OF set_conn_change assms(1)] .
  let ?s2 = "phyOnTcpClose (ns_tcpFallbackTunnel ?s1) ?s1"
  have s2: "svc_inv ?s2" using close_inv [OF s1] .
  have "ns_tcp_heap ?s2 a \<noteq> None"
    using assms(3) by (cases "ns_tcpFallbackTunnel s") (auto simp: phyOnTcpClose_def set_conn_def)
  then have "svc_inv (?s2\<lparr>ns_tcpFallbackTunnel := Some a, ns_env := k\<rparr>)" for k
    using s2 by (simp add: svc_inv_def nets_ok_def ptrs_ok_def)
  then show ?thesis using assms(1) close_inv [OF assms(1)] s1 tc by (simp add: phyOnTcpConnect_def Let_def)
qed

subsection \<open>Synthetic events\<close>

lemma send_change [simp]: "conn_change s (sendEventToUser api code src len s)"
  by (simp add: conn_change_def)

lemma send_change_trans: "conn_change s x \<Longrightarrow> conn_change s (sendEventToUser api code src len x)"
  by (rule conn_change_trans [OF _ send_change])

lemma status_events_change: "conn_change s (status_events api t n s)"
  unfolding status_events_def Let_def by (auto intro!: send_change_trans)

lemma peer_events_change: "conn_change s (peer_events api p s)"
  unfolding peer_events_def Let_def by (auto split: option.split intro!: send_change_trans)

lemma svc_inv_put:
  assumes "svc_inv s" "tap n = Some t" "tap_net_id t = m"
  shows "svc_inv (s\<lparr>ns_nets := map_put m n (ns_nets s)\<rparr>)"
proof -
  have "nets_ok (s\<lparr>ns_nets := map_put m n (ns_nets s)\<rparr>)"
    by (rule nets_ok_put [where s = s, OF _ assms(2,3)]) (use assms(1) in \<open>simp_all add: svc_inv_def\<close>)
  moreover have "ptrs_ok (s\<lparr>ns_nets := map_put m n (ns_nets s)\<rparr>)"
    using assms(1) by (simp add: svc_inv_def ptrs_ok_def keys_map_put) blast
  ultimately show ?thesis using assms(1) by (simp add: svc_inv_def)
qed

lemma synthetic_nets_inv:
  assumes "svc_inv s" "\<forall>(m, n) \<in> set ns. \<exists>t. tap n = Some t \<and> tap_net_id t = m"
  shows "svc_inv (synthetic_nets api ns s)"
  using assms
proof (induction ns arbitrary: s)
  case (Cons e ns)
  obtain m n where e: "e = (m, n)" by fastforce
  then obtain t where t: "tap n = Some t" "tap_net_id t = m" using Cons.prems(2) by auto
  have ns: "\<forall>(m, n) \<in> set ns. \<exists>t. tap n = Some t \<and> tap_net_id t = m" using Cons.prems(2) by simp
  show ?case
  proof (cases "tap_networkStatus t = cfg_status (net_config n)")
    case True
    then show ?thesis using Cons.IH [OF Cons.prems(1) ns] t e by simp
  next
    case False
    let ?t = "t\<lparr>tap_networkStatus := cfg_status (net_config n)\<rparr>"
    have "svc_inv (status_events api t n s)" using conn_change_inv [OF status_events_change Cons.prems(1)] .
    from svc_inv_put [OF this, of "n\<lparr>tap := Some ?t\<rparr>" ?t m] t(2)
    have "svc_inv (status_events api t n s\<lparr>ns_nets := map_put m (n\<lparr>tap := Some ?t\<rparr>) (ns_nets (status_events api t n s))\<rparr>)"
      by simp
    from Cons.IH [OF this ns] show ?thesis using False t(1) e by (simp add: Let_def)
  qed
qed simp

lemma synthetic_peers_inv: "svc_inv s \<Longrightarrow> svc_inv (synthetic_peers api ps s)"
proof (induction ps arbitrary: s)
  case (Cons p ps)
  have "conn_change s (peer_events api p s\<lparr>ns_peerCache := c\<rparr>)" for c
    using peer_events_change [of s api p] by (simp add: conn_change_def)
  from conn_change_inv [OF this Cons.prems] Cons.IH show ?case by (simp add: Let_def)
qed simp

lemma synthetic_inv: "svc_inv s \<Longrightarrow> svc_inv (generateSyntheticEvents api s)"
proof -
  assume i: "svc_inv s"
  then have "svc_inv (synthetic_nets api (ns_nets s) s)"
    by (intro synthetic_nets_inv) (auto simp: svc_inv_def nets_ok_def)
  then show ?thesis using i synthetic_peers_inv by (auto simp: generateSyntheticEvents_def Let_def split: option.split)
qed

subsection \<open>Histories of the service\<close>

text \<open>The steps of a service: a call of the core with its callbacks, the handlers of the
  sockets (\<open>_phy.close\<close> calls \<open>phyOnTcpClose\<close>), and the events of the main loop. A handler of
  a connection gets the pointer of a connection that exists, and a connection is connected
  at most once.\<close>

definition close_socket :: "nat \<Rightarrow> bool \<times> 'k NodeService \<Rightarrow> 'k NodeService" where
  "close_socket a r = (if fst r then phyOnTcpClose (Some a) (snd r) else snd r)"

inductive svc_step :: "'k svc_api \<Rightarrow> (int \<Rightarrow> bool) \<Rightarrow> 'k NodeService \<Rightarrow> 'k NodeService \<Rightarrow> bool"
  for api :: "'k svc_api" and F :: "int \<Rightarrow> bool" where
  core_call: "cbs_valid api cbs s \<Longrightarrow> svc_step api F s (deliver_all api cbs s)"
| datagram: "call_valid api c \<Longrightarrow> svc_step api F s (snd (phyOnDatagram api F (processor api c) now src d s))"
| tcp_data: "call_valid api c \<Longrightarrow> ns_tcp_heap s a \<noteq> None \<Longrightarrow>
    svc_step api F s (close_socket a (phyOnTcpData api F (processor api c) now (Some a) d s))"
| tcp_connect: "ns_tcp_heap s a \<noteq> None \<Longrightarrow> ns_tcpFallbackTunnel s \<noteq> Some a \<Longrightarrow>
    svc_step api F s (close_socket a (phyOnTcpConnect api sock (Some a) success s))"
| tcp_close: "svc_step api F s (phyOnTcpClose (Some a) s)"
| tcp_writable: "ns_tcp_heap s a \<noteq> None \<Longrightarrow> svc_step api F s (phyOnTcpWritable api sock a s)"
| synthetic: "svc_step api F s (generateSyntheticEvents api s)"

lemma close_socket_inv: "svc_inv (snd r) \<Longrightarrow> svc_inv (close_socket a r)"
  by (simp add: close_socket_def close_inv)

lemma svc_step_inv: "svc_step api F s s' \<Longrightarrow> svc_inv s \<Longrightarrow> svc_inv s'"
  by (induction rule: svc_step.induct)
     (auto intro: deliver_all_inv datagram_inv close_socket_inv data_inv connect_inv close_inv synthetic_inv
        conn_change_inv [OF writable_change])

subsection \<open>The contract of the node service of the application\<close>

text \<open>Callbacks keep the table of networks well-formed, and only the callback that takes a
  network down removes it.\<close>

definition net_ids :: "'k NodeService \<Rightarrow> u64 set" where
  "net_ids s = fst ` set (ns_nets s)"

fun takes_down :: "u64 \<Rightarrow> 'k core_callback \<Rightarrow> bool" where
  "takes_down m (CbConfig n op c) =
     (n = m \<and> (op = ZT_VIRTUAL_NETWORK_CONFIG_OPERATION_DOWN \<or> op = ZT_VIRTUAL_NETWORK_CONFIG_OPERATION_DESTROY))"
| "takes_down m _ = False"

lemma conn_change_nets: "conn_change s s' \<Longrightarrow> nets_ok s' = nets_ok s \<and> net_ids s' = net_ids s"
  by (simp add: conn_change_def nets_ok_def net_ids_def)

lemma writable_nets: "ns_nets (phyOnTcpWritable api sock a s) = ns_nets s"
  by (simp add: phyOnTcpWritable_def set_conn_def Let_def split: option.split prod.split)

lemma tunnel_send_nets: "ns_nets (tunnel_send api a addr d s) = ns_nets s"
  by (simp add: tunnel_send_def set_conn_def writable_nets Let_def split: option.split)

lemma relay_packet_nets: "ns_nets (relay_packet api now fresh addr d s) = ns_nets s"
  by (simp add: relay_packet_def open_tunnel_def set_conn_def tunnel_send_nets Let_def split: option.split)

lemma send_nets: "ns_nets (snd (nodeWirePacketSendFunction api now fresh sock addr d ttl s)) = ns_nets s"
  by (simp add: nodeWirePacketSendFunction_def relay_packet_nets Let_def split: prod.split)

lemma frame_nets: "ns_nets (nodeVirtualNetworkFrameFunction api p src dst e d s) = ns_nets s"
  by (simp add: nodeVirtualNetworkFrameFunction_def split: option.split)

lemma config_nets_ok:
  assumes "nets_ok s"
  shows "nets_ok (SnodeVirtualNetworkConfigFunction api m op nwc s)"
  using config_function_nets [OF _ assms]
  by (auto simp: SnodeVirtualNetworkConfigFunction_def nets_ok_def split: prod.splits)

lemma config_ids:
  assumes "nets_ok s"
  shows "net_ids (SnodeVirtualNetworkConfigFunction api m op nwc s) =
    (if op = ZT_VIRTUAL_NETWORK_CONFIG_OPERATION_UP then insert m (net_ids s)
     else if op = ZT_VIRTUAL_NETWORK_CONFIG_OPERATION_CONFIG_UPDATE then net_ids s else net_ids s - {m})"
proof -
  let ?n = "case map_of (ns_nets s) m of Some n \<Rightarrow> n | None \<Rightarrow> NetworkState_new api"
  let ?p = "ns_nuptrs s m"
  have t: "tap_net_id t = m" if "tap ?n = Some t" for t
    using that nets_ok_find [OF assms, of m] by (fastforce simp: NetworkState_new_def split: option.splits)
  have tn: "tap ?n = None \<longleftrightarrow> m \<notin> net_ids s"
    using nets_ok_find [OF assms, of m] by (fastforce simp: NetworkState_new_def net_ids_def keys_find split: option.splits)
  obtain rc p' s' where c: "nodeVirtualNetworkConfigFunction api m ?p op nwc s = (rc, p', s')"
    by (cases "nodeVirtualNetworkConfigFunction api m ?p op nwc s")
  have d: "fst ` set (AList.delete m (ns_nets s)) = net_ids s - {m}"
    using arg_cong [OF keys_delete [of m "ns_nets s"], of set] by (auto simp: net_ids_def)
  have "net_ids s' = (if op = ZT_VIRTUAL_NETWORK_CONFIG_OPERATION_UP then insert m (net_ids s)
     else if op = ZT_VIRTUAL_NETWORK_CONFIG_OPERATION_CONFIG_UPDATE then net_ids s else net_ids s - {m})"
  proof (cases op)
    case ZT_VIRTUAL_NETWORK_CONFIG_OPERATION_UP
    obtain n1 p1 s1 where u: "net_up api m nwc ?n ?p s = (n1, p1, s1)" by (cases "net_up api m nwc ?n ?p s")
    obtain s2 rc2 where v: "net_update api m False nwc n1 s1 = (rc2, s2)" by fastforce
    from net_up_tap [OF u t] obtain t1 where t1: "tap n1 = Some t1" "ns_nets s1 = ns_nets s" by blast
    have "s' = s2" using c u v ZT_VIRTUAL_NETWORK_CONFIG_OPERATION_UP by (simp add: net_ops)
    then show ?thesis
      using net_update_nets [OF v t1(1)] t1(2) ZT_VIRTUAL_NETWORK_CONFIG_OPERATION_UP by (simp add: net_ids_def keys_map_put)
  next
    case ZT_VIRTUAL_NETWORK_CONFIG_OPERATION_CONFIG_UPDATE
    obtain s2 rc2 where v: "net_update api m True nwc ?n s = (rc2, s2)" by fastforce
    have s: "s' = s2" using c v ZT_VIRTUAL_NETWORK_CONFIG_OPERATION_CONFIG_UPDATE by (simp add: net_ops)
    show ?thesis
    proof (cases "tap ?n")
      case None
      then have "net_ids s2 = net_ids s" using v tn d by (auto simp: net_update_def net_ids_def Let_def)
      then show ?thesis using s ZT_VIRTUAL_NETWORK_CONFIG_OPERATION_CONFIG_UPDATE by simp
    next
      case (Some t0)
      then have "m \<in> net_ids s" using tn by auto
      then show ?thesis
        using s net_update_nets [OF v Some] ZT_VIRTUAL_NETWORK_CONFIG_OPERATION_CONFIG_UPDATE
        by (auto simp: net_ids_def keys_map_put)
    qed
  next
    case ZT_VIRTUAL_NETWORK_CONFIG_OPERATION_DOWN
    then have "ns_nets s' = AList.delete m (ns_nets s)" using c by (auto simp: net_ops dest!: net_down_rest)
    then show ?thesis using d ZT_VIRTUAL_NETWORK_CONFIG_OPERATION_DOWN by (simp add: net_ids_def)
  next
    case ZT_VIRTUAL_NETWORK_CONFIG_OPERATION_DESTROY
    then have "ns_nets s' = AList.delete m (ns_nets s)" using c by (auto simp: net_ops dest!: net_down_rest)
    then show ?thesis using d ZT_VIRTUAL_NETWORK_CONFIG_OPERATION_DESTROY by (simp add: net_ids_def)
  qed
  then show ?thesis using c by (simp add: SnodeVirtualNetworkConfigFunction_def net_ids_def)
qed

lemma deliver_nets_ok: "nets_ok s \<Longrightarrow> nets_ok (deliver api cb s)"
  by (cases cb) (auto simp: send_nets frame_nets intro: config_nets_ok iffD2 [OF nets_ok_cong])

lemma deliver_ids:
  assumes "nets_ok s" "m \<in> net_ids s" "\<not> takes_down m cb"
  shows "m \<in> net_ids (deliver api cb s)"
proof (cases cb)
  case (CbConfig n op c)
  then show ?thesis using assms(2,3) config_ids [OF assms(1), of api n op c] by (cases op) auto
qed (use assms in \<open>simp_all add: net_ids_def send_nets frame_nets\<close>)

lemma deliver_all_nets_ok: "nets_ok s \<Longrightarrow> nets_ok (deliver_all api cbs s)"
  by (induction cbs arbitrary: s) (auto simp: deliver_all_def intro: deliver_nets_ok)

lemma deliver_all_ids:
  "nets_ok s \<Longrightarrow> m \<in> net_ids s \<Longrightarrow> \<forall>cb \<in> set cbs. \<not> takes_down m cb \<Longrightarrow> m \<in> net_ids (deliver_all api cbs s)"
  by (induction cbs arbitrary: s) (auto simp: deliver_all_def intro: deliver_nets_ok deliver_ids)

lemma deliver_all_up:
  assumes "nets_ok s" "CbConfig m ZT_VIRTUAL_NETWORK_CONFIG_OPERATION_UP c \<in> set cbs" "\<forall>cb \<in> set cbs. \<not> takes_down m cb"
  shows "m \<in> net_ids (deliver_all api cbs s)"
proof -
  obtain as bs where l: "cbs = as @ CbConfig m ZT_VIRTUAL_NETWORK_CONFIG_OPERATION_UP c # bs"
    using split_list [OF assms(2)] by blast
  let ?s = "deliver_all api as s"
  have o: "nets_ok ?s" by (rule deliver_all_nets_ok [OF assms(1)])
  have "m \<in> net_ids (deliver api (CbConfig m ZT_VIRTUAL_NETWORK_CONFIG_OPERATION_UP c) ?s)"
    using config_ids [OF o] by simp
  from deliver_all_ids [OF deliver_nets_ok [OF o] this, of bs api] show ?thesis
    using l assms(3) by (simp add: deliver_all_def)
qed

text \<open>The services with a well-formed table of networks.\<close>

typedef 'k live_service = "{s :: 'k NodeService. nets_ok s}"
  by (rule exI [of _ "NodeService_new undefined undefined"]) (simp add: NodeService_new_def nets_ok_def)

setup_lifting type_definition_live_service

text \<open>The ZeroTier core as the service sees it: the callbacks of its calls, of starting and
  stopping the thread of \<open>run\<close>, and of the time a caller sleeps (with a flag for the shutdown
  request), and the parts of the interface that only read.\<close>

record 'k core_api =
  co_join :: "u64 \<Rightarrow> 'k core_call"
  co_leave :: "u64 \<Rightarrow> 'k core_call"
  co_start :: "'k NodeService \<Rightarrow> int \<times> 'k core_callback list"
  co_stop :: "'k core_call"
  co_storage :: "string \<Rightarrow> 'k core_call"
  co_idle :: "nat \<Rightarrow> 'k NodeService \<Rightarrow> bool \<times> 'k core_callback list"
  co_clock :: "'k NodeService \<Rightarrow> nat"
  co_addr_str :: "u64 \<Rightarrow> bool \<Rightarrow> 'k NodeService \<Rightarrow> string option"

definition call_result :: "int option \<times> 'k NodeService \<Rightarrow> int \<times> 'k NodeService" where
  "call_result r = ((case fst r of Some rc \<Rightarrow> rc | None \<Rightarrow> ZTS_ERR_SERVICE), snd r)"

lemma node_call_ok: "nets_ok s \<Longrightarrow> nets_ok (snd (node_call api c s))"
  by (simp add: node_call_def deliver_all_nets_ok nets_ok_cong [of "s\<lparr>ns_fault := True\<rparr>" s])

lift_definition live_join :: "'k svc_api \<Rightarrow> 'k core_api \<Rightarrow> u64 \<Rightarrow> 'k live_service \<Rightarrow> int \<times> 'k live_service"
  is "\<lambda>api co n s. call_result (svc_join api (co_join co) n s)"
  by (simp add: call_result_def svc_join_def node_call_ok split: prod.split)

lift_definition live_leave :: "'k svc_api \<Rightarrow> 'k core_api \<Rightarrow> u64 \<Rightarrow> 'k live_service \<Rightarrow> 'k live_service"
  is "\<lambda>api co n s. snd (svc_leave api (co_leave co) n s)"
  by (simp add: svc_leave_def node_call_ok)

lift_definition live_start :: "'k svc_api \<Rightarrow> 'k core_api \<Rightarrow> 'k live_service \<Rightarrow> int \<times> 'k live_service"
  is "\<lambda>api co s. (fst (co_start co s), deliver_all api (snd (co_start co s)) (s\<lparr>ns_run := True, ns_node := True\<rparr>))"
  by simp (intro deliver_all_nets_ok, simp add: nets_ok_def)

lift_definition live_call :: "'k svc_api \<Rightarrow> 'k core_call \<Rightarrow> 'k live_service \<Rightarrow> 'k live_service"
  is "\<lambda>api c s. deliver_all api (c s) s"
  by (rule deliver_all_nets_ok)

lift_definition live_idle :: "'k svc_api \<Rightarrow> 'k core_api \<Rightarrow> nat \<Rightarrow> 'k live_service \<Rightarrow> bool \<times> 'k live_service"
  is "\<lambda>api co d s. (fst (co_idle co d s), deliver_all api (snd (co_idle co d s)) s)"
  by (simp add: deliver_all_nets_ok)

definition live_ids :: "'k live_service \<Rightarrow> u64 set" where
  "live_ids k = net_ids (Rep_live_service k)"

text \<open>The interface of libzt that the application uses, on this service; the file system
  functions are those of the base interface \<open>fs\<close>.\<close>

definition node_api_of :: "'k svc_api \<Rightarrow> 'k core_api \<Rightarrow> 'f node_api \<Rightarrow> 'k live_service node_api" where
  "node_api_of api co fs =
     \<lparr>zts_node_is_online = (\<lambda>k. nodeIsOnline (Rep_live_service k)), zts_node_start = live_start api co,
      zts_node_stop = live_call api (co_stop co), zts_init_from_storage = (\<lambda>p. live_call api (co_storage co p)),
      zts_net_get_status = (\<lambda>n k. getNetworkStatus n (Rep_live_service k)), zts_net_join = live_join api co,
      zts_net_leave = live_leave api co,
      zts_addr_is_assigned = (\<lambda>n v6 k. addrIsAssigned api n (if v6 then ZTS_AF_INET6 else ZTS_AF_INET) (Rep_live_service k) = 1),
      zts_addr_get_str = (\<lambda>n v6 k. co_addr_str co n v6 (Rep_live_service k)),
      steady_clock_ms = (\<lambda>k. co_clock co (Rep_live_service k)), sleep_ms = live_idle api co,
      fs_is_relative = fs_is_relative fs, fs_append = fs_append fs, fs_absolute = fs_absolute fs,
      fs_exists = fs_exists fs, fs_is_directory = fs_is_directory fs, fs_weakly_canonical = fs_weakly_canonical fs,
      fs_parent_path = fs_parent_path fs\<rparr>"

text \<open>What the core promises: a network stays up until it is left, and joining brings it up.\<close>

locale zt_core =
  fixes co :: "'k core_api"
  assumes join_keeps: "cb \<in> set (co_join co n s) \<Longrightarrow> \<not> takes_down m cb"
    and join_brings_up: "n \<in> net_ids s \<or>
      (\<exists>c. CbConfig n ZT_VIRTUAL_NETWORK_CONFIG_OPERATION_UP c \<in> set (co_join co n s))"
    and leave_only_down: "cb \<in> set (co_leave co n s) \<Longrightarrow> takes_down m cb \<Longrightarrow> m = n"
    and start_keeps_up: "cb \<in> set (snd (co_start co s)) \<Longrightarrow> \<not> takes_down m cb"
    and storage_keeps_up: "cb \<in> set (co_storage co p s) \<Longrightarrow> \<not> takes_down m cb"
    and idle_keeps_up: "cb \<in> set (snd (co_idle co d s)) \<Longrightarrow> \<not> takes_down m cb"
begin

lemma status_up: "getNetworkStatus n s = ZTS_NETWORK_STATUS_OK \<Longrightarrow> n \<in> net_ids s"
  by (auto simp: getNetworkStatus_def net_query_def find_net_def net_ids_def keys_find zts_err_defs
      ZTS_NETWORK_STATUS_OK_def split: if_splits option.splits)

lemma join_ids:
  assumes "nets_ok s" "call_result (svc_join api (co_join co) n s) = (rc, s')"
  shows "net_ids s \<subseteq> net_ids s' \<and> (rc = ZTS_ERR_OK \<longrightarrow> n \<in> net_ids s')"
proof -
  have k: "m \<in> net_ids (deliver_all api (co_join co n s) s)" if "m \<in> net_ids s" for m
    using that join_keeps by (intro deliver_all_ids [OF assms(1)]) auto
  have "n \<in> net_ids (deliver_all api (co_join co n s) s)"
    using k join_brings_up [of n s] deliver_all_up [OF assms(1)] join_keeps by blast
  moreover have "net_ids (s\<lparr>ns_fault := True\<rparr>) = net_ids s" by (simp add: net_ids_def)
  ultimately show ?thesis
    using assms(2) k by (auto simp: call_result_def svc_join_def node_call_def zts_err_defs split: if_splits)
qed

lemma leave_ids: "nets_ok s \<Longrightarrow> net_ids s - {n} \<subseteq> net_ids (snd (svc_leave api (co_leave co) n s))"
proof -
  assume o: "nets_ok s"
  have "m \<in> net_ids (deliver_all api (co_leave co n s) s)" if "m \<in> net_ids s" "m \<noteq> n" for m
    using that leave_only_down by (intro deliver_all_ids [OF o]) auto
  moreover have "net_ids (s\<lparr>ns_fault := True\<rparr>) = net_ids s" by (simp add: net_ids_def)
  ultimately show ?thesis by (auto simp: svc_leave_def node_call_def)
qed

lemma calls_keep_ids:
  assumes "nets_ok s" "\<And>cb m. cb \<in> set cbs \<Longrightarrow> \<not> takes_down m cb"
  shows "net_ids s \<subseteq> net_ids (deliver_all api cbs s)"
  using assms by (auto intro: deliver_all_ids)

end

lemma live_ok [simp]: "nets_ok (Rep_live_service k)"
  using Rep_live_service [of k] by simp

lemma live_pairs:
  "live_join api co n k = (rc, k') \<Longrightarrow> call_result (svc_join api (co_join co) n (Rep_live_service k)) = (rc, Rep_live_service k')"
  "live_idle api co d k = (sh, k') \<Longrightarrow>
     Rep_live_service k' = deliver_all api (snd (co_idle co d (Rep_live_service k))) (Rep_live_service k)"
  "live_start api co k = (rc, k') \<Longrightarrow> Rep_live_service k' =
     deliver_all api (snd (co_start co (Rep_live_service k))) ((Rep_live_service k)\<lparr>ns_run := True, ns_node := True\<rparr>)"
  using live_join.rep_eq [of api co n k] live_idle.rep_eq [of api co d k] live_start.rep_eq [of api co k] by simp_all

sublocale zt_core \<subseteq> live: libzt_node "node_api_of api co fs" live_ids for api fs
proof (unfold_locales, goal_cases)
  case (1 k r k')
  let ?s = "(Rep_live_service k)\<lparr>ns_run := True, ns_node := True\<rparr>"
  have "live_start api co k = (r, k')" using 1 by (simp add: node_api_of_def)
  moreover have "nets_ok ?s" "net_ids ?s = net_ids (Rep_live_service k)"
    using live_ok [of k] by (simp_all add: nets_ok_def net_ids_def)
  ultimately show ?case
    using calls_keep_ids [of ?s "snd (co_start co (Rep_live_service k))" api] start_keeps_up
    by (auto simp: live_ids_def dest!: live_pairs(3))
next
  case (2 k p)
  then show ?case
    using calls_keep_ids [OF live_ok storage_keeps_up] by (simp add: live_ids_def node_api_of_def live_call.rep_eq)
next
  case (3 d k sh k')
  then show ?case
    using calls_keep_ids [where s = "Rep_live_service k" and cbs = "snd (co_idle co d (Rep_live_service k))" and api = api] idle_keeps_up
    by (auto simp: live_ids_def node_api_of_def dest!: live_pairs(2))
next
  case (4 n k rc k')
  then show ?case
    using join_ids [OF live_ok live_pairs(1)] by (simp add: live_ids_def node_api_of_def)
next
  case (5 k n)
  then show ?case
    using leave_ids [OF live_ok] by (simp add: live_ids_def node_api_of_def live_leave.rep_eq)
next
  case (6 n k)
  then show ?case by (simp add: live_ids_def node_api_of_def status_up)
qed

context zt_core
begin

lemma live_contract: "libzt_node (node_api_of api co fs) live_ids"
  by (rule live.libzt_node_axioms)

end

text \<open>A core that brings a network up at once and takes it down when it is left.\<close>

definition sim_net :: "u64 \<Rightarrow> ZT_VirtualNetworkConfig" where
  "sim_net n = sim_config\<lparr>cfg_nwid := n, cfg_status := 1, cfg_assignedAddresses := [InetV4 [10, 0, 0, 1] 24]\<rparr>"

definition sim_core :: "sim_env core_api" where
  "sim_core =
     \<lparr>co_join = (\<lambda>n s. [CbConfig n ZT_VIRTUAL_NETWORK_CONFIG_OPERATION_UP (sim_net n)]),
      co_leave = (\<lambda>n s. [CbConfig n ZT_VIRTUAL_NETWORK_CONFIG_OPERATION_DESTROY (sim_net n)]),
      co_start = (\<lambda>s. (0, [CbEvent ZT_EVENT_UP, CbEvent ZT_EVENT_ONLINE])), co_stop = (\<lambda>s. [CbEvent ZT_EVENT_DOWN]),
      co_storage = (\<lambda>p s. []), co_idle = (\<lambda>d s. (False, [])), co_clock = (\<lambda>s. 0), co_addr_str = (\<lambda>n v6 s. None)\<rparr>"

interpretation sim_core: zt_core sim_core
  by unfold_locales (auto simp: sim_core_def)

subsection \<open>Properties\<close>




text \<open>One lease of network 7 on a running service.\<close>

definition sim_running :: "sim_env NodeService" where
  "sim_running = (NodeService_new sim_api sim_start)\<lparr>ns_run := True, ns_node := True, ns_nodeIsOnline := True, ns_events := True\<rparr>"

lemma sim_running_rep [simp]: "Rep_live_service (Abs_live_service sim_running) = sim_running"
  by (rule Abs_live_service_inverse) (simp add: sim_running_def NodeService_new_def nets_ok_def)

definition sim_joined :: "sim_env NodeService" where
  "sim_joined = snd (svc_join sim_api (co_join sim_core) 7 sim_running)"

lemma sim_join_code: "svc_join sim_api (co_join sim_core) 7 sim_running = (Some 0, sim_joined)"
  by (simp add: sim_joined_def svc_join_def node_call_def sim_running_def NodeService_new_def ZTS_ERR_OK_def)

lemma sim_joined_state: "getNetworkStatus 7 sim_joined = 1" "addrIsAssigned sim_api 7 ZTS_AF_INET sim_joined = 1"
  "getNetworkStatus 7 sim_running = ZTS_ERR_NO_RESULT"
proof -
  have r: "ns_nets sim_running = []" "ns_run sim_running" "ns_node sim_running" "ns_events sim_running"
    by (simp_all add: sim_running_def NodeService_new_def)
  have n: "sim_joined = SnodeVirtualNetworkConfigFunction sim_api 7 ZT_VIRTUAL_NETWORK_CONFIG_OPERATION_UP (sim_net 7) sim_running"
    using r by (simp add: sim_joined_def svc_join_def node_call_def sim_core_def deliver_all_def)
  have "ns_run sim_joined \<and> (\<exists>n. ns_nets sim_joined = [(7, n)] \<and> net_config n = sim_net 7)"
    unfolding n SnodeVirtualNetworkConfigFunction_def nodeVirtualNetworkConfigFunction_def Let_def
    using r by (simp add: net_up_def NetworkState_new_def net_update_def syncManagedStuff_def new_managed_ips_def sim_net_def
        std_sort_def sim_config_def sim_api_def send_addr_event_def Let_def)
  then show "getNetworkStatus 7 sim_joined = 1" "addrIsAssigned sim_api 7 ZTS_AF_INET sim_joined = 1"
    "getNetworkStatus 7 sim_running = ZTS_ERR_NO_RESULT"
    using r by (auto simp: getNetworkStatus_def net_query_def find_net_def addrIsAssigned_def getFirstAssignedAddr_def
        sim_net_def sim_config_def zts_err_defs ZTS_AF_INET_def)
qed

lemma sim_live_join:
  obtains k' where "live_join sim_api sim_core 7 (Abs_live_service sim_running) = (0, k')" "Rep_live_service k' = sim_joined"
  using live_join.rep_eq [of sim_api sim_core 7 "Abs_live_service sim_running"] sim_join_code
  by (cases "live_join sim_api sim_core 7 (Abs_live_service sim_running)") (auto simp: call_result_def)


subsection \<open>Addresses follow the configuration\<close>

text \<open>The callbacks that concern networks, events, stored objects and frames.\<close>

fun net_callback :: "'k core_callback \<Rightarrow> bool" where
  "net_callback (CbSend now fresh sock addr d ttl) = False"
| "net_callback (CoreInternal f) = False"
| "net_callback _ = True"

context tap_contract
begin

lemma event_addrs: "tap_addrs api (ns_env (nodeEventCallback api e s)) = tap_addrs api (ns_env s)"
  by (cases e) (simp_all add: nodeEventCallback_def terminate_def Let_def)

lemma write_object_addrs: "tap_addrs api (write_object api f d k) = tap_addrs api k"
proof -
  obtain p dir sec where f: "f = (p, dir, sec)" by (cases f)
  have w: "tap_addrs api k1 = tap_addrs api k0" if "fs_write api p d k0 = (b, k1)" for b k0 k1
    using write_keeps [of p d k0] that by simp
  show ?thesis
    by (cases "fs_write api p d k"; cases "fst (fs_write api p d k)"; cases dir)
       (auto simp: write_object_def f w split: prod.splits option.splits dest!: w)
qed

lemma put_addrs: "tap_addrs api (ns_env (nodeStatePutFunction api ty i d l s)) = tap_addrs api (ns_env s)"
  by (cases ty) (simp_all add: nodeStatePutFunction_def put_identity_public_def put_identity_secret_def put_roots_def
      write_object_addrs Let_def split: option.split prod.split)

lemma frame_addrs: "tap_addrs api (ns_env (nodeVirtualNetworkFrameFunction api p a b e d s)) = tap_addrs api (ns_env s)"
  by (simp add: nodeVirtualNetworkFrameFunction_def split: option.split)

lemma synced_cong:
  "ns_nets s' = ns_nets s \<Longrightarrow> tap_addrs api (ns_env s') = tap_addrs api (ns_env s) \<Longrightarrow> nets_synced api s \<Longrightarrow> nets_synced api s'"
  by (simp add: nets_synced_def net_synced_def)

lemma deliver_synced:
  assumes "nets_ok s" "nets_synced api s" "net_callback cb"
  shows "nets_synced api (deliver api cb s)"
proof (cases cb)
  case (CbConfig m op nwc)
  obtain rc p' s' where c: "nodeVirtualNetworkConfigFunction api m (ns_nuptrs s m) op nwc s = (rc, p', s')"
    by (cases "nodeVirtualNetworkConfigFunction api m (ns_nuptrs s m) op nwc s")
  from config_function_synced [OF c assms(1,2)] show ?thesis
    using CbConfig c by (simp add: SnodeVirtualNetworkConfigFunction_def nets_synced_def)
qed (use assms in \<open>auto simp: event_addrs put_addrs frame_addrs frame_nets intro: synced_cong [of _ s]\<close>)

lemma deliver_all_synced:
  "nets_ok s \<Longrightarrow> nets_synced api s \<Longrightarrow> \<forall>cb \<in> set cbs. net_callback cb \<Longrightarrow> nets_synced api (deliver_all api cbs s)"
  by (induction cbs arbitrary: s) (auto simp: deliver_all_def intro: deliver_nets_ok deliver_synced)

end



text \<open>A failed \<open>addIp\<close> is not retried: the address is recorded as managed all the same, so the
  next configuration with the same addresses does not add it.\<close>

lemma failed_address_not_retried:
  assumes "managedIps n = new_managed_ips api n"
  shows "sync_added api tid (managedIps n) (new_managed_ips api n) s = s"
proof -
  have "sync_added api tid old ips s = s" if "set ips \<subseteq> set old" for old ips
    using that by (induction ips) auto
  then show ?thesis using assms by simp
qed

end
