(* ===== verification/NodeRun.thy ===== *)
theory NodeRun
  imports NodeCore
begin

section \<open>The node service of libzt: ports and main loop\<close>

text \<open>
  \<open>NodeService::run\<close> of subprojects/libzt-wrapper/NodeService.cpp: the home path, the choice
  of the ports, the networks joined from storage, the passes of the main loop and the end of
  the service. The loop runs until the service is stopped; it takes the number of passes
  allowed and returns \<open>None\<close> when it is used up. \<open>random_port_in_range\<close> bounds the chosen
  ports, \<open>run_termination_reason\<close> says which reason \<open>run\<close> reports.
\<close>

subsection \<open>Choosing ports\<close>

text \<open>\<open>_trialBind\<close>: the port is cut to 16 bits; a socket that could be bound is closed again.\<close>

definition trialBind :: "'k svc_api \<Rightarrow> u32 \<Rightarrow> 'k \<Rightarrow> bool \<times> 'k" where
  "trialBind api port k =
     (case phy_udpBind4 api (ucast port) k of
        (True, k1) \<Rightarrow> (True, k1)
      | (False, k1) \<Rightarrow> phy_udpBind6 api (ucast port) k1)"

text \<open>The loop of \<open>_getRandomPort\<close>, for the given number of attempts.\<close>

fun port_hunt :: "'k svc_api \<Rightarrow> u32 \<Rightarrow> u32 \<Rightarrow> nat \<Rightarrow> u32 \<Rightarrow> 'k \<Rightarrow> u32 \<times> 'k" where
  "port_hunt api minPort maxPort 0 randp k = (0, k)"
| "port_hunt api minPort maxPort (Suc n) randp k =
     (let p = (if randp + 1 \<ge> maxPort then minPort else randp + 1)
      in case trialBind api p k of
           (True, k1) \<Rightarrow> (p, k1)
         | (False, k1) \<Rightarrow> port_hunt api minPort maxPort n p k1)"

text \<open>\<open>randp % (maxPort - minPort + 1)\<close> divides by zero when the range starts just above its
  end; \<open>rnd\<close> is the random number.\<close>

definition random_in_range :: "u32 \<Rightarrow> u32 \<Rightarrow> u32 \<Rightarrow> u32 option" where
  "random_in_range rnd minPort maxPort =
     (if maxPort - minPort + 1 = 0 then None else Some (rnd mod (maxPort - minPort + 1) + minPort))"

definition getRandomPort :: "'k svc_api \<Rightarrow> u32 \<Rightarrow> u32 \<Rightarrow> u32 \<Rightarrow> 'k NodeService \<Rightarrow> u32 \<times> 'k NodeService" where
  "getRandomPort api rnd minPort maxPort s =
     (case random_in_range rnd minPort maxPort of
        None \<Rightarrow> (0, s\<lparr>ns_fault := True\<rparr>)
      | Some r \<Rightarrow> (case port_hunt api minPort maxPort 1001 r (ns_env s) of (p, k) \<Rightarrow> (p, s\<lparr>ns_env := k\<rparr>)))"

text \<open>The trials for the primary port; \<open>rnds\<close> are the random numbers they draw.\<close>

fun primary_trials :: "'k svc_api \<Rightarrow> u32 \<Rightarrow> u32 \<Rightarrow> nat \<Rightarrow> (nat \<Rightarrow> u32) \<Rightarrow> 'k NodeService \<Rightarrow> 'k NodeService" where
  "primary_trials api minPort maxPort 0 rnds s = s"
| "primary_trials api minPort maxPort (Suc n) rnds s =
     (case (if ns_primaryPort s = 0 then random_in_range (rnds n) minPort maxPort
            else Some (word_of_nat (ns_primaryPort s))) of
        None \<Rightarrow> s\<lparr>ns_fault := True\<rparr>
      | Some p \<Rightarrow>
          (case trialBind api p (ns_env s) of
             (True, k) \<Rightarrow> s\<lparr>ns_primaryPort := unat p, ns_env := k,
                            ns_ports := (unat p, snd (ns_ports s))\<rparr>
           | (False, k) \<Rightarrow> primary_trials api minPort maxPort n rnds (s\<lparr>ns_primaryPort := 0, ns_env := k\<rparr>)))"

definition minPort :: "'k NodeService \<Rightarrow> u32" where
  "minPort s = (if ns_randomPortRangeStart s \<noteq> 0 then word_of_nat (ns_randomPortRangeStart s) else 20000)"

definition maxPort :: "'k NodeService \<Rightarrow> u32" where
  "maxPort s = (if ns_randomPortRangeEnd s \<noteq> 0 then word_of_nat (ns_randomPortRangeEnd s) else 45500)"

subsection \<open>The main loop\<close>

text \<open>What the main loop calls: the clock, random numbers, the core with its callbacks,
  the binder, the poll of the sockets, which runs their handlers. Two calls may throw: the
  first component of their result tells so.\<close>

record 'k run_api =
  ra_now :: "'k \<Rightarrow> int"
  ra_random :: "'k \<Rightarrow> nat \<Rightarrow> u32"
  ra_split :: "string \<Rightarrow> string list"
  ra_hexStrToU64 :: "string \<Rightarrow> u64"
  ra_new :: "'k core_call"
  ra_delete :: "'k core_call"
  ra_join :: "u64 \<Rightarrow> 'k core_call"
  ra_background :: "int \<Rightarrow> 'k NodeService \<Rightarrow> bool \<times> int \<times> 'k core_callback list"
  ra_scanMulticastGroups :: "u64 \<Rightarrow> 'k \<Rightarrow> ((u64 \<times> u32) list \<times> (u64 \<times> u32) list) \<times> 'k"
  ra_multicastSubscribe :: "u64 \<Rightarrow> u64 \<times> u32 \<Rightarrow> 'k core_call"
  ra_multicastUnsubscribe :: "u64 \<Rightarrow> u64 \<times> u32 \<Rightarrow> 'k core_call"
  ra_clearLocalInterfaceAddresses :: "'k \<Rightarrow> 'k"
  ra_addLocalInterfaceAddress :: "InetAddress \<Rightarrow> 'k \<Rightarrow> 'k"
  ra_allBoundLocalInterfaceAddresses :: "'k \<Rightarrow> InetAddress list"
  ra_portMapper_new :: "nat \<Rightarrow> 'k \<Rightarrow> 'k"
  ra_portMapper_get :: "'k \<Rightarrow> InetAddress list"
  ra_binder_refresh :: "nat list \<Rightarrow> 'k \<Rightarrow> 'k"
  ra_closeSocket :: "nat option \<Rightarrow> 'k \<Rightarrow> 'k"
  ra_poll :: "nat \<Rightarrow> 'k NodeService \<Rightarrow> bool \<times> 'k NodeService"

text \<open>The variables of the loop.\<close>

record run_locals =
  clockShouldBe :: int
  lastTapMulticastGroupCheck :: int
  lastBindRefresh :: int
  lastCleanedPeersDb :: int
  lastLocalInterfaceAddressCheck :: int
  lastOnline :: int
  loop_maxPort :: u32

fun make_path :: "'k svc_api \<Rightarrow> string \<Rightarrow> string list \<Rightarrow> 'k \<Rightarrow> bool \<times> 'k" where
  "make_path api ptmp [] k = (True, k)"
| "make_path api ptmp (c # cs) k =
     (let p = (if ptmp \<noteq> [] then ptmp @ ''/'' @ c else c)
      in if c \<noteq> ''.'' \<and> c \<noteq> ''..'' then
           (case fs_mkdir api p k of (True, k1) \<Rightarrow> make_path api p cs k1 | (False, k1) \<Rightarrow> (False, k1))
         else make_path api p cs k)"

definition make_home :: "'k svc_api \<Rightarrow> 'k run_api \<Rightarrow> 'k NodeService \<Rightarrow> bool \<times> 'k NodeService" where
  "make_home api ra s =
     (if ns_homePath s = [] then (True, s)
      else case make_path api (if hd (ns_homePath s) = CHR ''/'' then ''/'' else []) (ra_split ra (ns_homePath s)) (ns_env s) of
             (ok, k) \<Rightarrow> (ok, s\<lparr>ns_env := k\<rparr>))"

definition unrecoverable :: "string \<Rightarrow> 'k NodeService \<Rightarrow> 'k NodeService" where
  "unrecoverable msg s = s\<lparr>ns_termReason := ONE_UNRECOVERABLE_ERROR, ns_fatalErrorMessage := msg\<rparr>"

definition pick_primary :: "'k svc_api \<Rightarrow> 'k run_api \<Rightarrow> 'k NodeService \<Rightarrow> 'k NodeService" where
  "pick_primary api ra s =
     primary_trials api (minPort s) (maxPort s) (if ns_primaryPort s = 0 then 256 else 1) (ra_random ra (ns_env s)) s"

definition pick_secondary :: "'k svc_api \<Rightarrow> 'k run_api \<Rightarrow> 'k NodeService \<Rightarrow> 'k NodeService" where
  "pick_secondary api ra s =
     (if \<not> ns_allowSecondaryPort s then s
      else if ns_secondaryPort s \<noteq> 0 then s\<lparr>ns_ports := (fst (ns_ports s), ns_secondaryPort s, snd (snd (ns_ports s)))\<rparr>
      else case getRandomPort api (ra_random ra (ns_env s) 0) (minPort s) (maxPort s) s of
             (p, s1) \<Rightarrow> s1\<lparr>ns_ports := (fst (ns_ports s1), unat p, snd (snd (ns_ports s1)))\<rparr>)"

text \<open>The third port, for the port mapper. It changes the upper end of the range, which the
  loop uses again.\<close>

definition mapping_maxPort :: "'k NodeService \<Rightarrow> u32" where
  "mapping_maxPort s =
     (if ns_allowPortMapping s
      then if ns_randomPortRangeEnd s \<noteq> 0 then word_of_nat (ns_randomPortRangeEnd s) else 65536
      else maxPort s)"

definition pick_tertiary :: "'k svc_api \<Rightarrow> 'k run_api \<Rightarrow> 'k NodeService \<Rightarrow> 'k NodeService" where
  "pick_tertiary api ra s =
     (case ns_ports s of
        (p0, p1, _) \<Rightarrow>
          if \<not> ns_allowPortMapping s \<or> p1 = 0 then s
          else if ns_tertiaryPort s \<noteq> 0 then s\<lparr>ns_ports := (p0, p1, ns_tertiaryPort s)\<rparr>
          else case port_hunt api (minPort s) (mapping_maxPort s) 1001 (minPort s + word_of_nat (p0 mod 40000)) (ns_env s) of
                 (p, k) \<Rightarrow>
                   let s1 = s\<lparr>ns_ports := (p0, p1, unat p), ns_env := k\<rparr>
                   in if p = 0 then s1
                      else s1\<lparr>ns_tertiaryPort := unat p, ns_env := ra_portMapper_new ra (unat p) k\<rparr>)"

text \<open>The network a file name of \<open>networks.d\<close> stands for.\<close>

definition last_dot :: "string \<Rightarrow> nat option" where
  "last_dot f = (if CHR ''.'' \<in> set f then Some (length f - Suc (length (takeWhile (\<lambda>c. c \<noteq> CHR ''.'') (rev f)))) else None)"

definition conf_network :: "'k run_api \<Rightarrow> string \<Rightarrow> u64 option" where
  "conf_network ra f =
     (if last_dot f = Some 16 \<and> drop 16 f = ''.conf'' then Some (ra_hexStrToU64 ra (take 16 f)) else None)"

fun join_cached :: "'k svc_api \<Rightarrow> 'k run_api \<Rightarrow> string list \<Rightarrow> 'k NodeService \<Rightarrow> 'k NodeService" where
  "join_cached api ra [] s = s"
| "join_cached api ra (f # fs) s =
     (case conf_network ra f of
        Some n \<Rightarrow> join_cached api ra fs (deliver_all api (ra_join ra n s) s)
      | None \<Rightarrow> join_cached api ra fs s)"

text \<open>The part of \<open>run\<close> before the loop. \<open>False\<close>: it returns \<open>_termReason\<close>.\<close>

definition run_start :: "'k svc_api \<Rightarrow> 'k run_api \<Rightarrow> 'k NodeService \<Rightarrow> bool \<times> 'k NodeService" where
  "run_start api ra s0 =
     (case make_home api ra (s0\<lparr>ns_run := True\<rparr>) of
        (False, s1) \<Rightarrow> (False, unrecoverable ''home path could not be created'' s1)
      | (True, s1) \<Rightarrow>
          let s2 = deliver_all api (ra_new ra s1) (s1\<lparr>ns_node := True\<rparr>);
              s3 = pick_primary api ra s2
          in if fst (ns_ports s3) = 0
             then (False, unrecoverable ''cannot bind to local control interface port'' s3)
             else let s4 = pick_tertiary api ra (pick_secondary api ra s3)
                  in (True, if ns_allowNetworkCaching s4
                            then join_cached api ra (fs_listDirectory api (networks_d (ns_homePath s4)) (ns_env s4)) s4
                            else s4))"

definition refresh_secondary :: "'k svc_api \<Rightarrow> 'k run_api \<Rightarrow> int \<Rightarrow> run_locals \<Rightarrow> 'k NodeService \<Rightarrow> run_locals \<times> 'k NodeService" where
  "refresh_secondary api ra now l s =
     (if node_online api (ns_env s) then (l\<lparr>lastOnline := now\<rparr>, s)
      else if ns_secondaryPort s = 0 \<and> now - lastOnline l > ZT_PATH_HEARTBEAT_PERIOD api then
        (case getRandomPort api (ra_random ra (ns_env s) 0) (minPort s) (loop_maxPort l) s of
           (p, s1) \<Rightarrow> (l\<lparr>lastBindRefresh := 0\<rparr>, s1\<lparr>ns_secondaryPort := unat p\<rparr>))
      else (l, s))"

definition refresh_bindings :: "'k svc_api \<Rightarrow> 'k run_api \<Rightarrow> int \<Rightarrow> bool \<Rightarrow> run_locals \<Rightarrow> 'k NodeService \<Rightarrow> run_locals \<times> 'k NodeService" where
  "refresh_bindings api ra now restarted l s =
     (if now - lastBindRefresh l \<ge> ZT_BINDER_REFRESH_PERIOD api \<or> restarted then
        (case ns_ports s of
           (p0, p1, p2) \<Rightarrow>
             (l\<lparr>lastBindRefresh := now\<rparr>,
              if ns_forceTcpRelay s then s
              else s\<lparr>ns_env := ra_binder_refresh ra (filter (\<lambda>p. p \<noteq> 0) [p0, p1, p2]) (ns_env s)\<rparr>))
      else (l, s))"

definition close_fallback :: "'k run_api \<Rightarrow> int \<Rightarrow> 'k NodeService \<Rightarrow> 'k NodeService" where
  "close_fallback ra now s =
     (case ns_tcpFallbackTunnel s of
        None \<Rightarrow> s
      | Some a \<Rightarrow>
          if \<not> ns_forceTcpRelay s \<and> (word_of_int now :: u64) - ns_lastDirectReceiveFromGlobal s < ZT_TCP_FALLBACK_AFTER div 2 then
            (case ns_tcp_heap s a of
               None \<Rightarrow> s\<lparr>ns_fault := True\<rparr>
             | Some tc \<Rightarrow> phyOnTcpClose (Some a) (s\<lparr>ns_env := ra_closeSocket ra (tc_sock tc) (ns_env s)\<rparr>))
          else s)"

fun scan_groups :: "'k run_api \<Rightarrow> (u64 \<times> NetworkState) list \<Rightarrow> 'k \<Rightarrow> (u64 \<times> (u64 \<times> u32) list \<times> (u64 \<times> u32) list) list \<times> 'k" where
  "scan_groups ra [] k = ([], k)"
| "scan_groups ra ((m, n) # ns) k =
     (case tap n of
        None \<Rightarrow> scan_groups ra ns k
      | Some t \<Rightarrow>
          (case ra_scanMulticastGroups ra (tap_net_id t) k of
             ((added, removed), k1) \<Rightarrow>
               (case scan_groups ra ns k1 of (cs, k2) \<Rightarrow> ((m, added, removed) # cs, k2))))"

definition core_calls :: "'k svc_api \<Rightarrow> 'k core_call list \<Rightarrow> 'k NodeService \<Rightarrow> 'k NodeService" where
  "core_calls api cs s = fold (\<lambda>c s. deliver_all api (c s) s) cs s"

definition sync_multicast :: "'k svc_api \<Rightarrow> 'k run_api \<Rightarrow> int \<Rightarrow> run_locals \<Rightarrow> 'k NodeService \<Rightarrow> run_locals \<times> 'k NodeService" where
  "sync_multicast api ra now l s =
     (if now - lastTapMulticastGroupCheck l \<ge> 5000 then
        (case scan_groups ra (ns_nets s) (ns_env s) of
           (cs, k) \<Rightarrow>
             (l\<lparr>lastTapMulticastGroupCheck := now\<rparr>,
              core_calls api
                (concat (map (\<lambda>(m, added, removed). map (ra_multicastSubscribe ra m) added @ map (ra_multicastUnsubscribe ra m) removed) cs))
                (s\<lparr>ns_env := k\<rparr>)))
      else (l, s))"

definition sync_interfaces :: "'k svc_api \<Rightarrow> 'k run_api \<Rightarrow> int \<Rightarrow> run_locals \<Rightarrow> 'k NodeService \<Rightarrow> run_locals \<times> 'k NodeService" where
  "sync_interfaces api ra now l s =
     (if now - lastLocalInterfaceAddressCheck l \<ge> 60000 then
        (let k1 = ra_clearLocalInterfaceAddresses ra (ns_env s);
             k2 = fold (ra_addLocalInterfaceAddress ra) (ra_portMapper_get ra k1) k1;
             k3 = fold (ra_addLocalInterfaceAddress ra) (ra_allBoundLocalInterfaceAddresses ra k2) k2
         in (l\<lparr>lastLocalInterfaceAddressCheck := now\<rparr>, s\<lparr>ns_env := k3\<rparr>))
      else (l, s))"

definition clean_peers :: "'k svc_api \<Rightarrow> int \<Rightarrow> run_locals \<Rightarrow> 'k NodeService \<Rightarrow> run_locals \<times> 'k NodeService" where
  "clean_peers api now l s =
     (if now - lastCleanedPeersDb l \<ge> 3600000
      then (l\<lparr>lastCleanedPeersDb := now\<rparr>,
            s\<lparr>ns_env := fs_cleanDirectory api (peers_d (ns_homePath s)) (now - 2592000000) (ns_env s)\<rparr>)
      else (l, s))"

text \<open>One pass of the loop on a running service; the first component of the result tells
  whether an exception was thrown.\<close>

definition background_tasks :: "'k svc_api \<Rightarrow> 'k run_api \<Rightarrow> int \<Rightarrow> 'k NodeService \<Rightarrow> bool \<times> 'k NodeService" where
  "background_tasks api ra now s =
     (if ns_nextBackgroundTaskDeadline s \<le> now then
        (case ra_background ra now s of
           (exn, dl, cbs) \<Rightarrow> (exn, (deliver_all api cbs s)\<lparr>ns_nextBackgroundTaskDeadline := dl\<rparr>))
      else (False, s))"

definition run_pass :: "'k svc_api \<Rightarrow> 'k run_api \<Rightarrow> run_locals \<Rightarrow> 'k NodeService \<Rightarrow> bool \<times> run_locals \<times> 'k NodeService" where
  "run_pass api ra l0 s0 =
     (let now = ra_now ra (ns_env s0);
          restarted = (now > clockShouldBe l0 \<and> now - clockShouldBe l0 > 10000);
          s1 = (if restarted then s0\<lparr>ns_lastRestart := word_of_int now\<rparr> else s0);
          (l2, s2) = refresh_secondary api ra now l0 s1;
          (l3, s3) = refresh_bindings api ra now restarted l2 s2;
          (thrown, s5) = background_tasks api ra now (generateSyntheticEvents api s3)
      in if thrown then (True, l3, s5)
         else let dl = ns_nextBackgroundTaskDeadline s5;
                  (l6, s6) = sync_multicast api ra now l3 (close_fallback ra now s5);
                  (l7, s7) = sync_interfaces api ra now l6 s6;
                  (l8, s8) = clean_peers api now l7 s7;
                  delay = (if dl > now then nat (dl - now) else 100);
                  (exn, s9) = ra_poll ra delay s8
              in (exn, l8\<lparr>clockShouldBe := now + int delay\<rparr>, s9))"

text \<open>The loop, for a number of passes; the result tells whether an exception ended it.\<close>

fun run_loop :: "'k svc_api \<Rightarrow> 'k run_api \<Rightarrow> nat \<Rightarrow> run_locals \<Rightarrow> 'k NodeService \<Rightarrow> (bool \<times> 'k NodeService) option" where
  "run_loop api ra 0 l s = None"
| "run_loop api ra (Suc fuel) l s =
     (if \<not> ns_run s then Some (False, s\<lparr>ns_termReason := ONE_NORMAL_TERMINATION\<rparr>)
      else case run_pass api ra l s of
             (True, l', s') \<Rightarrow> Some (True, unrecoverable ''unexpected exception in main thread'' s')
           | (False, l', s') \<Rightarrow> run_loop api ra fuel l' s')"

definition delete_taps :: "'k svc_api \<Rightarrow> 'k NodeService \<Rightarrow> 'k NodeService" where
  "delete_taps api s =
     s\<lparr>ns_env := fold (\<lambda>(m, n). case tap n of Some t \<Rightarrow> tap_delete api (tap_net_id t) | None \<Rightarrow> id) (ns_nets s) (ns_env s),
       ns_nets := []\<rparr>"

definition run_finish :: "'k svc_api \<Rightarrow> 'k run_api \<Rightarrow> 'k NodeService \<Rightarrow> ReasonForTermination \<times> 'k NodeService" where
  "run_finish api ra s =
     (let s1 = delete_taps api s;
          s2 = (case ns_termReason s1 of
                  ONE_NORMAL_TERMINATION \<Rightarrow> nodeEventCallback api ZT_EVENT_DOWN s1
                | ONE_UNRECOVERABLE_ERROR \<Rightarrow> nodeEventCallback api ZT_EVENT_FATAL_ERROR_IDENTITY_COLLISION s1
                | _ \<Rightarrow> s1);
          s3 = (deliver_all api (ra_delete ra s2) s2)\<lparr>ns_node := False\<rparr>
      in (ns_termReason s3, s3))"

definition run_init :: "'k run_api \<Rightarrow> 'k NodeService \<Rightarrow> run_locals \<times> 'k NodeService" where
  "run_init ra s =
     (let now = ra_now ra (ns_env s)
      in (\<lparr>clockShouldBe = now, lastTapMulticastGroupCheck = 0, lastBindRefresh = 0, lastCleanedPeersDb = 0,
           lastLocalInterfaceAddressCheck = now - 60000 + 15000, lastOnline = now, loop_maxPort = mapping_maxPort s\<rparr>,
          s\<lparr>ns_nextBackgroundTaskDeadline := 0, ns_lastRestart := word_of_int now\<rparr>))"

definition svc_run :: "'k svc_api \<Rightarrow> 'k run_api \<Rightarrow> nat \<Rightarrow> 'k NodeService \<Rightarrow> (ReasonForTermination \<times> 'k NodeService) option" where
  "svc_run api ra fuel s0 =
     (case run_start api ra s0 of
        (False, s1) \<Rightarrow> Some (ns_termReason s1, s1)
      | (True, s1) \<Rightarrow>
          (case run_loop api ra fuel (fst (run_init ra s1)) (snd (run_init ra s1)) of
             None \<Rightarrow> None
           | Some (exn, s2) \<Rightarrow> Some (run_finish api ra s2)))"

subsection \<open>How the service ends\<close>

text \<open>A callback of the core that is no fatal event does not change the reason.\<close>

fun fatal_event :: "'k core_callback \<Rightarrow> bool" where
  "fatal_event (CbEvent e) = (e = ZT_EVENT_FATAL_ERROR_IDENTITY_COLLISION)"
| "fatal_event _ = False"

lemma event_reason: "e \<noteq> ZT_EVENT_FATAL_ERROR_IDENTITY_COLLISION \<Longrightarrow> ns_termReason (nodeEventCallback api e s) = ns_termReason s"
  by (cases e) (simp_all add: nodeEventCallback_def Let_def)

lemma collision_reason: "ns_termReason (nodeEventCallback api ZT_EVENT_FATAL_ERROR_IDENTITY_COLLISION s) = ONE_IDENTITY_COLLISION"
  by (simp add: nodeEventCallback_def Let_def)

lemma net_update_reason: "net_update api m b nwc n s = (rc, s') \<Longrightarrow> ns_termReason s' = ns_termReason s"
proof (cases "tap n")
  case (Some t)
  assume u: "net_update api m b nwc n s = (rc, s')"
  obtain k where k: "syncManagedStuff api t (n\<lparr>net_config := nwc\<rparr>) s =
      (n\<lparr>net_config := nwc, managedIps := new_managed_ips api (n\<lparr>net_config := nwc\<rparr>)\<rparr>, s\<lparr>ns_env := k\<rparr>)"
    using syncManagedStuff_env [of api t "n\<lparr>net_config := nwc\<rparr>" s] by auto
  from u Some show ?thesis by (cases b) (auto simp: net_update_def k Let_def)
qed (auto simp: net_update_def Let_def)

lemma net_down_reason: "net_down api m d n p s = (rc, p', s') \<Longrightarrow> ns_termReason s' = ns_termReason s"
  by (auto simp: net_down_def Let_def split: option.splits if_splits)

lemma net_up_reason: "net_up api m nwc n p s = (n', p', s') \<Longrightarrow> ns_termReason s' = ns_termReason s"
  by (auto simp: net_up_def split: option.splits prod.splits)

lemma config_reason: "ns_termReason (SnodeVirtualNetworkConfigFunction api m op nwc s) = ns_termReason s"
  by (cases op) (auto simp: SnodeVirtualNetworkConfigFunction_def net_ops split: prod.splits
      dest!: net_update_reason net_down_reason net_up_reason)

lemma put_reason: "ns_termReason (nodeStatePutFunction api ty i d l s) = ns_termReason s"
  by (cases ty) (simp_all add: nodeStatePutFunction_def put_identity_public_def put_identity_secret_def put_roots_def Let_def
      split: option.split prod.split)

lemma writable_reason: "ns_termReason (phyOnTcpWritable api sock a s) = ns_termReason s"
  by (simp add: phyOnTcpWritable_def set_conn_def Let_def split: option.split prod.split)

lemma relay_packet_reason: "ns_termReason (relay_packet api now fresh addr d s) = ns_termReason s"
  by (simp add: relay_packet_def open_tunnel_def set_conn_def tunnel_send_def writable_reason Let_def split: option.split)

lemma deliver_reason: "\<not> fatal_event cb \<Longrightarrow> ns_termReason (deliver api cb s) = ns_termReason s"
  by (cases cb) (auto simp: event_reason config_reason put_reason nodeVirtualNetworkFrameFunction_def
      nodeWirePacketSendFunction_def relay_packet_reason Let_def split: option.split prod.split)

lemma deliver_all_reason:
  "\<forall>cb \<in> set cbs. \<not> fatal_event cb \<Longrightarrow> ns_termReason (deliver_all api cbs s) = ns_termReason s"
  by (induction cbs arbitrary: s) (simp_all add: deliver_all_def deliver_reason)

lemma run_loop_reason:
  "run_loop api ra fuel l s = Some (exn, s') \<Longrightarrow>
   ns_termReason s' = (if exn then ONE_UNRECOVERABLE_ERROR else ONE_NORMAL_TERMINATION)"
  by (induction fuel arbitrary: l s) (auto simp: unrecoverable_def split: if_splits prod.splits bool.splits)

lemma run_finish_reason:
  assumes "\<forall>s. \<forall>cb \<in> set (ra_delete ra s). \<not> fatal_event cb"
  shows "fst (run_finish api ra s) =
      (case ns_termReason s of ONE_UNRECOVERABLE_ERROR \<Rightarrow> ONE_IDENTITY_COLLISION | r \<Rightarrow> r)
    \<and> \<not> ns_node (snd (run_finish api ra s))"
  using assms
  by (cases "ns_termReason s")
     (simp_all add: run_finish_def delete_taps_def deliver_all_reason event_reason collision_reason Let_def)

lemma run_start_reason: "run_start api ra s0 = (False, s1) \<Longrightarrow> ns_termReason s1 = ONE_UNRECOVERABLE_ERROR"
  by (auto simp: run_start_def unrecoverable_def Let_def split: prod.splits bool.splits if_splits)

text \<open>The variables and the service after a number of passes, while none of them throws.\<close>

fun after_passes :: "'k svc_api \<Rightarrow> 'k run_api \<Rightarrow> nat \<Rightarrow> run_locals \<Rightarrow> 'k NodeService \<Rightarrow> (run_locals \<times> 'k NodeService) option" where
  "after_passes api ra 0 l s = Some (l, s)"
| "after_passes api ra (Suc n) l s =
     (case run_pass api ra l s of (True, _) \<Rightarrow> None | (False, l', s') \<Rightarrow> after_passes api ra n l' s')"

lemma run_loop_unfinished:
  "run_loop api ra fuel l s = None \<Longrightarrow> n < fuel \<Longrightarrow> \<exists>l' s'. after_passes api ra n l s = Some (l', s') \<and> ns_run s'"
proof (induction fuel arbitrary: n l s)
  case (Suc fuel)
  then show ?case by (cases n) (auto split: if_splits prod.splits bool.splits)
qed simp


text \<open>A run whose first poll delivers the event of an identity collision.\<close>

definition sim_run :: "sim_env run_api" where
  "sim_run =
     \<lparr>ra_now = (\<lambda>k. 0), ra_random = (\<lambda>k i. 0), ra_split = (\<lambda>p. [p]), ra_hexStrToU64 = strtoull16, ra_new = (\<lambda>s. []),
      ra_delete = (\<lambda>s. []), ra_join = co_join sim_core, ra_background = (\<lambda>now s. (False, 500, [])),
      ra_scanMulticastGroups = (\<lambda>m k. (([], []), k)), ra_multicastSubscribe = (\<lambda>m g s. []),
      ra_multicastUnsubscribe = (\<lambda>m g s. []), ra_clearLocalInterfaceAddresses = id,
      ra_addLocalInterfaceAddress = (\<lambda>a k. k), ra_allBoundLocalInterfaceAddresses = (\<lambda>k. []),
      ra_portMapper_new = (\<lambda>p k. k), ra_portMapper_get = (\<lambda>k. []), ra_binder_refresh = (\<lambda>ps k. k),
      ra_closeSocket = (\<lambda>a k. k),
      ra_poll = (\<lambda>d s. (False, nodeEventCallback sim_api ZT_EVENT_FATAL_ERROR_IDENTITY_COLLISION s))\<rparr>"

definition sim_stopped :: "sim_env NodeService" where
  "sim_stopped = (NodeService_new sim_api sim_start)\<lparr>ns_primaryPort := 9993, ns_events := True\<rparr>"

lemma sim_run_starts: obtains s1 where "run_start sim_api sim_run sim_stopped = (True, s1)"
proof -
  let ?s = "sim_stopped\<lparr>ns_run := True\<rparr>"
  have h: "make_home sim_api sim_run ?s = (True, ?s)" by (simp add: make_home_def sim_stopped_def NodeService_new_def)
  let ?s2 = "deliver_all sim_api (ra_new sim_run ?s) (?s\<lparr>ns_node := True\<rparr>)"
  have "fst (ns_ports (pick_primary sim_api sim_run ?s2)) = 9993"
    by (simp add: pick_primary_def deliver_all_def sim_run_def trialBind_def sim_api_def sim_stopped_def NodeService_new_def)
  then have "fst (run_start sim_api sim_run sim_stopped)" by (simp add: run_start_def h Let_def)
  then show ?thesis using that by (metis prod.collapse)
qed

lemma sim_run_passes: "run_loop sim_api sim_run (Suc (Suc n)) l s \<noteq> None \<and> fst (the (run_loop sim_api sim_run (Suc (Suc n)) l s)) = False"
proof -
  have b: "\<not> fst (background_tasks sim_api sim_run now x)" for now x by (simp add: background_tasks_def sim_run_def)
  have q: "ra_poll sim_run d x = (False, nodeEventCallback sim_api ZT_EVENT_FATAL_ERROR_IDENTITY_COLLISION x)" for d x
    by (simp add: sim_run_def)
  have e: "\<not> ns_run (nodeEventCallback sim_api ZT_EVENT_FATAL_ERROR_IDENTITY_COLLISION x)" for x
    by (simp add: nodeEventCallback_def Let_def)
  have "\<not> fst (run_pass sim_api sim_run l s) \<and> \<not> ns_run (snd (snd (run_pass sim_api sim_run l s)))"
    unfolding run_pass_def Let_def split_beta q using b e by simp
  then show ?thesis by (cases "run_pass sim_api sim_run l s") auto
qed


text \<open>A return before the loop leaves the service marked as running with its node allocated:
  every setting is refused from then on.\<close>

lemma failed_start_keeps_running:
  assumes "fs_mkdir api p k = (False, k')" "ns_homePath s = p" "p \<noteq> []" "hd p \<noteq> CHR ''/''" "ra_split ra p = [p]"
    "p \<noteq> ''.''" "p \<noteq> ''..''" "ns_env s = k" "svc_run api ra fuel s = Some (r, s')"
  shows "r = ONE_UNRECOVERABLE_ERROR \<and> isRunning s' \<and> setHomePath (Some q) s' = (ZTS_ERR_SERVICE, s')"
  using assms
  by (auto simp: svc_run_def run_start_def make_home_def unrecoverable_def isRunning_def setHomePath_def when_stopped_def
      split: prod.splits)

subsection \<open>Ports in range\<close>

lemma port_hunt_range:
  assumes "minP < maxP" "maxP \<le> 65536" "minP \<le> r" "r \<le> maxP" "port_hunt api minP maxP n r k = (p, k')"
  shows "p = 0 \<or> minP \<le> p \<and> p < maxP \<and> (\<exists>k1. trialBind api p k1 = (True, k'))"
  using assms(3-5)
proof (induction n arbitrary: r k)
  case (Suc n)
  let ?p = "if r + 1 \<ge> maxP then minP else r + 1"
  have w: "unat (r + 1) = unat r + 1"
    using Suc.prems(2) assms(2) by (simp add: unat_word_ariths word_le_nat_alt)
  then have p: "minP \<le> ?p \<and> ?p < maxP"
    using assms(1) Suc.prems(1,2) by (auto simp: word_le_nat_alt word_less_nat_alt)
  then have p': "?p \<le> maxP" using less_imp_le by blast
  obtain ok k1 where t: "trialBind api ?p k = (ok, k1)" by fastforce
  show ?case
  proof (cases ok)
    case True
    then show ?thesis using Suc.prems(3) t p by (auto simp: Let_def)
  next
    case False
    then have "port_hunt api minP maxP n ?p k1 = (p, k')" using Suc.prems(3) t by (simp add: Let_def)
    then show ?thesis using Suc.IH [of ?p k1] p p' by blast
  qed
qed simp

lemma random_in_range_bounds:
  assumes "minP < maxP" "maxP \<le> 65536" "random_in_range rnd minP maxP = Some r"
  shows "minP \<le> r \<and> r \<le> maxP"
proof -
  let ?d = "maxP - minP + 1"
  have d: "unat ?d = unat maxP - unat minP + 1"
    using assms(1,2) by (simp add: unat_word_ariths(1) word_le_nat_alt word_less_nat_alt unat_sub_if')
  have "unat (rnd mod ?d) = unat rnd mod unat ?d" by (rule unat_mod_distrib)
  then have "unat (rnd mod ?d) \<le> unat maxP - unat minP"
    using d mod_less_divisor [of "unat ?d" "unat rnd"] by simp
  moreover have "r = rnd mod ?d + minP" using assms(3) by (simp add: random_in_range_def split: if_splits)
  ultimately show ?thesis
    using assms(1,2) by (simp add: word_le_nat_alt word_less_nat_alt unat_word_ariths)
qed

text \<open>
  Random ports stay in their range. If the configured range is nonempty and ends at or
  below 65536, the port that \<open>_getRandomPort\<close> returns is zero or lies in the range, excluding
  its end, and could be bound at the last attempt; nothing but the environment changes and no
  division by zero happens.
\<close>

theorem random_port_in_range:
  assumes "minP < maxP" "maxP \<le> 65536" "getRandomPort api rnd minP maxP s = (p, s')"
  shows "s' = s\<lparr>ns_env := ns_env s'\<rparr>
    \<and> (p = 0 \<or> minP \<le> p \<and> p < maxP \<and> (\<exists>k. trialBind api p k = (True, ns_env s')))"
proof -
  have "unat (maxP - minP + 1) = unat maxP - unat minP + 1"
    using assms(1,2) by (simp add: unat_word_ariths(1) word_le_nat_alt word_less_nat_alt unat_sub_if')
  then have "maxP - minP + 1 \<noteq> 0" by (metis add_is_0 one_neq_zero unat_0)
  then obtain r where r: "random_in_range rnd minP maxP = Some r" by (simp add: random_in_range_def)
  obtain k where h: "port_hunt api minP maxP 1001 r (ns_env s) = (p, k)" "s' = s\<lparr>ns_env := k\<rparr>"
    using assms(3) r by (auto simp: getRandomPort_def split: prod.splits)
  show ?thesis
    using port_hunt_range [OF assms(1,2) _ _ h(1)] random_in_range_bounds [OF assms(1,2) r] h(2) by simp
qed

theorem random_port_in_range_witness:
  "fst (getRandomPort sim_api 5 20000 45500 sim_stopped) < 45500"
proof -
  obtain p s' where r: "getRandomPort sim_api 5 20000 45500 sim_stopped = (p, s')" by fastforce
  from random_port_in_range [OF _ _ r] show ?thesis using r by auto
qed

text \<open>With only the start of the range configured, above the default end, the difference of
  the ends wraps around: the primary port may be a number that is no port, and the port that
  was tried is another one. A range that starts right above its end divides by zero.\<close>

lemma inverted_range:
  "random_in_range 100000 50000 45500 = Some 150000" "(ucast (150000 :: u32) :: u16) = 18928"
  "random_in_range rnd 45501 45500 = None"
  by (simp_all add: random_in_range_def)

end
