(* ===== verification/Doubles.thy ===== *)
theory Doubles
  imports Prelude Complex_Main "HOL-Library.Log_Nat"
begin

section \<open>Floating point numbers\<close>

text \<open>
  The C++ type \<open>double\<close> as the skills and comparison helpers use it: IEEE 754 binary64 with
  rounding to nearest, ties to even. A finite number is a sign and a magnitude, a rational
  number; \<open>round_mag\<close> rounds a magnitude to 53 significant bits with exponents from -1074 on,
  \<open>round_double\<close> turns magnitudes of \<open>huge\<close>, \<open>2 ^ 1024\<close>, or more into infinity. Not-a-number values are
  identified with each other: the code never looks at their sign or payload.

  \<open>round_mag_mono\<close>, \<open>round_mag_fits\<close> and \<open>round_mag_error\<close> are the laws of rounding the other
  theories use; \<open>double_ops_wf\<close> shows that the operations only give numbers of the format.
\<close>

subsection \<open>Rounding\<close>

text \<open>The exponent of a positive number: \<open>2 powi ilog2 q \<le> q < 2 powi (ilog2 q + 1)\<close>.\<close>

definition ilog2 :: "rat \<Rightarrow> int" where
  "ilog2 q =
     (case quotient_of q of
        (n, d) \<Rightarrow> let e = bitlen n - bitlen d in if 2 powi e \<le> q then e else e - 1)"

text \<open>The nearest integer, the even one of two.\<close>

definition rne :: "rat \<Rightarrow> int" where
  "rne x =
     (let f = \<lfloor>x\<rfloor>; r = x - of_int f
      in if r < 1 / 2 then f else if r > 1 / 2 then f + 1 else if even f then f else f + 1)"

text \<open>The exponent of the last bit kept.\<close>

definition ulp_exp :: "rat \<Rightarrow> int" where
  "ulp_exp m = max (ilog2 m - 52) (-1074)"

definition round_mag :: "rat \<Rightarrow> rat" where
  "round_mag m = (if m = 0 then 0 else of_int (rne (m / 2 powi ulp_exp m)) * 2 powi ulp_exp m)"

text \<open>The relative and the absolute rounding error, and the first magnitude out of range.\<close>

definition eps :: rat where "eps = 1 / 2 ^ 53"

definition tiny :: rat where "tiny = 2 powi -1075"

definition huge :: rat where "huge = 2 ^ 1024"

text \<open>The magnitudes with 53 bits, of any size.\<close>

definition fits53 :: "rat \<Rightarrow> bool" where
  "fits53 m \<longleftrightarrow> (\<exists>k u. m = of_int k * 2 powi u \<and> 0 \<le> k \<and> k < 2 ^ 53 \<and> -1074 \<le> u)"

subsection \<open>The laws of rounding\<close>

lemma two_powi_pos [simp]: "0 < (2 :: rat) powi e" "0 \<le> (2 :: rat) powi e"
  by (simp_all add: zero_less_power_int)

lemma two_powi_split: "(2 :: rat) powi (a + b) = 2 powi a * 2 powi b"
  by (simp add: power_int_add)

lemma two_powi_le: "a \<le> b \<Longrightarrow> (2 :: rat) powi a \<le> 2 powi b"
  by (rule power_int_increasing) simp_all

lemma two_powi_int: "a \<le> b \<Longrightarrow> (2 :: rat) powi b / 2 powi a = of_int (2 ^ nat (b - a))"
  by (simp flip: power_int_diff add: power_int_nonneg_exp)

lemma ilog2_bounds:
  assumes "0 < q"
  shows "2 powi ilog2 q \<le> q" "q < 2 powi (ilog2 q + 1)"
proof -
  obtain n d where nd: "quotient_of q = (n, d)" by fastforce
  have d: "0 < d" using quotient_of_denom_pos [OF nd] .
  have q: "q = of_int n / of_int d" using quotient_of_div [OF nd] .
  then have n: "0 < n" using assms d by (simp add: zero_less_divide_iff)
  have pw: "(2 :: rat) ^ nat (bitlen x - 1) \<le> of_int x \<and> of_int x < (2 :: rat) ^ nat (bitlen x)" if "0 < x" for x
  proof -
    from bitlen_bounds [OF that] have "of_int (2 ^ nat (bitlen x - 1)) \<le> (of_int x :: rat)"
      "(of_int x :: rat) < of_int (2 ^ nat (bitlen x))" by (simp_all only: of_int_le_iff of_int_less_iff)
    then show ?thesis by simp
  qed
  have pos: "1 \<le> bitlen x" if "0 < x" for x using that bitlen_eq_zero_iff [of x] bitlen_nonneg [of x] by linarith
  have pi: "(2 :: rat) ^ nat (bitlen x) = 2 powi bitlen x" "0 < x \<Longrightarrow> (2 :: rat) ^ nat (bitlen x - 1) = 2 powi (bitlen x - 1)" for x
    using pos [of x] by (simp_all add: power_int_nonneg_exp bitlen_nonneg)
  let ?e = "bitlen n - bitlen d"
  have up: "q < 2 powi (?e + 1)"
  proof -
    have "of_int n < (2 :: rat) powi bitlen n" using pw [OF n] pi by simp
    also have "\<dots> = 2 powi (?e + 1) * 2 powi (bitlen d - 1)" by (simp flip: power_int_add)
    also have "\<dots> \<le> 2 powi (?e + 1) * of_int d" using pw [OF d] pi(2) [OF d] by simp
    finally show ?thesis using d by (simp add: q divide_less_eq)
  qed
  have low: "2 powi (?e - 1) \<le> q"
  proof -
    have "2 powi (?e - 1) * of_int d \<le> 2 powi (?e - 1) * (2 :: rat) powi bitlen d"
      using pw [OF d] pi(1) [of d] by (simp add: mult_left_mono less_imp_le)
    also have "\<dots> = 2 powi (bitlen n - 1)" by (simp flip: power_int_add)
    also have "\<dots> \<le> of_int n" using pw [OF n] pi(2) [OF n] by simp
    finally show ?thesis using d by (simp add: q le_divide_eq)
  qed
  show "2 powi ilog2 q \<le> q" "q < 2 powi (ilog2 q + 1)"
    using up low by (auto simp: ilog2_def nd Let_def)
qed

lemma ilog2_mono: "0 < p \<Longrightarrow> p \<le> q \<Longrightarrow> ilog2 p \<le> ilog2 q"
proof (rule ccontr)
  assume a: "0 < p" "p \<le> q" "\<not> ilog2 p \<le> ilog2 q"
  then have "(2 :: rat) powi (ilog2 q + 1) \<le> 2 powi ilog2 p" by (intro two_powi_le) simp
  then show False using ilog2_bounds(2) [of q] ilog2_bounds(1) [of p] a by simp
qed

lemma rne_error: "\<bar>of_int (rne x) - x\<bar> \<le> 1 / 2"
proof -
  define f where "f = \<lfloor>x\<rfloor>"
  have "of_int f \<le> x" "x < of_int f + 1" unfolding f_def by linarith+
  then show ?thesis by (auto simp: rne_def Let_def abs_if simp flip: f_def)
qed

lemma rne_mono: "x \<le> y \<Longrightarrow> rne x \<le> rne y"
proof -
  assume le: "x \<le> y"
  have b: "\<lfloor>z\<rfloor> \<le> rne z" "rne z \<le> \<lfloor>z\<rfloor> + 1" for z by (simp_all add: rne_def Let_def)
  show ?thesis
  proof (cases "\<lfloor>x\<rfloor> = \<lfloor>y\<rfloor>")
    case True
    then show ?thesis using le by (auto simp: rne_def Let_def)
  next
    case False
    then have "\<lfloor>x\<rfloor> + 1 \<le> \<lfloor>y\<rfloor>" using floor_mono [OF le] by simp
    then show ?thesis using b(2) [of x] b(1) [of y] by linarith
  qed
qed

lemma rne_of_int [simp]: "rne (of_int i) = i"
  by (simp add: rne_def)

lemma rne_nonneg: "0 \<le> x \<Longrightarrow> 0 \<le> rne x"
  using rne_mono [of 0 x] rne_of_int [of 0] by simp

lemma round_mag_nonneg [simp]: "0 \<le> m \<Longrightarrow> 0 \<le> round_mag m"
  by (simp add: round_mag_def rne_nonneg)

text \<open>A magnitude that fits is not changed.\<close>

lemma round_mag_fits: "fits53 m \<Longrightarrow> round_mag m = m"
proof (cases "m = 0")
  case False
  assume "fits53 m"
  then obtain k u where k: "m = of_int k * 2 powi u" "0 \<le> k" "k < 2 ^ 53" "-1074 \<le> u" by (auto simp: fits53_def)
  then have kp: "0 < k" using False by (cases "k = 0") auto
  have "(2 :: rat) powi ilog2 m \<le> m" using kp k(1) by (intro ilog2_bounds) simp
  also have "m < 2 powi 53 * 2 powi u"
  proof -
    have "(of_int k :: rat) < of_int (2 ^ 53)" using k(3) by (simp only: of_int_less_iff)
    then show ?thesis by (simp add: k(1))
  qed
  also have "\<dots> = 2 powi (53 + u)" by (simp add: power_int_add)
  finally have "ilog2 m < 53 + u" using two_powi_le [of "53 + u" "ilog2 m"] by (cases "53 + u \<le> ilog2 m") auto
  then have "ulp_exp m \<le> u" using k(4) by (simp add: ulp_exp_def)
  define v where "v = ulp_exp m"
  have "m / 2 powi v = of_int k * (2 powi u / 2 powi v)" by (simp add: k(1))
  also have "\<dots> = of_int (k * 2 ^ nat (u - v))" using two_powi_int [of v u] \<open>ulp_exp m \<le> u\<close> by (simp add: v_def)
  finally have e: "m / 2 powi v = of_int (k * 2 ^ nat (u - v))" .
  then have "rne (m / 2 powi v) = k * 2 ^ nat (u - v)" by (simp only: rne_of_int)
  then have "of_int (rne (m / 2 powi v)) * 2 powi v = m / 2 powi v * 2 powi v" by (simp only: e)
  then show ?thesis using False by (simp add: round_mag_def v_def)
qed (simp add: round_mag_def)

lemma round_mag_mono:
  assumes "0 \<le> m" "m \<le> n"
  shows "round_mag m \<le> round_mag n"
proof (cases "m = 0")
  case False
  then have p: "0 < m" "0 < n" using assms by auto
  let ?u = "ulp_exp m" and ?v = "ulp_exp n"
  have uv: "?u \<le> ?v" using ilog2_mono [OF p(1) assms(2)] by (simp add: ulp_exp_def)
  show ?thesis
  proof (cases "?u = ?v")
    case True
    then have "rne (m / 2 powi ?u) \<le> rne (n / 2 powi ?v)" using assms(2) by (intro rne_mono) (simp add: divide_right_mono)
    then show ?thesis using p True by (simp add: round_mag_def)
  next
    case False
    let ?p = "(2 :: rat) powi ilog2 n"
    have v: "?v = ilog2 n - 52" "ilog2 m < ilog2 n" using False uv by (auto simp: ulp_exp_def)
    have m: "m \<le> ?p"
      using ilog2_bounds(2) [OF p(1)] two_powi_le [of "ilog2 m + 1" "ilog2 n"] v(2) by simp
    have i: "?p / 2 powi ?u = of_int (2 ^ nat (ilog2 n - ?u))" "?p / 2 powi ?v = of_int (2 ^ nat (ilog2 n - ?v))"
      using two_powi_int [of ?u "ilog2 n"] two_powi_int [of ?v "ilog2 n"] uv v by auto
    have "rne (m / 2 powi ?u) \<le> rne (?p / 2 powi ?u)" using m by (intro rne_mono) (simp add: divide_right_mono)
    then have "of_int (rne (m / 2 powi ?u)) \<le> ?p / 2 powi ?u" unfolding i(1) rne_of_int of_int_le_iff .
    then have "round_mag m \<le> ?p" using p by (simp add: round_mag_def le_divide_eq)
    also have "rne (?p / 2 powi ?v) \<le> rne (n / 2 powi ?v)"
      using ilog2_bounds(1) [OF p(2)] by (intro rne_mono) (simp add: divide_right_mono)
    then have "?p / 2 powi ?v \<le> of_int (rne (n / 2 powi ?v))" unfolding i(2) rne_of_int of_int_le_iff .
    then have "?p \<le> round_mag n" using p by (simp add: round_mag_def divide_le_eq)
    finally show ?thesis .
  qed
qed (use assms round_mag_nonneg [of n] in \<open>simp add: round_mag_def\<close>)

lemma round_mag_error:
  assumes "0 \<le> m"
  shows "\<bar>round_mag m - m\<bar> \<le> max (m * eps) tiny"
proof (cases "m = 0")
  case False
  then have p: "0 < m" using assms by simp
  let ?u = "ulp_exp m"
  have "\<bar>of_int (rne (m / 2 powi ?u)) - m / 2 powi ?u\<bar> * 2 powi ?u \<le> 1 / 2 * 2 powi ?u"
    by (intro mult_right_mono rne_error) simp
  moreover have "(of_int (rne (m / 2 powi ?u)) - m / 2 powi ?u) * 2 powi ?u = round_mag m - m"
    using False by (simp add: round_mag_def left_diff_distrib)
  ultimately have e: "\<bar>round_mag m - m\<bar> \<le> 2 powi ?u / 2"
    using abs_mult [of "of_int (rne (m / 2 powi ?u)) - m / 2 powi ?u" "2 powi ?u"] by simp
  show ?thesis
  proof (cases "?u = -1074")
    case True
    then have "(2 :: rat) powi ?u / 2 = tiny" unfolding tiny_def using power_int_diff [of "2 :: rat" "-1074" 1] by simp
    then show ?thesis using e by simp
  next
    case False
    then have u: "?u = ilog2 m - 52" by (auto simp: ulp_exp_def max_def split: if_splits)
    have "(2 :: rat) powi ?u / 2 = 2 powi ilog2 m * eps"
      unfolding u by (simp add: power_int_diff eps_def)
    also have "\<dots> \<le> m * eps" using ilog2_bounds(1) [OF p] by (simp add: eps_def)
    finally show ?thesis using order.trans [OF e] by (simp only: le_max_iff_disj simp_thms)
  qed
qed (simp add: round_mag_def tiny_def)

text \<open>What rounding gives fits again.\<close>

lemma fits53_0: "fits53 0"
  unfolding fits53_def by (rule exI [of _ 0], rule exI [of _ 0]) simp

lemma fits53_round:
  assumes "0 \<le> m"
  shows "fits53 (round_mag m)"
proof (cases "m = 0")
  case False
  then have p: "0 < m" using assms by simp
  define u where "u = ulp_exp m"
  define k where "k = rne (m / 2 powi u)"
  have u: "-1074 \<le> u" "ilog2 m + 1 \<le> 53 + u" by (simp_all add: u_def ulp_exp_def)
  have r: "round_mag m = of_int k * 2 powi u" using False by (simp add: round_mag_def u_def k_def)
  have "m \<le> 2 powi (53 + u)"
    using ilog2_bounds(2) [OF p] two_powi_le [OF u(2)] by (rule order.trans [OF less_imp_le])
  then have "m / 2 powi u \<le> 2 powi (53 + u) / 2 powi u" by (intro divide_right_mono) simp_all
  also have "\<dots> = of_int (2 ^ 53)" using two_powi_int [of u "53 + u"] by simp
  finally have k: "k \<le> 2 ^ 53" using rne_mono [of "m / 2 powi u" "of_int (2 ^ 53)"] unfolding rne_of_int k_def by simp
  have n: "0 \<le> k" using p unfolding k_def by (intro rne_nonneg) simp
  show ?thesis
  proof (cases "k = 2 ^ 53")
    case True
    have "(2 :: rat) ^ 53 = 2 ^ 52 * 2" by simp
    then have "round_mag m = of_int (2 ^ 52) * 2 powi (1 + u)" by (simp only: r True two_powi_split) simp
    then show ?thesis using u(1) unfolding fits53_def by - (rule exI [of _ "2 ^ 52"], rule exI [of _ "1 + u"], simp)
  next
    case False
    then have "k < 2 ^ 53" using k by simp
    then show ?thesis using r n u(1) unfolding fits53_def by blast
  qed
qed (use fits53_0 in \<open>simp add: round_mag_def\<close>)

lemma round_mag_idem [simp]: "0 \<le> m \<Longrightarrow> round_mag (round_mag m) = round_mag m"
  by (intro round_mag_fits fits53_round)

subsection \<open>Numbers\<close>

datatype double = NaN | Inf bool | Num bool rat

text \<open>The first argument is the sign, \<open>True\<close> for negative numbers.\<close>

fun isnan :: "double \<Rightarrow> bool" where
  "isnan NaN = True" | "isnan _ = False"

fun isinf :: "double \<Rightarrow> bool" where
  "isinf (Inf s) = True" | "isinf _ = False"

fun val :: "double \<Rightarrow> rat" where
  "val (Num s m) = (if s then - m else m)"
| "val _ = 0"

fun is_double :: "double \<Rightarrow> bool" where
  "is_double (Num s m) \<longleftrightarrow> 0 \<le> m \<and> round_mag m = m \<and> m < huge"
| "is_double _ \<longleftrightarrow> True"

definition round_double :: "bool \<Rightarrow> rat \<Rightarrow> double" where
  "round_double s m = (let r = round_mag m in if r < huge then Num s r else Inf s)"

text \<open>The nearest number to a rational one, as in a literal.\<close>

definition double_of :: "rat \<Rightarrow> double" where
  "double_of q = round_double (q < 0) \<bar>q\<bar>"

fun dbl_neg :: "double \<Rightarrow> double" where
  "dbl_neg NaN = NaN" | "dbl_neg (Inf s) = Inf (\<not> s)" | "dbl_neg (Num s m) = Num (\<not> s) m"

fun dbl_abs :: "double \<Rightarrow> double" where
  "dbl_abs NaN = NaN" | "dbl_abs (Inf s) = Inf False" | "dbl_abs (Num s m) = Num False m"

text \<open>An exact sum of zero is negative only if both operands are.\<close>

fun dbl_add :: "double \<Rightarrow> double \<Rightarrow> double" where
  "dbl_add NaN _ = NaN"
| "dbl_add _ NaN = NaN"
| "dbl_add (Inf s) (Inf t) = (if s = t then Inf s else NaN)"
| "dbl_add (Inf s) (Num t n) = Inf s"
| "dbl_add (Num s m) (Inf t) = Inf t"
| "dbl_add (Num s m) (Num t n) =
     (let v = val (Num s m) + val (Num t n)
      in if v = 0 then Num (s \<and> t) 0 else round_double (v < 0) \<bar>v\<bar>)"

definition dbl_sub :: "double \<Rightarrow> double \<Rightarrow> double" where
  "dbl_sub x y = dbl_add x (dbl_neg y)"

fun dbl_mul :: "double \<Rightarrow> double \<Rightarrow> double" where
  "dbl_mul NaN _ = NaN"
| "dbl_mul _ NaN = NaN"
| "dbl_mul (Inf s) (Inf t) = Inf (s \<noteq> t)"
| "dbl_mul (Inf s) (Num t n) = (if n = 0 then NaN else Inf (s \<noteq> t))"
| "dbl_mul (Num s m) (Inf t) = (if m = 0 then NaN else Inf (s \<noteq> t))"
| "dbl_mul (Num s m) (Num t n) = round_double (s \<noteq> t) (m * n)"

fun dbl_div :: "double \<Rightarrow> double \<Rightarrow> double" where
  "dbl_div NaN _ = NaN"
| "dbl_div _ NaN = NaN"
| "dbl_div (Inf s) (Inf t) = NaN"
| "dbl_div (Inf s) (Num t n) = Inf (s \<noteq> t)"
| "dbl_div (Num s m) (Inf t) = Num (s \<noteq> t) 0"
| "dbl_div (Num s m) (Num t n) =
     (if n = 0 then if m = 0 then NaN else Inf (s \<noteq> t) else round_double (s \<noteq> t) (m / n))"

text \<open>The comparisons \<open>==\<close>, \<open><\<close> and \<open><=\<close>: false on not-a-number values.\<close>

fun dbl_less :: "double \<Rightarrow> double \<Rightarrow> bool" where
  "dbl_less NaN _ = False"
| "dbl_less _ NaN = False"
| "dbl_less (Inf s) (Inf t) = (s \<and> \<not> t)"
| "dbl_less (Inf s) (Num t n) = s"
| "dbl_less (Num s m) (Inf t) = (\<not> t)"
| "dbl_less (Num s m) (Num t n) = (val (Num s m) < val (Num t n))"

fun dbl_eq :: "double \<Rightarrow> double \<Rightarrow> bool" where
  "dbl_eq NaN _ = False"
| "dbl_eq _ NaN = False"
| "dbl_eq (Inf s) (Inf t) = (s = t)"
| "dbl_eq (Num s m) (Num t n) = (val (Num s m) = val (Num t n))"
| "dbl_eq _ _ = False"

definition dbl_le :: "double \<Rightarrow> double \<Rightarrow> bool" where
  "dbl_le x y = (dbl_less x y \<or> dbl_eq x y)"

definition dbl_max :: "double \<Rightarrow> double \<Rightarrow> double" where
  "dbl_max x y = (if dbl_less x y then y else x)"

subsection \<open>The operations stay in the format\<close>

lemma round_double_wf: "0 \<le> m \<Longrightarrow> is_double (round_double s m)"
  by (simp add: round_double_def Let_def)

lemma round_mag_0 [simp]: "round_mag 0 = 0"
  by (simp add: round_mag_def)

lemma double_ops_wf:
  assumes "is_double x" "is_double y"
  shows "is_double (dbl_add x y)" "is_double (dbl_sub x y)" "is_double (dbl_mul x y)" "is_double (dbl_div x y)"
    "is_double (dbl_neg x)" "is_double (dbl_abs x)" "is_double (double_of q)"
proof -
  have add: "is_double (dbl_add x z)" if "is_double z" for z
    using assms that by (cases x; cases z) (simp_all add: round_double_wf Let_def)
  show "is_double (dbl_add x y)" using add assms by simp
  show "is_double (dbl_sub x y)" using add [of "dbl_neg y"] assms by (cases y) (simp_all add: dbl_sub_def)
  show "is_double (dbl_mul x y)" "is_double (dbl_div x y)"
    using assms by (cases x; cases y; simp add: round_double_wf)+
  show "is_double (dbl_neg x)" "is_double (dbl_abs x)" using assms by (cases x; simp)+
  show "is_double (double_of q)" by (simp add: double_of_def round_double_wf)
qed

text \<open>The value of a rounded magnitude, if it is finite.\<close>

lemma round_double_cases:
  obtains (num) "round_double s m = Num s (round_mag m)" "round_mag m < huge"
  | (inf) "round_double s m = Inf s" "huge \<le> round_mag m"
  by (cases "round_mag m < huge") (simp_all add: round_double_def)

lemma fits_power: "-1074 \<le> e \<Longrightarrow> fits53 (2 powi e)"
  unfolding fits53_def by (rule exI [of _ 1], rule exI [of _ e]) simp

lemma round_mag_huge [simp]: "round_mag huge = huge"
proof -
  have "huge = 2 powi 1024" by (simp only: huge_def power_int_numeral)
  then show ?thesis using round_mag_fits [OF fits_power [of 1024]] by simp
qed

lemma dbl_sub_num:
  "dbl_sub (Num s m) (Num t n) =
     (let v = val (Num s m) - val (Num t n) in if v = 0 then Num (s \<and> \<not> t) 0 else round_double (v < 0) \<bar>v\<bar>)"
proof -
  have "x + y < 0 \<longleftrightarrow> x < - y" for x y :: rat by linarith
  then show ?thesis by (auto simp: dbl_sub_def Let_def)
qed

end
