(* ===== verification/NumSkills.thy ===== *)
theory NumSkills
  imports Skills Doubles
begin

section \<open>Numeric comparisons and skills\<close>

text \<open>
  The floating point part of skills/registry/CompareUtils and the numeric skills of
  skills/builtins/. The global \<open>CompareConfig::defaults()\<close> is an argument. The text
  \<open>std::to_string\<close> makes of a number depends on the C locale and is the argument \<open>fmt\<close>.
  \<open>cblas_dgemm\<close> is an argument of the matrix skill. A read behind the end of a span is \<open>None\<close>.

  \<open>doubles_equal_tolerance\<close> relates the comparison, which rounds three times, to the exact
  tolerance; \<open>injection_detected\<close> says for which numbers the injected fault is noticed;
  \<open>infinite_matches_everything\<close> is a limit of the code. \<open>compare_vector_exact\<close>,
  \<open>math_overflow_flag\<close> and \<open>vector_math_elementwise\<close> describe the helpers and skills built on
  them.
\<close>

subsection \<open>Comparisons (CompareUtils)\<close>

record CompareConfig =
  enabled :: bool
  abs_epsilon :: double
  rel_epsilon :: double
  inject_failure :: bool

definition CompareConfig_defaults :: CompareConfig where
  "CompareConfig_defaults =
     \<lparr>enabled = False, abs_epsilon = double_of (1 / 10 ^ 9), rel_epsilon = double_of (1 / 10 ^ 6), inject_failure = False\<rparr>"

definition doubles_equal :: "CompareConfig \<Rightarrow> double \<Rightarrow> double \<Rightarrow> bool" where
  "doubles_equal cfg expected actual =
     (if dbl_eq expected actual then True
      else if isnan expected \<and> isnan actual then True
      else if isnan expected \<or> isnan actual then False
      else let diff = dbl_abs (dbl_sub expected actual)
           in if dbl_le diff (abs_epsilon cfg) then True
              else let max_abs = dbl_max (dbl_abs expected) (dbl_abs actual)
                   in dbl_le diff (dbl_mul (rel_epsilon cfg) max_abs))"

text \<open>The loop from index \<open>i\<close> on: the index of the first mismatch, if any.\<close>

fun vectors_loop :: "CompareConfig \<Rightarrow> nat \<Rightarrow> double list \<Rightarrow> double list \<Rightarrow> nat option" where
  "vectors_loop cfg i (e # es) (a # as) =
     (if \<not> doubles_equal cfg e a then Some i else vectors_loop cfg (Suc i) es as)"
| "vectors_loop cfg i _ _ = None"

text \<open>The second component is what is stored through \<open>mismatch_index\<close>, if anything.\<close>

definition vectors_equal :: "CompareConfig \<Rightarrow> double list \<Rightarrow> double list \<Rightarrow> bool \<times> nat option" where
  "vectors_equal cfg expected actual =
     (if length expected \<noteq> length actual then (False, Some 0)
      else case vectors_loop cfg 0 expected actual of
             Some i \<Rightarrow> (False, Some i)
           | None \<Rightarrow> (True, None))"

definition injected_mark :: "bool \<Rightarrow> string" where
  "injected_mark injected = (if injected then '' [INJECTED]'' else [])"

definition compare_scalar :: "(double \<Rightarrow> string) \<Rightarrow> string \<Rightarrow> CompareConfig \<Rightarrow> double \<Rightarrow> double \<Rightarrow> VerificationResult" where
  "compare_scalar fmt field_name cfg expected actual =
     (let injected = inject_failure cfg;
          check_actual = (if inject_failure cfg then dbl_add actual (double_of 1000) else actual)
      in if \<not> doubles_equal cfg expected check_actual then
           failure (field_name @ '' mismatch: expected='' @ fmt expected @ '' got='' @ fmt check_actual
             @ '' diff='' @ fmt (dbl_abs (dbl_sub expected check_actual)) @ injected_mark injected)
         else success)"

definition size_mismatch :: "string \<Rightarrow> 'a list \<Rightarrow> 'a list \<Rightarrow> string" where
  "size_mismatch field_name expected actual =
     field_name @ '' size mismatch: expected='' @ to_string (length expected) @ '' got='' @ to_string (length actual)"

definition inject_vector :: "CompareConfig \<Rightarrow> double list \<Rightarrow> double list" where
  "inject_vector cfg actual =
     (if inject_failure cfg \<and> actual \<noteq> [] then actual[0 := dbl_add (actual ! 0) (double_of 1000)] else actual)"

definition compare_vector :: "(double \<Rightarrow> string) \<Rightarrow> string \<Rightarrow> CompareConfig \<Rightarrow> double list \<Rightarrow> double list \<Rightarrow> VerificationResult" where
  "compare_vector fmt field_name cfg expected actual =
     (if length expected \<noteq> length actual then failure (size_mismatch field_name expected actual)
      else let injected = (inject_failure cfg \<and> actual \<noteq> []);
               actual_span = inject_vector cfg actual
           in case vectors_equal cfg expected actual_span of
                (False, idx) \<Rightarrow>
                  let i = (case idx of Some i \<Rightarrow> i | None \<Rightarrow> 0)
                  in failure (field_name @ '' mismatch at index '' @ to_string i @ '': expected='' @ fmt (expected ! i)
                       @ '' got='' @ fmt (actual_span ! i)
                       @ '' diff='' @ fmt (dbl_abs (dbl_sub (expected ! i) (actual_span ! i))) @ injected_mark injected)
              | (True, _) \<Rightarrow> success)"

text \<open>The template for other element types: \<open>eq\<close> is \<open>doubles_equal\<close> after conversion for
  \<open>float\<close> and exact equality for integers. It does not look at \<open>inject_failure\<close>.\<close>

fun typed_loop :: "('a \<Rightarrow> 'a \<Rightarrow> bool) \<Rightarrow> ('a \<Rightarrow> string) \<Rightarrow> string \<Rightarrow> nat \<Rightarrow> 'a list \<Rightarrow> 'a list \<Rightarrow> VerificationResult" where
  "typed_loop eq fmt field_name i (e # es) (a # as) =
     (if \<not> eq e a then
        failure (field_name @ '' mismatch at index '' @ to_string i @ '': expected='' @ fmt e @ '' got='' @ fmt a)
      else typed_loop eq fmt field_name (Suc i) es as)"
| "typed_loop eq fmt field_name i _ _ = success"

definition compare_typed_vector ::
  "('a \<Rightarrow> 'a \<Rightarrow> bool) \<Rightarrow> ('a \<Rightarrow> string) \<Rightarrow> string \<Rightarrow> 'a list \<Rightarrow> 'a list \<Rightarrow> VerificationResult" where
  "compare_typed_vector eq fmt field_name expected actual =
     (if length expected \<noteq> length actual then failure (size_mismatch field_name expected actual)
      else typed_loop eq fmt field_name 0 expected actual)"

subsection \<open>Scalar operations (MathOperationSkill)\<close>

text \<open>The operation is the \<open>int8_t\<close> of the request; any other value is refused.\<close>

definition MathOperation_Add :: byte where "MathOperation_Add = 0"
definition MathOperation_Subtract :: byte where "MathOperation_Subtract = 1"
definition MathOperation_Multiply :: byte where "MathOperation_Multiply = 2"
definition MathOperation_Divide :: byte where "MathOperation_Divide = 3"

lemmas math_operations = MathOperation_Add_def MathOperation_Subtract_def MathOperation_Multiply_def MathOperation_Divide_def

record MathRequest =
  mq_a :: double
  mq_b :: double
  mq_operation :: byte

record MathResponse =
  mr_result :: double
  mr_overflow :: byte

definition zero_double :: double where "zero_double = Num False 0"

definition math_compute :: "MathRequest \<Rightarrow> MathResponse \<Rightarrow> bool \<times> MathResponse" where
  "math_compute req resp =
     (let a = mq_a req; b = mq_b req; op = mq_operation req;
          flagged = (\<lambda>r. Some (r, isinf r));
          outcome =
            (if op = MathOperation_Add then flagged (dbl_add a b)
             else if op = MathOperation_Subtract then flagged (dbl_sub a b)
             else if op = MathOperation_Multiply then flagged (dbl_mul a b)
             else if op = MathOperation_Divide then
               (if dbl_eq b zero_double then Some (NaN, True) else flagged (dbl_div a b))
             else None)
      in case outcome of
           None \<Rightarrow> (False, resp)
         | Some (result, overflow) \<Rightarrow> (True, resp\<lparr>mr_result := result, mr_overflow := (if overflow then 1 else 0)\<rparr>))"

definition math_test_case_count :: nat where "math_test_case_count = 3"

definition math_fill_test_request :: "nat \<Rightarrow> MathRequest" where
  "math_fill_test_request case_index =
     (if case_index = 0 then \<lparr>mq_a = double_of 42, mq_b = double_of 13, mq_operation = MathOperation_Add\<rparr>
      else if case_index = 1 then \<lparr>mq_a = double_of (10 ^ 308), mq_b = double_of (10 ^ 308), mq_operation = MathOperation_Add\<rparr>
      else if case_index = 2 then \<lparr>mq_a = double_of 10, mq_b = zero_double, mq_operation = MathOperation_Divide\<rparr>
      else \<lparr>mq_a = zero_double, mq_b = zero_double, mq_operation = MathOperation_Add\<rparr>)"

subsection \<open>Vector operations (VectorMathSkill)\<close>

record VectorRequest =
  vq_a :: "double list"
  vq_b :: "double list"
  vq_operation :: byte

definition vector_element :: "byte \<Rightarrow> (double \<Rightarrow> double \<Rightarrow> double) option" where
  "vector_element op =
     (if op = MathOperation_Add then Some dbl_add
      else if op = MathOperation_Subtract then Some dbl_sub
      else if op = MathOperation_Multiply then Some dbl_mul
      else if op = MathOperation_Divide then Some (\<lambda>a b. if \<not> dbl_eq b zero_double then dbl_div a b else NaN)
      else None)"

text \<open>The loop from index \<open>i\<close> on. \<open>None\<close>: \<open>b\<close> is read behind its end. An unknown operation
  ends the loop before anything is read.\<close>

function vector_loop :: "byte \<Rightarrow> double list \<Rightarrow> double list \<Rightarrow> nat \<Rightarrow> double list \<Rightarrow> (bool \<times> double list) option" where
  "vector_loop op a b i result =
     (if i < length a then
        case vector_element op of
          None \<Rightarrow> Some (False, result)
        | Some f \<Rightarrow> if length b \<le> i then None
                    else vector_loop op a b (Suc i) (result[i := f (a ! i) (b ! i)])
      else Some (True, result))"
  by pat_completeness auto
termination by (relation "measure (\<lambda>(_, a, _, i, _). length a - i)") auto

declare vector_loop.simps [simp del]

definition vector_compute :: "VectorRequest \<Rightarrow> double list \<Rightarrow> (bool \<times> double list) option" where
  "vector_compute req result =
     (if length result \<noteq> length (vq_a req) then Some (False, result)
      else vector_loop (vq_operation req) (vq_a req) (vq_b req) 0 result)"

definition vector_fill_test_request :: "nat \<Rightarrow> VectorRequest" where
  "vector_fill_test_request case_index =
     (case (if case_index = 0 then (100, MathOperation_Add)
            else if case_index = 1 then (1000, MathOperation_Multiply)
            else if case_index = 2 then (10, MathOperation_Divide)
            else (100, MathOperation_Add)) of
        (n, op) \<Rightarrow>
          \<lparr>vq_a = map (\<lambda>i. double_of (of_nat (i + 1))) [0..<n],
           vq_b = map (\<lambda>i. double_of (of_nat (i + 1))) [0..<n], vq_operation = op\<rparr>)"

subsection \<open>Multiply and add (FusedMultiplyAddSkill)\<close>

record FmaRequest =
  fq_a :: "double list"
  fq_b :: "double list"
  fq_c :: double

text \<open>The product and the sum are rounded separately, as the expression is written.\<close>

function fma_loop :: "double \<Rightarrow> double list \<Rightarrow> double list \<Rightarrow> nat \<Rightarrow> double list \<Rightarrow> double list option" where
  "fma_loop c a b i result =
     (if i < length a then
        if length b \<le> i then None
        else fma_loop c a b (Suc i) (result[i := dbl_add (a ! i) (dbl_mul c (b ! i))])
      else Some result)"
  by pat_completeness auto
termination by (relation "measure (\<lambda>(_, a, _, i, _). length a - i)") auto

declare fma_loop.simps [simp del]

definition fma_compute :: "FmaRequest \<Rightarrow> double list \<Rightarrow> (bool \<times> double list) option" where
  "fma_compute req result =
     (if length result \<noteq> length (fq_a req) then Some (False, result)
      else map_option (\<lambda>r. (True, r)) (fma_loop (fq_c req) (fq_a req) (fq_b req) 0 result))"

definition fma_fill_test_request :: "nat \<Rightarrow> FmaRequest" where
  "fma_fill_test_request case_index =
     (case (if case_index = 0 then (100, double_of 2)
            else if case_index = 1 then (1000, double_of (1 / 2))
            else if case_index = 2 then (10, zero_double)
            else (100, double_of 2)) of
        (n, c) \<Rightarrow>
          \<lparr>fq_a = map (\<lambda>i. double_of (of_nat i)) [0..<n], fq_b = replicate n (double_of 1), fq_c = c\<rparr>)"

subsection \<open>Matrix product (DgemmSkill, MatrixSpan)\<close>

text \<open>A matrix view over a flat vector; dimensions are \<open>int32_t\<close>.\<close>

record 'a MatrixSpan =
  ms_data :: "'a list"
  ms_rows :: "32 word"
  ms_cols :: "32 word"

text \<open>\<open>static_cast<size_t>(r) * cols + c\<close>: all operands are converted to \<open>size_t\<close> with their
  sign. \<open>None\<close>: behind the end of the data.\<close>

definition ms_index :: "'a MatrixSpan \<Rightarrow> 32 word \<Rightarrow> 32 word \<Rightarrow> u64" where
  "ms_index m r c = scast r * scast (ms_cols m) + scast c"

definition ms_at :: "'a MatrixSpan \<Rightarrow> 32 word \<Rightarrow> 32 word \<Rightarrow> 'a option" where
  "ms_at m r c = (let i = unat (ms_index m r c) in if i < length (ms_data m) then Some (ms_data m ! i) else None)"

definition ms_valid :: "'a MatrixSpan \<Rightarrow> bool" where
  "ms_valid m \<longleftrightarrow> sint (ms_rows m) > 0 \<and> sint (ms_cols m) > 0
     \<and> length (ms_data m) = unat (scast (ms_rows m) * scast (ms_cols m) :: u64)"

definition ms_ld :: "'a MatrixSpan \<Rightarrow> 32 word" where "ms_ld m = ms_cols m"

record DgemmRequest =
  dq_a :: "double MatrixSpan"
  dq_b :: "double MatrixSpan"
  dq_alpha :: double
  dq_beta :: double

type_synonym cblas_dgemm =
  "32 word \<Rightarrow> 32 word \<Rightarrow> 32 word \<Rightarrow> double \<Rightarrow> double list \<Rightarrow> 32 word \<Rightarrow> double list \<Rightarrow> 32 word \<Rightarrow> double
   \<Rightarrow> double list \<Rightarrow> 32 word \<Rightarrow> double list"

definition dgemm_compute :: "cblas_dgemm \<Rightarrow> DgemmRequest \<Rightarrow> double MatrixSpan \<Rightarrow> bool \<times> double MatrixSpan" where
  "dgemm_compute cblas req c =
     (let m = ms_rows (dq_a req); n = ms_cols (dq_b req); k = ms_cols (dq_a req)
      in if ms_rows c \<noteq> m \<or> ms_cols c \<noteq> n then (False, c)
         else (True, c\<lparr>ms_data := cblas m n k (dq_alpha req) (ms_data (dq_a req)) (ms_ld (dq_a req))
                 (ms_data (dq_b req)) (ms_ld (dq_b req)) (dq_beta req) (ms_data c) (ms_ld c)\<rparr>))"

definition matrix_of :: "int \<Rightarrow> int \<Rightarrow> int list \<Rightarrow> double MatrixSpan" where
  "matrix_of r c xs = \<lparr>ms_data = map (\<lambda>x. double_of (of_int x)) xs, ms_rows = word_of_int r, ms_cols = word_of_int c\<rparr>"

text \<open>Other indices leave the request unallocated.\<close>

definition dgemm_fill_test_request :: "nat \<Rightarrow> DgemmRequest option" where
  "dgemm_fill_test_request case_index =
     (if case_index = 0 then
        Some \<lparr>dq_a = matrix_of 2 2 [1, 0, 0, 1], dq_b = matrix_of 2 2 [1, 0, 0, 1], dq_alpha = double_of 1, dq_beta = zero_double\<rparr>
      else if case_index = 1 then
        Some \<lparr>dq_a = matrix_of 2 3 [1, 2, 3, 4, 5, 6], dq_b = matrix_of 3 2 [7, 8, 9, 10, 11, 12],
              dq_alpha = double_of 1, dq_beta = zero_double\<rparr>
      else if case_index = 2 then
        Some \<lparr>dq_a = matrix_of 3 3 [1..9], dq_b = matrix_of 3 3 [1..9], dq_alpha = double_of 2, dq_beta = zero_double\<rparr>
      else None)"


subsection \<open>Doubles within a tolerance\<close>

lemma dbl_eq_refl [simp]: "dbl_eq x x \<longleftrightarrow> \<not> isnan x"
  by (cases x) simp_all

lemma doubles_equal_refl [simp]: "doubles_equal cfg x x"
  by (simp add: doubles_equal_def)

lemma dbl_eq_sym: "dbl_eq x y = dbl_eq y x"
  by (cases x; cases y) auto

lemma dbl_sub_abs_sym: "dbl_abs (dbl_sub x y) = dbl_abs (dbl_sub y x)"
proof (cases "\<exists>s m t n. x = Num s m \<and> y = Num t n")
  case True
  then obtain s m t n where xy: "x = Num s m" "y = Num t n" by blast
  have r: "dbl_abs (round_double u v) = dbl_abs (round_double w v)" for u w v
    by (cases "round_mag v < huge") (simp_all add: round_double_def)
  have "val y - val x = - (val x - val y)" by simp
  then show ?thesis using xy
    by (simp add: dbl_sub_num abs_minus_commute Let_def r del: val.simps)
qed (cases x; cases y; auto simp: dbl_sub_def)

lemma dbl_max_abs_sym: "\<not> isnan x \<Longrightarrow> \<not> isnan y \<Longrightarrow> dbl_max (dbl_abs x) (dbl_abs y) = dbl_max (dbl_abs y) (dbl_abs x)"
  by (cases x; cases y) (auto simp: dbl_max_def)

lemma doubles_equal_sym: "doubles_equal cfg x y = doubles_equal cfg y x"
  using dbl_eq_sym [of x y] dbl_sub_abs_sym [of x y] dbl_max_abs_sym [of x y]
  by (auto simp: doubles_equal_def Let_def)

text \<open>The tolerances of a sensible configuration: finite, not negative, the relative one at
  most one.\<close>

fun tolerance :: "double \<Rightarrow> bool" where
  "tolerance (Num s m) \<longleftrightarrow> \<not> s \<and> is_double (Num s m)"
| "tolerance _ \<longleftrightarrow> False"

definition sensible :: "CompareConfig \<Rightarrow> bool" where
  "sensible cfg \<longleftrightarrow> tolerance (abs_epsilon cfg) \<and> tolerance (rel_epsilon cfg) \<and> val (rel_epsilon cfg) \<le> 1"

lemma dbl_le_num [simp]:
  "dbl_le (Num False x) (Num False y) \<longleftrightarrow> x \<le> y" "dbl_le (Inf False) (Num s y) = False"
  by (auto simp: dbl_le_def)

lemma dbl_max_num: "dbl_max (Num False x) (Num False y) = Num False (max x y)"
  by (simp add: dbl_max_def max_def)

text \<open>The comparison of finite numbers, on their rounded differences.\<close>

lemma doubles_equal_num:
  assumes "is_double (Num s m)" "is_double (Num t n)" "sensible cfg"
  defines "v \<equiv> \<bar>val (Num s m) - val (Num t n)\<bar>"
  shows "doubles_equal cfg (Num s m) (Num t n) \<longleftrightarrow>
     round_mag v \<le> val (abs_epsilon cfg) \<or> round_mag v \<le> round_mag (val (rel_epsilon cfg) * max m n)"
proof -
  obtain b r where br: "abs_epsilon cfg = Num False b" "rel_epsilon cfg = Num False r" "0 \<le> b" "b < huge" "0 \<le> r" "r \<le> 1"
    using assms(3) by (cases "abs_epsilon cfg"; cases "rel_epsilon cfg") (auto simp: sensible_def)
  have mn: "0 \<le> m" "0 \<le> n" "round_mag (max m n) = max m n" "max m n < huge" using assms(1,2) by (auto simp: max_def)
  have "r * max m n \<le> max m n" using mult_right_mono [of r 1 "max m n"] br(6) mn by (simp add: le_max_iff_disj)
  then have rm: "round_mag (r * max m n) < huge"
    using round_mag_mono [of "r * max m n" "max m n"] br(5) mn(1,3,4) by (simp add: le_max_iff_disj del: max_less_iff_conj) linarith
  show ?thesis
  proof (cases "v = 0")
    case True
    then show ?thesis using br by (simp add: doubles_equal_def v_def)
  next
    case False
    then have ne: "\<not> dbl_eq (Num s m) (Num t n)" by (auto simp: v_def)
    have d: "dbl_abs (dbl_sub (Num s m) (Num t n)) = (if round_mag v < huge then Num False (round_mag v) else Inf False)"
      using False by (simp add: dbl_sub_num v_def round_double_def Let_def del: val.simps)
    have vals: "val (abs_epsilon cfg) = b" "val (rel_epsilon cfg) = r" by (simp_all add: br)
    have p: "dbl_mul (Num False r) (dbl_max (Num False m) (Num False n)) = Num False (round_mag (r * max m n))"
      using rm by (simp add: br dbl_max_num round_double_def)
    show ?thesis
      unfolding vals using ne br rm by (auto simp: doubles_equal_def Let_def d p simp del: dbl_mul.simps)
  qed
qed

text \<open>
  C34. The tolerance of a comparison. For finite numbers and a sensible configuration, numbers
  that differ by no more than the absolute tolerance, or by no more than the relative one
  times the larger magnitude, are accepted; numbers that are accepted differ by no more than
  that, up to the rounding of the difference and of the product, each by a factor of
  \<open>1 \<plusminus> eps\<close> or the smallest number. The order of the two does not matter.
\<close>

theorem doubles_equal_tolerance:
  assumes "is_double (Num s m)" "is_double (Num t n)" "sensible cfg"
  defines "v \<equiv> \<bar>val (Num s m) - val (Num t n)\<bar>" and "b \<equiv> val (abs_epsilon cfg)" and "r \<equiv> val (rel_epsilon cfg)"
  shows "(v \<le> max b (r * max m n) \<longrightarrow> doubles_equal cfg (Num s m) (Num t n))
    \<and> (doubles_equal cfg (Num s m) (Num t n) \<longrightarrow> v * (1 - eps) - tiny \<le> max b (r * max m n * (1 + eps) + tiny))
    \<and> doubles_equal cfg (Num t n) (Num s m) = doubles_equal cfg (Num s m) (Num t n)"
proof -
  have br: "0 \<le> b" "round_mag b = b" "0 \<le> r"
    using assms(3) by (cases "abs_epsilon cfg"; cases "rel_epsilon cfg"; auto simp: sensible_def b_def r_def)+
  have p: "0 \<le> r * max m n" using br assms(1,2) by (simp add: le_max_iff_disj)
  have v: "0 \<le> v" by (simp add: v_def)
  have eq: "doubles_equal cfg (Num s m) (Num t n) \<longleftrightarrow> round_mag v \<le> b \<or> round_mag v \<le> round_mag (r * max m n)"
    using doubles_equal_num [OF assms(1-3)] by (simp add: v_def b_def r_def)
  have "round_mag v \<le> b" if "v \<le> b" using round_mag_mono [OF v that] br by simp
  moreover have "round_mag v \<le> round_mag (r * max m n)" if "v \<le> r * max m n" using round_mag_mono [OF v that] .
  ultimately have c: "v \<le> max b (r * max m n) \<longrightarrow> doubles_equal cfg (Num s m) (Num t n)" by (auto simp: eq le_max_iff_disj)
  have e: "\<bar>round_mag z - z\<bar> \<le> z * eps + tiny" if "0 \<le> z" for z
  proof -
    have "0 \<le> z * eps" "0 \<le> tiny" using that by (simp_all add: eps_def tiny_def)
    then have "max (z * eps) tiny \<le> z * eps + tiny" by simp
    then show ?thesis using round_mag_error [OF that] by linarith
  qed
  have "v * (1 - eps) - tiny \<le> round_mag v" using e [OF v] by (simp add: algebra_simps abs_le_iff)
  moreover have "round_mag (r * max m n) \<le> r * max m n * (1 + eps) + tiny" using e [OF p] by (simp add: algebra_simps abs_le_iff)
  ultimately have "doubles_equal cfg (Num s m) (Num t n) \<longrightarrow> v * (1 - eps) - tiny \<le> max b (r * max m n * (1 + eps) + tiny)"
    by (auto simp: eq le_max_iff_disj)
  with c show ?thesis using doubles_equal_sym [of cfg "Num t n" "Num s m"] by blast
qed


lemma fits53_int: "0 \<le> k \<Longrightarrow> k < 2 ^ 53 \<Longrightarrow> fits53 (of_int k)"
  unfolding fits53_def by (rule exI [of _ k], rule exI [of _ 0]) simp

text \<open>Integers of up to 53 bits are numbers of the format.\<close>

lemma huge_large: "(2 :: rat) ^ 53 < huge"
  unfolding huge_def by (rule power_strict_increasing) simp_all

lemma int_double:
  assumes "0 \<le> k" "k < 2 ^ 53"
  shows "round_mag (of_int k) = of_int k" "is_double (Num s (of_int k))" "double_of (of_int k) = Num False (of_int k)"
proof -
  show r: "round_mag (of_int k) = of_int k" using assms by (intro round_mag_fits fits53_int)
  have "(of_int k :: rat) < of_int (2 ^ 53)" using assms(2) by (simp only: of_int_less_iff)
  then have h: "of_int k < huge" using huge_large by simp
  then show "is_double (Num s (of_int k))" using r assms by simp
  show "double_of (of_int k) = Num False (of_int k)" using r h assms by (simp add: double_of_def round_double_def)
qed

lemma numeral_double:
  "(numeral k :: int) < 2 ^ 53 \<Longrightarrow> double_of (numeral k) = Num False (numeral k)"
  "(numeral k :: int) < 2 ^ 53 \<Longrightarrow> is_double (Num s (numeral k))"
  using int_double [of "numeral k"] by simp_all

text \<open>The default tolerances.\<close>

lemma default_tolerance:
  assumes "0 < q" "q \<le> 1"
  shows "tolerance (double_of q)" "\<bar>val (double_of q) - q\<bar> \<le> eps" "val (double_of q) \<le> 1"
proof -
  have r1: "round_mag 1 = 1" using int_double(1) [of 1] by simp
  then have le: "round_mag q \<le> 1" using round_mag_mono [of q 1] assms by simp
  then have h: "round_mag q < huge" using huge_large by (simp add: order.strict_trans1)
  then have d: "double_of q = Num False (round_mag q)" using assms by (simp add: double_of_def round_double_def)
  then show "tolerance (double_of q)" "val (double_of q) \<le> 1" using le h assms by simp_all
  have "(2 :: rat) powi -1075 \<le> 2 powi -53" by (rule power_int_increasing) simp_all
  also have "(2 :: rat) powi -53 = eps" unfolding eps_def by (simp add: power_int_minus_divide)
  finally have "tiny \<le> eps" by (simp only: tiny_def)
  moreover have "q * eps \<le> eps" using mult_right_mono [OF assms(2), of eps] by (simp add: eps_def)
  ultimately have "max (q * eps) tiny \<le> eps" by simp
  then show "\<bar>val (double_of q) - q\<bar> \<le> eps"
    using round_mag_error [of q] assms(1) unfolding d by (simp del: max.bounded_iff)
qed

lemma defaults_sensible: "sensible CompareConfig_defaults"
  using default_tolerance [of "1 / 10 ^ 9"] default_tolerance [of "1 / 10 ^ 6"]
  by (simp add: sensible_def CompareConfig_defaults_def)

lemma default_bounds:
  "0 \<le> val (abs_epsilon CompareConfig_defaults)" "val (abs_epsilon CompareConfig_defaults) \<le> 1 / 10 ^ 8"
  "99 / 10 ^ 8 \<le> val (rel_epsilon CompareConfig_defaults)" "val (rel_epsilon CompareConfig_defaults) \<le> 101 / 10 ^ 8"
  "0 \<le> tiny" "tiny \<le> 1 / 8"
proof -
  have "eps \<le> 1 / 10 ^ 15" "0 \<le> eps" by (simp_all add: eps_def)
  moreover have "\<bar>val (abs_epsilon CompareConfig_defaults) - 1 / 10 ^ 9\<bar> \<le> eps"
      "\<bar>val (rel_epsilon CompareConfig_defaults) - 1 / 10 ^ 6\<bar> \<le> eps"
    using default_tolerance(2) [of "1 / 10 ^ 9"] default_tolerance(2) [of "1 / 10 ^ 6"] by (simp_all add: CompareConfig_defaults_def)
  ultimately show "0 \<le> val (abs_epsilon CompareConfig_defaults)" "val (abs_epsilon CompareConfig_defaults) \<le> 1 / 10 ^ 8"
      "99 / 10 ^ 8 \<le> val (rel_epsilon CompareConfig_defaults)" "val (rel_epsilon CompareConfig_defaults) \<le> 101 / 10 ^ 8"
    by (simp_all add: abs_le_iff)
  show "0 \<le> tiny" by (simp add: tiny_def)
  have "(2 :: rat) powi -1075 \<le> 2 powi -3" by (rule power_int_increasing) simp_all
  then show "tiny \<le> 1 / 8" unfolding tiny_def by (simp add: power_int_minus_divide)
qed

theorem doubles_equal_tolerance_witness:
  "\<not> doubles_equal CompareConfig_defaults (Num False 1000) (Num False 1001)
   \<and> doubles_equal CompareConfig_defaults (Num False 2000000) (Num False 2000001)"
proof -
  let ?cfg = CompareConfig_defaults
  have w: "is_double (Num False 1000)" "is_double (Num False 1001)" "is_double (Num False 2000000)" "is_double (Num False 2000001)"
    using numeral_double(2) by simp_all
  have "\<not> doubles_equal ?cfg (Num False 1000) (Num False 1001)"
  proof
    assume "doubles_equal ?cfg (Num False 1000) (Num False 1001)"
    with doubles_equal_tolerance [OF w(1,2) defaults_sensible]
    have "1 - eps - tiny \<le> max (val (abs_epsilon ?cfg)) (val (rel_epsilon ?cfg) * 1001 * (1 + eps) + tiny)" by simp
    then show False using default_bounds by (simp add: eps_def le_max_iff_disj)
  qed
  moreover have "1 \<le> val (rel_epsilon ?cfg) * 2000001" using default_bounds(3) by simp
  then have "doubles_equal ?cfg (Num False 2000000) (Num False 2000001)"
    using doubles_equal_tolerance [OF w(3,4) defaults_sensible] by (simp add: le_max_iff_disj)
  ultimately show ?thesis by blast
qed

text \<open>What the injection makes of a number that is not too large.\<close>

lemma injected_value:
  assumes "is_double (Num s m)" "m \<le> 9 * 10 ^ 8"
  obtains t n where "dbl_add (Num s m) (double_of 1000) = Num t n" "is_double (Num t n)"
    "\<bar>val (Num t n) - (val (Num s m) + 1000)\<bar> \<le> 1 / 4" "n \<le> m + 1001"
proof -
  define x where "x = val (Num s m)"
  define w where "w = \<bar>x + 1000\<bar>"
  let ?y = "dbl_add (Num s m) (double_of 1000)"
  have m: "0 \<le> m" "\<bar>x\<bar> = m" using assms(1) by (simp_all add: x_def)
  have w: "0 \<le> w" "w \<le> m + 1000" using m(2) abs_triangle_ineq [of x 1000] by (simp_all add: w_def)
  have d: "double_of 1000 = Num False 1000" using numeral_double(1) by simp
  have e: "\<bar>round_mag w - w\<bar> \<le> 1 / 4"
  proof -
    have "w * eps \<le> (9 * 10 ^ 8 + 1000) * eps" using w(2) assms(2) by (intro mult_right_mono) (simp_all add: eps_def)
    also have "\<dots> \<le> 1 / 4" by (simp add: eps_def)
    finally have "max (w * eps) tiny \<le> 1 / 4" using default_bounds(6) by simp
    then show ?thesis using round_mag_error [OF w(1)] by (rule order.trans [rotated])
  qed
  then have "round_mag w \<le> w + 1 / 4" using abs_le_D1 [OF e] by linarith
  also have "\<dots> < 2 ^ 53" using w(2) assms(2) by simp
  finally have h: "round_mag w < huge" using huge_large by (rule order.strict_trans)
  show ?thesis
  proof (cases "x + 1000 = 0")
    case True
    then have "?y = Num (s \<and> False) 0" by (simp add: d Let_def x_def)
    then show ?thesis using True m(1) by (intro that [of "s \<and> False" 0]) (simp_all add: huge_def x_def)
  next
    case False
    then have "?y = Num (x + 1000 < 0) (round_mag w)"
      using h by (simp only: d dbl_add.simps Let_def round_double_def x_def w_def val.simps(1) [of False] if_False) simp
    moreover have "\<bar>val (Num (x + 1000 < 0) (round_mag w)) - (x + 1000)\<bar> \<le> 1 / 4"
    proof (cases "x + 1000 < 0")
      case True
      then have "x + 1000 = - w" by (simp add: w_def)
      then show ?thesis using e True by (simp add: abs_minus_commute)
    next
      case False
      then have "x + 1000 = w" by (simp add: w_def)
      then show ?thesis using e False by (simp only: val.simps if_False)
    qed
    moreover have "round_mag w \<le> m + 1001" using \<open>round_mag w \<le> w + 1 / 4\<close> w(2) by simp
    ultimately show ?thesis using h w(1) by (intro that [of "x + 1000 < 0" "round_mag w"]) (simp_all add: x_def)
  qed
qed

text \<open>
  C37. Injected faults. With the default tolerances and fault injection on, the comparison of
  a correct finite result of magnitude at most \<open>9 * 10 ^ 8\<close> with itself fails, as the comment
  in the code promises.
\<close>

theorem injection_detected:
  assumes "is_double (Num s m)" "m \<le> 9 * 10 ^ 8" "cfg = CompareConfig_defaults\<lparr>inject_failure := True\<rparr>"
  shows "\<not> passed (compare_scalar fmt field cfg (Num s m) (Num s m))
    \<and> (\<forall>xs. \<not> passed (compare_vector fmt field cfg (Num s m # xs) (Num s m # xs)))"
proof -
  have cfg: "sensible cfg" "val (abs_epsilon cfg) = val (abs_epsilon CompareConfig_defaults)"
      "val (rel_epsilon cfg) = val (rel_epsilon CompareConfig_defaults)"
    using defaults_sensible by (simp_all add: assms(3) sensible_def)
  let ?x = "val (Num s m)" and ?y = "dbl_add (Num s m) (double_of 1000)"
  obtain t n where y: "?y = Num t n" "is_double (Num t n)" "\<bar>val (Num t n) - (?x + 1000)\<bar> \<le> 1 / 4" "n \<le> m + 1001"
    by (rule injected_value [OF assms(1,2)])
  have "\<not> doubles_equal cfg (Num s m) ?y"
  proof
    assume "doubles_equal cfg (Num s m) ?y"
    then have "\<bar>?x - val (Num t n)\<bar> * (1 - eps) - tiny
        \<le> max (val (abs_epsilon cfg)) (val (rel_epsilon cfg) * max m n * (1 + eps) + tiny)" (is "?l \<le> max _ ?r")
      using doubles_equal_tolerance [OF assms(1) y(2) cfg(1)] y(1) by (simp only: simp_thms)
    moreover have "?x + 999 \<le> val (Num t n)" using abs_le_D2 [OF y(3)] by linarith
    then have "999 \<le> \<bar>?x - val (Num t n)\<bar>" by linarith
    then have "999 * (1 - eps) \<le> \<bar>?x - val (Num t n)\<bar> * (1 - eps)"
      by (intro mult_right_mono) (simp_all add: eps_def)
    then have "998 \<le> ?l" using default_bounds(6) by (simp add: eps_def)
    moreover have "?r \<le> 101 / 10 ^ 8 * (9 * 10 ^ 8 + 1001) * (1 + eps) + tiny"
      using cfg(3) default_bounds(3,4) y(4) assms(2) assms(1)
      by (intro add_right_mono mult_right_mono mult_mono) (auto simp: eps_def)
    then have "?r \<le> 950" using default_bounds(6) by (simp add: eps_def)
    ultimately show False using cfg(2) default_bounds(2) by (auto simp: le_max_iff_disj)
  qed
  then show ?thesis
    by (simp add: compare_scalar_def compare_vector_def inject_vector_def vectors_equal_def assms(3) failure_def Let_def
        split: option.split)
qed

theorem injection_detected_witness:
  "\<not> passed (compare_scalar (\<lambda>x. []) ''result'' (CompareConfig_defaults\<lparr>inject_failure := True\<rparr>) (Num True 55) (Num True 55))"
  using injection_detected [of True 55 "CompareConfig_defaults\<lparr>inject_failure := True\<rparr>" "\<lambda>x. []" "''result''"]
    numeral_double(2) by simp

text \<open>Beyond that the promise fails: the offset is within the relative tolerance of a large
  number, and changes neither infinite nor not-a-number values.\<close>

lemma injection_missed:
  assumes "cfg = CompareConfig_defaults\<lparr>inject_failure := True\<rparr>"
  shows "passed (compare_scalar fmt field cfg (Num False 2000000000) (Num False 2000000000))"
    "passed (compare_scalar fmt field cfg (Inf s) (Inf s))" "passed (compare_scalar fmt field cfg NaN NaN)"
proof -
  have d: "double_of 1000 = Num False 1000" using numeral_double(1) by simp
  have w: "is_double (Num False 2000000000)" "is_double (Num False 2000001000)" "round_mag 2000001000 = 2000001000"
    using numeral_double(2) [of "num.Bit0 (num.Bit0 num.One)"] int_double(1) [of 2000001000] numeral_double(2) by simp_all
  have "(2000001000 :: rat) < 2 ^ 53" by simp
  then have h: "2000001000 < huge" using huge_large by (rule order.strict_trans)
  have y: "dbl_add (Num False 2000000000) (double_of 1000) = Num False 2000001000" using h w(3) by (simp add: d round_double_def)
  have c: "sensible cfg" using defaults_sensible by (simp add: assms sensible_def)
  have "1000 \<le> val (rel_epsilon cfg) * 2000001000" using default_bounds(3) by (simp add: assms)
  then have "doubles_equal cfg (Num False 2000000000) (Num False 2000001000)"
    using doubles_equal_tolerance [OF w(1,2) c] by (simp add: le_max_iff_disj)
  then show "passed (compare_scalar fmt field cfg (Num False 2000000000) (Num False 2000000000))"
    using y by (simp add: compare_scalar_def assms success_def)
  show "passed (compare_scalar fmt field cfg (Inf s) (Inf s))" "passed (compare_scalar fmt field cfg NaN NaN)"
    by (simp_all add: compare_scalar_def d success_def)
qed

text \<open>
  Infinite values match everything. With a positive relative tolerance an expected
  infinite value, the result of an overflow, is equal to every actual value that is a number,
  finite or infinite of either sign: the difference and the tolerance are both infinite.
\<close>

theorem infinite_matches_everything:
  assumes "rel_epsilon cfg = Num False r" "0 < r" "\<not> isnan y"
  shows "doubles_equal cfg (Inf s) y \<and> doubles_equal cfg y (Inf s)"
proof -
  have "doubles_equal cfg (Inf s) y"
  proof (cases "dbl_eq (Inf s) y")
    case False
    then have "dbl_abs (dbl_sub (Inf s) y) = Inf False" using assms(3) by (cases y) (auto simp: dbl_sub_def)
    moreover have "dbl_max (dbl_abs (Inf s)) (dbl_abs y) = Inf False" using assms(3) by (cases y) (simp_all add: dbl_max_def)
    ultimately show ?thesis using assms(1-3) by (simp add: doubles_equal_def dbl_le_def Let_def)
  qed (simp add: doubles_equal_def)
  then show ?thesis using doubles_equal_sym [of cfg "Inf s" y] by simp
qed

theorem infinite_matches_everything_witness:
  "doubles_equal (CompareConfig_defaults\<lparr>rel_epsilon := Num False 1\<rparr>) (Inf False) (Num True 7)"
  using infinite_matches_everything [of "CompareConfig_defaults\<lparr>rel_epsilon := Num False 1\<rparr>" 1 "Num True 7" False] by simp

subsection \<open>Vectors\<close>

lemma vectors_loop_None:
  "length es = length as \<Longrightarrow> vectors_loop cfg i es as = None \<longleftrightarrow> list_all2 (doubles_equal cfg) es as"
  by (induction es as arbitrary: i rule: list_induct2) auto

lemma vectors_loop_Some:
  "length es = length as \<Longrightarrow> vectors_loop cfg i es as = Some j \<Longrightarrow>
     i \<le> j \<and> j - i < length es \<and> \<not> doubles_equal cfg (es ! (j - i)) (as ! (j - i))
     \<and> (\<forall>k < j - i. doubles_equal cfg (es ! k) (as ! k))"
proof (induction es as arbitrary: i rule: list_induct2)
  case (Cons e es a as)
  show ?case
  proof (cases "doubles_equal cfg e a")
    case True
    then have IH: "Suc i \<le> j \<and> j - Suc i < length es \<and> \<not> doubles_equal cfg (es ! (j - Suc i)) (as ! (j - Suc i))
        \<and> (\<forall>k < j - Suc i. doubles_equal cfg (es ! k) (as ! k))" using Cons by simp
    then have "j - i = Suc (j - Suc i)" using Suc_diff_Suc [of i j] by simp
    then show ?thesis using IH True by (auto simp: less_Suc_eq_0_disj)
  qed (use Cons in simp)
qed simp

text \<open>
  C35. Comparing vectors. Without fault injection the comparison of two vectors passes exactly
  if they have the same length and agree within the tolerance at every index. Otherwise it
  fails, and for equal lengths the message names the first index at which they do not, with
  the values there.
\<close>

theorem compare_vector_exact:
  assumes "\<not> inject_failure cfg"
  shows "(passed (compare_vector fmt field cfg es as) \<longleftrightarrow> list_all2 (doubles_equal cfg) es as)
    \<and> (length es = length as \<longrightarrow> \<not> passed (compare_vector fmt field cfg es as) \<longrightarrow>
      (\<exists>j < length es. \<not> doubles_equal cfg (es ! j) (as ! j) \<and> (\<forall>k < j. doubles_equal cfg (es ! k) (as ! k))
        \<and> message (compare_vector fmt field cfg es as) = field @ '' mismatch at index '' @ to_string j
            @ '': expected='' @ fmt (es ! j) @ '' got='' @ fmt (as ! j) @ '' diff='' @ fmt (dbl_abs (dbl_sub (es ! j) (as ! j)))))"
proof (intro conjI impI)
  have i: "inject_vector cfg as = as" using assms by (simp add: inject_vector_def)
  show "passed (compare_vector fmt field cfg es as) \<longleftrightarrow> list_all2 (doubles_equal cfg) es as"
    using vectors_loop_None [of es as cfg 0]
    by (auto simp: compare_vector_def i vectors_equal_def Let_def success_def failure_def list_all2_lengthD split: option.splits)
  assume l: "length es = length as" and "\<not> passed (compare_vector fmt field cfg es as)"
  then obtain j where j: "vectors_loop cfg 0 es as = Some j"
    by (cases "vectors_loop cfg 0 es as") (simp_all add: compare_vector_def i vectors_equal_def Let_def success_def)
  then show "\<exists>j < length es. \<not> doubles_equal cfg (es ! j) (as ! j) \<and> (\<forall>k < j. doubles_equal cfg (es ! k) (as ! k))
        \<and> message (compare_vector fmt field cfg es as) = field @ '' mismatch at index '' @ to_string j
            @ '': expected='' @ fmt (es ! j) @ '' got='' @ fmt (as ! j) @ '' diff='' @ fmt (dbl_abs (dbl_sub (es ! j) (as ! j)))"
    using vectors_loop_Some [OF l j] assms l
    by (intro exI [of _ j]) (simp add: compare_vector_def i vectors_equal_def Let_def failure_def injected_mark_def)
qed

theorem compare_vector_exact_witness:
  "\<not> passed (compare_vector (\<lambda>x. []) ''result'' CompareConfig_defaults [NaN, Inf False] [NaN, NaN])
   \<and> passed (compare_vector (\<lambda>x. []) ''result'' CompareConfig_defaults [NaN, Inf False] [NaN, Inf False])"
proof -
  have "\<not> inject_failure CompareConfig_defaults" by (simp add: CompareConfig_defaults_def)
  from compare_vector_exact [OF this] show ?thesis by (simp add: doubles_equal_def)
qed

text \<open>The template compares exactly, or within the tolerance for \<open>float\<close>, whatever the
  configuration says about injected faults.\<close>

lemma compare_typed_vector_passed:
  "passed (compare_typed_vector eq fmt field es as) \<longleftrightarrow> list_all2 eq es as"
proof -
  have "passed (typed_loop eq fmt field i es as) \<longleftrightarrow> list_all2 eq es as" if "length es = length as" for i
    using that by (induction es as arbitrary: i rule: list_induct2) (simp_all add: success_def failure_def)
  then show ?thesis
    by (auto simp: compare_typed_vector_def failure_def list_all2_lengthD)
qed

subsection \<open>The skills\<close>

text \<open>The exact result of an operation on finite numbers.\<close>

definition exact_result :: "byte \<Rightarrow> rat \<Rightarrow> rat \<Rightarrow> rat" where
  "exact_result op x y =
     (if op = MathOperation_Add then x + y else if op = MathOperation_Subtract then x - y
      else if op = MathOperation_Multiply then x * y else x / y)"

text \<open>The sign and magnitude of a rounded exact result.\<close>

lemma signed_round:
  assumes "v = (if u then - z else z)" "0 \<le> z"
  shows "isinf (round_double u z) \<longleftrightarrow> huge \<le> round_mag \<bar>v\<bar>"
    "\<not> isinf (round_double u z) \<Longrightarrow> \<bar>val (round_double u z) - v\<bar> \<le> max (\<bar>v\<bar> * eps) tiny"
  using assms round_mag_error [of z] by (auto simp: round_double_def Let_def abs_minus_commute split: if_splits)

lemma add_exact:
  assumes "is_double (Num s m)" "is_double (Num t n)"
  defines "v \<equiv> val (Num s m) + val (Num t n)"
  shows "(isinf (dbl_add (Num s m) (Num t n)) \<longleftrightarrow> huge \<le> round_mag \<bar>v\<bar>)
    \<and> (\<not> isinf (dbl_add (Num s m) (Num t n)) \<longrightarrow> \<bar>val (dbl_add (Num s m) (Num t n)) - v\<bar> \<le> max (\<bar>v\<bar> * eps) tiny)"
proof (cases "v = 0")
  case True
  then have "dbl_add (Num s m) (Num t n) = Num (s \<and> t) 0" by (simp add: v_def Let_def)
  moreover have "\<not> huge \<le> 0" using huge_large by simp
  ultimately show ?thesis using True by (simp add: tiny_def)
next
  case False
  then have "dbl_add (Num s m) (Num t n) = round_double (v < 0) \<bar>v\<bar>" by (simp add: v_def Let_def)
  then show ?thesis using signed_round [of v "v < 0" "\<bar>v\<bar>"] by auto
qed

text \<open>
  C36. The overflow flag. For finite operands and a known operation, other than a division by
  zero, the flag is set exactly if the exact result rounds to a magnitude out of range;
  otherwise the result is finite and within half a unit in the last place of the exact one. A
  division by zero sets the flag and gives not-a-number. An unknown operation is refused and
  leaves the response unchanged.
\<close>

theorem math_overflow_flag:
  assumes "is_double (Num s m)" "is_double (Num t n)" "math_compute \<lparr>mq_a = Num s m, mq_b = Num t n, mq_operation = op\<rparr> resp = (ok, r)"
  defines "v \<equiv> exact_result op (val (Num s m)) (val (Num t n))"
  shows "ok = (op \<in> {MathOperation_Add, MathOperation_Subtract, MathOperation_Multiply, MathOperation_Divide})
    \<and> (\<not> ok \<longrightarrow> r = resp)
    \<and> (ok \<longrightarrow> op = MathOperation_Divide \<and> n = 0 \<longrightarrow> mr_result r = NaN \<and> mr_overflow r = 1)
    \<and> (ok \<longrightarrow> \<not> (op = MathOperation_Divide \<and> n = 0) \<longrightarrow>
         mr_overflow r = (if huge \<le> round_mag \<bar>v\<bar> then 1 else 0)
         \<and> (mr_overflow r = 0 \<longrightarrow> \<bar>val (mr_result r) - v\<bar> \<le> max (\<bar>v\<bar> * eps) tiny))"
proof -
  have nn: "0 \<le> m" "0 \<le> n" using assms(1,2) by simp_all
  define good where "good x \<longleftrightarrow> (isinf x \<longleftrightarrow> huge \<le> round_mag \<bar>v\<bar>) \<and> (\<not> isinf x \<longrightarrow> \<bar>val x - v\<bar> \<le> max (\<bar>v\<bar> * eps) tiny)" for x
  have add: "op = MathOperation_Add \<Longrightarrow> good (dbl_add (Num s m) (Num t n))"
    using add_exact [OF assms(1,2)] by (simp add: good_def v_def exact_result_def del: val.simps dbl_add.simps)
  have sub: "good (dbl_sub (Num s m) (Num t n))" if "op = MathOperation_Subtract"
  proof -
    have "v = val (Num s m) + val (Num (\<not> t) n)" using that by (simp add: v_def exact_result_def math_operations)
    then show ?thesis using add_exact [OF assms(1), of "\<not> t" n] assms(2) by (simp add: good_def dbl_sub_def del: dbl_add.simps val.simps)
  qed
  have mul: "op = MathOperation_Multiply \<Longrightarrow> good (dbl_mul (Num s m) (Num t n))"
    using signed_round [of "val (Num s m) * val (Num t n)" "s \<noteq> t" "m * n"] nn
    by (auto simp: good_def v_def exact_result_def math_operations)
  have div: "op = MathOperation_Divide \<Longrightarrow> n \<noteq> 0 \<Longrightarrow> good (dbl_div (Num s m) (Num t n))"
    using signed_round [of "val (Num s m) / val (Num t n)" "s \<noteq> t" "m / n"] nn
    by (auto simp: good_def v_def exact_result_def math_operations)
  have z: "dbl_eq (Num t n) zero_double \<longleftrightarrow> n = 0" by (simp add: zero_double_def)
  show ?thesis
    using assms(3) add sub mul div z
    by (auto simp: math_compute_def Let_def good_def math_operations simp del: dbl_add.simps dbl_mul.simps dbl_div.simps val.simps dbl_eq.simps
        split: if_splits)
qed

theorem math_overflow_flag_witness:
  "mr_overflow (snd (math_compute (math_fill_test_request 0) \<lparr>mr_result = NaN, mr_overflow = 9\<rparr>)) = 0"
proof -
  have d: "double_of 42 = Num False 42" "double_of 13 = Num False 13" "is_double (Num False 42)" "is_double (Num False 13)"
    "round_mag 55 = 55"
    using numeral_double int_double(1) [of 55] by simp_all
  have h: "55 < huge" using huge_large by (rule order.strict_trans [rotated]) simp
  have q: "math_fill_test_request 0 = \<lparr>mq_a = Num False 42, mq_b = Num False 13, mq_operation = MathOperation_Add\<rparr>"
    by (simp add: math_fill_test_request_def d)
  obtain ok r where c: "math_compute \<lparr>mq_a = Num False 42, mq_b = Num False 13, mq_operation = MathOperation_Add\<rparr>
      \<lparr>mr_result = NaN, mr_overflow = 9\<rparr> = (ok, r)" by fastforce
  from math_overflow_flag [OF d(3,4) c] h d(5) have "mr_overflow r = 0" by (simp add: exact_result_def math_operations)
  then show ?thesis by (simp only: q c snd_conv)
qed

text \<open>The loops of the vector skills compute element by element.\<close>

lemma list_update_take:
  "i < length xs \<Longrightarrow> take (Suc i) (xs[i := x]) = take i xs @ [x]"
  by (simp add: take_Suc_conv_app_nth)

lemma vector_loop_map2:
  assumes "vector_element op = Some f"
  shows "i \<le> length a \<Longrightarrow> i \<le> length b \<Longrightarrow> length result = length a \<Longrightarrow>
    vector_loop op a b i result =
      (if length a \<le> length b then Some (True, take i result @ map2 f (drop i a) (drop i b)) else None)"
proof (induction "length a - i" arbitrary: i result)
  case 0
  then show ?case by (subst vector_loop.simps) simp
next
  case (Suc d)
  then have i: "i < length a" by simp
  show ?case
  proof (cases "length b \<le> i")
    case True
    then show ?thesis using i assms by (subst vector_loop.simps) simp
  next
    case False
    then have IH: "vector_loop op a b (Suc i) (result[i := f (a ! i) (b ! i)]) =
        (if length a \<le> length b then Some (True, take (Suc i) (result[i := f (a ! i) (b ! i)]) @ map2 f (drop (Suc i) a) (drop (Suc i) b))
         else None)" using Suc i by simp
    have "map2 f (drop i a) (drop i b) = f (a ! i) (b ! i) # map2 f (drop (Suc i) a) (drop (Suc i) b)"
      using i False by (simp add: Cons_nth_drop_Suc [symmetric])
    then show ?thesis using i False assms IH Suc.prems(3) by (subst vector_loop.simps) (simp add: list_update_take)
  qed
qed

text \<open>
  Vector arithmetic. The skill refuses a response vector of another length than its first
  operand; an empty request succeeds whatever its operation; an unknown operation is refused
  with the response unchanged; otherwise the response is the operation applied element by
  element, where a division by zero gives not-a-number, unless the second operand is shorter
  than the first, in which case it is read behind its end.
\<close>

theorem vector_math_elementwise:
  "vector_compute req result =
     (if length result \<noteq> length (vq_a req) then Some (False, result)
      else if vq_a req = [] then Some (True, [])
      else case vector_element (vq_operation req) of
             None \<Rightarrow> Some (False, result)
           | Some f \<Rightarrow> if length (vq_a req) \<le> length (vq_b req) then Some (True, map2 f (vq_a req) (vq_b req)) else None)"
proof (cases "vector_element (vq_operation req)")
  case None
  then show ?thesis by (simp add: vector_compute_def vector_loop.simps)
next
  case (Some f)
  then show ?thesis using vector_loop_map2 [OF Some, of 0 "vq_a req" "vq_b req" result] by (simp add: vector_compute_def)
qed

lemma fma_loop_map2:
  "i \<le> length a \<Longrightarrow> i \<le> length b \<Longrightarrow> length result = length a \<Longrightarrow>
    fma_loop c a b i result =
      (if length a \<le> length b
       then Some (take i result @ map2 (\<lambda>x y. dbl_add x (dbl_mul c y)) (drop i a) (drop i b)) else None)"
proof (induction "length a - i" arbitrary: i result)
  case 0
  then show ?case by (subst fma_loop.simps) simp
next
  case (Suc d)
  then have i: "i < length a" by simp
  let ?f = "\<lambda>x y. dbl_add x (dbl_mul c y)"
  show ?case
  proof (cases "length b \<le> i")
    case True
    then show ?thesis using i by (subst fma_loop.simps) simp
  next
    case False
    then have IH: "fma_loop c a b (Suc i) (result[i := ?f (a ! i) (b ! i)]) =
        (if length a \<le> length b then Some (take (Suc i) (result[i := ?f (a ! i) (b ! i)]) @ map2 ?f (drop (Suc i) a) (drop (Suc i) b))
         else None)" using Suc i by simp
    have "map2 ?f (drop i a) (drop i b) = ?f (a ! i) (b ! i) # map2 ?f (drop (Suc i) a) (drop (Suc i) b)"
      using i False by (simp add: Cons_nth_drop_Suc [symmetric])
    then show ?thesis using i False IH Suc.prems(3) by (subst fma_loop.simps) (simp add: list_update_take)
  qed
qed

lemma fma_elementwise:
  "length result = length (fq_a req) \<Longrightarrow> length (fq_a req) \<le> length (fq_b req) \<Longrightarrow>
     fma_compute req result = Some (True, map2 (\<lambda>x y. dbl_add x (dbl_mul (fq_c req) y)) (fq_a req) (fq_b req))"
  using fma_loop_map2 [of 0 "fq_a req" "fq_b req" result "fq_c req"] by (simp add: fma_compute_def)

text \<open>The test requests of the vector skills have operands of equal length and a known
  operation, so their computation succeeds.\<close>

lemma vector_tests_compute:
  "\<exists>xs. vector_compute (vector_fill_test_request i) (replicate (length (vq_a (vector_fill_test_request i))) zero_double) = Some (True, xs)"
  "\<exists>xs. fma_compute (fma_fill_test_request i) (replicate (length (fq_a (fma_fill_test_request i))) zero_double) = Some (True, xs)"
proof -
  have l: "length (vq_a (vector_fill_test_request i)) = length (vq_b (vector_fill_test_request i))"
    "length (fq_a (fma_fill_test_request i)) = length (fq_b (fma_fill_test_request i))"
    by (simp_all add: vector_fill_test_request_def fma_fill_test_request_def)
  have "vector_element (vq_operation (vector_fill_test_request i)) \<noteq> None"
    by (simp add: vector_fill_test_request_def vector_element_def math_operations)
  then show "\<exists>xs. vector_compute (vector_fill_test_request i) (replicate (length (vq_a (vector_fill_test_request i))) zero_double) = Some (True, xs)"
    using l(1) by (auto simp: vector_loop_map2 vector_compute_def)
  show "\<exists>xs. fma_compute (fma_fill_test_request i) (replicate (length (fq_a (fma_fill_test_request i))) zero_double) = Some (True, xs)"
    using l(2) by (simp add: fma_elementwise)
qed

text \<open>Every element of a valid matrix view can be accessed, and distinct positions are
  distinct elements.\<close>

lemma ms_index_valid:
  assumes "ms_valid m" "0 \<le> sint r" "sint r < sint (ms_rows m)" "0 \<le> sint c" "sint c < sint (ms_cols m)"
  shows "unat (ms_index m r c) = nat (sint r * sint (ms_cols m) + sint c)" "ms_at m r c \<noteq> None"
proof -
  define R where "R = sint (ms_rows m)"
  define C where "C = sint (ms_cols m)"
  have lim: "R \<le> 2 ^ 31" "C \<le> 2 ^ 31"
    using sint_lt [of "ms_rows m"] sint_lt [of "ms_cols m"] by (simp_all add: R_def C_def)
  have pos: "0 < R" "0 < C" using assms(1) by (simp_all add: ms_valid_def R_def C_def)
  have "sint r * C + sint c < (sint r + 1) * C" using assms(5) by (simp add: C_def algebra_simps)
  also have "\<dots> \<le> R * C" using assms(3) pos by (intro mult_right_mono) (simp_all add: R_def)
  finally have p: "sint r * C + sint c < R * C" .
  have "R * C \<le> 2 ^ 31 * 2 ^ 31" by (rule mult_mono) (use lim pos in simp_all)
  then have q: "R * C < 2 ^ 64" by simp
  have nn: "0 \<le> sint r * C + sint c" using assms(2,4) pos by simp
  have w: "unat (word_of_int z :: u64) = nat z" if "0 \<le> z" "z < 2 ^ 64" for z
    using that by (simp add: unat_eq_nat_uint uint_word_of_int)
  have "ms_index m r c = word_of_int (sint r * C + sint c)" by (simp add: ms_index_def C_def)
  then show i: "unat (ms_index m r c) = nat (sint r * sint (ms_cols m) + sint c)"
    using w [OF nn] p q by (simp add: C_def)
  have "(scast (ms_rows m) * scast (ms_cols m) :: u64) = word_of_int (R * C)" by (simp add: R_def C_def)
  then have "length (ms_data m) = nat (R * C)" using assms(1) w [of "R * C"] q pos by (simp add: ms_valid_def)
  then show "ms_at m r c \<noteq> None" using i p nn by (simp add: ms_at_def Let_def C_def)
qed

end
