(* ===== verification/CliOptions.thy ===== *)
theory CliOptions
  imports DispApp WorkerSess NumSkills
begin

section \<open>Program options\<close>

text \<open>
  The options of the programs: subprojects/shared/options/Options.cpp and the providers that
  register themselves with it (rendezvous/RendezvousOptions.cpp, dispatcher/monitoring/
  MonitoringOptions.cpp, dispatcher/transport/AsyncTransportOptions.cpp, generators/common/
  GeneratorOptions.cpp, worker/WorkerOptions.cpp, transport/socket/SocketTypeOptions.cpp), and
  what the main programs make of them.

  The variables the providers keep are the record \<open>Options\<close>; a provider takes the
  configuration file and the variables to their new values and the options it adds to the
  command line parser. Of the parser (CLI11) the model has what the code uses: given options
  are checked by their validator, converted and stored, in the order they were added, and an
  option that is not given is not touched. How the arguments are split and texts converted
  are fields of the record \<open>cli_lib\<close>. A configuration file is the value \<open>json\<close> that reading it
  leaves, \<open>JNull\<close> if nothing was read.

  \<open>option_precedence\<close>: command line before file before default, for every option of the
  rendezvous service. \<open>file_port_unchecked\<close> and the lemmas after it: the ranges only apply to
  the command line.
\<close>

subsection \<open>Configuration files\<close>

datatype json = JNull | JBool bool | JInt int | JFloat double | JString string | JArray "json list" | JObject "(string \<times> json) list"

fun json_find :: "json \<Rightarrow> string \<Rightarrow> json option" where
  "json_find (JObject kvs) key = map_of kvs key"
| "json_find _ key = None"

fun is_object :: "json \<Rightarrow> bool" where
  "is_object (JObject kvs) = True" | "is_object _ = False"

text \<open>\<open>get<int>()\<close> of a 64 bit number keeps its low 32 bits.\<close>

definition get_int :: "int \<Rightarrow> int" where
  "get_int i = signed_take_bit 31 i"

text \<open>The value of a key if it is there with the right type, and the default otherwise.\<close>

definition bool_or :: "json \<Rightarrow> string \<Rightarrow> bool \<Rightarrow> bool" where
  "bool_or j key d = (case json_find j key of Some (JBool b) \<Rightarrow> b | _ \<Rightarrow> d)"

definition string_or :: "json \<Rightarrow> string \<Rightarrow> string \<Rightarrow> string" where
  "string_or j key d = (case json_find j key of Some (JString s) \<Rightarrow> s | _ \<Rightarrow> d)"

definition int_or :: "json \<Rightarrow> string \<Rightarrow> int \<Rightarrow> int" where
  "int_or j key d = (case json_find j key of Some (JInt i) \<Rightarrow> get_int i | _ \<Rightarrow> d)"

definition positive_or :: "json \<Rightarrow> string \<Rightarrow> int \<Rightarrow> int" where
  "positive_or j key d = (let v = int_or j key d in if v > 0 then v else d)"

definition double_or :: "json \<Rightarrow> string \<Rightarrow> double \<Rightarrow> double" where
  "double_or j key d =
     (case json_find j key of Some (JFloat x) \<Rightarrow> x | Some (JInt i) \<Rightarrow> double_of (of_int i) | _ \<Rightarrow> d)"

text \<open>A section that is missing or no object has no keys.\<close>

definition json_section :: "json \<Rightarrow> string \<Rightarrow> json" where
  "json_section j key = (case json_find j key of Some s \<Rightarrow> if is_object s then s else JNull | None \<Rightarrow> JNull)"

subsection \<open>Variables\<close>

record Options =
  g_rendezvous_enabled :: "bool option"
  g_rendezvous_host :: "string option"
  g_rendezvous_port :: "int option"
  g_rendezvous_snapshot_port :: "int option"
  g_rendezvous_vn_listen_host :: "string option"
  g_rendezvous_vn_listen_port :: "int option"
  g_rendezvous_snapshot_listen_host :: "string option"
  g_rendezvous_snapshot_listen_port :: "int option"
  g_rendezvous_dashboard_listen_host :: "string option"
  g_rendezvous_dashboard_listen_port :: "int option"
  g_monitoring_enabled :: "bool option"
  g_monitoring_listen_host :: "string option"
  g_monitoring_listen_port :: "int option"
  g_monitoring_snapshot_interval_ms :: "int option"
  g_trans_listen_host :: "string option"
  g_trans_listen_port :: "int option"
  g_trans_io_threads :: "int option"
  g_verify_enabled :: bool
  g_verify_epsilon :: double
  g_verify_rel_epsilon :: double
  g_verify_inject_failure :: bool
  g_mode_str :: "string option"
  g_ui_enabled :: "bool option"
  g_manager_host :: "string option"
  g_manager_port :: "int option"
  g_socket_type_str :: "string option"

definition new_options :: Options where
  "new_options =
     \<lparr>g_rendezvous_enabled = None, g_rendezvous_host = None, g_rendezvous_port = None, g_rendezvous_snapshot_port = None,
      g_rendezvous_vn_listen_host = None, g_rendezvous_vn_listen_port = None, g_rendezvous_snapshot_listen_host = None,
      g_rendezvous_snapshot_listen_port = None, g_rendezvous_dashboard_listen_host = None,
      g_rendezvous_dashboard_listen_port = None, g_monitoring_enabled = None, g_monitoring_listen_host = None,
      g_monitoring_listen_port = None, g_monitoring_snapshot_interval_ms = None, g_trans_listen_host = None,
      g_trans_listen_port = None, g_trans_io_threads = None, g_verify_enabled = False,
      g_verify_epsilon = double_of (1 / 10 ^ 9), g_verify_rel_epsilon = double_of (1 / 10 ^ 6),
      g_verify_inject_failure = False, g_mode_str = None, g_ui_enabled = None, g_manager_host = None,
      g_manager_port = None, g_socket_type_str = None\<rparr>"

subsection \<open>Command line options\<close>

text \<open>An option: its name, its validator, and how a text is converted and stored; \<open>None\<close> if
  it cannot be converted.\<close>

record cli_option =
  co_name :: string
  co_check :: "string \<Rightarrow> bool"
  co_assign :: "string \<Rightarrow> Options \<Rightarrow> Options option"

datatype cli_args = CliGiven "string \<rightharpoonup> string" | CliHelp | CliVersion | CliError string

record cli_lib =
  cl_config :: "string list \<Rightarrow> string"
  cl_parse :: "string list \<Rightarrow> string list \<Rightarrow> cli_args"
  cl_int :: "string \<Rightarrow> int option"
  cl_bool :: "string \<Rightarrow> bool option"
  cl_double :: "string \<Rightarrow> double option"

definition text_option :: "string \<Rightarrow> (string \<Rightarrow> bool) \<Rightarrow> (string \<Rightarrow> Options \<Rightarrow> Options) \<Rightarrow> cli_option" where
  "text_option name check store = \<lparr>co_name = name, co_check = check, co_assign = (\<lambda>v st. Some (store v st))\<rparr>"

definition int_option :: "cli_lib \<Rightarrow> string \<Rightarrow> (string \<Rightarrow> bool) \<Rightarrow> (int \<Rightarrow> Options \<Rightarrow> Options) \<Rightarrow> cli_option" where
  "int_option lib name check store =
     \<lparr>co_name = name, co_check = check, co_assign = (\<lambda>v st. map_option (\<lambda>i. store i st) (cl_int lib v))\<rparr>"

definition bool_option :: "cli_lib \<Rightarrow> string \<Rightarrow> (bool \<Rightarrow> Options \<Rightarrow> Options) \<Rightarrow> cli_option" where
  "bool_option lib name store =
     \<lparr>co_name = name, co_check = (\<lambda>v. True), co_assign = (\<lambda>v st. map_option (\<lambda>b. store b st) (cl_bool lib v))\<rparr>"

definition double_option :: "cli_lib \<Rightarrow> string \<Rightarrow> (double \<Rightarrow> Options \<Rightarrow> Options) \<Rightarrow> cli_option" where
  "double_option lib name store =
     \<lparr>co_name = name, co_check = (\<lambda>v. True), co_assign = (\<lambda>v st. map_option (\<lambda>x. store x st) (cl_double lib v))\<rparr>"

lemmas option_kinds = text_option_def int_option_def bool_option_def double_option_def

definition any_text :: "string \<Rightarrow> bool" where "any_text v = True"

definition in_range :: "cli_lib \<Rightarrow> int \<Rightarrow> int \<Rightarrow> string \<Rightarrow> bool" where
  "in_range lib lo hi v = (case cl_int lib v of Some i \<Rightarrow> lo \<le> i \<and> i \<le> hi | None \<Rightarrow> False)"

type_synonym provider = "json \<Rightarrow> Options \<Rightarrow> Options \<times> cli_option list"

subsection \<open>The providers\<close>

definition rendezvous_provider :: "cli_lib \<Rightarrow> provider" where
  "rendezvous_provider lib j st =
     (let rj = json_section j ''rendezvous''; port = in_range lib 1 65535 in
      (st\<lparr>g_rendezvous_enabled := Some (bool_or rj ''enabled'' False),
          g_rendezvous_host := Some (string_or rj ''host'' []),
          g_rendezvous_port := Some (int_or rj ''port'' 8088),
          g_rendezvous_snapshot_port := Some (int_or rj ''snapshot_port'' 8089),
          g_rendezvous_vn_listen_host := Some (string_or rj ''vn_listen_host'' ''0.0.0.0''),
          g_rendezvous_vn_listen_port := Some (int_or rj ''vn_listen_port'' 8088),
          g_rendezvous_snapshot_listen_host := Some (string_or rj ''snapshot_listen_host'' ''0.0.0.0''),
          g_rendezvous_snapshot_listen_port := Some (int_or rj ''snapshot_listen_port'' 8089),
          g_rendezvous_dashboard_listen_host := Some (string_or rj ''dashboard_listen_host'' ''127.0.0.1''),
          g_rendezvous_dashboard_listen_port := Some (int_or rj ''dashboard_listen_port'' 8080)\<rparr>,
       [bool_option lib ''--rendezvous-enabled'' (\<lambda>v s. s\<lparr>g_rendezvous_enabled := Some v\<rparr>),
        text_option ''--rendezvous-host'' any_text (\<lambda>v s. s\<lparr>g_rendezvous_host := Some v\<rparr>),
        int_option lib ''--rendezvous-port'' port (\<lambda>v s. s\<lparr>g_rendezvous_port := Some v\<rparr>),
        int_option lib ''--rendezvous-snapshot-port'' port (\<lambda>v s. s\<lparr>g_rendezvous_snapshot_port := Some v\<rparr>),
        text_option ''--rendezvous-vn-listen-host'' any_text (\<lambda>v s. s\<lparr>g_rendezvous_vn_listen_host := Some v\<rparr>),
        int_option lib ''--rendezvous-vn-listen-port'' port (\<lambda>v s. s\<lparr>g_rendezvous_vn_listen_port := Some v\<rparr>),
        text_option ''--rendezvous-snapshot-listen-host'' any_text (\<lambda>v s. s\<lparr>g_rendezvous_snapshot_listen_host := Some v\<rparr>),
        int_option lib ''--rendezvous-snapshot-listen-port'' port (\<lambda>v s. s\<lparr>g_rendezvous_snapshot_listen_port := Some v\<rparr>),
        text_option ''--rendezvous-dashboard-listen-host'' any_text (\<lambda>v s. s\<lparr>g_rendezvous_dashboard_listen_host := Some v\<rparr>),
        int_option lib ''--rendezvous-dashboard-listen-port'' port
          (\<lambda>v s. s\<lparr>g_rendezvous_dashboard_listen_port := Some v\<rparr>)]))"

definition monitoring_provider :: "cli_lib \<Rightarrow> provider" where
  "monitoring_provider lib j st =
     (let mj = json_section j ''monitoring'' in
      (st\<lparr>g_monitoring_enabled := Some (bool_or mj ''enabled'' True),
          g_monitoring_listen_host := Some (string_or mj ''listen_host'' ''127.0.0.1''),
          g_monitoring_listen_port := Some (int_or mj ''listen_port'' 9090),
          g_monitoring_snapshot_interval_ms := Some (positive_or mj ''snapshot_interval_ms'' 1000)\<rparr>,
       [bool_option lib ''--monitoring-enabled'' (\<lambda>v s. s\<lparr>g_monitoring_enabled := Some v\<rparr>),
        text_option ''--monitoring-listen-host'' any_text (\<lambda>v s. s\<lparr>g_monitoring_listen_host := Some v\<rparr>),
        int_option lib ''--monitoring-listen-port'' (in_range lib 1 65535) (\<lambda>v s. s\<lparr>g_monitoring_listen_port := Some v\<rparr>),
        int_option lib ''--monitoring-snapshot-interval-ms'' (in_range lib 50 60000)
          (\<lambda>v s. s\<lparr>g_monitoring_snapshot_interval_ms := Some v\<rparr>)]))"

text \<open>The section of the dispatcher is only read when there is none of the transport server.\<close>

definition transport_provider :: "cli_lib \<Rightarrow> provider" where
  "transport_provider lib j st =
     (let (h, p, n) =
            (case json_find j ''transport_server'' of
               Some tj \<Rightarrow> (string_or tj ''listen_host'' ''0.0.0.0'', int_or tj ''listen_port'' 8080, positive_or tj ''io_threads'' 1)
             | None \<Rightarrow>
                 (case json_find j ''manager'' of
                    Some mj \<Rightarrow> (string_or mj ''listen_host'' ''0.0.0.0'', int_or mj ''listen_port'' 8080, 1)
                  | None \<Rightarrow> (''0.0.0.0'', 8080, 1)))
      in (st\<lparr>g_trans_listen_host := Some h, g_trans_listen_port := Some p, g_trans_io_threads := Some n\<rparr>,
          [text_option ''--transporter-listen-host'' any_text (\<lambda>v s. s\<lparr>g_trans_listen_host := Some v\<rparr>),
           int_option lib ''--transporter-listen-port'' any_text (\<lambda>v s. s\<lparr>g_trans_listen_port := Some v\<rparr>),
           int_option lib ''--transporter-io-threads'' (in_range lib 1 512) (\<lambda>v s. s\<lparr>g_trans_io_threads := Some v\<rparr>)]))"

definition generator_provider :: "cli_lib \<Rightarrow> provider" where
  "generator_provider lib j st =
     (let mj = (case json_find j ''manager'' of Some mj \<Rightarrow> mj | None \<Rightarrow> JNull) in
      (st\<lparr>g_verify_enabled := bool_or mj ''verify'' False,
          g_verify_epsilon := double_or mj ''verify_epsilon'' (double_of (1 / 10 ^ 9)),
          g_verify_rel_epsilon := double_or mj ''verify_rel_epsilon'' (double_of (1 / 10 ^ 6)),
          g_verify_inject_failure := bool_or mj ''verify_inject_failure'' False\<rparr>,
       [bool_option lib ''--verify'' (\<lambda>v s. s\<lparr>g_verify_enabled := v\<rparr>),
        double_option lib ''--verify-epsilon'' (\<lambda>v s. s\<lparr>g_verify_epsilon := v\<rparr>),
        double_option lib ''--verify-rel-epsilon'' (\<lambda>v s. s\<lparr>g_verify_rel_epsilon := v\<rparr>),
        bool_option lib ''--verify-inject-failure'' (\<lambda>v s. s\<lparr>g_verify_inject_failure := v\<rparr>)]))"

text \<open>The flag \<open>--ui\<close> is stored as true, \<open>--noui\<close> as false.\<close>

definition worker_provider :: "cli_lib \<Rightarrow> provider" where
  "worker_provider lib j st =
     (let w = (case json_find j ''worker'' of Some w \<Rightarrow> w | None \<Rightarrow> JNull) in
      (st\<lparr>g_mode_str := Some (string_or w ''mode'' ''blocking''),
          g_ui_enabled := Some (bool_or w ''ui'' True),
          g_manager_host := Some (string_or w ''manager_host'' ''localhost''),
          g_manager_port := Some (int_or w ''manager_port'' 8080)\<rparr>,
       [text_option ''--mode'' (\<lambda>v. v \<in> {''blocking'', ''async''}) (\<lambda>v s. s\<lparr>g_mode_str := Some v\<rparr>),
        bool_option lib ''--ui'' (\<lambda>v s. s\<lparr>g_ui_enabled := Some v\<rparr>),
        text_option ''--manager-host'' any_text (\<lambda>v s. s\<lparr>g_manager_host := Some v\<rparr>),
        int_option lib ''--manager-port'' any_text (\<lambda>v s. s\<lparr>g_manager_port := Some v\<rparr>)]))"

definition socket_type_provider :: provider where
  "socket_type_provider j st =
     (let sj = (case json_find j ''sockets'' of Some sj \<Rightarrow> sj | None \<Rightarrow> JNull) in
      (st\<lparr>g_socket_type_str := Some (string_or sj ''type'' ''zerotier'')\<rparr>,
       [text_option ''--socket-type'' any_text (\<lambda>v s. s\<lparr>g_socket_type_str := Some v\<rparr>)]))"

subsection \<open>Loading and parsing\<close>

text \<open>The registered providers, the flags of the providers that register only once, and the
  path of the configuration file.\<close>

record opt_system =
  os_providers :: "provider list"
  os_registered :: "string set"
  os_config_file :: "string option"
  os_options :: Options

definition add_provider :: "provider \<Rightarrow> opt_system \<Rightarrow> opt_system" where
  "add_provider p sys = sys\<lparr>os_providers := os_providers sys @ [p]\<rparr>"

definition register_options :: "string \<Rightarrow> provider \<Rightarrow> opt_system \<Rightarrow> opt_system" where
  "register_options flag p sys =
     (if flag \<in> os_registered sys then sys
      else add_provider p (sys\<lparr>os_registered := insert flag (os_registered sys)\<rparr>))"

fun run_providers :: "provider list \<Rightarrow> json \<Rightarrow> Options \<Rightarrow> Options \<times> cli_option list" where
  "run_providers [] j st = (st, [])"
| "run_providers (p # ps) j st =
     (case p j st of (st1, cs) \<Rightarrow> case run_providers ps j st1 of (st2, ds) \<Rightarrow> (st2, cs @ ds))"

text \<open>The options that are given, in the order they were added; the name of the first one
  that is refused otherwise.\<close>

fun apply_cli :: "(string \<rightharpoonup> string) \<Rightarrow> cli_option list \<Rightarrow> Options \<Rightarrow> string + Options" where
  "apply_cli given [] st = Inr st"
| "apply_cli given (c # cs) st =
     (case given (co_name c) of
        None \<Rightarrow> apply_cli given cs st
      | Some v \<Rightarrow>
          if \<not> co_check c v then Inl (co_name c)
          else case co_assign c v st of None \<Rightarrow> Inl (co_name c) | Some st' \<Rightarrow> apply_cli given cs st')"

text \<open>The file system: what opening and reading a file leaves in \<open>cfg_json\<close>, \<open>None\<close> if it
  cannot be opened, and the absolute path, if it can be found.\<close>

record cfg_fs =
  fs_load :: "string \<Rightarrow> json option"
  cfg_absolute :: "string \<Rightarrow> string option"

definition load_config :: "cfg_fs \<Rightarrow> string \<Rightarrow> string option \<Rightarrow> json \<times> string option" where
  "load_config fs config_file stored =
     (if config_file \<noteq> [] then
        (case fs_load fs config_file of
           Some j \<Rightarrow> (j, case cfg_absolute fs config_file of Some p \<Rightarrow> Some p | None \<Rightarrow> stored)
         | None \<Rightarrow> (JNull, stored))
      else (JNull, None))"

definition load_and_parse ::
  "cli_lib \<Rightarrow> cfg_fs \<Rightarrow> string list \<Rightarrow> opt_system \<Rightarrow> ParseResult \<times> string \<times> opt_system" where
  "load_and_parse lib fs args sys =
     (case load_config fs (cl_config lib args) (os_config_file sys) of
        (j, stored) \<Rightarrow>
          (case run_providers (os_providers sys) j (os_options sys) of
             (st1, cs) \<Rightarrow>
               let sys1 = sys\<lparr>os_config_file := stored, os_options := st1\<rparr>
               in case cl_parse lib (map co_name cs) args of
                    CliHelp \<Rightarrow> (ParseHelp, [], sys1)
                  | CliVersion \<Rightarrow> (ParseVersion, [], sys1)
                  | CliError e \<Rightarrow> (ParseError, e, sys1)
                  | CliGiven given \<Rightarrow>
                      (case apply_cli given cs st1 of
                         Inl e \<Rightarrow> (ParseError, e, sys1)
                       | Inr st2 \<Rightarrow> (ParseOk, [], sys1\<lparr>os_options := st2\<rparr>))))"

subsection \<open>What the programs use\<close>

text \<open>\<open>DispatcherApp::start\<close> reads these; \<open>WorkerSession\<close> the settings of its rendezvous
  client.\<close>

definition dispatcher_options :: "Options \<Rightarrow> app_options" where
  "dispatcher_options st =
     \<lparr>ao_monitoring = g_monitoring_enabled st, ao_rv_enabled = g_rendezvous_enabled st, ao_rv_host = g_rendezvous_host st,
      ao_rv_port = g_rendezvous_port st, ao_rv_snapshot_port = g_rendezvous_snapshot_port st\<rparr>"

definition worker_rv_config :: "Options \<Rightarrow> rv_config" where
  "worker_rv_config st =
     \<lparr>rv_enabled = or_default (g_rendezvous_enabled st) False, rv_host = g_rendezvous_host st, rv_port = g_rendezvous_port st\<rparr>"

datatype WorkerMode = Blocking | Async

record WorkerOptions =
  wo_mode :: WorkerMode
  wo_host :: string
  wo_port :: int
  wo_ui :: bool

text \<open>The part of the worker's \<open>main\<close> before the session is created; \<open>Inl\<close>: the exit code.
  \<open>has_ui\<close>: the program was built with its user interface.\<close>

definition worker_main_options :: "bool \<Rightarrow> ParseResult \<Rightarrow> Options \<Rightarrow> int + WorkerOptions" where
  "worker_main_options has_ui res st =
     (if res = ParseHelp \<or> res = ParseVersion then Inl 0
      else if res = ParseError then Inl 2
      else Inr \<lparr>wo_mode = (if g_mode_str st = Some ''async'' then Async else Blocking),
                wo_host = or_default (g_manager_host st) ''localhost'', wo_port = or_default (g_manager_port st) 8080,
                wo_ui = has_ui \<and> or_default (g_ui_enabled st) False\<rparr>)"

text \<open>The exit code of a worker without user interface, given the status its session ends in.\<close>

definition worker_exit_code :: "string \<Rightarrow> int" where
  "worker_exit_code status = (if status = ''Error'' then 1 else 0)"

record rv_server_config =
  vn_listen_host :: string
  vn_listen_port :: int
  http_listen_host :: string
  http_listen_port :: int
  snapshot_listen_host :: string
  snapshot_listen_port :: int

definition nonempty_or :: "string option \<Rightarrow> string \<Rightarrow> string" where
  "nonempty_or v d = (case v of Some s \<Rightarrow> if s \<noteq> [] then s else d | None \<Rightarrow> d)"

text \<open>The part of the rendezvous service's \<open>main\<close> before the server starts; \<open>dflt\<close> are the
  initial values of \<open>RendezvousServer::Config\<close>.\<close>

definition rendezvous_main_config :: "rv_server_config \<Rightarrow> ParseResult \<Rightarrow> Options \<Rightarrow> int + rv_server_config" where
  "rendezvous_main_config dflt res st =
     (if res = ParseHelp \<or> res = ParseVersion then Inl 0
      else if res = ParseError then Inl 1
      else Inr \<lparr>vn_listen_host = nonempty_or (g_rendezvous_vn_listen_host st) (vn_listen_host dflt),
                vn_listen_port = or_default (g_rendezvous_vn_listen_port st) (vn_listen_port dflt),
                http_listen_host = nonempty_or (g_rendezvous_dashboard_listen_host st) (http_listen_host dflt),
                http_listen_port = or_default (g_rendezvous_dashboard_listen_port st) (http_listen_port dflt),
                snapshot_listen_host = nonempty_or (g_rendezvous_snapshot_listen_host st) (snapshot_listen_host dflt),
                snapshot_listen_port = or_default (g_rendezvous_snapshot_listen_port st) (snapshot_listen_port dflt)\<rparr>)"

text \<open>\<open>run_generator\<close>: the application and the generator are a state with the functions
  called on it.\<close>

record 's gen_env =
  ge_start :: "'s \<Rightarrow> int \<times> 's"
  ge_initialize :: "CompareConfig \<Rightarrow> 's \<Rightarrow> bool \<times> 's"
  ge_run :: "CompareConfig \<Rightarrow> 's \<Rightarrow> int \<times> 's"
  ge_on_shutdown :: "'s \<Rightarrow> 's"
  ge_stop :: "'s \<Rightarrow> 's"

definition verification_config :: "Options \<Rightarrow> CompareConfig" where
  "verification_config st =
     \<lparr>enabled = g_verify_enabled st, abs_epsilon = g_verify_epsilon st, rel_epsilon = g_verify_rel_epsilon st,
      inject_failure = g_verify_inject_failure st\<rparr>"

definition run_generator :: "'s gen_env \<Rightarrow> Options \<Rightarrow> 's \<Rightarrow> int \<times> 's" where
  "run_generator env st s =
     (case ge_start env s of
        (rc, s1) \<Rightarrow>
          if rc \<noteq> 0 then (if rc = 1 then 0 else rc, s1)
          else let cfg = verification_config st in
               (case ge_initialize env cfg s1 of
                  (False, s2) \<Rightarrow> (1, ge_stop env s2)
                | (True, s2) \<Rightarrow> (case ge_run env cfg s2 of (r, s3) \<Rightarrow> (r, ge_stop env (ge_on_shutdown env s3)))))"

subsection \<open>The socket factory\<close>

text \<open>transport/socket/SocketFactory.cpp. There is one backend; a socket is described by its mode
  and whether it logs, the node service by whether it does. \<open>warnings\<close> are the texts written to
  the standard error stream.\<close>

datatype SocketType = ZeroTier

datatype SocketMode = BlockingMode | AsyncMode

record SocketFactory =
  default_type :: SocketType
  type_resolved :: bool
  node_logger :: bool
  warnings :: "string list"

definition lower :: "char \<Rightarrow> char" where
  "lower c = (if 65 \<le> (of_char c :: nat) \<and> (of_char c :: nat) \<le> 90 then char_of (of_char c + 32 :: nat) else c)"

definition ensure_socket_type_resolved :: "Options \<Rightarrow> SocketFactory \<Rightarrow> SocketFactory" where
  "ensure_socket_type_resolved st sf =
     (if type_resolved sf then sf
      else let sf1 = sf\<lparr>type_resolved := True\<rparr> in
           case g_socket_type_str st of
             None \<Rightarrow> sf1
           | Some raw \<Rightarrow>
               if raw = [] then sf1
               else if map lower raw \<in> {''zerotier'', ''zt''} then sf1\<lparr>default_type := ZeroTier\<rparr>
               else sf1\<lparr>warnings := warnings sf1 @ [''[SocketFactory] Warning: Unknown --socket-type '' @ [CHR 39] @ raw
                      @ [CHR 39] @ ''; using default.'']\<rparr>)"

definition create_socket :: "SocketMode \<Rightarrow> bool \<Rightarrow> Options \<Rightarrow> SocketFactory \<Rightarrow> (SocketMode \<times> bool) \<times> SocketFactory" where
  "create_socket mode logger st sf =
     (let sf1 = ensure_socket_type_resolved st sf in
      case default_type sf1 of ZeroTier \<Rightarrow> ((mode, logger), if logger then sf1\<lparr>node_logger := True\<rparr> else sf1))"

definition create_async_server :: "bool \<Rightarrow> Options \<Rightarrow> SocketFactory \<Rightarrow> (SocketMode \<times> bool) \<times> SocketFactory" where
  "create_async_server = create_socket AsyncMode"

definition create_async_client :: "bool \<Rightarrow> Options \<Rightarrow> SocketFactory \<Rightarrow> (SocketMode \<times> bool) \<times> SocketFactory" where
  "create_async_client = create_socket AsyncMode"

definition create_blocking_client :: "bool \<Rightarrow> Options \<Rightarrow> SocketFactory \<Rightarrow> (SocketMode \<times> bool) \<times> SocketFactory" where
  "create_blocking_client = create_socket BlockingMode"

definition create_blocking_server :: "bool \<Rightarrow> Options \<Rightarrow> SocketFactory \<Rightarrow> (SocketMode \<times> bool) \<times> SocketFactory" where
  "create_blocking_server = create_socket BlockingMode"

definition create_server :: "bool \<Rightarrow> Options \<Rightarrow> SocketFactory \<Rightarrow> (SocketMode \<times> bool) \<times> SocketFactory" where
  "create_server = create_socket AsyncMode"

subsection \<open>Where a value comes from\<close>

text \<open>An option that does not touch the variable read by \<open>get\<close>.\<close>

definition keeps :: "(Options \<Rightarrow> 'a) \<Rightarrow> cli_option \<Rightarrow> bool" where
  "keeps get d \<longleftrightarrow> (\<forall>v s s'. co_assign d v s = Some s' \<longrightarrow> get s' = get s)"

lemma keepsD: "keeps get d \<Longrightarrow> co_assign d v s = Some s' \<Longrightarrow> get s' = get s"
  by (simp add: keeps_def)

lemma apply_cli_keeps:
  "apply_cli given cs st = Inr st' \<Longrightarrow> (\<And>d. d \<in> set cs \<Longrightarrow> keeps get d) \<Longrightarrow> get st' = get st"
proof (induction cs arbitrary: st)
  case (Cons d cs)
  show ?case
  proof (cases "given (co_name d)")
    case None
    then show ?thesis using Cons by simp
  next
    case (Some v)
    then obtain s1 where s1: "co_assign d v st = Some s1" "apply_cli given cs s1 = Inr st'"
      using Cons.prems(1) by (auto split: if_splits option.splits)
    have "get st' = get s1" using Cons.IH [OF s1(2)] Cons.prems(2) by simp
    then show ?thesis using keepsD [of get d] Cons.prems(2) s1(1) by simp
  qed
qed simp

lemma apply_cli_get:
  assumes "apply_cli given cs st = Inr st'" "c \<in> set cs" "\<And>d. d \<in> set cs \<Longrightarrow> d = c \<or> keeps get d"
    "\<And>v s s'. co_assign c v s = Some s' \<Longrightarrow> conv v = get s'"
  shows "get st' = (case given (co_name c) of None \<Rightarrow> get st | Some v \<Rightarrow> conv v)
    \<and> (\<forall>v. given (co_name c) = Some v \<longrightarrow> co_check c v)"
  using assms(1-3)
proof (induction cs arbitrary: st)
  case (Cons d cs)
  have later: "get st' = (case given (co_name c) of None \<Rightarrow> get s | Some v \<Rightarrow> conv v)
      \<and> (\<forall>v. given (co_name c) = Some v \<longrightarrow> co_check c v)"
    if "apply_cli given cs s = Inr st'" "c \<in> set cs" for s
    using Cons.IH [OF that] Cons.prems(3) by simp
  show ?case
  proof (cases "d = c")
    case d: False
    then have k: "keeps get d" "c \<in> set cs" using Cons.prems(2,3) by auto
    show ?thesis
    proof (cases "given (co_name d)")
      case None
      then show ?thesis using later [OF _ k(2), of st] Cons.prems(1) by simp
    next
      case (Some v)
      then obtain s1 where s1: "co_assign d v st = Some s1" "apply_cli given cs s1 = Inr st'"
        using Cons.prems(1) by (auto split: if_splits option.splits)
      then show ?thesis using later [OF s1(2) k(2)] keepsD [OF k(1) s1(1)] by (simp split: option.splits)
    qed
  next
    case d: True
    show ?thesis
    proof (cases "given (co_name c)")
      case None
      then have a: "apply_cli given cs st = Inr st'" using Cons.prems(1) d by simp
      show ?thesis
      proof (cases "c \<in> set cs")
        case True
        then show ?thesis using later [OF a] by simp
      next
        case False
        then have "get st' = get st" using apply_cli_keeps [OF a, of get] Cons.prems(3) by auto
        then show ?thesis using None by simp
      qed
    next
      case (Some v)
      then obtain s1 where s1: "co_assign c v st = Some s1" "apply_cli given cs s1 = Inr st'" "co_check c v"
        using Cons.prems(1) d by (auto split: if_splits option.splits)
      show ?thesis
      proof (cases "c \<in> set cs")
        case True
        then show ?thesis using later [OF s1(2)] Some by simp
      next
        case False
        then have "get st' = get s1" using apply_cli_keeps [OF s1(2), of get] Cons.prems(3) by auto
        then show ?thesis using Some s1(3) assms(4) [OF s1(1)] by simp
      qed
    qed
  qed
qed simp

text \<open>The providers of the programs. The options they add depend neither on the file nor on
  the variables.\<close>

definition standard_providers :: "cli_lib \<Rightarrow> provider list" where
  "standard_providers lib =
     [rendezvous_provider lib, monitoring_provider lib, transport_provider lib, generator_provider lib, worker_provider lib,
      socket_type_provider]"

lemmas provider_defs = rendezvous_provider_def monitoring_provider_def transport_provider_def generator_provider_def
  worker_provider_def socket_type_provider_def

definition provider_options :: "provider \<Rightarrow> cli_option list" where
  "provider_options p = snd (p JNull new_options)"

lemma provider_options: "p \<in> set (standard_providers lib) \<Longrightarrow> snd (p j st) = provider_options p"
  by (auto simp: standard_providers_def provider_options_def provider_defs Let_def split: prod.split)

lemma run_providers_options:
  "set ps \<subseteq> set (standard_providers lib) \<Longrightarrow> set (snd (run_providers ps j st)) = (\<Union>p \<in> set ps. set (provider_options p))"
proof (induction ps arbitrary: st)
  case (Cons p ps)
  then show ?case using provider_options [of p lib j st] by (auto simp: split_beta)
qed simp

lemma run_providers_get:
  "q \<in> set ps \<Longrightarrow> (\<And>p s. p \<in> set ps \<Longrightarrow> p = q \<or> get (fst (p j s)) = get s) \<Longrightarrow> (\<And>s. get (fst (q j s)) = x) \<Longrightarrow>
     get (fst (run_providers ps j st)) = x"
proof (induction ps arbitrary: st)
  case (Cons p ps)
  have fixed: "get (fst (run_providers ps j s)) = get s"
    if "q \<notin> set ps" "\<And>p s. p \<in> set ps \<Longrightarrow> get (fst (p j s)) = get s" for s
    using that(2) by (induction ps arbitrary: s) (simp_all add: split_beta)
  show ?case
  proof (cases "q \<in> set ps")
    case True
    then show ?thesis using Cons.IH Cons.prems(2,3) by (simp add: split_beta)
  next
    case False
    then have "\<And>p s. p \<in> set ps \<Longrightarrow> get (fst (p j s)) = get s" using Cons.prems(2) by (metis list.set_intros(2))
    then show ?thesis using fixed [OF False] Cons.prems False by (auto simp: split_beta)
  qed
qed simp

text \<open>The value an option gets: the text on the command line, converted, or else \<open>d\<close>.\<close>

definition chosen :: "(string \<Rightarrow> 'a option) \<Rightarrow> string option \<Rightarrow> 'a \<Rightarrow> 'a option" where
  "chosen conv text d = (case text of Some v \<Rightarrow> conv v | None \<Rightarrow> Some d)"

text \<open>The library of the parser after a successful parse: the options that were given.\<close>

definition given_options :: "cli_lib \<Rightarrow> cfg_fs \<Rightarrow> string list \<Rightarrow> opt_system \<Rightarrow> (string \<rightharpoonup> string)" where
  "given_options lib fs args sys =
     (case cl_parse lib (map co_name (snd (run_providers (os_providers sys)
             (fst (load_config fs (cl_config lib args) (os_config_file sys))) (os_options sys)))) args of
        CliGiven given \<Rightarrow> given | _ \<Rightarrow> Map.empty)"

lemma load_and_parse_ok:
  assumes "load_and_parse lib fs args sys = (ParseOk, e, sys')"
    "j = fst (load_config fs (cl_config lib args) (os_config_file sys))"
  shows "apply_cli (given_options lib fs args sys) (snd (run_providers (os_providers sys) j (os_options sys)))
      (fst (run_providers (os_providers sys) j (os_options sys))) = Inr (os_options sys')"
  using assms
  by (auto simp: load_and_parse_def given_options_def Let_def split: prod.splits cli_args.splits sum.splits)

lemma option_value:
  assumes "load_and_parse lib fs args sys = (ParseOk, e, sys')"
    "j = fst (load_config fs (cl_config lib args) (os_config_file sys))"
    and ps: "set (os_providers sys) \<subseteq> set (standard_providers lib)" "q \<in> set (os_providers sys)" "c \<in> set (provider_options q)"
    and opts: "\<And>p d. p \<in> set (standard_providers lib) \<Longrightarrow> d \<in> set (provider_options p) \<Longrightarrow> d = c \<or> keeps get d"
    and vals: "\<And>p s. p \<in> set (standard_providers lib) \<Longrightarrow> p = q \<or> get (fst (p j s)) = get s" "\<And>s. get (fst (q j s)) = Some d"
    and conv: "\<And>v s s'. co_assign c v s = Some s' \<Longrightarrow> conv v = get s'"
  shows "get (os_options sys') = chosen conv (given_options lib fs args sys (co_name c)) d
    \<and> (\<forall>v. given_options lib fs args sys (co_name c) = Some v \<longrightarrow> co_check c v)"
proof -
  let ?r = "run_providers (os_providers sys) j (os_options sys)"
  have s: "set (snd ?r) = (\<Union>p \<in> set (os_providers sys). set (provider_options p))" using ps(1) by (rule run_providers_options)
  have v: "get (fst ?r) = Some d"
  proof (rule run_providers_get [OF ps(2)])
    show "p = q \<or> get (fst (p j s)) = get s" if "p \<in> set (os_providers sys)" for p s
      using vals(1) subsetD [OF ps(1) that] by blast
  qed (rule vals(2))
  have c: "c \<in> set (snd ?r)" unfolding s using ps(2,3) by blast
  have k: "d = c \<or> keeps get d" if "d \<in> set (snd ?r)" for d using that ps(1) opts unfolding s by blast
  show ?thesis
    using apply_cli_get [OF load_and_parse_ok [OF assms(1,2)] c k conv] unfolding chosen_def v .
qed

text \<open>What the simplifier needs to look through the options: what one leaves alone and what it
  stores.\<close>

definition stores :: "(Options \<Rightarrow> 'a option) \<Rightarrow> (string \<Rightarrow> 'a option) \<Rightarrow> cli_option \<Rightarrow> bool" where
  "stores get conv c \<longleftrightarrow> (\<forall>v s s'. co_assign c v s = Some s' \<longrightarrow> conv v = get s')"

lemma keeps_kinds [simp]:
  "(\<And>v s. get (f v s) = get s) \<Longrightarrow> keeps get (text_option n ck f)"
  "(\<And>v s. get (g v s) = get s) \<Longrightarrow> keeps get (int_option lib n ck g)"
  "(\<And>v s. get (h v s) = get s) \<Longrightarrow> keeps get (bool_option lib n h)"
  "(\<And>v s. get (k v s) = get s) \<Longrightarrow> keeps get (double_option lib n k)"
  by (auto simp: keeps_def option_kinds)

lemma stores_kinds [simp]:
  "(\<And>v s. get1 (f v s) = Some v) \<Longrightarrow> stores get1 Some (text_option n ck f)"
  "(\<And>v s. get2 (g v s) = Some v) \<Longrightarrow> stores get2 (cl_int lib) (int_option lib n ck g)"
  "(\<And>v s. get3 (h v s) = Some v) \<Longrightarrow> stores get3 (cl_bool lib) (bool_option lib n h)"
  by (auto simp: stores_def option_kinds)

lemma option_fields [simp]:
  "co_name (text_option n ck f) = n" "co_name (int_option lib n ck g) = n" "co_name (bool_option lib n h) = n"
  "co_check (int_option lib n ck g) = ck"
  by (simp_all add: option_kinds)

lemmas provider_simps = standard_providers_def provider_options_def provider_defs Let_def split_beta

text \<open>The option \<open>c\<close> of the provider \<open>q\<close> is the only one for the variable \<open>get\<close>, whose value from
  the file is \<open>d\<close>.\<close>

definition settles :: "cli_lib \<Rightarrow> json \<Rightarrow> provider \<Rightarrow> cli_option \<Rightarrow> (Options \<Rightarrow> 'a option) \<Rightarrow> (string \<Rightarrow> 'a option) \<Rightarrow> 'a \<Rightarrow> bool" where
  "settles lib j q c get conv d \<longleftrightarrow>
     c \<in> set (provider_options q) \<and> stores get conv c \<and> (\<forall>s. get (fst (q j s)) = Some d)
     \<and> (\<forall>p \<in> set (standard_providers lib). \<forall>x \<in> set (provider_options p). if keeps get x then True else x = c)
     \<and> (\<forall>p \<in> set (standard_providers lib). if \<forall>s. get (fst (p j s)) = get s then True else p = q)"

lemma settled_value:
  assumes "load_and_parse lib fs args sys = (ParseOk, e, sys')" "set (os_providers sys) \<subseteq> set (standard_providers lib)"
    "q \<in> set (os_providers sys)" "j = fst (load_config fs (cl_config lib args) (os_config_file sys))"
    "given = given_options lib fs args sys" "st = os_options sys'" "settles lib j q c get conv d"
  shows "get st = chosen conv (given (co_name c)) d \<and> (\<forall>v. given (co_name c) = Some v \<longrightarrow> co_check c v)"
proof -
  have s: "c \<in> set (provider_options q)" "\<And>v s s'. co_assign c v s = Some s' \<Longrightarrow> conv v = get s'" "\<And>s. get (fst (q j s)) = Some d"
    using assms(7) by (simp_all add: settles_def stores_def)
  have k: "x = c \<or> keeps get x" if "p \<in> set (standard_providers lib)" "x \<in> set (provider_options p)" for p x
  proof -
    have "if keeps get x then True else x = c" using assms(7) that unfolding settles_def by blast
    then show ?thesis by (cases "keeps get x") simp_all
  qed
  have "p = q \<or> get (fst (p j s)) = get s" if "p \<in> set (standard_providers lib)" for p s
  proof -
    have "if \<forall>s. get (fst (p j s)) = get s then True else p = q" using assms(7) that unfolding settles_def by blast
    then show ?thesis by (auto split: if_splits)
  qed
  from option_value [OF assms(1,4,2,3) s(1) k this s(3,2)] show ?thesis unfolding assms(5,6) .
qed

text \<open>
  C38. Where the settings of the rendezvous service come from. After a successful parse, with
  the program's providers registered in any order, each of the ten settings is the value given
  on the command line; if it was not given, the value in the section \<open>rendezvous\<close> of the
  configuration file, if it is there with the right type; and the default otherwise. Ports
  given on the command line are between 1 and 65535.
\<close>

theorem option_precedence:
  assumes "load_and_parse lib fs args sys = (ParseOk, e, sys')"
    "set (os_providers sys) \<subseteq> set (standard_providers lib)" "rendezvous_provider lib \<in> set (os_providers sys)"
    "rj = json_section (fst (load_config fs (cl_config lib args) (os_config_file sys))) ''rendezvous''"
    "given = given_options lib fs args sys" "st = os_options sys'"
  shows "g_rendezvous_enabled st = chosen (cl_bool lib) (given ''--rendezvous-enabled'') (bool_or rj ''enabled'' False)
    \<and> g_rendezvous_host st = chosen Some (given ''--rendezvous-host'') (string_or rj ''host'' [])
    \<and> g_rendezvous_port st = chosen (cl_int lib) (given ''--rendezvous-port'') (int_or rj ''port'' 8088)
    \<and> g_rendezvous_snapshot_port st = chosen (cl_int lib) (given ''--rendezvous-snapshot-port'') (int_or rj ''snapshot_port'' 8089)
    \<and> g_rendezvous_vn_listen_host st = chosen Some (given ''--rendezvous-vn-listen-host'') (string_or rj ''vn_listen_host'' ''0.0.0.0'')
    \<and> g_rendezvous_vn_listen_port st = chosen (cl_int lib) (given ''--rendezvous-vn-listen-port'') (int_or rj ''vn_listen_port'' 8088)
    \<and> g_rendezvous_snapshot_listen_host st = chosen Some (given ''--rendezvous-snapshot-listen-host'') (string_or rj ''snapshot_listen_host'' ''0.0.0.0'')
    \<and> g_rendezvous_snapshot_listen_port st = chosen (cl_int lib) (given ''--rendezvous-snapshot-listen-port'') (int_or rj ''snapshot_listen_port'' 8089)
    \<and> g_rendezvous_dashboard_listen_host st = chosen Some (given ''--rendezvous-dashboard-listen-host'') (string_or rj ''dashboard_listen_host'' ''127.0.0.1'')
    \<and> g_rendezvous_dashboard_listen_port st = chosen (cl_int lib) (given ''--rendezvous-dashboard-listen-port'') (int_or rj ''dashboard_listen_port'' 8080)
    \<and> (\<forall>v. given ''--rendezvous-port'' = Some v \<longrightarrow> in_range lib 1 65535 v)
    \<and> (\<forall>v. given ''--rendezvous-snapshot-port'' = Some v \<longrightarrow> in_range lib 1 65535 v)
    \<and> (\<forall>v. given ''--rendezvous-vn-listen-port'' = Some v \<longrightarrow> in_range lib 1 65535 v)
    \<and> (\<forall>v. given ''--rendezvous-snapshot-listen-port'' = Some v \<longrightarrow> in_range lib 1 65535 v)
    \<and> (\<forall>v. given ''--rendezvous-dashboard-listen-port'' = Some v \<longrightarrow> in_range lib 1 65535 v)"
proof -
  note val = settled_value [OF assms(1-3) refl assms(5,6)]
  have r0: "g_rendezvous_enabled st = chosen (cl_bool lib) (given ''--rendezvous-enabled'') (bool_or rj ''enabled'' False)"
    using val [of "bool_option lib ''--rendezvous-enabled'' (\<lambda>v s. s\<lparr>g_rendezvous_enabled := Some v\<rparr>)"
        g_rendezvous_enabled "cl_bool lib"] by (simp add: assms(4) settles_def provider_simps)
  have r1: "g_rendezvous_host st = chosen Some (given ''--rendezvous-host'') (string_or rj ''host'' [])"
    using val [of "text_option ''--rendezvous-host'' any_text (\<lambda>v s. s\<lparr>g_rendezvous_host := Some v\<rparr>)"
        g_rendezvous_host "Some"] by (simp add: assms(4) settles_def provider_simps)
  have r2: "g_rendezvous_port st = chosen (cl_int lib) (given ''--rendezvous-port'') (int_or rj ''port'' 8088) \<and> (\<forall>v. given ''--rendezvous-port'' = Some v \<longrightarrow> in_range lib 1 65535 v)"
    using val [of "int_option lib ''--rendezvous-port'' (in_range lib 1 65535) (\<lambda>v s. s\<lparr>g_rendezvous_port := Some v\<rparr>)"
        g_rendezvous_port "cl_int lib"] by (simp add: assms(4) settles_def provider_simps)
  have r3: "g_rendezvous_snapshot_port st = chosen (cl_int lib) (given ''--rendezvous-snapshot-port'') (int_or rj ''snapshot_port'' 8089) \<and> (\<forall>v. given ''--rendezvous-snapshot-port'' = Some v \<longrightarrow> in_range lib 1 65535 v)"
    using val [of "int_option lib ''--rendezvous-snapshot-port'' (in_range lib 1 65535) (\<lambda>v s. s\<lparr>g_rendezvous_snapshot_port := Some v\<rparr>)"
        g_rendezvous_snapshot_port "cl_int lib"] by (simp add: assms(4) settles_def provider_simps)
  have r4: "g_rendezvous_vn_listen_host st = chosen Some (given ''--rendezvous-vn-listen-host'') (string_or rj ''vn_listen_host'' ''0.0.0.0'')"
    using val [of "text_option ''--rendezvous-vn-listen-host'' any_text (\<lambda>v s. s\<lparr>g_rendezvous_vn_listen_host := Some v\<rparr>)"
        g_rendezvous_vn_listen_host "Some"] by (simp add: assms(4) settles_def provider_simps)
  have r5: "g_rendezvous_vn_listen_port st = chosen (cl_int lib) (given ''--rendezvous-vn-listen-port'') (int_or rj ''vn_listen_port'' 8088) \<and> (\<forall>v. given ''--rendezvous-vn-listen-port'' = Some v \<longrightarrow> in_range lib 1 65535 v)"
    using val [of "int_option lib ''--rendezvous-vn-listen-port'' (in_range lib 1 65535) (\<lambda>v s. s\<lparr>g_rendezvous_vn_listen_port := Some v\<rparr>)"
        g_rendezvous_vn_listen_port "cl_int lib"] by (simp add: assms(4) settles_def provider_simps)
  have r6: "g_rendezvous_snapshot_listen_host st = chosen Some (given ''--rendezvous-snapshot-listen-host'') (string_or rj ''snapshot_listen_host'' ''0.0.0.0'')"
    using val [of "text_option ''--rendezvous-snapshot-listen-host'' any_text (\<lambda>v s. s\<lparr>g_rendezvous_snapshot_listen_host := Some v\<rparr>)"
        g_rendezvous_snapshot_listen_host "Some"] by (simp add: assms(4) settles_def provider_simps)
  have r7: "g_rendezvous_snapshot_listen_port st = chosen (cl_int lib) (given ''--rendezvous-snapshot-listen-port'') (int_or rj ''snapshot_listen_port'' 8089) \<and> (\<forall>v. given ''--rendezvous-snapshot-listen-port'' = Some v \<longrightarrow> in_range lib 1 65535 v)"
    using val [of "int_option lib ''--rendezvous-snapshot-listen-port'' (in_range lib 1 65535) (\<lambda>v s. s\<lparr>g_rendezvous_snapshot_listen_port := Some v\<rparr>)"
        g_rendezvous_snapshot_listen_port "cl_int lib"] by (simp add: assms(4) settles_def provider_simps)
  have r8: "g_rendezvous_dashboard_listen_host st = chosen Some (given ''--rendezvous-dashboard-listen-host'') (string_or rj ''dashboard_listen_host'' ''127.0.0.1'')"
    using val [of "text_option ''--rendezvous-dashboard-listen-host'' any_text (\<lambda>v s. s\<lparr>g_rendezvous_dashboard_listen_host := Some v\<rparr>)"
        g_rendezvous_dashboard_listen_host "Some"] by (simp add: assms(4) settles_def provider_simps)
  have r9: "g_rendezvous_dashboard_listen_port st = chosen (cl_int lib) (given ''--rendezvous-dashboard-listen-port'') (int_or rj ''dashboard_listen_port'' 8080) \<and> (\<forall>v. given ''--rendezvous-dashboard-listen-port'' = Some v \<longrightarrow> in_range lib 1 65535 v)"
    using val [of "int_option lib ''--rendezvous-dashboard-listen-port'' (in_range lib 1 65535) (\<lambda>v s. s\<lparr>g_rendezvous_dashboard_listen_port := Some v\<rparr>)"
        g_rendezvous_dashboard_listen_port "cl_int lib"] by (simp add: assms(4) settles_def provider_simps)
  show ?thesis using r0 r1 r2 r3 r4 r5 r6 r7 r8 r9 by blast
qed

text \<open>A parser that takes names and values in turn, and a configuration with a port that is none.\<close>

fun pairs_of :: "string list \<Rightarrow> (string \<times> string) list" where
  "pairs_of (n # v # args) = (n, v) # pairs_of args"
| "pairs_of _ = []"

definition sim_cli :: cli_lib where
  "sim_cli = \<lparr>cl_config = (\<lambda>args. ''tm.json''), cl_parse = (\<lambda>names args. CliGiven (map_of (pairs_of args))),
     cl_int = (\<lambda>v. if v = ''9000'' then Some 9000 else None), cl_bool = (\<lambda>v. None), cl_double = (\<lambda>v. None)\<rparr>"

definition sim_cfg :: cfg_fs where
  "sim_cfg = \<lparr>fs_load = (\<lambda>f. Some (JObject [(''rendezvous'', JObject [(''port'', JInt 5), (''snapshot_port'', JInt 70000)])])),
     cfg_absolute = Some\<rparr>"

definition sim_sys :: opt_system where
  "sim_sys = register_options ''rendezvous'' (rendezvous_provider sim_cli)
     \<lparr>os_providers = [], os_registered = {}, os_config_file = None, os_options = new_options\<rparr>"

lemma sim_parse: "\<exists>sys'. load_and_parse sim_cli sim_cfg [''--rendezvous-port'', ''9000''] sim_sys = (ParseOk, [], sys')"
  by (simp add: load_and_parse_def sim_sys_def register_options_def add_provider_def load_config_def sim_cfg_def
      rendezvous_provider_def Let_def option_kinds in_range_def sim_cli_def)

theorem option_precedence_witness:
  "\<exists>sys'. load_and_parse sim_cli sim_cfg [''--rendezvous-port'', ''9000''] sim_sys = (ParseOk, [], sys')
     \<and> g_rendezvous_port (os_options sys') = Some 9000 \<and> g_rendezvous_snapshot_port (os_options sys') = Some 70000
     \<and> g_rendezvous_host (os_options sys') = Some []"
proof -
  let ?args = "[''--rendezvous-port'', ''9000'']"
  obtain sys' where l: "load_and_parse sim_cli sim_cfg ?args sim_sys = (ParseOk, [], sys')" using sim_parse by blast
  have p: "set (os_providers sim_sys) \<subseteq> set (standard_providers sim_cli)" "rendezvous_provider sim_cli \<in> set (os_providers sim_sys)"
    by (simp_all add: sim_sys_def register_options_def add_provider_def standard_providers_def)
  let ?rj = "json_section (fst (load_config sim_cfg (cl_config sim_cli ?args) (os_config_file sim_sys))) ''rendezvous''"
  have j: "?rj = JObject [(''port'', JInt 5), (''snapshot_port'', JInt 70000)]"
    by (simp add: load_config_def sim_cfg_def sim_cli_def json_section_def)
  have g: "given_options sim_cli sim_cfg ?args sim_sys = map_of [(''--rendezvous-port'', ''9000'')]"
    by (simp add: given_options_def sim_cli_def)
  from option_precedence [OF l p refl refl refl]
  have "g_rendezvous_port (os_options sys') = Some 9000" "g_rendezvous_snapshot_port (os_options sys') = Some (get_int 70000)"
    "g_rendezvous_host (os_options sys') = Some []"
    unfolding j g by (simp_all add: chosen_def sim_cli_def int_or_def string_or_def)
  moreover have "get_int 70000 = 70000" by (simp add: get_int_def)
  ultimately show ?thesis using l by auto
qed

subsection \<open>Limits\<close>

text \<open>Values of the file are not checked: a port may be any 32 bit number, larger ones lose their
  upper bits, the snapshot interval may be shorter than the 50 ms the command line requires, and
  an unknown mode of the worker runs it in blocking mode.\<close>

lemma file_port_unchecked:
  assumes "load_and_parse lib fs args sys = (ParseOk, e, sys')"
    "set (os_providers sys) \<subseteq> set (standard_providers lib)" "rendezvous_provider lib \<in> set (os_providers sys)"
    "json_find (json_section (fst (load_config fs (cl_config lib args) (os_config_file sys))) ''rendezvous'') ''port'' = Some (JInt i)"
    "given_options lib fs args sys ''--rendezvous-port'' = None"
  shows "g_rendezvous_port (os_options sys') = Some (get_int i)"
  using settled_value [OF assms(1-3) refl refl refl,
      of "int_option lib ''--rendezvous-port'' (in_range lib 1 65535) (\<lambda>v s. s\<lparr>g_rendezvous_port := Some v\<rparr>)"
        g_rendezvous_port "cl_int lib"] assms(4,5)
  by (simp add: settles_def provider_simps chosen_def int_or_def)

lemma get_int_examples: "get_int 70000 = 70000" "get_int 4294975384 = 8088" "get_int (-1) = -1"
  by (simp_all add: get_int_def)

lemma file_interval_unchecked:
  "g_monitoring_snapshot_interval_ms (fst (monitoring_provider lib (JObject [(''monitoring'', JObject [(''snapshot_interval_ms'', JInt 1)])]) st))
     = Some 1"
  by (simp add: monitoring_provider_def json_section_def positive_or_def int_or_def get_int_def Let_def)

lemma file_mode_unchecked:
  assumes "json_find j ''worker'' = Some w" "json_find w ''mode'' = Some (JString m)" "m \<noteq> ''async''"
  shows "map_sum id wo_mode (worker_main_options ui ParseOk (fst (worker_provider lib j st))) = Inr Blocking"
  using assms by (simp add: worker_provider_def string_or_def worker_main_options_def Let_def)

text \<open>A section of the transport server without a listening port hides the one of the
  dispatcher's section.\<close>

lemma transport_section_hides_manager:
  "g_trans_listen_port (fst (transport_provider lib
     (JObject [(''transport_server'', JObject []), (''manager'', JObject [(''listen_port'', JInt 9100)])]) st)) = Some 8080"
  by (simp add: transport_provider_def int_or_def)

text \<open>A configuration file that cannot be opened is silently ignored, and a later run forgets it
  only when it names none.\<close>

lemma missing_config_ignored:
  "f \<noteq> [] \<Longrightarrow> fs_load fs f = None \<Longrightarrow> load_config fs f stored = (JNull, stored)"
  by (simp add: load_config_def)

text \<open>Registering twice is registering once.\<close>

lemma register_options_idem: "register_options flag p (register_options flag q sys) = register_options flag q sys"
  by (simp add: register_options_def add_provider_def)

text \<open>The factory: a known or empty type gives no warning, an unknown one a warning once; the
  sockets are of the requested mode either way.\<close>

lemma create_socket_resolves:
  "fst (create_socket mode logger st sf) = (mode, logger)"
  "ensure_socket_type_resolved st (ensure_socket_type_resolved st' sf) = ensure_socket_type_resolved st' sf"
proof -
  show "fst (create_socket mode logger st sf) = (mode, logger)"
    by (simp add: create_socket_def Let_def split: SocketType.split)
  have "type_resolved (ensure_socket_type_resolved st' sf)"
    by (simp add: ensure_socket_type_resolved_def Let_def split: option.split)
  then show "ensure_socket_type_resolved st (ensure_socket_type_resolved st' sf) = ensure_socket_type_resolved st' sf"
    by (simp add: ensure_socket_type_resolved_def [of st])
qed

text \<open>The options the dispatcher runs with.\<close>

lemma run_generator_order:
  "ge_start env s = (0, s1) \<Longrightarrow> ge_initialize env (verification_config st) s1 = (True, s2) \<Longrightarrow>
   ge_run env (verification_config st) s2 = (r, s3) \<Longrightarrow> run_generator env st s = (r, ge_stop env (ge_on_shutdown env s3))"
  "ge_start env s = (1, s1) \<Longrightarrow> run_generator env st s = (0, s1)"
  by (simp_all add: run_generator_def)

end
