(* ===== verification/CoroTask.thy ===== *)
theory CoroTask
  imports Prelude
begin

section \<open>Coroutine tasks\<close>

text \<open>
  transport/coro/CoroTask.hpp: \<open>Task<T>\<close>, the owner of a coroutine frame, and its promise.
  The store holds the frames by handle and the \<open>Task\<close> objects by name with the handle they
  hold (\<open>Some None\<close>: an object whose handle is null). A coroutine body is a parameter: from a
  point of its execution it suspends at a next one, returns a value or throws. An operation
  on a null or destroyed handle, and resuming a finished coroutine through its bare handle,
  is undefined behaviour: the result is \<open>None\<close>. \<open>Task<void>\<close> is the instance at type \<open>unit\<close>.
\<close>

datatype ('b, 'v) body_result = Suspends 'b | Returns 'v | Throws

type_synonym ('b, 'v) body = "'b \<Rightarrow> ('b, 'v) body_result"

text \<open>A frame: the point at which it is suspended (\<open>None\<close>: at its final suspension) and its promise.\<close>

record ('b, 'v) CoroFrame =
  fr_point :: "'b option"
  fr_result :: 'v

record ('b, 'v) TaskStore =
  ts_frames :: "nat \<Rightarrow> ('b, 'v) CoroFrame option"
  ts_tasks :: "nat \<Rightarrow> nat option option"
  ts_next :: nat

subsection \<open>The promise\<close>

definition return_value :: "'v \<Rightarrow> ('b, 'v) CoroFrame \<Rightarrow> ('b, 'v) CoroFrame" where
  "return_value v f = f\<lparr>fr_result := v\<rparr>"

definition unhandled_exception :: "('b, 'v) CoroFrame \<Rightarrow> ('b, 'v) CoroFrame" where
  "unhandled_exception f = f"

definition promise_get_result :: "('b, 'v) CoroFrame \<Rightarrow> 'v" where
  "promise_get_result f = fr_result f"

text \<open>Run the body up to its next suspension; the end of the body is the final suspension.\<close>

definition run_frame :: "('b, 'v) body \<Rightarrow> 'b \<Rightarrow> ('b, 'v) CoroFrame \<Rightarrow> ('b, 'v) CoroFrame" where
  "run_frame body p f =
     (case body p of
        Suspends q \<Rightarrow> f\<lparr>fr_point := Some q\<rparr>
      | Returns v \<Rightarrow> (return_value v f)\<lparr>fr_point := None\<rparr>
      | Throws \<Rightarrow> (unhandled_exception f)\<lparr>fr_point := None\<rparr>)"

subsection \<open>Tasks\<close>

text \<open>A call of a coroutine: a new frame with a default result, run at once, and its owner.\<close>

definition task_create :: "('b, 'v) body \<Rightarrow> 'v \<Rightarrow> nat \<Rightarrow> 'b \<Rightarrow> ('b, 'v) TaskStore \<Rightarrow> ('b, 'v) TaskStore option" where
  "task_create body dflt t p st =
     (if ts_tasks st t \<noteq> None then None
      else Some (st\<lparr>ts_frames := (ts_frames st)(ts_next st \<mapsto> run_frame body p \<lparr>fr_point = Some p, fr_result = dflt\<rparr>),
                    ts_tasks := (ts_tasks st)(t \<mapsto> Some (ts_next st)),
                    ts_next := Suc (ts_next st)\<rparr>))"

definition handle_destroy :: "nat option \<Rightarrow> ('b, 'v) TaskStore \<Rightarrow> ('b, 'v) TaskStore option" where
  "handle_destroy h st =
     (case h of
        None \<Rightarrow> Some st
      | Some i \<Rightarrow> if ts_frames st i = None then None else Some (st\<lparr>ts_frames := (ts_frames st)(i := None)\<rparr>))"

definition task_destructor :: "nat \<Rightarrow> ('b, 'v) TaskStore \<Rightarrow> ('b, 'v) TaskStore option" where
  "task_destructor t st =
     (case ts_tasks st t of
        None \<Rightarrow> None
      | Some h \<Rightarrow> map_option (\<lambda>s. s\<lparr>ts_tasks := (ts_tasks s)(t := None)\<rparr>) (handle_destroy h st))"

definition task_move :: "nat \<Rightarrow> nat \<Rightarrow> ('b, 'v) TaskStore \<Rightarrow> ('b, 'v) TaskStore option" where
  "task_move t other st =
     (case ts_tasks st other of
        None \<Rightarrow> None
      | Some h \<Rightarrow>
          if ts_tasks st t \<noteq> None then None
          else Some (st\<lparr>ts_tasks := (ts_tasks st)(t \<mapsto> h, other \<mapsto> None)\<rparr>))"

definition task_assign :: "nat \<Rightarrow> nat \<Rightarrow> ('b, 'v) TaskStore \<Rightarrow> ('b, 'v) TaskStore option" where
  "task_assign t other st =
     (case (ts_tasks st t, ts_tasks st other) of
        (Some h, Some h') \<Rightarrow>
          if t \<noteq> other
          then map_option (\<lambda>s. s\<lparr>ts_tasks := (ts_tasks s)(t \<mapsto> h', other \<mapsto> None)\<rparr>) (handle_destroy h st)
          else Some st
      | _ \<Rightarrow> None)"

definition task_done :: "nat \<Rightarrow> ('b, 'v) TaskStore \<Rightarrow> bool option" where
  "task_done t st =
     (case ts_tasks st t of
        Some (Some i) \<Rightarrow> map_option (\<lambda>f. fr_point f = None) (ts_frames st i)
      | _ \<Rightarrow> None)"

text \<open>\<open>handle_resume\<close> is a resumption through a handle, by the event loop or by \<open>resume\<close>.\<close>

definition handle_resume :: "('b, 'v) body \<Rightarrow> nat \<Rightarrow> ('b, 'v) TaskStore \<Rightarrow> ('b, 'v) TaskStore option" where
  "handle_resume body i st =
     (case ts_frames st i of
        None \<Rightarrow> None
      | Some f \<Rightarrow>
          (case fr_point f of
             None \<Rightarrow> None
           | Some p \<Rightarrow> Some (st\<lparr>ts_frames := (ts_frames st)(i \<mapsto> run_frame body p f)\<rparr>)))"

definition task_resume :: "('b, 'v) body \<Rightarrow> nat \<Rightarrow> ('b, 'v) TaskStore \<Rightarrow> ('b, 'v) TaskStore option" where
  "task_resume body t st =
     (case ts_tasks st t of
        None \<Rightarrow> None
      | Some None \<Rightarrow> Some st
      | Some (Some i) \<Rightarrow>
          (case task_done t st of
             None \<Rightarrow> None
           | Some True \<Rightarrow> Some st
           | Some False \<Rightarrow> handle_resume body i st))"

definition task_get_handle :: "nat \<Rightarrow> ('b, 'v) TaskStore \<Rightarrow> nat option option" where
  "task_get_handle t st = ts_tasks st t"

definition task_get_result :: "nat \<Rightarrow> ('b, 'v) TaskStore \<Rightarrow> 'v option" where
  "task_get_result t st =
     (case ts_tasks st t of
        Some (Some i) \<Rightarrow> map_option promise_get_result (ts_frames st i)
      | _ \<Rightarrow> None)"

subsection \<open>Histories\<close>

datatype 'b task_op =
    Create nat 'b | Destructor nat | Move nat nat | Assign nat nat | Resume nat | HandleResume nat

fun task_step :: "('b, 'v) body \<Rightarrow> 'v \<Rightarrow> 'b task_op \<Rightarrow> ('b, 'v) TaskStore \<Rightarrow> ('b, 'v) TaskStore option" where
  "task_step body dflt (Create t p) st = task_create body dflt t p st"
| "task_step body dflt (Destructor t) st = task_destructor t st"
| "task_step body dflt (Move t other) st = task_move t other st"
| "task_step body dflt (Assign t other) st = task_assign t other st"
| "task_step body dflt (Resume t) st = task_resume body t st"
| "task_step body dflt (HandleResume i) st = handle_resume body i st"

fun task_ops :: "('b, 'v) body \<Rightarrow> 'v \<Rightarrow> 'b task_op list \<Rightarrow> ('b, 'v) TaskStore \<Rightarrow> ('b, 'v) TaskStore option" where
  "task_ops body dflt [] st = Some st"
| "task_ops body dflt (x # xs) st =
     (case task_step body dflt x st of None \<Rightarrow> None | Some st' \<Rightarrow> task_ops body dflt xs st')"

definition no_tasks :: "('b, 'v) TaskStore" where
  "no_tasks = \<lparr>ts_frames = (\<lambda>_. None), ts_tasks = (\<lambda>_. None), ts_next = 0\<rparr>"

text \<open>The language's rules: an operation is applied to objects in their lifetime, a new object has a new name.\<close>

fun op_scoped :: "'b task_op \<Rightarrow> ('b, 'v) TaskStore \<Rightarrow> bool" where
  "op_scoped (Create t p) st \<longleftrightarrow> ts_tasks st t = None"
| "op_scoped (Destructor t) st \<longleftrightarrow> ts_tasks st t \<noteq> None"
| "op_scoped (Move t other) st \<longleftrightarrow> ts_tasks st t = None \<and> ts_tasks st other \<noteq> None"
| "op_scoped (Assign t other) st \<longleftrightarrow> ts_tasks st t \<noteq> None \<and> ts_tasks st other \<noteq> None"
| "op_scoped (Resume t) st \<longleftrightarrow> ts_tasks st t \<noteq> None"
| "op_scoped (HandleResume i) st \<longleftrightarrow> False"

text \<open>Every frame has exactly one owner, and every handle of an owner is a frame.\<close>

definition owned :: "('b, 'v) TaskStore \<Rightarrow> bool" where
  "owned st \<longleftrightarrow> (\<forall>i. ts_frames st i \<noteq> None \<longleftrightarrow> (\<exists>t. ts_tasks st t = Some (Some i)))
     \<and> (\<forall>t u i. ts_tasks st t = Some (Some i) \<longrightarrow> ts_tasks st u = Some (Some i) \<longrightarrow> t = u)
     \<and> (\<forall>i. ts_frames st i \<noteq> None \<longrightarrow> i < ts_next st)"

lemma ownedI:
  assumes "\<And>i. ts_frames st i \<noteq> None \<Longrightarrow> i < ts_next st \<and> (\<exists>t. ts_tasks st t = Some (Some i))"
    "\<And>t i. ts_tasks st t = Some (Some i) \<Longrightarrow> ts_frames st i \<noteq> None"
    "\<And>t u i. ts_tasks st t = Some (Some i) \<Longrightarrow> ts_tasks st u = Some (Some i) \<Longrightarrow> t = u"
  shows "owned st"
  using assms unfolding owned_def by blast

lemma ownedD:
  assumes "owned st"
  shows "ts_frames st i \<noteq> None \<Longrightarrow> i < ts_next st \<and> (\<exists>t. ts_tasks st t = Some (Some i))"
    "ts_tasks st t = Some (Some i) \<Longrightarrow> ts_frames st i \<noteq> None"
    "ts_tasks st t = Some (Some i) \<Longrightarrow> ts_tasks st u = Some (Some i) \<Longrightarrow> t = u"
  using assms unfolding owned_def by blast+

text \<open>The same owners and frames with other contents.\<close>

lemma owned_same:
  assumes "owned st" "ts_tasks st' = ts_tasks st" "ts_next st' = ts_next st" "dom (ts_frames st') = dom (ts_frames st)"
  shows "owned st'"
proof -
  have "ts_frames st' i = None \<longleftrightarrow> ts_frames st i = None" for i using assms(4) by blast
  then show ?thesis using assms(1-3) by (simp add: owned_def)
qed

lemma handle_destroy_owned:
  assumes "owned st" "ts_tasks st t = Some h"
  shows "\<exists>st'. handle_destroy h st = Some st' \<and> ts_tasks st' = ts_tasks st \<and> ts_next st' = ts_next st
    \<and> (\<forall>i. ts_frames st' i = (if h = Some i then None else ts_frames st i))"
  using ownedD(2) [OF assms(1), of t] assms(2) by (cases h) (auto simp: handle_destroy_def)

lemma create_owned:
  assumes "owned st" "task_create body dflt t p st = Some st'"
  shows "owned st'"
proof (rule ownedI)
  note o = ownedD [OF assms(1)]
  have fresh: "ts_tasks st u \<noteq> Some (Some (ts_next st))" for u using o(1) [of "ts_next st"] o(2) [of u "ts_next st"] less_irrefl by blast
  have eq: "ts_tasks st t = None" "ts_next st' = Suc (ts_next st)" "ts_tasks st' = (ts_tasks st)(t \<mapsto> Some (ts_next st))"
    "\<And>i. ts_frames st' i \<noteq> None \<longleftrightarrow> i = ts_next st \<or> ts_frames st i \<noteq> None"
    using assms(2) by (auto simp: task_create_def split: if_splits)
  show "i < ts_next st' \<and> (\<exists>t. ts_tasks st' t = Some (Some i))" if fr: "ts_frames st' i \<noteq> None" for i
  proof (cases "i = ts_next st")
    case False
    then obtain u where "ts_tasks st u = Some (Some i)" "i < ts_next st" using o(1) [of i] eq(4) [of i] fr False by blast
    moreover have "u \<noteq> t" using calculation eq(1) by (cases "u = t") simp_all
    ultimately show ?thesis unfolding eq(2,3) by (intro conjI exI [of _ u]) simp_all
  next
    case True
    then show ?thesis unfolding eq(2,3) by (intro conjI exI [of _ t]) simp_all
  qed
  show "ts_frames st' i \<noteq> None" if "ts_tasks st' u = Some (Some i)" for u i
  proof (cases "u = t")
    case True
    then show ?thesis using that eq(4) [of i] unfolding eq(3) by simp
  next
    case False
    then show ?thesis using that o(2) [of u i] eq(4) [of i] unfolding eq(3) by simp
  qed
  show "u = v" if "ts_tasks st' u = Some (Some i)" "ts_tasks st' v = Some (Some i)" for u v i
    using that o(3) [of u i v] fresh [of u] fresh [of v] unfolding eq(3)
    by (cases "u = t"; cases "v = t") auto
qed

text \<open>
  A change of owners: \<open>t\<close> gives up its frame, if it has one, and gets that of \<open>other\<close>, if it is
  not null; \<open>other\<close> is left without one or ends.
\<close>

lemma transfer_owned:
  assumes "owned st" "ts_next st' = ts_next st"
    "\<And>i. ts_frames st' i \<noteq> None \<longleftrightarrow> ts_frames st i \<noteq> None \<and> ts_tasks st t \<noteq> Some (Some i)"
    "ts_tasks st' other \<in> {None, Some None}" "t \<noteq> other"
    "\<And>i. ts_tasks st' t = Some (Some i) \<longleftrightarrow> ts_tasks st other = Some (Some i)"
    "\<And>u. u \<noteq> t \<Longrightarrow> u \<noteq> other \<Longrightarrow> ts_tasks st' u = ts_tasks st u"
  shows "owned st'"
proof (rule ownedI)
  note o = ownedD [OF assms(1)]
  have h: "ts_tasks st' u = Some (Some i) \<longleftrightarrow>
      (if u = t then ts_tasks st other = Some (Some i) else u \<noteq> other \<and> ts_tasks st u = Some (Some i))" for u i
    using assms(4,5) assms(6) [of i] assms(7) [of u] by (cases "u = t"; cases "u = other") auto
  show "i < ts_next st' \<and> (\<exists>t. ts_tasks st' t = Some (Some i))" if fr: "ts_frames st' i \<noteq> None" for i
  proof -
    obtain u where u: "ts_tasks st u = Some (Some i)" "i < ts_next st" "u \<noteq> t"
      using o(1) [of i] assms(3) [of i] fr by blast
    then have "ts_tasks st' (if u = other then t else u) = Some (Some i)" using h [of t i] h [of u i] assms(5) by (cases "u = other") simp_all
    then show ?thesis using assms(2) u(2) by (intro conjI exI) simp_all
  qed
  show "ts_frames st' i \<noteq> None" if "ts_tasks st' u = Some (Some i)" for u i
  proof (cases "u = t")
    case True
    then have "ts_tasks st other = Some (Some i)" using that h [of u i] by simp
    then show ?thesis using o(2) [of other i] o(3) [of other i t] assms(3) [of i] assms(5) by blast
  next
    case False
    then have "ts_tasks st u = Some (Some i)" using that h [of u i] by simp
    then show ?thesis using o(2) [of u i] o(3) [of u i t] assms(3) [of i] False by blast
  qed
  show "u = v" if "ts_tasks st' u = Some (Some i)" "ts_tasks st' v = Some (Some i)" for u v i
    using that o(3) [of u i v] o(3) [of u i other] o(3) [of other i v] unfolding h [of u i] h [of v i]
    by (cases "u = t"; cases "v = t") simp_all
qed

lemma destructor_owned:
  assumes "owned st" "ts_tasks st t \<noteq> None"
  shows "\<exists>st'. task_destructor t st = Some st' \<and> owned st'"
proof -
  obtain h where h: "ts_tasks st t = Some h" using assms(2) by blast
  obtain s1 where s1: "handle_destroy h st = Some s1" "ts_tasks s1 = ts_tasks st" "ts_next s1 = ts_next st"
    "\<And>i. ts_frames s1 i = (if h = Some i then None else ts_frames st i)"
    using handle_destroy_owned [OF assms(1) h] by blast
  note o = ownedD [OF assms(1)]
  have "owned (s1\<lparr>ts_tasks := (ts_tasks s1)(t := None)\<rparr>)"
  proof (rule ownedI)
    fix i assume "ts_frames (s1\<lparr>ts_tasks := (ts_tasks s1)(t := None)\<rparr>) i \<noteq> None"
    then have "ts_frames st i \<noteq> None" "h \<noteq> Some i" using s1(4) [of i] by (auto split: if_splits)
    then obtain u where "ts_tasks st u = Some (Some i)" "i < ts_next st" "u \<noteq> t" using o(1) h by fastforce
    then show "i < ts_next (s1\<lparr>ts_tasks := (ts_tasks s1)(t := None)\<rparr>)
        \<and> (\<exists>u. ts_tasks (s1\<lparr>ts_tasks := (ts_tasks s1)(t := None)\<rparr>) u = Some (Some i))" using s1 by auto
  next
    fix u i assume "ts_tasks (s1\<lparr>ts_tasks := (ts_tasks s1)(t := None)\<rparr>) u = Some (Some i)"
    then have u: "ts_tasks st u = Some (Some i)" "u \<noteq> t" using s1(2) by (auto split: if_splits)
    then have "h \<noteq> Some i" using o(3) [of u i t] h by auto
    then show "ts_frames (s1\<lparr>ts_tasks := (ts_tasks s1)(t := None)\<rparr>) i \<noteq> None" using o(2) [OF u(1)] s1(4) by simp
  qed (use o(3) s1(2) in \<open>auto split: if_splits\<close>)
  then show ?thesis using h s1(1) by (simp add: task_destructor_def)
qed

lemma move_owned:
  assumes "owned st" "ts_tasks st t = None" "ts_tasks st other \<noteq> None"
  shows "\<exists>st'. task_move t other st = Some st' \<and> owned st'"
proof -
  obtain h where h: "ts_tasks st other = Some h" "t \<noteq> other" using assms(2,3) by (cases "t = other") auto
  then have "task_move t other st = Some (st\<lparr>ts_tasks := (ts_tasks st)(t \<mapsto> h, other \<mapsto> None)\<rparr>)"
    using assms(2) by (simp add: task_move_def)
  moreover have "owned (st\<lparr>ts_tasks := (ts_tasks st)(t \<mapsto> h, other \<mapsto> None)\<rparr>)"
    by (rule transfer_owned [OF assms(1), where t = t and other = other]) (use assms(2) h in auto)
  ultimately show ?thesis by blast
qed

lemma assign_owned:
  assumes "owned st" "ts_tasks st t \<noteq> None" "ts_tasks st other \<noteq> None"
  shows "\<exists>st'. task_assign t other st = Some st' \<and> owned st'"
proof (cases "t = other")
  case True
  then show ?thesis using assms by (auto simp: task_assign_def)
next
  case False
  obtain h h' where h: "ts_tasks st t = Some h" "ts_tasks st other = Some h'" using assms(2,3) by blast
  obtain s1 where s1: "handle_destroy h st = Some s1" "ts_tasks s1 = ts_tasks st" "ts_next s1 = ts_next st"
    "\<And>i. ts_frames s1 i = (if h = Some i then None else ts_frames st i)"
    using handle_destroy_owned [OF assms(1) h(1)] by blast
  have "owned (s1\<lparr>ts_tasks := (ts_tasks s1)(t \<mapsto> h', other \<mapsto> None)\<rparr>)"
    by (rule transfer_owned [OF assms(1), where t = t and other = other]) (use False h s1 in auto)
  then show ?thesis using False h s1(1) by (simp add: task_assign_def)
qed

lemma handle_resume_owned:
  assumes "owned st" "handle_resume body i st = Some st'"
  shows "owned st'"
  by (rule owned_same [OF assms(1)])
    (use assms(2) in \<open>auto simp: handle_resume_def split: option.splits if_splits\<close>)

lemma task_resume_defined:
  assumes "owned st" "ts_tasks st t \<noteq> None"
  shows "\<exists>st'. task_resume body t st = Some st' \<and> owned st'"
proof (cases "ts_tasks st t")
  case (Some h)
  show ?thesis
  proof (cases h)
    case None
    then show ?thesis using Some assms(1) by (simp add: task_resume_def)
  next
    case (Some i)
    then obtain f where f: "ts_frames st i = Some f" using ownedD(2) [OF assms(1), of t i] \<open>ts_tasks st t = Some h\<close> by auto
    show ?thesis
    proof (cases "fr_point f")
      case None
      then show ?thesis using Some \<open>ts_tasks st t = Some h\<close> f assms(1) by (simp add: task_resume_def task_done_def)
    next
      case p: (Some p)
      then obtain st' where r: "handle_resume body i st = Some st'" using f by (simp add: handle_resume_def)
      with handle_resume_owned [OF assms(1) r] show ?thesis
        using Some \<open>ts_tasks st t = Some h\<close> f p by (simp add: task_resume_def task_done_def)
    qed
  qed
qed (use assms(2) in simp)

text \<open>
  Operations on \<open>Task\<close> objects are defined and keep the ownership: a frame is destroyed once,
  by its owner, and never used afterwards.
\<close>

lemma scoped_step:
  assumes "owned st" "op_scoped x st"
  shows "\<exists>st'. task_step body dflt x st = Some st' \<and> owned st'"
proof (cases x)
  case (Create t p)
  then obtain st' where "task_create body dflt t p st = Some st'" using assms(2) by (simp add: task_create_def)
  with create_owned [OF assms(1) this] show ?thesis using Create by auto
next
  case (Move t other)
  then show ?thesis using move_owned [of st t other] assms by simp
next
  case (Assign t other)
  then show ?thesis using assign_owned [of st t other] assms by simp
next
  case (Destructor t)
  then show ?thesis using destructor_owned [of st t] assms by simp
next
  case (Resume t)
  then show ?thesis using task_resume_defined [of st t body] assms by simp
qed (use assms(2) in simp)

fun ops_scoped :: "('b, 'v) body \<Rightarrow> 'v \<Rightarrow> 'b task_op list \<Rightarrow> ('b, 'v) TaskStore \<Rightarrow> bool" where
  "ops_scoped body dflt [] st = True"
| "ops_scoped body dflt (x # xs) st =
     (op_scoped x st \<and> (case task_step body dflt x st of None \<Rightarrow> True | Some st' \<Rightarrow> ops_scoped body dflt xs st'))"

text \<open>
  C39. Tasks own their coroutine frames. Whatever coroutines are called, and however their
  \<open>Task\<close> objects are moved, assigned (also to themselves), resumed and destroyed, as long as
  the objects are used in their lifetime, no operation is undefined: a frame always has
  exactly one owner, is destroyed once and is not touched afterwards. When the last \<open>Task\<close>
  has ended no frame is left.
\<close>

theorem tasks_own_their_frames:
  assumes "ops_scoped body dflt xs no_tasks"
  shows "\<exists>st. task_ops body dflt xs no_tasks = Some st \<and> owned st
    \<and> ((\<forall>t. ts_tasks st t = None) \<longrightarrow> (\<forall>i. ts_frames st i = None))"
proof -
  have run: "\<exists>st'. task_ops body dflt xs st = Some st' \<and> owned st'" if "owned st" "ops_scoped body dflt xs st" for xs st
    using that
  proof (induction xs arbitrary: st)
    case (Cons x xs)
    then obtain s1 where "task_step body dflt x st = Some s1" "owned s1" using scoped_step by fastforce
    then show ?case using Cons by simp
  qed simp
  have "owned no_tasks" by (simp add: owned_def no_tasks_def)
  from run [OF this assms] obtain st where "task_ops body dflt xs no_tasks = Some st" "owned st" by blast
  moreover have "(\<forall>t. ts_tasks st t = None) \<longrightarrow> (\<forall>i. ts_frames st i = None)"
    using ownedD(1) [OF \<open>owned st\<close>] by fastforce
  ultimately show ?thesis by blast
qed

definition countdown :: "(nat, nat) body" where
  "countdown n = (if n = 0 then Returns 7 else Suspends (n - 1))"

theorem tasks_own_their_frames_witness:
  "\<exists>st. task_ops countdown 0 [Create 0 1, Move 1 0, Resume 1, Create 2 5, Assign 1 2, Assign 1 1, Destructor 1,
       Destructor 0, Destructor 2] no_tasks = Some st \<and> (\<forall>i. ts_frames st i = None)"
proof -
  let ?xs = "[Create 0 1, Move 1 0, Resume 1, Create 2 5, Assign 1 2, Assign 1 1, Destructor 1, Destructor 0, Destructor 2]"
  note defs = no_tasks_def task_create_def task_move_def task_resume_def task_assign_def task_destructor_def
    handle_destroy_def handle_resume_def task_done_def run_frame_def countdown_def return_value_def
  have "ops_scoped countdown 0 ?xs no_tasks" by (simp add: defs)
  from tasks_own_their_frames [OF this] obtain st where st: "task_ops countdown 0 ?xs no_tasks = Some st"
    "(\<forall>t. ts_tasks st t = None) \<longrightarrow> (\<forall>i. ts_frames st i = None)" by blast
  moreover have "\<forall>t. ts_tasks st t = None" using st(1) by (auto simp: defs)
  ultimately show ?thesis by blast
qed

text \<open>
  The limits. After a move the source has a null handle: \<open>done\<close> and \<open>get_result\<close> dereference it
  without the check that \<open>resume\<close> and the destructor make. A handle kept by the event loop is not
  protected: once the owner has ended, its resumption is undefined.
\<close>

lemma moved_from_undefined:
  assumes "task_move t other st = Some st'"
  shows "task_done other st' = None" "task_get_result other st' = None" "task_resume body other st' = Some st'"
  using assms by (auto simp: task_move_def task_done_def task_get_result_def task_resume_def split: option.splits if_splits)

lemma kept_handle_dangles:
  assumes "task_get_handle t st = Some (Some i)" "task_destructor t st = Some st'"
  shows "handle_resume body i st' = None"
  using assms by (auto simp: task_get_handle_def task_destructor_def handle_destroy_def handle_resume_def split: option.splits if_splits)

text \<open>An exception of the body is swallowed: the task is done, with the result it had before.\<close>

lemma exception_swallowed:
  assumes "ts_tasks st t = Some (Some i)" "ts_frames st i = Some f" "fr_point f = Some p" "body p = Throws"
  shows "\<exists>st'. task_resume body t st = Some st' \<and> task_done t st' = Some True
    \<and> task_get_result t st' = task_get_result t st"
  using assms
  by (simp add: task_resume_def task_done_def handle_resume_def run_frame_def unhandled_exception_def
      task_get_result_def promise_get_result_def)

lemma returned_value_kept:
  assumes "ts_tasks st t = Some (Some i)" "ts_frames st i = Some f" "fr_point f = Some p" "body p = Returns v"
  shows "\<exists>st'. task_resume body t st = Some st' \<and> task_done t st' = Some True \<and> task_get_result t st' = Some v
    \<and> task_resume body t st' = Some st'"
  using assms
  by (simp add: task_resume_def task_done_def handle_resume_def run_frame_def return_value_def
      task_get_result_def promise_get_result_def)

end
