(* ===== verification/ProcUsage.thy ===== *)
theory ProcUsage
  imports Doubles DispApp
begin

section \<open>Process usage\<close>

text \<open>
  subprojects/shared/processUtils.cpp: the CPU and memory figures of the worker's interface on
  each platform, the cached path of the executable, thread names. What the operating system
  reports (the times, the text of a file under /proc, the target of a link) is an argument;
  the static variables of \<open>get_process_usage\<close> are a state. A read of a variable that no
  extraction has set is undefined behaviour, \<open>None\<close>.
\<close>

unbundle bit_operations_syntax

record ProcessUsage =
  cpu_percent :: double
  memory_bytes :: u64

text \<open>The conversion of an unsigned number to a \<open>double\<close> rounds.\<close>

definition u64_val :: "u64 \<Rightarrow> rat" where
  "u64_val w = of_nat (unat w)"

definition dbl_u64 :: "u64 \<Rightarrow> double" where
  "dbl_u64 w = double_of (u64_val w)"

definition percent_of :: "u64 \<Rightarrow> u64 \<Rightarrow> double" where
  "percent_of part whole = dbl_mul (dbl_div (dbl_u64 part) (dbl_u64 whole)) (double_of 100)"

subsection \<open>Windows\<close>

record FILETIME =
  dwHighDateTime :: u32
  dwLowDateTime :: u32

definition file_time :: "FILETIME \<Rightarrow> u64" where
  "file_time t = push_bit 32 (ucast (dwHighDateTime t)) OR ucast (dwLowDateTime t)"

record WinUsage =
  wu_last_time :: u64
  wu_last_sys_time :: u64
  wu_last_user_time :: u64

definition win_process_usage ::
  "FILETIME \<Rightarrow> FILETIME \<Rightarrow> FILETIME \<Rightarrow> FILETIME \<Rightarrow> u64 option \<Rightarrow> WinUsage \<Rightarrow> ProcessUsage \<times> WinUsage" where
  "win_process_usage sys_kernel sys_user proc_kernel proc_user working_set st =
     (let now = file_time sys_kernel + file_time sys_user;
          proc_sys_time = file_time proc_kernel;
          proc_user_time = file_time proc_user;
          proc_now = proc_sys_time + proc_user_time;
          percent = (if wu_last_time st \<noteq> 0
                     then percent_of (proc_now - wu_last_user_time st - wu_last_sys_time st) (now - wu_last_time st)
                     else double_of 0);
          mem = (case working_set of Some m \<Rightarrow> m | None \<Rightarrow> 0)
      in (\<lparr>cpu_percent = percent, memory_bytes = mem\<rparr>,
          \<lparr>wu_last_time = now, wu_last_sys_time = proc_sys_time, wu_last_user_time = proc_user_time\<rparr>))"

subsection \<open>Linux\<close>

text \<open>
  An input stream is its remaining text, \<open>None\<close> once it has failed or when the file could not
  be opened. The extraction of a number leaves the variable alone when the stream has failed
  or is at its end after white space (\<open>None\<close>), and stores 0 when there is no digit.
\<close>

type_synonym istream = "string option"

definition extract_string :: "istream \<Rightarrow> istream" where
  "extract_string st = (case st of None \<Rightarrow> None | Some t \<Rightarrow> map_option snd (next_token t))"

definition extract_u64 :: "istream \<Rightarrow> u64 option \<times> istream" where
  "extract_u64 st =
     (case st of
        None \<Rightarrow> (None, None)
      | Some t \<Rightarrow>
          let t1 = dropWhile is_space t in
          if t1 = [] then (None, None)
          else
            let neg = (hd t1 = CHR ''-'');
                t2 = (if hd t1 \<in> {CHR ''-'', CHR ''+''} then tl t1 else t1);
                ds = takeWhile is_digit t2;
                v = digits_value ds
            in if ds = [] then (Some 0, None)
               else if 2 ^ 64 \<le> v then (Some (- 1), None)
               else (Some (word_of_int (if neg then - v else v)), Some (dropWhile is_digit t2)))"

text \<open>A row of extractions; the values are defined only if all of them stored one.\<close>

fun extract_row :: "nat \<Rightarrow> istream \<Rightarrow> u64 list option" where
  "extract_row 0 st = Some []"
| "extract_row (Suc n) st =
     (case extract_u64 st of
        (None, _) \<Rightarrow> None
      | (Some v, st') \<Rightarrow> map_option ((#) v) (extract_row n st'))"

record LinuxUsage =
  lu_last_total_time :: u64
  lu_last_proc_time :: u64

definition linux_process_usage ::
  "istream \<Rightarrow> istream \<Rightarrow> istream \<Rightarrow> u64 \<Rightarrow> LinuxUsage \<Rightarrow> (ProcessUsage \<times> LinuxUsage) option" where
  "linux_process_usage stat_file proc_file statm_file page_size st =
     (case extract_row 8 (extract_string stat_file) of
        None \<Rightarrow> None
      | Some cpu_times \<Rightarrow>
          let total_time = sum_list cpu_times in
     (case extract_row 2 ((extract_string ^^ 13) proc_file) of
        None \<Rightarrow> None
      | Some proc_times \<Rightarrow>
          let proc_time = sum_list proc_times;
              percent = (if lu_last_total_time st \<noteq> 0
                         then percent_of (proc_time - lu_last_proc_time st) (total_time - lu_last_total_time st)
                         else double_of 0) in
     (case extract_row 2 statm_file of
        Some [vm_size, rss] \<Rightarrow>
          Some (\<lparr>cpu_percent = percent, memory_bytes = rss * page_size\<rparr>,
                \<lparr>lu_last_total_time = total_time, lu_last_proc_time = proc_time\<rparr>)
      | _ \<Rightarrow> None)))"

subsection \<open>macOS\<close>

record timeval =
  tv_sec :: u64
  tv_usec :: "32 word"

definition timeval_us :: "timeval \<Rightarrow> u64" where
  "timeval_us t = tv_sec t * 1000000 + scast (tv_usec t)"

record MacUsage =
  mu_last_wall_time :: u64
  mu_last_proc_time :: u64

definition mac_process_usage ::
  "timeval \<Rightarrow> timeval \<Rightarrow> timeval \<Rightarrow> u64 \<Rightarrow> MacUsage \<Rightarrow> ProcessUsage \<times> MacUsage" where
  "mac_process_usage ru_utime ru_stime tv resident_size st =
     (let proc_time = timeval_us ru_utime + timeval_us ru_stime;
          wall_time = timeval_us tv;
          percent = (if mu_last_wall_time st \<noteq> 0
                     then let delta_proc = proc_time - mu_last_proc_time st;
                              delta_wall = wall_time - mu_last_wall_time st
                          in if delta_wall > 0 then percent_of delta_proc delta_wall else double_of 0
                     else double_of 0)
      in (\<lparr>cpu_percent = percent, memory_bytes = resident_size\<rparr>,
          \<lparr>mu_last_wall_time = wall_time, mu_last_proc_time = proc_time\<rparr>))"

subsection \<open>The path of the executable\<close>

text \<open>
  \<open>readlink\<close> gives at most \<open>PATH_MAX - 1\<close> characters of the link's target, or fails; a path made
  from the buffer ends at the first NUL. The path is computed once.
\<close>

definition PATH_MAX :: nat where "PATH_MAX = 4096"

definition linux_executable_path :: "string option \<Rightarrow> string \<Rightarrow> string" where
  "linux_executable_path link cwd =
     (case link of
        Some target \<Rightarrow> takeWhile (\<lambda>c. c \<noteq> CHR 0x00) (take (PATH_MAX - 1) target)
      | None \<Rightarrow> cwd)"

definition mac_executable_path :: "string option \<Rightarrow> string \<Rightarrow> string" where
  "mac_executable_path path cwd =
     (case path of
        Some p \<Rightarrow> if length p < PATH_MAX then takeWhile (\<lambda>c. c \<noteq> CHR 0x00) p else cwd
      | None \<Rightarrow> cwd)"

definition get_executable_path :: "string \<Rightarrow> string option \<Rightarrow> string \<times> string option" where
  "get_executable_path impl cached =
     (case cached of Some p \<Rightarrow> (p, cached) | None \<Rightarrow> (impl, Some impl))"

subsection \<open>Thread names\<close>

text \<open>
  \<open>pthread_setname_np\<close> is given the name whatever its length, and its result is ignored:
  \<open>setname\<close> maps the wanted and the old name to the name the thread has afterwards.
\<close>

definition set_current_thread_name :: "(string \<Rightarrow> string \<Rightarrow> string) \<Rightarrow> string \<Rightarrow> string \<Rightarrow> string" where
  "set_current_thread_name setname name old = setname name old"

subsection \<open>The figures are percentages\<close>

lemma round_mag_small [simp]: "round_mag 1 = 1" "round_mag 100 = 100" "round_mag 200 = 200" "round_mag 2 = 2"
proof -
  have "fits53 (of_int k)" if "0 \<le> k" "k < 2 ^ 53" for k
    unfolding fits53_def using that by (intro exI [of _ k] exI [of _ 0]) simp
  from this [of 1] this [of 100] this [of 200] this [of 2]
  show "round_mag 1 = 1" "round_mag 100 = 100" "round_mag 200 = 200" "round_mag 2 = 2"
    using round_mag_fits by auto
qed

lemma below_huge [simp]: "x \<le> 2 ^ 64 \<Longrightarrow> x < huge"
proof -
  have "(2 :: rat) ^ 64 < 2 ^ 1024" by (rule power_strict_increasing) simp_all
  then show "x \<le> 2 ^ 64 \<Longrightarrow> x < huge" unfolding huge_def by (rule le_less_trans [rotated])
qed

lemma u64_val_simps [simp]:
  "0 \<le> u64_val w" "u64_val w \<le> 2 ^ 64" "u64_val w = 0 \<longleftrightarrow> w = 0" "u64_val v \<le> u64_val w \<longleftrightarrow> v \<le> w"
proof -
  have "unat w < 2 ^ 64" using unsigned_less [of w, where 'a = nat] by simp
  then have "(of_nat (unat w) :: rat) \<le> of_nat (2 ^ 64)" by (simp only: of_nat_le_iff)
  then show "u64_val w \<le> 2 ^ 64" by (simp only: u64_val_def of_nat_power of_nat_numeral)
qed (simp_all only: u64_val_def of_nat_0_le_iff of_nat_eq_0_iff of_nat_le_iff word_le_nat_alt unat_eq_0)

lemma u64_val_0 [simp]: "u64_val 0 = 0"
  by simp

lemma dbl_u64_num:
  "dbl_u64 w = Num False (round_mag (u64_val w))" "round_mag (u64_val w) = 0 \<longleftrightarrow> w = 0"
proof -
  have "round_mag (u64_val w) \<le> round_mag (2 powi 64)" using u64_val_simps(2) [of w] by (intro round_mag_mono) simp_all
  also have "round_mag (2 powi 64) = 2 powi 64" by (rule round_mag_fits, rule fits_power) simp
  finally have "round_mag (u64_val w) < huge" by (intro below_huge) simp
  then show "dbl_u64 w = Num False (round_mag (u64_val w))"
    by (simp add: dbl_u64_def double_of_def round_double_def Let_def not_less)
  show "round_mag (u64_val w) = 0 \<longleftrightarrow> w = 0"
  proof (cases "w = 0")
    case False
    then have "1 \<le> unat w" using unat_eq_0 [of w] by linarith
    then have "(of_nat 1 :: rat) \<le> u64_val w" unfolding u64_val_def by (simp only: of_nat_le_iff)
    then have "round_mag 1 \<le> round_mag (u64_val w)" by (intro round_mag_mono) simp_all
    then show ?thesis using False by auto
  qed simp
qed

lemma percent_of_div:
  assumes "whole \<noteq> 0"
    and "round_mag (round_mag (u64_val part) / round_mag (u64_val whole)) \<le> 2" (is "round_mag ?q \<le> 2")
  shows "percent_of part whole = Num False (round_mag (round_mag ?q * 100))"
proof -
  have "0 \<le> ?q" by simp
  then have "round_mag (round_mag ?q * 100) \<le> round_mag 200" using assms(2) by (intro round_mag_mono) simp_all
  then have "round_mag (round_mag ?q * 100) < huge" by (intro below_huge) simp
  moreover have "round_mag ?q < huge" using assms(2) by (intro below_huge) simp
  moreover have "double_of 100 = Num False 100" by (simp add: double_of_def round_double_def Let_def)
  ultimately show ?thesis using assms(1)
    by (simp add: percent_of_def dbl_u64_num round_double_def Let_def)
qed

text \<open>A part of a whole that is not empty is a percentage between 0 and 100.\<close>

lemma percent_of_range:
  assumes "part \<le> whole" "whole \<noteq> 0"
  shows "\<exists>m. percent_of part whole = Num False m \<and> 0 \<le> m \<and> m \<le> 100"
proof -
  let ?p = "round_mag (u64_val part)" and ?w = "round_mag (u64_val whole)"
  have "?p \<le> ?w" using assms(1) by (intro round_mag_mono) simp_all
  moreover have "0 \<le> ?p" "0 < ?w" using dbl_u64_num(2) [of whole] assms(2) round_mag_nonneg [of "u64_val whole"]
    by (auto simp: less_le)
  ultimately have d: "0 \<le> ?p / ?w" "?p / ?w \<le> 1" by (simp_all add: divide_le_eq)
  from round_mag_mono [OF d] have q: "round_mag (?p / ?w) \<le> 1" by simp
  then have "round_mag (round_mag (?p / ?w) * 100) \<le> round_mag 100"
    by (intro round_mag_mono) (use d in simp_all)
  moreover have "0 \<le> round_mag (round_mag (?p / ?w) * 100)" using d by simp
  ultimately show ?thesis using percent_of_div [OF assms(2), of part] q by simp
qed

text \<open>Without an elapsed interval the quotient is not a number or infinite.\<close>

lemma percent_of_empty: "percent_of part 0 = (if part = 0 then NaN else Inf False)"
proof -
  have "double_of 100 = Num False 100" by (simp add: double_of_def round_double_def Let_def)
  then show ?thesis using dbl_u64_num(2) [of part] dbl_u64_num(2) [of 0] by (auto simp: percent_of_def dbl_u64_num(1))
qed

lemma percent_of_twice:
  assumes "unat part = 2 * unat whole" "whole \<noteq> 0" "unat whole < 2 ^ 52"
  shows "percent_of part whole = Num False 200"
proof -
  have fit: "round_mag (of_nat n) = of_nat n" if "n < 2 ^ 53" for n
  proof (rule round_mag_fits, unfold fits53_def, rule exI [of _ "int n"], rule exI [of _ 0])
    have "int n < int (2 ^ 53)" using that by (simp only: of_nat_less_iff)
    then show "(of_nat n :: rat) = of_int (int n) * 2 powi 0 \<and> 0 \<le> int n \<and> int n < 2 ^ 53 \<and> - 1074 \<le> (0 :: int)" by simp
  qed
  have "round_mag (u64_val whole) = u64_val whole" unfolding u64_val_def using assms(3) by (intro fit) simp
  moreover have "round_mag (u64_val part) = u64_val part" unfolding u64_val_def using assms(1,3) by (intro fit) simp
  moreover have "u64_val part = 2 * u64_val whole"
    unfolding u64_val_def assms(1) by (simp only: of_nat_mult of_nat_numeral)
  ultimately have "round_mag (u64_val part) / round_mag (u64_val whole) = 2" using assms(2) by simp
  then show ?thesis using percent_of_div [OF assms(2), of part] by simp
qed

text \<open>
  The figure of the worker's interface lies between 0 and 100 whenever the process has not
  used more time than passed between the two calls and some time has passed.
\<close>

theorem linux_percent_range:
  assumes "linux_process_usage stat_file proc_file statm_file page_size st = Some (u, st')"
    "lu_last_total_time st \<noteq> 0 \<Longrightarrow> lu_last_total_time st' \<noteq> lu_last_total_time st"
    "lu_last_proc_time st' - lu_last_proc_time st \<le> lu_last_total_time st' - lu_last_total_time st"
  shows "\<exists>m. cpu_percent u = Num False m \<and> 0 \<le> m \<and> m \<le> 100"
proof (cases "lu_last_total_time st = 0")
  case True
  then have "cpu_percent u = double_of 0" using assms(1)
    by (auto simp: linux_process_usage_def Let_def split: option.splits list.splits)
  then show ?thesis by (auto simp: double_of_def round_double_def Let_def)
next
  case False
  then have "cpu_percent u = percent_of (lu_last_proc_time st' - lu_last_proc_time st)
      (lu_last_total_time st' - lu_last_total_time st)" using assms(1)
    by (auto simp: linux_process_usage_def Let_def split: option.splits list.splits)
  then show ?thesis using percent_of_range [OF assms(3)] assms(2) False by auto
qed

text \<open>
  The limits. Two calls within one tick divide by zero, on Linux and on Windows; the macOS
  branch guards against it, but its figure is relative to one core: two busy threads give
  200 percent.
\<close>

lemma linux_same_tick:
  assumes "linux_process_usage stat_file proc_file statm_file page_size st = Some (u, st')"
    "lu_last_total_time st \<noteq> 0" "lu_last_total_time st' = lu_last_total_time st"
  shows "isnan (cpu_percent u) \<or> isinf (cpu_percent u)"
  using assms by (auto simp: linux_process_usage_def Let_def percent_of_empty split: option.splits list.splits if_splits)

lemma win_same_tick:
  assumes "win_process_usage sk su pk pu ws st = (u, st')"
    "wu_last_time st \<noteq> 0" "wu_last_time st' = wu_last_time st"
  shows "isnan (cpu_percent u) \<or> isinf (cpu_percent u)"
  using assms by (auto simp: win_process_usage_def Let_def percent_of_empty split: if_splits)

lemma mac_two_cores:
  "fst (mac_process_usage \<lparr>tv_sec = 2, tv_usec = 0\<rparr> \<lparr>tv_sec = 1, tv_usec = 0\<rparr> \<lparr>tv_sec = 11, tv_usec = 0\<rparr> 4096
     \<lparr>mu_last_wall_time = 10000000, mu_last_proc_time = 1000000\<rparr>) = \<lparr>cpu_percent = Num False 200, memory_bytes = 4096\<rparr>"
  using percent_of_twice [of 2000000 1000000] by (simp add: mac_process_usage_def timeval_us_def Let_def)

text \<open>
  The fields of /proc/self/stat are counted by blanks: a process name with a blank in it
  shifts them by one, and \<open>cmajflt\<close> and \<open>utime\<close> are read for \<open>utime\<close> and \<open>stime\<close>.
\<close>

lemma blank_in_name_shifts_fields:
  "extract_row 2 ((extract_string ^^ 13) (Some ''1 (tm) S 1 1 1 0 -1 0 0 0 0 0 30 7 0 0'')) = Some [30, 7]"
  "extract_row 2 ((extract_string ^^ 13) (Some ''1 (t m) S 1 1 1 0 -1 0 0 0 0 0 30 7 0 0'')) = Some [0, 30]"
  by (simp_all add: eval_nat_numeral extract_string_def extract_u64_def next_token_def Let_def digits_value_def
      is_space_def is_digit_def)

text \<open>A name longer than 15 characters is refused by the library: these two threads keep their old name.\<close>

lemma long_thread_names_ignored:
  assumes "\<And>name old. 15 < length name \<Longrightarrow> setname name old = old"
  shows "set_current_thread_name setname ''MonitoringAcceptor'' old = old"
    "set_current_thread_name setname ''MonitoringReporter'' old = old"
  by (simp_all add: set_current_thread_name_def assms)

end
