(* ===== verification/Reports.thy ===== *)
theory Reports
  imports ProcUsage IoContext SessionMgr
begin

section \<open>Reports and loops around the components\<close>

text \<open>
  What the program shows of its state: the byte counters of the worker's interface
  (\<open>WorkerSession::format_bytes\<close>), the session reports of \<open>SessionManager\<close> and the statistics
  report of \<open>CoroIoContext\<close>; and two pieces of glue: the loop of an event loop thread and the
  search for the dashboard's files. Text is made as the code makes it; the text
  \<open>std::to_string\<close> makes of a floating point number is the argument \<open>fmt\<close>. A report to the
  logger is the list of its lines.
\<close>

subsection \<open>Byte counters\<close>

definition units :: "string list" where
  "units = [''B'', ''KB'', ''MB'', ''GB'', ''TB'']"

definition unit_count :: nat where
  "unit_count = 5"

function scale_bytes :: "double \<Rightarrow> nat \<Rightarrow> double \<times> nat" where
  "scale_bytes value unit_index =
     (if dbl_le (double_of 1024) value \<and> unit_index + 1 < unit_count
      then scale_bytes (dbl_div value (double_of 1024)) (Suc unit_index) else (value, unit_index))"
  by pat_completeness auto
termination by (relation "measure (\<lambda>(_, i). unit_count - i)") auto

declare scale_bytes.simps [simp del]

text \<open>A stream in \<open>fixed\<close> notation: the decimal number with the given digits nearest to the exact value, ties to even.\<close>

definition fixed_digits :: "nat \<Rightarrow> nat \<Rightarrow> string" where
  "fixed_digits p k =
     (if p = 0 then to_string k
      else to_string (k div 10 ^ p) @ ''.'' @ (let d = to_string (k mod 10 ^ p) in replicate (p - length d) (CHR ''0'') @ d))"

definition fixed_text :: "nat \<Rightarrow> double \<Rightarrow> string" where
  "fixed_text p x =
     (case x of
        NaN \<Rightarrow> ''nan''
      | Inf s \<Rightarrow> (if s then ''-inf'' else ''inf'')
      | Num s m \<Rightarrow> (if s then ''-'' else []) @ fixed_digits p (nat (rne (m * 10 ^ p))))"

definition format_bytes :: "u64 \<Rightarrow> string" where
  "format_bytes bytes =
     (case scale_bytes (dbl_u64 bytes) 0 of
        (value, unit_index) \<Rightarrow>
          fixed_text (if dbl_le (double_of 100) value \<or> unit_index = 0 then 0 else 1) value @ units ! unit_index)"

text \<open>The counters are 0 before a runtime exists.\<close>

definition GetBytes :: "u64 option \<Rightarrow> string" where
  "GetBytes runtime_bytes = format_bytes (case runtime_bytes of Some b \<Rightarrow> b | None \<Rightarrow> 0)"

subsection \<open>Session reports\<close>

definition get_session_info :: "(nat \<Rightarrow> string) \<Rightarrow> Dispatcher \<Rightarrow> string list" where
  "get_session_info live d =
     map (\<lambda>(k, s). ''Session '' @ to_string k @ '': '' @ get_client_endpoint (live k) s
            @ '' ['' @ get_state_name (s_state s) @ '']'') (d_sessions d)"

record session_totals =
  total_sent :: u64
  total_completed :: u64
  total_failed :: u64
  total_bytes_sent :: u64
  total_bytes_received :: u64
  total_roundtrip_ns :: int
  total_timed_tasks :: u32

definition no_totals :: session_totals where
  "no_totals = \<lparr>total_sent = 0, total_completed = 0, total_failed = 0, total_bytes_sent = 0,
     total_bytes_received = 0, total_roundtrip_ns = 0, total_timed_tasks = 0\<rparr>"

definition add_totals :: "SessionStats \<Rightarrow> session_totals \<Rightarrow> session_totals" where
  "add_totals st t =
     \<lparr>total_sent = total_sent t + ucast (tasks_sent st), total_completed = total_completed t + ucast (tasks_completed st),
      total_failed = total_failed t + ucast (tasks_failed st), total_bytes_sent = total_bytes_sent t + bytes_sent st,
      total_bytes_received = total_bytes_received t + bytes_received st,
      total_roundtrip_ns = total_roundtrip_ns t + total_task_roundtrip_time st,
      total_timed_tasks = total_timed_tasks t + timed_tasks st\<rparr>"

definition session_totals_of :: "Dispatcher \<Rightarrow> session_totals" where
  "session_totals_of d = fold (\<lambda>(k, s). add_totals (s_stats s)) (d_sessions d) no_totals"

definition overall_success_rate :: "session_totals \<Rightarrow> u64" where
  "overall_success_rate t = (if 0 < total_sent t then (total_completed t * 100) div total_sent t else 0)"

text \<open>The rate per second divides unsigned by signed numbers of 32 and 64 bits: the result is signed.\<close>

definition throughput :: "int \<Rightarrow> SessionStats \<Rightarrow> int" where
  "throughput duration st = (if 0 < duration then uint (tasks_completed st) div duration else 0)"

definition int_text :: "int \<Rightarrow> string" where
  "int_text i = (if i < 0 then ''-'' else []) @ to_string (nat \<bar>i\<bar>)"

definition session_lines :: "(rat \<Rightarrow> string) \<Rightarrow> int \<Rightarrow> string \<Rightarrow> nat \<Rightarrow> Session \<Rightarrow> string list" where
  "session_lines fmt now live session_id s =
     (let st = s_stats s; duration = get_duration now st in
      [''Session '' @ to_string session_id @ '':'',
       ''  Endpoint: '' @ get_client_endpoint live s,
       ''  State: '' @ get_state_name (s_state s),
       ''  Duration: '' @ int_text duration @ '' seconds'',
       ''  Tasks Sent: '' @ to_string (unat (tasks_sent st)),
       ''  Tasks Completed: '' @ to_string (unat (tasks_completed st)),
       ''  Tasks Failed: '' @ to_string (unat (tasks_failed st)),
       ''  Success Rate: '' @ fmt (get_success_rate st) @ ''%'',
       ''  Throughput: '' @ int_text (throughput duration st) @ '' tasks/sec'',
       ''  Bytes: sent='' @ to_string (unat (bytes_sent st)) @ '', recv='' @ to_string (unat (bytes_received st)),
       ''  Timed Tasks: '' @ to_string (unat (timed_tasks st)),
       ''  Roundtrip (ms): total='' @ fmt (of_int (total_task_roundtrip_time st) / 1000000)
         @ '', avg='' @ fmt (get_avg_roundtrip_ms st) @ '', last='' @ fmt (of_int (last_task_roundtrip_time st) / 1000000)])"

definition print_comprehensive_statistics :: "(rat \<Rightarrow> string) \<Rightarrow> int \<Rightarrow> (nat \<Rightarrow> string) \<Rightarrow> Dispatcher \<Rightarrow> string list" where
  "print_comprehensive_statistics fmt now live d =
     [''=== COMPREHENSIVE SESSION STATISTICS ===''] @
     (if d_sessions d = [] then
        [''No active sessions'', ''Task Queue: '' @ to_string (get_task_queue_size d) @ '' tasks available'']
      else
        let t = session_totals_of d;
            rt = of_int (total_roundtrip_ns t) / 1000000;
            avg = (if 0 < total_timed_tasks t then rt / of_nat (unat (total_timed_tasks t)) else 0)
        in concat (map (\<lambda>(k, s). session_lines fmt now (live k) k s) (d_sessions d)) @
           [''=== SUMMARY ==='',
            ''Total Sessions: '' @ to_string (length (d_sessions d)),
            ''Total Tasks Sent: '' @ to_string (unat (total_sent t)),
            ''Total Tasks Completed: '' @ to_string (unat (total_completed t)),
            ''Total Tasks Failed: '' @ to_string (unat (total_failed t)),
            ''Overall Success Rate: '' @ to_string (unat (overall_success_rate t)) @ ''%'',
            ''Bytes: total sent='' @ to_string (unat (total_bytes_sent t)) @ '', total recv=''
              @ to_string (unat (total_bytes_received t)),
            ''Roundtrip (ms): total='' @ fmt rt @ '', overall avg='' @ fmt avg @ '', timed tasks=''
              @ to_string (unat (total_timed_tasks t)),
            ''Task Queue: '' @ to_string (get_task_queue_size d) @ '' available, ''
              @ to_string (get_task_queue_waiting_workers_count d) @ '' sessions waiting'']) @
     [''========================================'']"

subsection \<open>The statistics report of the event loop\<close>

definition category_name :: "nat \<Rightarrow> string" where
  "category_name c =
     (if c = 0 then ''Generic'' else if c = 1 then ''Read'' else if c = 2 then ''ReadHeader''
      else if c = 3 then ''Write'' else ''Unknown'')"

definition histogram_lines :: "u64 list \<Rightarrow> string list" where
  "histogram_lines hist =
     map (\<lambda>i. (if i < length hist - 1 then ''  '' else ''  >='') @ to_string i @ '' : '' @ to_string (unat (hist ! i)))
       (filter (\<lambda>i. hist ! i \<noteq> 0) [0..<length hist])"

definition category_lines :: "nat \<Rightarrow> u64 list \<Rightarrow> string list" where
  "category_lines cat hist =
     (if hist = [] \<or> \<not> list_ex (\<lambda>v. v \<noteq> 0) hist then []
      else (''Completion attempt distribution ['' @ category_name cat @ '']:'') # histogram_lines hist)"

definition format_detailed_statistics :: "(rat \<Rightarrow> string) \<Rightarrow> 's CoroIoContext \<Rightarrow> string list" where
  "format_detailed_statistics fmt c =
     (let hists = concat (map (\<lambda>cat. category_lines cat (io_hists c ! cat)) [0..<category_count]) in
      [''CoroIoContext Detailed Statistics'',
       ''Total operations processed: '' @ to_string (unat (io_total c)),
       (if 0 < io_completed c
        then ''Failures before success (min/avg/max): ''
               @ to_string (unat (if io_min_failures c = -1 then 0 else io_min_failures c)) @ ''/''
               @ fmt (of_nat (unat (io_sum_failures c)) / of_nat (unat (io_completed c))) @ ''/''
               @ to_string (unat (io_max_failures c))
        else ''Failures before success: (no completed ops)'')]
      @ (if hists = [] then [''(no histogram data)''] else hists))"

definition get_operations_processed_per_thread :: "'s CoroIoContext \<Rightarrow> u64 list" where
  "get_operations_processed_per_thread c =
     map (\<lambda>i. if io_per_thread c = [] then 0 else io_per_thread c ! i) [0..<io_thread_count c]"

subsection \<open>The loop of an event loop thread\<close>

text \<open>
  \<open>envs\<close> lists what the other threads do to the context during each timed wait; a finite list
  is a beginning of the loop. The flag says whether the loop has ended.
\<close>

fun io_run ::
  "(nat \<Rightarrow> 's \<Rightarrow> (exn + bool) \<times> 's) \<Rightarrow> (nat \<Rightarrow> 's \<Rightarrow> bool) \<Rightarrow>
   (nat \<Rightarrow> 's CoroIoContext \<Rightarrow> exn option \<times> 's CoroIoContext) \<Rightarrow> nat \<Rightarrow>
   ('s CoroIoContext \<Rightarrow> 's CoroIoContext) list \<Rightarrow> 's CoroIoContext \<Rightarrow> bool \<times> 's CoroIoContext" where
  "io_run tc fin res ti [] c = (\<not> io_loop_continues c, c)"
| "io_run tc fin res ti (env # envs) c =
     (if io_loop_continues c then io_run tc fin res ti envs (env (process_pending_ops tc fin res ti c)) else (True, c))"

text \<open>The predicate of the timed wait: when it holds, the wait returns at once.\<close>

definition wait_returns_at_once :: "'s CoroIoContext \<Rightarrow> bool" where
  "wait_returns_at_once c \<longleftrightarrow> \<not> io_running c \<or> io_pending c \<noteq> []"

definition poll_once_for ::
  "(nat \<Rightarrow> 's \<Rightarrow> (exn + bool) \<times> 's) \<Rightarrow> (nat \<Rightarrow> 's \<Rightarrow> bool) \<Rightarrow>
   (nat \<Rightarrow> 's CoroIoContext \<Rightarrow> exn option \<times> 's CoroIoContext) \<Rightarrow>
   ('s CoroIoContext \<Rightarrow> 's CoroIoContext) \<Rightarrow> 's CoroIoContext \<Rightarrow> 's CoroIoContext" where
  "poll_once_for tc fin res env c = env (process_pending_ops tc fin res 0 (ensure_inline_stats c))"

subsection \<open>The dashboard's files\<close>

text \<open>\<open>std::filesystem::path\<close> on POSIX: \<open>parent_path\<close> and the append operator.\<close>

definition parent_path :: "string \<Rightarrow> string" where
  "parent_path p =
     (let r = dropWhile (\<lambda>c. c \<noteq> CHR ''/'') (rev p); q = rev (dropWhile (\<lambda>c. c = CHR ''/'') r)
      in if q = [] \<and> r \<noteq> [] then ''/'' else q)"

definition path_append :: "string \<Rightarrow> string \<Rightarrow> string" where
  "path_append p f = (if p = [] \<or> last p = CHR ''/'' then p @ f else p @ ''/'' @ f)"

definition get_executable_dir :: "string \<Rightarrow> string option \<Rightarrow> string" where
  "get_executable_dir impl cached = parent_path (fst (get_executable_path impl cached))"

text \<open>\<open>override\<close> is the directory set at build time.\<close>

definition resolve_dashboard_dir :: "string option \<Rightarrow> (string \<Rightarrow> bool) \<Rightarrow> string \<Rightarrow> string" where
  "resolve_dashboard_dir override is_directory exe_path =
     (let candidate_dev = path_append ((parent_path ^^ 4) exe_path) ''dashboard'';
          candidate_installed = path_append (parent_path exe_path) ''dashboard'';
          found = (if exe_path = [] then []
                   else if is_directory candidate_dev then candidate_dev
                   else if is_directory candidate_installed then candidate_installed else [])
      in case override of
           Some p \<Rightarrow> if is_directory p then p else found
         | None \<Rightarrow> found)"

text \<open>The response when a handler has thrown.\<close>

definition exception_response :: HttpResponse where
  "exception_response = \<lparr>hr_status = 500, hr_content_type = ''text/plain; charset=utf-8'', hr_no_store = False,
     hr_body = ''internal error'' @ newline\<rparr>"

subsection \<open>Scaling is exact\<close>

lemma fits53_bounded:
  assumes "fits53 m" "1 \<le> m"
  shows "fits53 (m / 1024)"
proof -
  obtain k u where k: "m = of_int k * 2 powi u" "0 \<le> k" "k < 2 ^ 53" "-1074 \<le> u" using assms(1) by (auto simp: fits53_def)
  have "-1064 \<le> u"
  proof (rule ccontr)
    assume "\<not> -1064 \<le> u"
    then have "(2 :: rat) powi u \<le> 2 powi -53" by (intro two_powi_le) simp
    moreover have "(of_int k :: rat) < of_int (2 ^ 53)" using k(3) by (simp only: of_int_less_iff)
    ultimately have "of_int k * (2 :: rat) powi u < of_int (2 ^ 53) * 2 powi -53"
      using k(2) by (intro mult_less_le_imp_less) simp_all
    also have "\<dots> = 1" by (simp add: power_int_minus)
    finally show False using assms(2) k(1) by simp
  qed
  moreover have "m / 1024 = of_int k * 2 powi (u + (-10))"
    unfolding two_powi_split k(1) by (simp add: power_int_minus)
  ultimately show ?thesis unfolding fits53_def using k(2,3)
    by (intro exI [of _ k] exI [of _ "u + (-10)"]) simp
qed

lemma dbl_le_nonneg_iff [simp]: "dbl_le (Num False a) (Num False b) \<longleftrightarrow> a \<le> b"
  by (auto simp: dbl_le_def)

lemma small_literals: "double_of 1024 = Num False 1024" "double_of 100 = Num False 100"
proof -
  have "fits53 (2 powi 10)" by (rule fits_power) simp
  then have "round_mag 1024 = 1024" using round_mag_fits by fastforce
  then show "double_of 1024 = Num False 1024" by (simp add: double_of_def round_double_def Let_def)
  show "double_of 100 = Num False 100" by (simp add: double_of_def round_double_def Let_def)
qed

lemma scale_bytes_spec:
  assumes "fits53 v" "0 \<le> v" "v \<le> 2 ^ 64" "i \<le> 4"
  shows "\<exists>j. scale_bytes (Num False v) i = (Num False (v / 1024 ^ j), i + j) \<and> i + j \<le> 4
    \<and> (i + j < 4 \<longrightarrow> v / 1024 ^ j < 1024) \<and> (0 < j \<longrightarrow> 1 \<le> v / 1024 ^ j)"
  using assms
proof (induction "4 - i" arbitrary: v i)
  case 0
  then have "scale_bytes (Num False v) i = (Num False v, i)" by (subst scale_bytes.simps) (simp add: unit_count_def)
  then show ?case using 0 by (intro exI [of _ 0]) simp
next
  case (Suc n)
  show ?case
  proof (cases "1024 \<le> v")
    case False
    then have "scale_bytes (Num False v) i = (Num False v, i)"
      by (subst scale_bytes.simps) (simp add: small_literals)
    then show ?thesis using Suc.prems(4) False by (intro exI [of _ 0]) simp
  next
    case True
    have lt: "i < 4" using Suc.hyps(2) by linarith
    have f: "fits53 (v / 1024)" using Suc.prems(1) True by (intro fits53_bounded) simp_all
    have le: "v / 1024 \<le> 2 ^ 64" using Suc.prems(2,3) by simp
    have "dbl_div (Num False v) (double_of 1024) = Num False (v / 1024)"
      using round_mag_fits [OF f] below_huge [OF le] by (simp add: small_literals round_double_def)
    then have step: "scale_bytes (Num False v) i = scale_bytes (Num False (v / 1024)) (Suc i)"
      using True lt by (subst scale_bytes.simps) (simp add: small_literals unit_count_def)
    obtain j where j: "scale_bytes (Num False (v / 1024)) (Suc i) = (Num False (v / 1024 / 1024 ^ j), Suc i + j)"
      "Suc i + j \<le> 4" "Suc i + j < 4 \<longrightarrow> v / 1024 / 1024 ^ j < 1024" "0 < j \<longrightarrow> 1 \<le> v / 1024 / 1024 ^ j"
    proof -
      have "n = 4 - Suc i" "0 \<le> v / 1024" "Suc i \<le> 4" using Suc.hyps(2) Suc.prems(2) lt by simp_all
      from Suc.hyps(1) [OF this(1) f this(2) le this(3)] that show ?thesis by blast
    qed
    have "1 \<le> v / 1024 / 1024 ^ j" using j(4) True by (cases "j = 0") simp_all
    then show ?thesis using step j by (intro exI [of _ "Suc j"]) (simp add: field_simps)
  qed
qed

text \<open>
  The text of a byte counter is a number and a unit: the unit is the largest one that keeps the
  number at 1 or above, up to terabytes, and the number differs from the counter, as a
  \<open>double\<close>, by at most half of its last digit.
\<close>

theorem format_bytes_accurate:
  "\<exists>j p n. format_bytes b = fixed_digits p n @ units ! j \<and> j < length units
    \<and> (p = 0 \<or> p = 1) \<and> (j = 0 \<longrightarrow> p = 0)
    \<and> (j < 4 \<longrightarrow> round_mag (u64_val b) / 1024 ^ j < 1024) \<and> (0 < j \<longrightarrow> 1 \<le> round_mag (u64_val b) / 1024 ^ j)
    \<and> \<bar>of_nat n / 10 ^ p - round_mag (u64_val b) / 1024 ^ j\<bar> \<le> 1 / (2 * 10 ^ p)"
proof -
  define v where "v = round_mag (u64_val b)"
  have v: "0 \<le> v" "fits53 v" by (simp_all add: v_def fits53_round)
  have "v \<le> round_mag (2 powi 64)" unfolding v_def using u64_val_simps(2) [of b] by (intro round_mag_mono) simp_all
  also have "round_mag (2 powi 64) = 2 powi 64" by (rule round_mag_fits, rule fits_power) simp
  finally have "v \<le> 2 ^ 64" by simp
  from scale_bytes_spec [OF v(2,1) this, of 0] obtain j where j: "scale_bytes (Num False v) 0 = (Num False (v / 1024 ^ j), j)"
    "j \<le> 4" "j < 4 \<longrightarrow> v / 1024 ^ j < 1024" "0 < j \<longrightarrow> 1 \<le> v / 1024 ^ j" by auto
  define p :: nat where "p = (if 100 \<le> v / 1024 ^ j \<or> j = 0 then 0 else 1)"
  define n where "n = nat (rne (v / 1024 ^ j * 10 ^ p))"
  have "0 \<le> rne (v / 1024 ^ j * 10 ^ p)" using v(1) by (intro rne_nonneg) simp
  then have n: "(of_nat n :: rat) = of_int (rne (v / 1024 ^ j * 10 ^ p))" by (simp add: n_def)
  have "\<bar>of_nat n / 10 ^ p - v / 1024 ^ j\<bar> = \<bar>of_nat n - v / 1024 ^ j * 10 ^ p\<bar> / 10 ^ p"
  proof -
    have "of_nat n / 10 ^ p - v / 1024 ^ j = (of_nat n - v / 1024 ^ j * 10 ^ p) / 10 ^ p" by (simp add: diff_divide_distrib)
    then show ?thesis by (simp only: abs_divide) simp
  qed
  also have "\<dots> \<le> (1 / 2) / 10 ^ p" unfolding n by (intro divide_right_mono rne_error) simp
  finally have err: "\<bar>of_nat n / 10 ^ p - v / 1024 ^ j\<bar> \<le> 1 / (2 * 10 ^ p)" by simp
  have "format_bytes b = fixed_digits p n @ units ! j"
    using j(1) by (simp add: format_bytes_def dbl_u64_num fixed_text_def small_literals p_def n_def v_def [symmetric])
  then show ?thesis using j err unfolding v_def
    by (intro exI [of _ j] exI [of _ p] exI [of _ n]) (auto simp: p_def units_def)
qed

text \<open>Just below a unit the number is rounded up to 1024.\<close>

lemma counter_rounds_to_1024: "format_bytes 1048575 = ''1024KB''"
proof -
  have fits: "fits53 1048575" unfolding fits53_def by (rule exI [of _ 1048575], rule exI [of _ 0]) simp
  then have d: "dbl_u64 1048575 = Num False 1048575"
    using round_mag_fits [of 1048575] by (simp add: dbl_u64_num u64_val_def)
  have b: "(0 :: rat) \<le> 1048575" "(1048575 :: rat) \<le> 2 ^ 64" "(0 :: nat) \<le> 4" by simp_all
  obtain j where j: "scale_bytes (Num False 1048575) 0 = (Num False (1048575 / 1024 ^ j), 0 + j) \<and> 0 + j \<le> 4
      \<and> (0 + j < 4 \<longrightarrow> 1048575 / 1024 ^ j < (1024 :: rat)) \<and> (0 < j \<longrightarrow> 1 \<le> 1048575 / (1024 :: rat) ^ j)"
    by (rule exE [OF scale_bytes_spec [OF fits b]])
  have "j \<in> {0, 1, 2, 3, 4}" using conjunct1 [OF conjunct2 [OF j]] by auto
  then have "j = 1" using conjunct2 [OF conjunct2 [OF j]] by auto
  then have "scale_bytes (Num False 1048575) 0 = (Num False (1048575 / 1024), 1)" using conjunct1 [OF j] by simp
  moreover have "\<lfloor>1048575 / 1024 :: rat\<rfloor> = 1023" by (rule floor_unique) simp_all
  then have "rne (1048575 / 1024) = 1024" by (simp add: rne_def Let_def)
  moreover have "to_string 1024 = ''1024''" by (simp add: to_string.simps) code_simp
  ultimately show ?thesis
    by (simp add: format_bytes_def d small_literals fixed_text_def fixed_digits_def units_def)
qed

subsection \<open>The event loop thread\<close>

text \<open>
  However the other threads act on the context, as long as they keep its invariant: the loop
  keeps it, and it has ended exactly when it has seen the context stopped with no outstanding
  work. Operations that are pending then stay where they are.
\<close>

lemma io_run_inv:
  assumes "only_registers res" "\<forall>env \<in> set envs. \<forall>c. io_inv c \<longrightarrow> io_inv (env c)" "io_inv c"
    "io_run tc fin res ti envs c = (ended, c')"
  shows "io_inv c' \<and> (ended \<longleftrightarrow> \<not> io_running c' \<and> io_outstanding c' = 0)"
  using assms(2-4)
proof (induction envs arbitrary: c)
  case (Cons env envs)
  show ?case
  proof (cases "io_loop_continues c")
    case True
    have "io_inv (process_pending_ops tc fin res ti c)" using process_pending_ops_spec [OF assms(1)] Cons.prems(2) by blast
    then have "io_inv (env (process_pending_ops tc fin res ti c))" using Cons.prems(1) by simp
    from Cons.IH [OF _ this] Cons.prems(1,3) True show ?thesis by simp
  qed (use Cons.prems in \<open>auto simp: io_loop_continues_def\<close>)
qed (auto simp: io_loop_continues_def)

text \<open>
  A stopped loop with outstanding work does not wait: until the last work guard has gone it
  goes round without a pause.
\<close>

lemma stopped_loop_spins:
  assumes "\<not> io_running c" "0 < io_outstanding c"
  shows "io_loop_continues c \<and> wait_returns_at_once c"
  using assms by (simp add: io_loop_continues_def wait_returns_at_once_def)

subsection \<open>Reports agree with the state\<close>

text \<open>The buckets of a histogram that are shown hold all completed operations.\<close>

lemma histogram_complete:
  "sum_list (map (\<lambda>i. hist ! i) (filter (\<lambda>i. hist ! i \<noteq> 0) [0..<length hist])) = (sum_list hist :: u64)"
proof -
  have "sum_list (map f (filter (\<lambda>x. f x \<noteq> 0) xs)) = sum_list (map f xs)" for f :: "nat \<Rightarrow> u64" and xs
    by (induction xs) auto
  from this [of "(!) hist" "[0..<length hist]"] show ?thesis by (simp add: map_nth)
qed

lemma fold_totals:
  assumes "\<forall>s \<in> set ss. unat (tasks_completed (s_stats (snd s))) \<le> unat (tasks_sent (s_stats (snd s)))"
    "unat (total_completed t) \<le> unat (total_sent t)" "unat (total_sent t) + length ss * 2 ^ 32 < 2 ^ 64"
  shows "unat (total_completed (fold (\<lambda>(k, s). add_totals (s_stats s)) ss t)) \<le> unat (total_sent (fold (\<lambda>(k, s). add_totals (s_stats s)) ss t))
    \<and> unat (total_sent (fold (\<lambda>(k, s). add_totals (s_stats s)) ss t)) \<le> unat (total_sent t) + length ss * 2 ^ 32"
  using assms
proof (induction ss arbitrary: t)
  case (Cons x ss)
  obtain k s where x: "x = (k, s)" by force
  let ?st = "s_stats s"
  have w: "unat (ucast (v :: u32) :: u64) = unat v" "unat v < 2 ^ 32" for v :: u32
    using unsigned_less [of v, where 'a = nat] by (simp_all add: unsigned_ucast_eq take_bit_nat_eq_self)
  have le: "unat (tasks_completed ?st) \<le> unat (tasks_sent ?st)" using Cons.prems(1) x by simp
  have small: "unat (total_sent t) + unat (tasks_sent ?st) < 2 ^ 64" "unat (total_completed t) + unat (tasks_completed ?st) < 2 ^ 64"
    using Cons.prems(2,3) w(2) [of "tasks_sent ?st"] le by auto
  have s: "unat (total_sent (add_totals ?st t)) = unat (total_sent t) + unat (tasks_sent ?st)"
    "unat (total_completed (add_totals ?st t)) = unat (total_completed t) + unat (tasks_completed ?st)"
    using small w(1) by (simp_all add: add_totals_def unat_word_ariths)
  have "unat (total_sent (add_totals ?st t)) + length ss * 2 ^ 32 < 2 ^ 64"
    "unat (total_sent (add_totals ?st t)) + length ss * 2 ^ 32 \<le> unat (total_sent t) + length (x # ss) * 2 ^ 32"
    using s(1) Cons.prems(3) w(2) [of "tasks_sent ?st"] by simp_all
  with Cons.IH [of "add_totals ?st t"] Cons.prems(1,2) s le x show ?case by auto
qed simp

text \<open>
  The overall success rate is at most 100 while every session has completed at most what it
  was sent and the counters fit: 32 bits for a session and fewer than ten million sessions.
\<close>

theorem overall_success_rate_bounded:
  assumes "\<forall>s \<in> set (d_sessions d). unat (tasks_completed (s_stats (snd s))) \<le> unat (tasks_sent (s_stats (snd s)))"
    "length (d_sessions d) < 10000000"
  shows "overall_success_rate (session_totals_of d) \<le> 100"
proof -
  let ?t = "session_totals_of d"
  have t: "unat (total_completed ?t) \<le> unat (total_sent ?t)" "unat (total_sent ?t) \<le> length (d_sessions d) * 2 ^ 32"
    using fold_totals [OF assms(1), of no_totals] assms(2) by (simp_all add: session_totals_of_def no_totals_def)
  have "unat (total_completed ?t) * 100 < 2 ^ 64" using t assms(2) by auto
  then have m: "unat (total_completed ?t * 100) = unat (total_completed ?t) * 100" by (simp add: unat_word_ariths)
  show ?thesis
  proof (cases "0 < total_sent ?t")
    case True
    then have "0 < unat (total_sent ?t)" by (simp add: word_less_nat_alt)
    then have "unat (total_completed ?t) * 100 div unat (total_sent ?t) \<le> 100"
      using t(1) by (metis div_le_mono div_mult_self1_is_m mult.commute mult_le_mono1)
    then show ?thesis using True m by (simp add: overall_success_rate_def word_le_nat_alt unat_div)
  qed (simp add: overall_success_rate_def)
qed

subsection \<open>The dashboard is found\<close>

lemma parent_path_child:
  assumes "p \<noteq> []" "last p \<noteq> CHR ''/''" "CHR ''/'' \<notin> set f"
  shows "parent_path (p @ ''/'' @ f) = p"
proof -
  have "dropWhile (\<lambda>c. c \<noteq> CHR ''/'') (rev (p @ ''/'' @ f)) = CHR ''/'' # rev p"
    using assms(3) by (simp add: dropWhile_append)
  moreover have "dropWhile (\<lambda>c. c = CHR ''/'') (CHR ''/'' # rev p) = rev p"
    using assms(1,2) by (cases p rule: rev_cases) simp_all
  ultimately have "parent_path (p @ ''/'' @ f) = (if rev (rev p) = [] then ''/'' else rev (rev p))"
    unfolding parent_path_def Let_def by (simp only: list.distinct simp_thms)
  then show ?thesis using assms(1) by simp
qed

text \<open>
  In the layout of a build directory, and next to an installed executable, the directory is
  found; one set at build time comes first if it exists.
\<close>

theorem dashboard_found:
  assumes "repo \<noteq> []" "last repo \<noteq> CHR ''/''"
    "\<forall>f \<in> {builddir, grp, sub, exe}. f \<noteq> [] \<and> CHR ''/'' \<notin> set f"
    and "path = repo @ ''/'' @ builddir @ ''/'' @ grp @ ''/'' @ sub @ ''/'' @ exe"
  shows "is_directory (repo @ ''/dashboard'') \<Longrightarrow> resolve_dashboard_dir None is_directory path = repo @ ''/dashboard''"
    "is_directory (repo @ ''/'' @ builddir @ ''/'' @ grp @ ''/'' @ sub @ ''/dashboard'') \<Longrightarrow>
       \<not> is_directory (repo @ ''/dashboard'') \<Longrightarrow>
       resolve_dashboard_dir None is_directory path = repo @ ''/'' @ builddir @ ''/'' @ grp @ ''/'' @ sub @ ''/dashboard''"
    "is_directory p \<Longrightarrow> resolve_dashboard_dir (Some p) is_directory path = p"
proof -
  have noslash: "last f \<noteq> CHR ''/''" "f \<noteq> []" if "f \<in> {builddir, grp, sub, exe}" for f
    using assms(3) that last_in_set [of f] by metis+
  let ?a = "repo @ ''/'' @ builddir" let ?b = "?a @ ''/'' @ grp" let ?c = "?b @ ''/'' @ sub"
  have ends: "last ?a \<noteq> CHR ''/''" "last ?b \<noteq> CHR ''/''" "last ?c \<noteq> CHR ''/''"
    using noslash by simp_all
  have pp: "parent_path path = ?c" "parent_path ?c = ?b" "parent_path ?b = ?a" "parent_path ?a = repo"
    using parent_path_child [of ?c exe] parent_path_child [of ?b sub] parent_path_child [of ?a grp]
      parent_path_child [of repo builddir] assms ends by simp_all
  have four: "(parent_path ^^ 4) path = repo" by (simp add: eval_nat_numeral pp del: append.simps append_assoc)
  have app: "path_append repo ''dashboard'' = repo @ ''/dashboard''" "path_append ?c ''dashboard'' = ?c @ ''/dashboard''"
    using assms(1,2) ends(3) by (simp_all add: path_append_def)
  have "path \<noteq> []" using assms(1,4) by simp
  then show "is_directory (repo @ ''/dashboard'') \<Longrightarrow> resolve_dashboard_dir None is_directory path = repo @ ''/dashboard''"
    "is_directory (repo @ ''/'' @ builddir @ ''/'' @ grp @ ''/'' @ sub @ ''/dashboard'') \<Longrightarrow>
       \<not> is_directory (repo @ ''/dashboard'') \<Longrightarrow>
       resolve_dashboard_dir None is_directory path = repo @ ''/'' @ builddir @ ''/'' @ grp @ ''/'' @ sub @ ''/dashboard''"
    "is_directory p \<Longrightarrow> resolve_dashboard_dir (Some p) is_directory path = p"
    using app four pp(1) by (simp_all add: resolve_dashboard_dir_def Let_def)
qed

end
