(* ===== verification/Spec2Isabelle.thy ===== *)
theory Spec2Isabelle
  imports Prelude Wire TaskMsg TaskQueue Completion ZtErrno ZtNode SocketAdapter ZtSocket IoContext DispSession DispInv SessionMgr Teardown Skills WorkerRuntime
    Rendezvous WorkerSess DispServer Monitoring DispApp Generators Shared WorkerUi RvService
    NodeData NodeSvc NodeRelay NodeCore NodeRun Doubles NumSkills CliOptions CoroTask ProcUsage Reports
begin

text \<open>
  Task Messenger: a dispatcher hands tasks to remote workers over TCP-like streams and
  returns the responses to the coroutines that submitted them. This development models the
  C++ code under src/ and proves what its parts promise each other.

  \<^bold>\<open>The program.\<close> A generator program (generators/) starts a \<open>DispatcherApp\<close> (dispatcher/),
  whose \<open>AsyncTransportServer\<close> accepts worker connections and creates a \<open>Session\<close> coroutine
  for each. Generators submit tasks by awaiting \<open>TaskSubmitAwaitable\<close>: the task goes into the
  \<open>TaskMessageQueue\<close>, a waiting session takes it, sends header and payload over its
  \<open>CoroSocketAdapter\<close>, reads the response, and completes the task's \<open>TaskCompletionSource\<close>,
  whose coroutine the \<open>ResponseContext\<close> executor resumes. A worker (worker/) runs a
  \<open>WorkerSession\<close> that connects to the dispatcher, either directly or at an endpoint found
  through the rendezvous service, and serves requests with a \<open>BlockingRuntime\<close> or an
  \<open>AsyncRuntime\<close>, which dispatch to the skills of a \<open>SkillRegistry\<close>. Sockets are ZeroTier
  sockets (transport/), on a node whose service, a modified copy of libzt's, is part of the
  repository (subprojects/libzt-wrapper/).

  \<^bold>\<open>Theories and what they show.\<close>
  \<^item> \<open>Prelude\<close>: machine words, error codes and exceptions, little-endian layout of words.
  \<^item> \<open>Wire\<close> (message/TaskMessage.hpp, WorkerGreeting.hpp): the packed structs \<open>TaskHeader\<close> and
    \<open>WorkerGreeting\<close>; the locale \<open>wire_codec\<close> is what every fixed size codec promises.
  \<^item> \<open>TaskMsg\<close> (message/TaskMessage.hpp, skills/registry/PayloadBuffer.hpp): payload buffers,
    task messages, their constructors and the framing of a message on the wire.
  \<^item> \<open>TaskQueue\<close> (message/TaskMessageQueue): every member function, and the interleavings of
    their critical sections as the step relation \<open>qstep\<close>: first-in first-out delivery, no lost
    wake-ups, nobody stranded by a shutdown. The locale \<open>queue_client\<close> is what the queue relies
    on in the coroutines it resumes.
  \<^item> \<open>Completion\<close> (message/TaskCompletionSource.hpp, ResponseContext.hpp,
    TaskSubmitAwaitable.hpp, GeneratorCoroutine.hpp): completion sources, submission, and the
    executor's threads as a step relation; stopping the executor drains it.
  \<^item> \<open>ZtNode\<close> (transport/socket/zerotier/ZeroTierNodeService): node start-up, reference counted
    network joins and the leases that own the references, over the libzt node calls (locale
    \<open>libzt_node\<close>): a leased network stays joined, acquiring ends.
  \<^item> \<open>ZtErrno\<close>, \<open>ZtSocket\<close> (transport/socket/zerotier/): the errno tables and the socket's
    connect, accept, read, write and close paths over the libzt calls, which are the record
    \<open>zts_api\<close> of parameters with the documented BSD behaviour as the locale \<open>bsd_api\<close>.
  \<^item> \<open>SocketAdapter\<close>, \<open>IoContext\<close> (transport/coro/): prepared operations and partial transfers
    (locale \<open>async_stream\<close>), the pending operations, statistics and work guards of the loop.
  \<^item> \<open>DispSession\<close>, \<open>DispInv\<close>, \<open>SessionMgr\<close> (dispatcher/session/): the session coroutine as a
    state machine, the session manager, and the dispatcher's transition system \<open>dstep\<close>:
    conservation of tasks, responses that answer their task, counters, live waiters.
  \<^item> \<open>Teardown\<close>: a session terminated while it waits for a task stays for ever.
  \<^item> \<open>DispServer\<close> (dispatcher/transport/): accept loop, maintenance, start and stop; the
    running server refines \<open>dstep\<close>.
  \<^item> \<open>Skills\<close> (skills/registry/, skills/builtins/): names, registry, exact comparisons, the
    \<open>Skill\<close> template; the locale \<open>skill_contract\<close> is what a derived skill promises.
  \<^item> \<open>WorkerRuntime\<close> (worker/runtime/, worker/processor/): both runtimes over a record of stream
    functions; the locales \<open>worker_stream\<close> and \<open>runtime_round\<close> carry the proofs for both.
  \<^item> \<open>Rendezvous\<close> (rendezvous/, services/rendezvous/): frames, client, message handlers, snapshot
    frames; the JSON library is the record \<open>Json\<close> with the locale \<open>json_lib\<close>.
  \<^item> \<open>WorkerSess\<close> (worker/session/): the control loop and the user's requests as a labelled step
    relation \<open>ctl_step\<close>.
  \<^item> \<open>Monitoring\<close> (dispatcher/monitoring/), \<open>DispApp\<close> (dispatcher/DispatcherApp.cpp),
    \<open>Generators\<close> (generators/): snapshots and their relay, start-up, registration and shutdown
    of the application, identifiers, test cases and batches.
  \<^item> \<open>RvService\<close> (services/rendezvous/): accept loops, the snapshot relay, start and stop; the
    composition of reporter, relay and HTTP handler (\<open>reported_snapshots_published\<close>).
  \<^item> \<open>WorkerUi\<close> (worker/ui/): buttons, the scrollable log and the refresher of the terminal
    interface, whose requests are labels of \<open>WorkerSess\<close>.
  \<^item> \<open>Shared\<close> (subprojects/shared/): the thread-safe queues, the blocking one under every
    interleaving, and the logger with its sinks.
  \<^item> \<open>NodeData\<close>, \<open>NodeSvc\<close>, \<open>NodeRelay\<close>, \<open>NodeCore\<close>, \<open>NodeRun\<close> (subprojects/libzt-wrapper/NodeService):
    settings, network table, state store and queries; the TCP relay; the callbacks of the
    ZeroTier core as data delivered to the service, with the invariant \<open>svc_inv\<close> over every
    history \<open>svc_step\<close>; ports and main loop. \<open>leases_keep_taps\<close> shows that the service keeps what
    \<open>ZtNode\<close> relies on: the locale \<open>zt_core\<close> implies \<open>libzt_node\<close>.
  \<^item> \<open>Doubles\<close>, \<open>NumSkills\<close> (skills/registry/CompareUtils, skills/builtins/): IEEE 754 doubles as
    signed rational magnitudes with an executable rounding function and its laws; comparisons
    with tolerances, the numeric skills.
  \<^item> \<open>CliOptions\<close> (subprojects/shared/options/, the option providers, the main programs,
    transport/socket/SocketFactory.cpp): where the value of an option comes from.
  \<^item> \<open>CoroTask\<close> (transport/coro/CoroTask.hpp): coroutine tasks as owners of frames in a store;
    \<open>tasks_own_their_frames\<close> holds for every history of their operations.
  \<^item> \<open>ProcUsage\<close> (subprojects/shared/processUtils), \<open>Reports\<close>: CPU and memory figures on each platform,
    byte counters, session and event loop reports, the loop of an event loop thread, the search
    for the dashboard; \<open>format_bytes_accurate\<close>, \<open>linux_percent_range\<close> and
    \<open>overall_success_rate_bounded\<close> say how far the figures can be trusted.
  \<^item> This theory: the round trip of a task through dispatcher and worker.

  \<^bold>\<open>How the code is modelled.\<close> A class is a record of its members, a member function a
  function on it; exceptions and error codes are values of sum types. Mutexes disappear where
  a function runs under one lock; where the interleaving matters (queue, executor,
  identifiers, worker session) the critical sections are the steps of an inductive relation.
  Coroutines are state machines over their suspension points. Pointers to shared objects are
  numbers; a \<open>unique_ptr\<close> is an option. Calls that may block for ever take fuel and return
  \<open>None\<close> when it is used up; \<open>blocking_worker_returns\<close> gives enough fuel in terms of the
  input, \<open>acquire_returns\<close> shows that 201 passes are enough for a lease, \<open>run_termination_reason\<close> that the
  node service's main loop returns after the first pass that stops it or throws, and the other
  theorems over fuel hold for every fuel with which the call returns.
  Loops whose bound is known are plain recursion with a termination proof. Clock readings and
  the answers of the network are arguments. Byte and task counters keep their width.

  \<^bold>\<open>Not modelled.\<close> Log output other than the statistics reports, and memory exhaustion;
  the formatting of floating point numbers other than byte counters. Third-party code: libzt and the ZeroTier core, the
  JSON and HTTP libraries, the command line parser, BLAS, FTXUI (they are parameters where the
  modelled code calls them). Code the build generates (the accessors of the skills). Drawing
  on the terminal. Platform branches for systems other
  than Linux, except in \<open>ProcUsage\<close>.
\<close>

subsection \<open>From the dispatcher to a worker and back\<close>

lemma completed_fields [simp]:
  fixes d :: "'a Dispatcher_scheme"
  shows "d_completed (session_got_task ev k s d) = d_completed d" "d_completed (session_resume ev h d) = d_completed d"
proof -
  show g: "d_completed (session_got_task ev k s d) = d_completed d" for k s and d :: "'a Dispatcher_scheme"
    by (simp add: session_got_task_def await_resume_eq)
  show "d_completed (session_resume ev h d) = d_completed d"
    by (simp add: session_resume_def g split: option.splits)
qed

lemma completed_loop [simp]: "d_completed (session_loop ev k s d) = d_completed d"
proof -
  define q where "q = (update_state (ev_wall ev) WAITING_FOR_TASK s)\<lparr>s_pc := PQueue\<rparr>"
  obtain rdy d' where r: "await_ready k (Some k) (put_s k q d) = (rdy, d')" by force
  have d': "d_completed d' = d_completed d"
    using r by (auto simp: await_ready_def try_get_task_immediately_def try_get_locked_def split: if_splits list.splits)
  have "d_completed (await_suspend (session_resume ev) k k (Some k) d') = d_completed d'"
    by (simp add: await_suspend_def await_suspend_locked_def resume_opt_def split: list.splits)
  then show ?thesis using r d'
    by (auto simp: session_loop_def q_def [symmetric] Let_def split: bool.splits)
qed

lemma completed_response:
  "skill_id rh = skill_id (tm_header m) \<Longrightarrow>
     d_completed (session_response ev sid s m rh body d) = d_completed d @ [(m, rh, body)]"
  by (simp add: session_response_def Let_def)

text \<open>The session reads a response in one or two deliveries, the header and the body.\<close>

definition deliver_response :: "event \<Rightarrow> nat \<Rightarrow> bytes \<Rightarrow> Dispatcher \<Rightarrow> Dispatcher" where
  "deliver_response ev sid out d =
     (let d1 = session_io ev (IoOk (take kHeaderSize out)) sid d in
      if length out = kHeaderSize then d1 else session_io ev (IoOk (drop kHeaderSize out)) sid d1)"

lemma deliver_completes:
  assumes s: "get_s sid d = Some s" "s_pc s = PReadHeader" "s_task s = Some m" and ev: "ev_alloc ev"
    and rh: "task_id rh = task_id (tm_header m)" "skill_id rh = skill_id (tm_header m)" "unat (body_size rh) = length body"
  shows "d_completed (deliver_response ev sid (header_to_bytes rh @ body) d) = d_completed d @ [(m, rh, body)]"
proof -
  let ?run = "s\<lparr>s_pc := PRunning, s_task := None\<rparr>"
  let ?s1 = "add_bytes_received kHeaderSize ?run"
  have t: "take kHeaderSize (header_to_bytes rh @ body) = header_to_bytes rh" "drop kHeaderSize (header_to_bytes rh @ body) = body"
    by simp_all
  show ?thesis
  proof (cases "body = []")
    case True
    then have "body_size rh = 0" using rh(3) by (simp add: unat_eq_0)
    then have "session_io ev (IoOk (header_to_bytes rh)) sid d = session_response ev sid ?s1 m rh [] d"
      using s rh by (simp add: session_io_def session_header_def Let_def)
    then show ?thesis using True rh(2) by (simp add: deliver_response_def completed_response)
  next
    case False
    then have "body_size rh > 0" using rh(3) by (auto simp: word_gt_0)
    then have d1: "session_io ev (IoOk (header_to_bytes rh)) sid d =
        put_s sid (?s1\<lparr>s_pc := PReadBody, s_task := Some m, s_response := rh\<rparr>) d"
      using s ev rh by (simp add: session_io_def session_header_def Let_def)
    have "session_io ev (IoOk body) sid (put_s sid (?s1\<lparr>s_pc := PReadBody, s_task := Some m, s_response := rh\<rparr>) d)
        = session_response ev sid (add_bytes_received (length body)
            ((?s1\<lparr>s_pc := PReadBody, s_task := Some m, s_response := rh\<rparr>)\<lparr>s_pc := PRunning, s_task := None\<rparr>)) m rh body
            (put_s sid (?s1\<lparr>s_pc := PReadBody, s_task := Some m, s_response := rh\<rparr>) d)"
      using rh(3) by (simp add: session_io_def Let_def)
    then show ?thesis using False t rh(2) d1
      by (simp add: deliver_response_def completed_response Let_def)
  qed
qed

text \<open>A worker that has consumed the bytes of one message has consumed that message.\<close>

lemma single_frame:
  assumes "answered reg fs outs" "frames fs = header_to_bytes h @ b" "unat (body_size h) = length b"
  shows "fs = [(h, b)] \<and> (\<exists>out. outs = [out] \<and> answer reg h b = Some out)"
proof -
  obtain h' b' fs' where f: "fs = (h', b') # fs'"
    using assms(2) by (cases fs) (auto simp: frames_def kHeaderSize_def dest: arg_cong [of _ _ length])
  obtain out outs' where o: "outs = out # outs'" "length b' = unat (body_size h')" "answer reg h' b' = Some out" "answered reg fs' outs'"
    using assms(1) f by (auto simp: answered_def list_all2_Cons1)
  have "header_to_bytes h' @ b' @ frames fs' = header_to_bytes h @ b" using assms(2) f by (simp add: frames_def)
  then have e: "h' = h" "b' @ frames fs' = b" by (simp_all add: hdr.framing)
  then have "length (frames fs') = 0" using o(2) assms(3) by (auto dest: arg_cong [of _ _ length])
  then have "fs' = []" by (cases fs') (auto simp: frames_def kHeaderSize_def simp flip: length_0_conv)
  then show ?thesis using e f o by (auto simp: answered_def frames_def)
qed

lemma honest_answer:
  assumes "skill_contract k" "get_payload_factory (kSkillId k) reg = Some (Skill k)" "skill_id h = kSkillId k"
    "answer reg h b = Some out"
  shows "\<exists>body. out = header_to_bytes \<lparr>task_id = task_id h, body_size = word_of_nat (length body), skill_id = kSkillId k\<rparr> @ body
    \<and> length body \<le> uint32_max \<and> passed (verify_response (kSkillId k) b body reg)"
proof -
  obtain buf body where a: "create_response_for_request k b = Some buf" "skill_process k b (pb_data buf) = (True, body)"
      "response_frame (task_id h) (buf\<lparr>pb_data := body\<rparr>) = Some out"
    using assms(2-4)
    by (auto simp: answer_def create_response_buffer_def dispatch_def get_payload_factory_def Skill_def
        split: option.splits prod.splits bool.splits)
  have i: "pb_skill_id buf = kSkillId k" by (rule skill_contract.response_id [OF assms(1) a(1)])
  have v: "passed (verify_response (kSkillId k) b body reg)"
    using skill_contract.honest_response_passes [OF assms(1) a(1,2)] assms(2) by (simp add: verify_response_def Skill_def)
  show ?thesis using a(3) i v by (auto simp: response_frame_def split: if_splits)
qed

text \<open>
  C2. A task makes the round trip. Let a session of the dispatcher have sent a task to a
  worker, and let the worker's blocking runtime have consumed exactly the bytes of that task
  and then been paused. Then what the worker has sent is one response; delivering it to the
  session, in whatever state the rest of the dispatcher is, completes exactly this task with
  the body the worker computed; and the verification of that body against the request
  passes, provided the skill keeps its contract.
\<close>

theorem task_round_trip:
  assumes "get_s sid d = Some s" "s_pc s = PReadHeader" "s_task s = Some m" "well_framed m" "ev_alloc ev"
    and "worker_stream io rx tx" "env_ok rx tx env" "rt_socket rt = Some w"
    "rx w = fst (wire_bytes m) @ snd (wire_bytes m)"
    "blocking_run_loop io reg now env fuel rt = Some (Inr True, rt')" "rt_socket rt' = Some w'" "rx w' = []"
    and "skill_contract k" "get_payload_factory (kSkillId k) reg = Some (Skill k)" "skill_id (tm_header m) = kSkillId k"
  shows "\<exists>rh body. tx w' = tx w @ header_to_bytes rh @ body
    \<and> d_completed (deliver_response ev sid (drop (length (tx w)) (tx w')) d) = d_completed d @ [(m, rh, body)]
    \<and> passed (verify_response (kSkillId k) (payload m) body reg)"
proof -
  have "runtime_round (blocking_round io reg now) rx tx reg"
    using assms(6) by (rule worker_stream.blocking_contract)
  from runtime_round.run_loop_serves [OF this assms(7) _ assms(8)] assms(10)
  have "loop_done reg rx tx w rt (Inr True) rt'" by (simp add: blocking_run_loop_def)
  then obtain fs outs where l: "answered reg fs outs" "rx w = frames fs" "tx w' = tx w @ concat outs"
    using assms(11,12) by (auto simp: loop_done_def)
  have "frames fs = header_to_bytes (tm_header m) @ payload m" using l(2) assms(9) by (simp add: wire_bytes_eq)
  from single_frame [OF l(1) this] assms(4) obtain out where
    o: "outs = [out]" "answer reg (tm_header m) (payload m) = Some out" by (auto simp: well_framed_def)
  obtain body where b: "out = header_to_bytes \<lparr>task_id = task_id (tm_header m), body_size = word_of_nat (length body),
      skill_id = kSkillId k\<rparr> @ body" "length body \<le> uint32_max" "passed (verify_response (kSkillId k) (payload m) body reg)"
    using honest_answer [OF assms(13-15) o(2)] by blast
  let ?rh = "\<lparr>task_id = task_id (tm_header m), body_size = word_of_nat (length body), skill_id = kSkillId k\<rparr>"
  have "unat (body_size ?rh) = length body" using b(2) by (simp add: uint32_max_def unat_u32)
  then have "d_completed (deliver_response ev sid (header_to_bytes ?rh @ body) d) = d_completed d @ [(m, ?rh, body)]"
    using assms(15) by (intro deliver_completes [OF assms(1-3,5)]) simp_all
  then show ?thesis using b l(3) o(1) by (intro exI [of _ ?rh] exI [of _ body]) simp
qed

text \<open>The string reversal skill on a worker over an in-memory stream.\<close>

definition reversal_task :: TaskMessage where
  "reversal_task = \<lparr>tm_header = \<lparr>task_id = 7, body_size = 2, skill_id = kSkillId StringReversalSkill\<rparr>,
     tm_payload_buffer = Some (RawPayload [72, 105] (kSkillId StringReversalSkill)), tm_response_buffer = None,
     tm_completion_source = None, tm_created_time = 0\<rparr>"

definition reversal_in_flight :: Dispatcher where
  "reversal_in_flight = session_io demo_ev (IoOk []) 1
     (session_io demo_ev (IoOk []) 1 (submit_task demo_ev reversal_task demo_waiting))"

theorem task_round_trip_witness:
  "\<exists>rh body. d_completed (deliver_response demo_ev 1 WorkerRuntime.demo_reply reversal_in_flight) = [(reversal_task, rh, body)]
    \<and> passed (verify_response (kSkillId StringReversalSkill) [72, 105] body demo_registry)"
proof -
  have f: "map_option s_pc (get_s 1 reversal_in_flight) = Some PReadHeader"
    "map_option s_task (get_s 1 reversal_in_flight) = Some (Some reversal_task)"
    "d_completed reversal_in_flight = []"
    by code_simp+
  obtain s where s: "get_s 1 reversal_in_flight = Some s" "s_pc s = PReadHeader" "s_task s = Some reversal_task"
    using f(1,2) by (cases "get_s 1 reversal_in_flight") auto
  obtain rt' where r: "blocking_run_loop mem_io demo_registry 0 pause_after_one (Suc (Suc 0)) (demo_rt (demo_request, []))
      = Some (Inr True, rt')" "rt_socket rt' = Some ([], WorkerRuntime.demo_reply)"
    using demo_blocking_run by blast
  have w: "well_framed reversal_task" "skill_id (tm_header reversal_task) = kSkillId StringReversalSkill"
    "fst (demo_request, []) = fst (wire_bytes reversal_task) @ snd (wire_bytes reversal_task)"
    "payload reversal_task = [72, 105]"
    by (simp_all add: well_framed_def reversal_task_def payload_def RawPayload_def wire_bytes_eq demo_request_def)
  from task_round_trip [OF s w(1) _ mem.worker_stream_axioms pause_after_one_ok _ w(3) r(1,2) _
      reversal.skill_contract_axioms demo_factory w(2), of demo_ev] f(3) w(4)
  show ?thesis by (simp add: demo_ev_def demo_rt_def) blast
qed

end
